(* ===== verification/Prelude.thy ===== *)
theory Prelude
  imports Main "HOL-Library.Multiset"
begin

text \<open>
  Shared vocabulary of the development: the result type that carries Go errors and panics,
  the loops over slices that stop at the first error, the arithmetic of the 256-bit unsigned
  integers in which all amounts are kept, ASCII string helpers of the Go library, and the
  generic lemmas the component theories rewrite with.

  A Go function that returns an error, or that can panic, becomes a HOL function into
  \<open>'a res\<close>: \<open>Inl (Err msg)\<close> is a returned error, \<open>Inl (Panic msg)\<close> a panic that unwinds
  to the caller, \<open>Inr x\<close> a normal return.
\<close>

named_theorems res_simps
  \<open>equations that invert a successful run: what each step of a successful result was\<close>
named_theorems uint_simps
  \<open>when an operation on unsigned integers returns, and with what value\<close>

section \<open>Results: Go errors and panics as values\<close>

datatype go_error = Err string | Panic string

type_synonym 'a res = "go_error + 'a"

definition res_bind :: "'a res \<Rightarrow> ('a \<Rightarrow> 'b res) \<Rightarrow> 'b res" where
  "res_bind m f = (case m of Inl e \<Rightarrow> Inl e | Inr x \<Rightarrow> f x)"

definition res_map :: "('a \<Rightarrow> 'b) \<Rightarrow> 'a res \<Rightarrow> 'b res" where
  "res_map f m = (case m of Inl e \<Rightarrow> Inl e | Inr x \<Rightarrow> Inr (f x))"

definition guard_err :: "bool \<Rightarrow> string \<Rightarrow> unit res" where
  "guard_err bad msg = (if bad then Inl (Err msg) else Inr ())"

fun res_fold :: "('a \<Rightarrow> 's \<Rightarrow> 's res) \<Rightarrow> 'a list \<Rightarrow> 's \<Rightarrow> 's res" where
  "res_fold f [] s = Inr s"
| "res_fold f (x # xs) s = res_bind (f x s) (res_fold f xs)"

definition is_ok :: "'a res \<Rightarrow> bool" where
  "is_ok m = (case m of Inl _ \<Rightarrow> False | Inr _ \<Rightarrow> True)"

lemma res_bind_simps [simp]:
  "res_bind (Inl e) f = Inl e"
  "res_bind (Inr x) f = f x"
  by (simp_all add: res_bind_def)

lemma res_map_simps [simp]:
  "res_map g (Inl e) = Inl e"
  "res_map g (Inr x) = Inr (g x)"
  by (simp_all add: res_map_def)

lemma is_ok_simps [simp]: "is_ok (Inr x)" "\<not> is_ok (Inl e)"
  by (simp_all add: is_ok_def)

lemma is_ok_conv: "is_ok m \<longleftrightarrow> (\<exists>x. m = Inr x)"
  by (cases m) auto

lemma res_bind_Inr [res_simps]:
  "res_bind m f = Inr y \<longleftrightarrow> (\<exists>x. m = Inr x \<and> f x = Inr y)"
  by (cases m) auto

lemma res_map_Inr [res_simps]:
  "res_map g m = Inr y \<longleftrightarrow> (\<exists>x. m = Inr x \<and> y = g x)"
  by (cases m) auto

lemma guard_err_Inr [res_simps]: "guard_err b msg = Inr u \<longleftrightarrow> \<not> b"
  by (simp add: guard_err_def)

lemma res_bind_assoc: "res_bind (res_bind m f) g = res_bind m (\<lambda>x. res_bind (f x) g)"
  by (cases m) auto

lemma res_fold_append:
  "res_fold f (xs @ ys) s = res_bind (res_fold f xs s) (res_fold f ys)"
  by (induction xs arbitrary: s) (auto simp: res_bind_def split: sum.splits)

text \<open>The loop rule: an invariant that each successful iteration keeps holds at the end.\<close>

lemma res_fold_invariant:
  assumes "res_fold f xs s = Inr t" and "P s"
    and "\<And>x u v. x \<in> set xs \<Longrightarrow> P u \<Longrightarrow> f x u = Inr v \<Longrightarrow> P v"
  shows "P t"
  using assms
proof (induction xs arbitrary: s)
  case (Cons x xs)
  from Cons.prems(1) obtain u where "f x s = Inr u" and "res_fold f xs u = Inr t"
    by (auto simp: res_simps)
  with Cons.prems Cons.IH [of u] show ?case by auto
qed simp

section \<open>Unsigned 256-bit integers\<close>

text \<open>
  \<open>cosmos.Uint\<close> is the program's integer type for amounts: values from 0 to \<open>2^256 - 1\<close>, exact
  arithmetic inside that range, a panic outside of it and on division by zero. A value is a
  \<open>nat\<close>; every operation whose result may leave the range is checked.
\<close>

type_synonym uint = nat

definition uint_lim :: nat where
  "uint_lim = 2 ^ 256"

definition uint_chk :: "nat \<Rightarrow> uint res" where
  "uint_chk n = (if n < uint_lim then Inr n else Inl (Panic ''Uint overflow''))"

definition uint_add :: "uint \<Rightarrow> uint \<Rightarrow> uint res" where
  "uint_add a b = uint_chk (a + b)"

definition uint_mul :: "uint \<Rightarrow> uint \<Rightarrow> uint res" where
  "uint_mul a b = uint_chk (a * b)"

definition uint_sub :: "uint \<Rightarrow> uint \<Rightarrow> uint res" where
  "uint_sub a b = (if b \<le> a then Inr (a - b) else Inl (Panic ''Uint underflow''))"

definition uint_quo :: "uint \<Rightarrow> uint \<Rightarrow> uint res" where
  "uint_quo a b = (if b = 0 then Inl (Panic ''division by zero'') else Inr (a div b))"

lemma uint_chk_Inr [uint_simps]: "uint_chk n = Inr m \<longleftrightarrow> m = n \<and> n < uint_lim"
  by (auto simp: uint_chk_def)

lemma uint_add_Inr [uint_simps]: "uint_add a b = Inr c \<longleftrightarrow> c = a + b \<and> a + b < uint_lim"
  by (auto simp: uint_add_def uint_simps)

lemma uint_mul_Inr [uint_simps]: "uint_mul a b = Inr c \<longleftrightarrow> c = a * b \<and> a * b < uint_lim"
  by (auto simp: uint_mul_def uint_simps)

lemma uint_sub_Inr [uint_simps]: "uint_sub a b = Inr c \<longleftrightarrow> c = a - b \<and> b \<le> a"
  by (auto simp: uint_sub_def)

lemma uint_quo_Inr [uint_simps]: "uint_quo a b = Inr c \<longleftrightarrow> c = a div b \<and> b \<noteq> 0"
  by (auto simp: uint_quo_def)

lemma uint_ops_in_range:
  "a + b < uint_lim \<Longrightarrow> uint_add a b = Inr (a + b)"
  "a * b < uint_lim \<Longrightarrow> uint_mul a b = Inr (a * b)"
  "b \<le> a \<Longrightarrow> uint_sub a b = Inr (a - b)"
  "b \<noteq> 0 \<Longrightarrow> uint_quo a b = Inr (a div b)"
  by (simp_all add: uint_simps)

lemmas uint_eval = uint_add_def uint_mul_def uint_sub_def uint_quo_def uint_chk_def uint_lim_def

section \<open>ASCII strings\<close>

definition char_upper :: "char \<Rightarrow> char" where
  "char_upper c = (let n = of_char c :: nat in
     if 97 \<le> n \<and> n \<le> 122 then char_of (n - 32) else c)"

definition char_lower :: "char \<Rightarrow> char" where
  "char_lower c = (let n = of_char c :: nat in
     if 65 \<le> n \<and> n \<le> 90 then char_of (n + 32) else c)"

definition to_upper :: "string \<Rightarrow> string" where
  "to_upper s = map char_upper s"

definition to_lower :: "string \<Rightarrow> string" where
  "to_lower s = map char_lower s"

text \<open>\<open>strings.EqualFold\<close> on ASCII text: equal after case folding.\<close>

definition equal_fold :: "string \<Rightarrow> string \<Rightarrow> bool" where
  "equal_fold s t = (to_upper s = to_upper t)"

definition char_in :: "char \<Rightarrow> nat \<Rightarrow> nat \<Rightarrow> bool" where
  "char_in c lo hi = (let n = of_char c :: nat in lo \<le> n \<and> n \<le> hi)"

definition is_space :: "char \<Rightarrow> bool" where
  "is_space c = (let n = of_char c :: nat in n = 32 \<or> (9 \<le> n \<and> n \<le> 13))"

text \<open>\<open>strings.TrimSpace(s) == ""\<close>: nothing but white space.\<close>

definition is_blank :: "string \<Rightarrow> bool" where
  "is_blank s = list_all is_space s"

text \<open>\<open>strings.SplitN(s, c, 2)\<close> for a one-character separator that may be absent.\<close>

fun split2 :: "char \<Rightarrow> string \<Rightarrow> string \<times> string option" where
  "split2 c [] = ([], None)"
| "split2 c (x # xs) =
     (if x = c then ([], Some xs) else (let (a, b) = split2 c xs in (x # a, b)))"

text \<open>\<open>strings.Split(s, c)\<close> for a one-character separator: always at least one part.\<close>

fun split_on :: "char \<Rightarrow> string \<Rightarrow> string list" where
  "split_on c [] = [[]]"
| "split_on c (x # xs) =
     (if x = c then [] # split_on c xs
      else (case split_on c xs of [] \<Rightarrow> [[x]] | p # ps \<Rightarrow> (x # p) # ps))"

definition has_prefix :: "string \<Rightarrow> string \<Rightarrow> bool" where
  "has_prefix s p = (take (length p) s = p)"

definition has_suffix :: "string \<Rightarrow> string \<Rightarrow> bool" where
  "has_suffix s p = has_prefix (rev s) (rev p)"

text \<open>Go's string order is byte order.\<close>

fun str_less :: "string \<Rightarrow> string \<Rightarrow> bool" where
  "str_less s [] = False"
| "str_less [] (y # ys) = True"
| "str_less (x # xs) (y # ys) =
     ((of_char x :: nat) < of_char y \<or> (x = y \<and> str_less xs ys))"

lemma of_char_upper:
  "(of_char (char_upper c) :: nat) =
     (if 97 \<le> (of_char c :: nat) \<and> of_char c \<le> (122 :: nat) then of_char c - 32 else of_char c)"
  by (auto simp: char_upper_def Let_def)

lemma of_char_inj: "(of_char c :: nat) = of_char d \<longleftrightarrow> c = d"
  by simp

text \<open>Upper-casing neither makes nor removes a character that is not a letter.\<close>

lemma char_upper_nonletter:
  assumes "(of_char d :: nat) < 65 \<or> 122 < (of_char d :: nat) \<or> (90 < (of_char d :: nat) \<and> of_char d < (97 :: nat))"
  shows "char_upper c = d \<longleftrightarrow> c = d"
  using assms of_char_upper [of c] of_char_inj [of "char_upper c" d] of_char_inj [of c d]
  by (auto split: if_splits)

lemma char_upper_idem [simp]: "char_upper (char_upper c) = char_upper c"
  by (auto simp: char_upper_def Let_def)

lemma to_upper_idem [simp]: "to_upper (to_upper s) = to_upper s"
  by (simp add: to_upper_def)

lemma to_upper_simps [simp]:
  "to_upper [] = []" "to_upper (c # s) = char_upper c # to_upper s"
  "to_upper (s @ t) = to_upper s @ to_upper t" "length (to_upper s) = length s"
  "to_upper s = [] \<longleftrightarrow> s = []"
  by (simp_all add: to_upper_def)

lemma equal_fold_refl [simp]: "equal_fold s s"
  by (simp add: equal_fold_def)

lemma equal_fold_sym: "equal_fold s t \<longleftrightarrow> equal_fold t s"
  by (auto simp: equal_fold_def)

lemma equal_fold_trans: "equal_fold s t \<Longrightarrow> equal_fold t u \<Longrightarrow> equal_fold s u"
  by (simp add: equal_fold_def)

lemma equal_fold_upper [simp]:
  "equal_fold (to_upper s) t = equal_fold s t" "equal_fold s (to_upper t) = equal_fold s t"
  by (simp_all add: equal_fold_def)

lemma split2_absent: "c \<notin> set s \<Longrightarrow> split2 c s = (s, None)"
  by (induction s) auto

lemma split2_append: "c \<notin> set s \<Longrightarrow> split2 c (s @ c # t) = (s, Some t)"
  by (induction s) auto

lemma split2_cases:
  "split2 c s = (a, b) \<Longrightarrow> c \<notin> set a \<and> (case b of None \<Rightarrow> s = a | Some t \<Rightarrow> s = a @ c # t)"
  by (induction s arbitrary: a b)
     (auto split: if_splits prod.splits option.splits)

lemma split_on_ne [simp]: "split_on c s \<noteq> []"
  by (induction s) (auto split: list.splits)

lemma hd_split_on: "hd (split_on c s) = fst (split2 c s)"
  by (induction s) (auto split: list.splits prod.splits)

section \<open>Slices\<close>

text \<open>First index that satisfies a test, as a \<open>for\<close> loop with a \<open>return\<close> or \<open>break\<close> finds it.\<close>

fun find_index :: "('a \<Rightarrow> bool) \<Rightarrow> 'a list \<Rightarrow> nat option" where
  "find_index p [] = None"
| "find_index p (x # xs) = (if p x then Some 0 else map_option Suc (find_index p xs))"

text \<open>The other loop of the sources: the index variable is overwritten, so the last match wins.\<close>

definition find_last_index :: "('a \<Rightarrow> bool) \<Rightarrow> 'a list \<Rightarrow> nat option" where
  "find_last_index p xs =
     map_option (\<lambda>i. length xs - 1 - i) (find_index p (rev xs))"

text \<open>\<open>append(s[:i], s[i+1:]...)\<close>\<close>

definition remove_at :: "nat \<Rightarrow> 'a list \<Rightarrow> 'a list" where
  "remove_at i xs = take i xs @ drop (Suc i) xs"

text \<open>Update the first element that satisfies a test (a loop that assigns and returns).\<close>

fun update_first :: "('a \<Rightarrow> bool) \<Rightarrow> ('a \<Rightarrow> 'a) \<Rightarrow> 'a list \<Rightarrow> 'a list" where
  "update_first p f [] = []"
| "update_first p f (x # xs) = (if p x then f x # xs else x # update_first p f xs)"

text \<open>Stable insertion sort by a strict order, as \<open>sort.SliceStable\<close> orders a slice.\<close>

fun insert_by :: "('a \<Rightarrow> 'a \<Rightarrow> bool) \<Rightarrow> 'a \<Rightarrow> 'a list \<Rightarrow> 'a list" where
  "insert_by lt x [] = [x]"
| "insert_by lt x (y # ys) = (if lt y x then y # insert_by lt x ys else x # y # ys)"

fun sort_by :: "('a \<Rightarrow> 'a \<Rightarrow> bool) \<Rightarrow> 'a list \<Rightarrow> 'a list" where
  "sort_by lt [] = []"
| "sort_by lt (x # xs) = insert_by lt x (sort_by lt xs)"

lemma find_SomeD: "find P xs = Some y \<Longrightarrow> y \<in> set xs \<and> P y"
  by (induction xs) (auto split: if_splits)

lemma find_index_Some:
  "find_index p xs = Some i \<Longrightarrow> i < length xs \<and> p (xs ! i) \<and> (\<forall>j < i. \<not> p (xs ! j))"
proof (induction xs arbitrary: i)
  case (Cons x xs)
  show ?case
  proof (cases "p x")
    case False
    with Cons.prems obtain j where "find_index p xs = Some j" and "i = Suc j" by auto
    with Cons.IH [of j] False show ?thesis by (auto simp: less_Suc_eq_0_disj)
  qed (use Cons.prems in auto)
qed simp

lemma find_index_None: "find_index p xs = None \<longleftrightarrow> (\<forall>x \<in> set xs. \<not> p x)"
  by (induction xs) auto

lemma length_update_first [simp]: "length (update_first p f xs) = length xs"
  by (induction xs) auto

lemma update_first_absent: "(\<forall>x \<in> set xs. \<not> p x) \<Longrightarrow> update_first p f xs = xs"
  by (induction xs) auto

lemma map_update_first:
  "(\<And>x. g (f x) = g x) \<Longrightarrow> map g (update_first p f xs) = map g xs"
  by (induction xs) auto

lemma mset_insert_by [simp]: "mset (insert_by lt x xs) = add_mset x (mset xs)"
  by (induction xs) auto

lemma mset_sort_by [simp]: "mset (sort_by lt xs) = mset xs"
  by (induction xs) auto

lemma set_sort_by [simp]: "set (sort_by lt xs) = set xs"
  by (metis mset_sort_by set_mset_mset)

lemma length_sort_by [simp]: "length (sort_by lt xs) = length xs"
  by (metis mset_sort_by size_mset)

lemma set_insert_by [simp]: "set (insert_by lt x xs) = insert x (set xs)"
  by (metis mset_insert_by set_mset_mset set_mset_add_mset_insert)

text \<open>
  Sorting by a strict weak order leaves no inversion: no later element is strictly before an
  earlier one.
\<close>

definition weak_order :: "('a \<Rightarrow> 'a \<Rightarrow> bool) \<Rightarrow> bool" where
  "weak_order lt \<longleftrightarrow> (\<forall>x. \<not> lt x x) \<and> (\<forall>x y. lt x y \<longrightarrow> \<not> lt y x)
     \<and> (\<forall>x y z. \<not> lt x y \<longrightarrow> \<not> lt y z \<longrightarrow> \<not> lt x z)"

lemma sorted_insert_by:
  assumes "weak_order lt" and "sorted_wrt (\<lambda>a b. \<not> lt b a) xs"
  shows "sorted_wrt (\<lambda>a b. \<not> lt b a) (insert_by lt x xs)"
  using assms(2)
proof (induction xs)
  case (Cons y ys)
  have asym: "lt a b \<Longrightarrow> \<not> lt b a" and neg: "\<not> lt a b \<Longrightarrow> \<not> lt b c \<Longrightarrow> \<not> lt a c" for a b c
    using assms(1) unfolding weak_order_def by blast+
  show ?case
  proof (cases "lt y x")
    case True
    with Cons asym show ?thesis by simp
  next
    case False
    with Cons.prems neg [where b = y and c = x] show ?thesis by auto
  qed
qed simp

lemma sorted_sort_by:
  assumes "weak_order lt"
  shows "sorted_wrt (\<lambda>a b. \<not> lt b a) (sort_by lt xs)"
  by (induction xs) (auto intro: sorted_insert_by [OF assms])

lemma weak_order_key: "weak_order (\<lambda>x y. (k x :: nat) < k y)" "weak_order (\<lambda>x y. (k x :: nat) > k y)"
  by (auto simp: weak_order_def)

end
