(* ===== verification/Numerics.thy ===== *)
theory Numerics
  imports Prelude "HOL-Library.Word"
begin

text \<open>
  Numeric helpers: \<^verbatim>\<open>src/common/math.go\<close>, the arithmetic functions of
  \<^verbatim>\<open>src/common/cosmos/cosmos.go\<close> and \<^verbatim>\<open>src/common/significant_figures.go\<close>. Go's \<open>int64\<close> is an
  \<open>int\<close> whose arithmetic is reduced by \<open>i64\<close> where it can leave the range, \<open>uint64\<close> is \<open>64 word\<close>;
  division truncates towards zero and panics on zero.
\<close>

section \<open>Go's fixed-width integers\<close>

definition i64 :: "int \<Rightarrow> int" where
  "i64 n = sint (word_of_int n :: 64 word)"

definition go_quot :: "int \<Rightarrow> int \<Rightarrow> int" where
  "go_quot a b = sgn a * sgn b * (\<bar>a\<bar> div \<bar>b\<bar>)"

definition go_rem :: "int \<Rightarrow> int \<Rightarrow> int" where
  "go_rem a b = a - b * go_quot a b"

lemma i64_id: "- (2 ^ 63) \<le> n \<Longrightarrow> n < 2 ^ 63 \<Longrightarrow> i64 n = n"
  unfolding i64_def by (simp add: sint_sbintrunc' signed_take_bit_int_eq_self)

lemma go_quot_nonneg: "0 \<le> a \<Longrightarrow> 0 < b \<Longrightarrow> go_quot a b = a div b"
  by (cases "a = 0") (auto simp: go_quot_def)

lemma go_rem_nonneg: "0 \<le> a \<Longrightarrow> 0 < b \<Longrightarrow> go_rem a b = a mod b"
  by (simp add: go_rem_def go_quot_nonneg minus_mult_div_eq_mod)

section \<open>common/math.go\<close>

definition Max_int :: "int \<Rightarrow> int \<Rightarrow> int" where
  "Max_int a b = (if a > b then a else b)"

definition Min_int :: "int \<Rightarrow> int \<Rightarrow> int" where
  "Min_int a b = (if a < b then a else b)"

definition Abs_int :: "int \<Rightarrow> int" where
  "Abs_int a = (if a < 0 then i64 (- a) else a)"

definition GetMedianUint :: "uint list \<Rightarrow> uint res" where
  "GetMedianUint vals =
     (if vals = [] then Inr 0
      else let v = sort_by (<) vals; n = length vals in
        if n mod 2 > 0 then Inr (v ! (n div 2))
        else res_bind (uint_add (v ! (n div 2 - 1)) (v ! (n div 2))) (\<lambda>s. uint_quo s 2))"

definition GetMedianInt64 :: "int list \<Rightarrow> int" where
  "GetMedianInt64 vals =
     (case vals of [] \<Rightarrow> 0 | [x] \<Rightarrow> x
      | _ \<Rightarrow> let v = sort_by (<) vals; n = length vals in
          if n mod 2 > 0 then v ! (n div 2)
          else go_quot (i64 (v ! (n div 2 - 1) + v ! (n div 2))) 2)"

text \<open>\<open>cosmos.Sum\<close> and the accumulation loop of \<open>WeightedMean\<close>.\<close>

definition Sum :: "uint list \<Rightarrow> uint res" where
  "Sum u = res_fold (\<lambda>i s. uint_add s i) u 0"

fun weighted_total :: "uint list \<Rightarrow> uint list \<Rightarrow> uint \<Rightarrow> uint res" where
  "weighted_total (v # vs) (w # ws) acc =
     res_bind (uint_mul v w) (\<lambda>p. res_bind (uint_add acc p) (weighted_total vs ws))"
| "weighted_total _ _ acc = Inr acc"

definition WeightedMean :: "uint list \<Rightarrow> uint list \<Rightarrow> uint res" where
  "WeightedMean vals weights =
     res_bind (Sum weights) (\<lambda>totalWeight.
       if totalWeight = 0 then Inl (Err ''total weight is zero'')
       else if length vals \<noteq> length weights
         then Inl (Panic ''number of values and weights do not match'')
       else res_bind (weighted_total vals weights 0) (\<lambda>wt. uint_quo wt totalWeight))"

section \<open>common/cosmos/cosmos.go\<close>

definition DefaultCoinDecimals :: int where
  "DefaultCoinDecimals = 8"

text \<open>\<open>big.Int.Exp\<close> with a nil modulus gives 1 for a non-positive exponent.\<close>

definition RoundToDecimal :: "uint \<Rightarrow> int \<Rightarrow> uint res" where
  "RoundToDecimal amt decimals =
     (if decimals \<noteq> 0 \<and> decimals < DefaultCoinDecimals then
        let prec = i64 (DefaultCoinDecimals - decimals) in
        if prec = 0 then Inr amt
        else res_bind (uint_chk (if prec \<le> 0 then 1 else 10 ^ nat prec)) (\<lambda>adj.
             res_bind (uint_quo amt adj) (\<lambda>q. uint_mul q adj))
      else Inr amt)"

definition SafeUintFromInt64 :: "int \<Rightarrow> uint" where
  "SafeUintFromInt64 i = (if i < 0 then 0 else nat i)"

definition MinUint :: "uint \<Rightarrow> uint \<Rightarrow> uint" where
  "MinUint u1 u2 = (if u1 < u2 then u1 else u2)"

section \<open>common/significant\_figures.go\<close>

function count_digits :: "64 word \<Rightarrow> nat" where
  "count_digits temp = (if temp \<noteq> 0 then Suc (count_digits (temp div 10)) else 0)"
  by pat_completeness auto
termination
  by (relation "measure unat") (auto simp: unat_div unat_gt_0)

fun pow10_loop :: "nat \<Rightarrow> 64 word \<Rightarrow> 64 word" where
  "pow10_loop 0 divisor = divisor"
| "pow10_loop (Suc i) divisor = pow10_loop i (divisor * 10)"

definition RoundSignificantFigures :: "64 word \<Rightarrow> int \<Rightarrow> 64 word res" where
  "RoundSignificantFigures number significantDigits =
     (if number = 0 then Inr 0
      else let magnitude = int (count_digits number) in
        if magnitude \<le> significantDigits then Inr number
        else let divisor = pow10_loop (nat (i64 (magnitude - significantDigits))) 1 in
          if divisor = 0 then Inl (Panic ''integer divide by zero'')
          else Inr (number div divisor * divisor))"

declare count_digits.simps [simp del]

section \<open>Lemmas\<close>

lemma Sum_Inr: "Sum u = Inr s \<Longrightarrow> s = sum_list u \<and> (u = [] \<or> s < uint_lim)"
proof -
  have *: "res_fold (\<lambda>i s. uint_add s i) u a = Inr s \<Longrightarrow> s = a + sum_list u \<and> (u = [] \<or> s < uint_lim)" for a
    by (induction u arbitrary: a) (fastforce simp: res_simps uint_simps)+
  show "Sum u = Inr s \<Longrightarrow> s = sum_list u \<and> (u = [] \<or> s < uint_lim)"
    unfolding Sum_def using * [of 0] by auto
qed

lemma weighted_total_Inr:
  "weighted_total vs ws a = Inr t \<Longrightarrow> t = a + sum_list (map2 (*) vs ws)"
  by (induction vs ws a rule: weighted_total.induct) (fastforce simp: res_simps uint_simps)+

lemma sum_map2_bounds:
  assumes "length vs = length ws" and "\<And>v. v \<in> set vs \<Longrightarrow> lo \<le> v \<and> v \<le> (hi :: nat)"
  shows "lo * sum_list ws \<le> sum_list (map2 (*) vs ws) \<and> sum_list (map2 (*) vs ws) \<le> hi * sum_list ws"
  using assms
proof (induction vs ws rule: list_induct2)
  case (Cons v vs w ws)
  then have "lo * w \<le> v * w" "v * w \<le> hi * w" by (auto intro!: mult_right_mono)
  moreover have "lo * sum_list ws \<le> sum_list (map2 (*) vs ws)"
    "sum_list (map2 (*) vs ws) \<le> hi * sum_list ws" using Cons by auto
  ultimately show ?case by (auto simp: distrib_left intro: add_mono)
qed simp

lemma WeightedMean_between:
  assumes "WeightedMean vals weights = Inr m" and "\<And>v. v \<in> set vals \<Longrightarrow> lo \<le> v \<and> v \<le> hi"
  shows "lo \<le> m \<and> m \<le> hi"
proof -
  let ?W = "sum_list weights" and ?T = "sum_list (map2 (*) vals weights)"
  from assms(1) have W: "0 < ?W" and len: "length vals = length weights" and m: "m = ?T div ?W"
    by (auto simp: WeightedMean_def res_simps uint_simps split: if_splits
        dest!: Sum_Inr weighted_total_Inr)
  from sum_map2_bounds [OF len assms(2)]
  have "lo * ?W \<le> ?T" "?T \<le> hi * ?W" by auto
  from div_le_mono [OF this(1), of ?W] div_le_mono [OF this(2), of ?W] W
  show ?thesis by (simp add: m del: sum_list_eq_0_iff)
qed

lemma sort_by_less: "sort_by (<) xs = sort (xs :: 'a :: linorder list)"
proof (rule properties_for_sort [symmetric])
  have "weak_order ((<) :: 'a \<Rightarrow> 'a \<Rightarrow> bool)" by (auto simp: weak_order_def)
  from sorted_sort_by [OF this, of xs] show "sorted (sort_by (<) xs)"
    by (simp add: not_less)
qed simp

text \<open>A value that bounds the first (last) half of the sorted list bounds half of the list.\<close>

lemma half_below:
  assumes "k \<le> length xs" and "\<And>i. i < k \<Longrightarrow> sort xs ! i \<le> (m :: nat)"
  shows "k \<le> length (filter (\<lambda>x. x \<le> m) xs)"
proof -
  have "filter (\<lambda>x. x \<le> m) (take k (sort xs)) = take k (sort xs)"
    using assms by (auto simp: filter_id_conv in_set_conv_nth)
  then have "k \<le> length (filter (\<lambda>x. x \<le> m) (take k (sort xs) @ drop k (sort xs)))"
    unfolding filter_append using assms(1) by simp
  then have "k \<le> size (filter_mset (\<lambda>x. x \<le> m) (mset (sort xs)))"
    by (simp del: mset_sort flip: mset_filter)
  then show ?thesis by (simp flip: mset_filter)
qed

lemma half_above:
  assumes "k \<le> length xs" and "\<And>i. k \<le> i \<Longrightarrow> i < length xs \<Longrightarrow> (m :: nat) \<le> sort xs ! i"
  shows "length xs - k \<le> length (filter (\<lambda>x. m \<le> x) xs)"
proof -
  have "filter (\<lambda>x. m \<le> x) (drop k (sort xs)) = drop k (sort xs)"
    using assms by (auto simp: filter_id_conv in_set_conv_nth)
  then have "length xs - k \<le> length (filter (\<lambda>x. m \<le> x) (take k (sort xs) @ drop k (sort xs)))"
    unfolding filter_append by simp
  then have "length xs - k \<le> size (filter_mset (\<lambda>x. m \<le> x) (mset (sort xs)))"
    by (simp del: mset_sort flip: mset_filter)
  then show ?thesis by (simp flip: mset_filter)
qed

lemma median_halves:
  assumes "GetMedianUint vals = Inr m" and "vals \<noteq> []"
  shows "length vals \<le> 2 * length (filter (\<lambda>x. x \<le> m) vals)
       \<and> length vals \<le> 2 * length (filter (\<lambda>x. m \<le> x) vals)"
proof -
  let ?v = "sort vals" and ?n = "length vals"
  have mono: "i \<le> j \<Longrightarrow> j < ?n \<Longrightarrow> ?v ! i \<le> ?v ! j" for i j
    by (simp add: sorted_nth_mono)
  show ?thesis
  proof (cases "odd ?n")
    case True
    with assms have m: "m = ?v ! (?n div 2)" and lt: "?n div 2 < ?n"
      by (auto simp: GetMedianUint_def Let_def sort_by_less odd_iff_mod_2_eq_one)
    have "Suc (?n div 2) \<le> length (filter (\<lambda>x. x \<le> m) vals)"
      by (rule half_below) (use lt m mono in auto)
    moreover have "?n - ?n div 2 \<le> length (filter (\<lambda>x. m \<le> x) vals)"
      by (rule half_above) (use lt m mono in auto)
    ultimately show ?thesis by linarith
  next
    case False
    let ?a = "?v ! (?n div 2 - 1)" and ?b = "?v ! (?n div 2)"
    from False assms have m: "m = (?a + ?b) div 2"
      by (auto simp: GetMedianUint_def Let_def sort_by_less res_simps uint_simps)
    have "?n \<noteq> 0" using assms(2) by simp
    with False have h: "0 < ?n div 2" "?n div 2 < ?n" "2 * (?n div 2) = ?n" by presburger+
    have ab: "?a \<le> ?b" using mono [of "?n div 2 - 1" "?n div 2"] h by simp
    have ma: "?a \<le> m" "m \<le> ?b" using ab m by linarith+
    have "?v ! i \<le> m" if "i < ?n div 2" for i
      using mono [of i "?n div 2 - 1"] that h ma by (intro order_trans [OF _ ma(1)]) auto
    then have "?n div 2 \<le> length (filter (\<lambda>x. x \<le> m) vals)"
      using half_below [of "?n div 2" vals m] by simp
    moreover have "m \<le> ?v ! i" if "?n div 2 \<le> i" "i < ?n" for i
      using mono [of "?n div 2" i] that ma by (intro order_trans [OF ma(2)]) auto
    then have "?n - ?n div 2 \<le> length (filter (\<lambda>x. m \<le> x) vals)"
      using half_above [of "?n div 2" vals m] by simp
    ultimately show ?thesis using h by linarith
  qed
qed

section \<open>Rounding to significant figures\<close>

lemma count_digits_bounds:
  assumes "n \<noteq> 0"
  shows "10 ^ (count_digits n - 1) \<le> unat n \<and> unat n < 10 ^ count_digits n \<and> 0 < count_digits n"
  using assms
proof (induction n rule: count_digits.induct)
  case (1 n)
  have step: "count_digits n = Suc (count_digits (n div 10))"
    using "1.prems" by (subst count_digits.simps) simp
  have q: "unat (n div 10) = unat n div 10" by (simp add: unat_div)
  show ?case
  proof (cases "n div 10 = 0")
    case True
    then have "unat n div 10 = 0" using q by simp
    moreover have "count_digits n = 1" using step True by (subst (asm) count_digits.simps) simp
    moreover have "0 < unat n" using "1.prems" by (simp add: unat_gt_0)
    ultimately show ?thesis by simp
  next
    case False
    let ?d = "count_digits (n div 10)"
    have IH: "10 ^ (?d - 1) \<le> unat n div 10" "unat n div 10 < 10 ^ ?d" "0 < ?d"
      using "1.IH" "1.prems" False q by auto
    have "10 * 10 ^ (?d - 1) \<le> unat n" using IH(1) by linarith
    moreover have "unat n < 10 * 10 ^ ?d" using IH(2) by linarith
    ultimately show ?thesis using step IH(3) by (simp flip: power_Suc)
  qed
qed

lemma pow10_loop_eq: "pow10_loop k d = d * 10 ^ k"
  by (induction k arbitrary: d) (auto simp: ac_simps)

lemma unat_pow10: "10 ^ k < (2 :: nat) ^ 64 \<Longrightarrow> unat ((10 :: 64 word) ^ k) = 10 ^ k"
proof (induction k)
  case (Suc k)
  then have "(10 :: nat) ^ k < 2 ^ 64" by simp
  with Suc have "unat ((10 :: 64 word) ^ k) = 10 ^ k" by blast
  then have "unat (10 * (10 :: 64 word) ^ k) = 10 * 10 ^ k"
    using Suc.prems by (simp add: unat_word_ariths)
  then show ?case by simp
qed simp

lemma round_significant_exact:
  assumes "n \<noteq> 0" and "1 \<le> s" and "s < int (count_digits n)"
  shows "\<exists>r. RoundSignificantFigures n s = Inr r
     \<and> unat r = unat n div 10 ^ (count_digits n - nat s) * 10 ^ (count_digits n - nat s)"
proof -
  let ?k = "count_digits n - nat s"
  have b: "10 ^ (count_digits n - 1) \<le> unat n" "unat n < 2 ^ 64"
    using count_digits_bounds [OF assms(1)] unsigned_less [of n, where ?'a = nat] by auto
  have "(10 :: nat) ^ ?k \<le> 10 ^ (count_digits n - 1)"
    using assms by (intro power_increasing) auto
  then have lt: "(10 :: nat) ^ ?k \<le> unat n" "(10 :: nat) ^ ?k < 2 ^ 64" using b by linarith+
  have small: "int (count_digits n) < 2 ^ 63"
  proof (rule ccontr)
    assume "\<not> ?thesis"
    then have "64 \<le> count_digits n - 1" by simp
    from power_increasing [OF this, of "10 :: nat"]
    have "(10 :: nat) ^ 64 \<le> 10 ^ (count_digits n - 1)" by simp
    moreover have "(2 :: nat) ^ 64 \<le> 10 ^ 64" by (rule power_mono) auto
    ultimately show False using b by linarith
  qed
  have "nat (i64 (int (count_digits n) - s)) = ?k"
    using assms small i64_id [of "int (count_digits n) - s"] by (simp add: nat_diff_distrib)
  then have d: "pow10_loop (nat (i64 (int (count_digits n) - s))) 1 = (10 :: 64 word) ^ ?k"
    by (simp add: pow10_loop_eq)
  have u: "unat ((10 :: 64 word) ^ ?k) = 10 ^ ?k" by (rule unat_pow10 [OF lt(2)])
  then have "(10 :: 64 word) ^ ?k \<noteq> 0" by (metis power_not_zero unat_0 zero_neq_numeral)
  moreover have "unat n div 10 ^ ?k * 10 ^ ?k < 2 ^ 64"
    using b(2) by (meson div_times_less_eq_dividend le_less_trans)
  then have "unat (n div 10 ^ ?k * 10 ^ ?k) = unat n div 10 ^ ?k * 10 ^ ?k"
    using u by (simp add: unat_word_ariths unat_div mod_simps)
  ultimately show ?thesis
    using assms d by (auto simp: RoundSignificantFigures_def Let_def)
qed

section \<open>Properties\<close>

text \<open>A weighted mean lies between any bounds of its values.\<close>

theorem weighted_mean_bounded:
  assumes "WeightedMean vals weights = Inr m" and "\<forall>v \<in> set vals. lo \<le> v \<and> v \<le> hi"
  shows "lo \<le> m \<and> m \<le> hi"
  using WeightedMean_between [OF assms(1)] assms(2) by blast

theorem weighted_mean_bounded_witness:
  "WeightedMean [10, 20] [1, 3] = Inr 17 \<and> (10 :: nat) \<le> 17 \<and> (17 :: nat) \<le> 20"
proof -
  have "WeightedMean [10, 20] [1, 3] = Inr 17"
    by (simp add: WeightedMean_def Sum_def uint_eval)
  with weighted_mean_bounded [OF this, of 10 20] show ?thesis by simp
qed

text \<open>At least half of the values are at most the median, and at least half are at least the
  median; the median fails only when the sum of the two middle values leaves 256 bits.\<close>

theorem median_splits_values:
  assumes "GetMedianUint vals = Inr m" and "vals \<noteq> []"
  shows "length vals \<le> 2 * length (filter (\<lambda>x. x \<le> m) vals)
    \<and> length vals \<le> 2 * length (filter (\<lambda>x. m \<le> x) vals)"
  by (rule median_halves [OF assms])

theorem median_splits_values_witness:
  "GetMedianUint [7, 1, 4] = Inr 4 \<and> length [7, 1, 4 :: nat] \<le> 2 * length (filter (\<lambda>x. x \<le> 4) [7, 1, 4 :: nat])"
proof -
  have "GetMedianUint [7, 1, 4] = Inr 4" by (simp add: GetMedianUint_def Let_def)
  with median_splits_values [OF this] show ?thesis by simp
qed

text \<open>Rounding a 64-bit number to \<open>s\<close> significant figures, fewer than it has, keeps exactly its first
  \<open>s\<close> digits: the power of ten never overflows and the result is the number with its other digits
  zero.\<close>

theorem significant_figures_kept:
  assumes "n \<noteq> 0" and "1 \<le> s" and "s < int (count_digits n)"
  shows "\<exists>r. RoundSignificantFigures n s = Inr r
     \<and> unat r = unat n div 10 ^ (count_digits n - nat s) * 10 ^ (count_digits n - nat s)"
  by (rule round_significant_exact [OF assms])

theorem significant_figures_kept_witness:
  "\<exists>r. RoundSignificantFigures 12345 2 = Inr r
     \<and> unat r = unat (12345 :: 64 word) div 10 ^ (count_digits (12345 :: 64 word) - nat 2) * 10 ^ (count_digits (12345 :: 64 word) - nat 2)"
proof -
  have "count_digits (12345 :: 64 word) = 5" by code_simp
  then show ?thesis by (intro significant_figures_kept) simp_all
qed

end
