(* ===== verification/Assets.thy ===== *)
theory Assets
  imports Numerics
begin

text \<open>
  Chains, symbols, tickers and assets: \<^verbatim>\<open>src/common/chain.go\<close>, \<^verbatim>\<open>symbol.go\<close>, \<^verbatim>\<open>ticker.go\<close> and
  \<^verbatim>\<open>asset.go\<close>. An asset names a coin of a chain in one of four flavours (layer-1, synthetic, trade,
  secured); it is printed with a flavour-specific separator and parsed back from user memos.
  Names are ASCII strings, compared without regard to case.
\<close>

section \<open>common/chain.go\<close>

type_synonym chain = string
type_synonym symbol = string
type_synonym ticker = string

definition EmptyChain :: chain where "EmptyChain = ''''"
abbreviation BSCChain :: chain where "BSCChain \<equiv> ''BSC''"
abbreviation ETHChain :: chain where "ETHChain \<equiv> ''ETH''"
abbreviation BTCChain :: chain where "BTCChain \<equiv> ''BTC''"
abbreviation LTCChain :: chain where "LTCChain \<equiv> ''LTC''"
abbreviation BCHChain :: chain where "BCHChain \<equiv> ''BCH''"
abbreviation DOGEChain :: chain where "DOGEChain \<equiv> ''DOGE''"
abbreviation SWITCHLYChain :: chain where "SWITCHLYChain \<equiv> ''SWITCHLY''"
abbreviation GAIAChain :: chain where "GAIAChain \<equiv> ''GAIA''"
abbreviation AVAXChain :: chain where "AVAXChain \<equiv> ''AVAX''"
abbreviation BASEChain :: chain where "BASEChain \<equiv> ''BASE''"
abbreviation XRPChain :: chain where "XRPChain \<equiv> ''XRP''"
abbreviation StellarChain :: chain where "StellarChain \<equiv> ''XLM''"

definition AllChains :: "chain list" where
  "AllChains = [BSCChain, ETHChain, BTCChain, LTCChain, BCHChain, DOGEChain, SWITCHLYChain,
     GAIAChain, AVAXChain, BASEChain, XRPChain, StellarChain]"

definition is_upper_letter :: "char \<Rightarrow> bool" where
  "is_upper_letter c = char_in c 65 90"

definition Chain_Valid :: "chain \<Rightarrow> unit res" where
  "Chain_Valid c =
     (if length c < 3 then Inl (Err ''chain id len is less than 3'')
      else if length c > 10 then Inl (Err ''chain id len is more than 10'')
      else if \<not> list_all is_upper_letter c
        then Inl (Err ''chain id can consist only of uppercase letters'')
      else Inr ())"

definition NewChain :: "string \<Rightarrow> chain res" where
  "NewChain chainID =
     (let chain = to_upper chainID in res_bind (Chain_Valid chain) (\<lambda>_. Inr chain))"

definition Chain_String :: "chain \<Rightarrow> string" where
  "Chain_String c = to_upper c"

definition Chain_Equals :: "chain \<Rightarrow> chain \<Rightarrow> bool" where
  "Chain_Equals c c2 = equal_fold (Chain_String c) (Chain_String c2)"

definition IsSWITCHLYChain :: "chain \<Rightarrow> bool" where
  "IsSWITCHLYChain c = Chain_Equals c SWITCHLYChain"

definition GetEVMChains :: "chain list" where
  "GetEVMChains = [ETHChain, AVAXChain, BSCChain, BASEChain]"

definition GetRouterChains :: "chain list" where
  "GetRouterChains = [ETHChain, AVAXChain, BSCChain, BASEChain, StellarChain]"

definition GetUTXOChains :: "chain list" where
  "GetUTXOChains = [BTCChain, LTCChain, BCHChain, DOGEChain]"

definition IsEVM :: "chain \<Rightarrow> bool" where
  "IsEVM c = list_ex (Chain_Equals c) GetEVMChains"

definition HasRouter :: "chain \<Rightarrow> bool" where
  "HasRouter c = list_ex (Chain_Equals c) GetRouterChains"

definition IsUTXO :: "chain \<Rightarrow> bool" where
  "IsUTXO c = list_ex (Chain_Equals c) GetUTXOChains"

definition Chain_IsEmpty :: "chain \<Rightarrow> bool" where
  "Chain_IsEmpty c = is_blank (Chain_String c)"

definition GetGasUnits :: "chain \<Rightarrow> string" where
  "GetGasUnits c =
     (if c = AVAXChain then ''nAVAX''
      else if c = BTCChain then ''satsperbyte''
      else if c = BCHChain then ''satsperbyte''
      else if c = DOGEChain then ''satsperbyte''
      else if c = ETHChain \<or> c = BSCChain \<or> c = BASEChain then ''gwei''
      else if c = GAIAChain then ''uatom''
      else if c = LTCChain then ''satsperbyte''
      else if c = XRPChain then ''drop''
      else if c = StellarChain then ''stroop''
      else '''')"

definition GetGasAssetDecimal :: "chain \<Rightarrow> int" where
  "GetGasAssetDecimal c =
     (if c = GAIAChain then 6 else if c = XRPChain then 6 else if c = StellarChain then 7
      else DefaultCoinDecimals)"

definition One :: uint where
  "One = 100000000"

definition DustThreshold :: "chain \<Rightarrow> uint" where
  "DustThreshold c =
     (if c = BTCChain \<or> c = LTCChain \<or> c = BCHChain then 10000
      else if c = DOGEChain then 100000000
      else if c = ETHChain \<or> c = AVAXChain \<or> c = GAIAChain \<or> c = BSCChain \<or> c = BASEChain then 1
      else if c = XRPChain then One
      else if c = StellarChain then One
      else 0)"

definition MaxMemoSize :: nat where "MaxMemoSize = 250"
definition MaxOpReturnDataSize :: nat where "MaxOpReturnDataSize = 80"

definition MaxMemoLength :: "chain \<Rightarrow> nat" where
  "MaxMemoLength c =
     (if c = BTCChain \<or> c = LTCChain \<or> c = BCHChain \<or> c = DOGEChain then MaxOpReturnDataSize
      else MaxMemoSize)"

definition ApproximateBlockMilliseconds :: "chain \<Rightarrow> int" where
  "ApproximateBlockMilliseconds c =
     (if c = BTCChain then 600000 else if c = LTCChain then 150000
      else if c = BCHChain then 600000 else if c = DOGEChain then 60000
      else if c = ETHChain then 12000 else if c = AVAXChain then 3000
      else if c = BSCChain then 1500 else if c = GAIAChain then 6000
      else if c = SWITCHLYChain then 6000 else if c = BASEChain then 2000
      else if c = XRPChain then 4000 else if c = StellarChain then 5000 else 0)"

text \<open>\<open>NewChains\<close> keeps the chains that parse and gathers the errors of the others.\<close>

fun NewChains :: "string list \<Rightarrow> chain list \<times> go_error list" where
  "NewChains [] = ([], [])"
| "NewChains (c # cs) = (let (ok, errs) = NewChains cs in
     case NewChain c of Inr ch \<Rightarrow> (ch # ok, errs) | Inl e \<Rightarrow> (ok, e # errs))"

definition Chains_Has :: "chain list \<Rightarrow> chain \<Rightarrow> bool" where
  "Chains_Has cs c = list_ex (\<lambda>ch. Chain_Equals ch c) cs"

definition Chains_Distinct :: "chain list \<Rightarrow> chain list" where
  "Chains_Distinct cs =
     fold (\<lambda>c acc. if Chains_Has acc c then acc else acc @ [c]) cs []"

section \<open>common/symbol.go, common/ticker.go\<close>

definition is_symbol_char :: "char \<Rightarrow> bool" where
  "is_symbol_char c = (char_in c 65 90 \<or> char_in c 97 122 \<or> char_in c 48 57
     \<or> c = CHR ''-'' \<or> c = CHR ''.'' \<or> c = CHR ''_'')"

definition isAlphaNumeric :: "string \<Rightarrow> bool" where
  "isAlphaNumeric s = (s \<noteq> [] \<and> list_all is_symbol_char s)"

definition NewSymbol :: "string \<Rightarrow> symbol res" where
  "NewSymbol input =
     (if \<not> isAlphaNumeric input then Inl (Err ''invalid symbol'') else Inr (to_upper input))"

definition Symbol_String :: "symbol \<Rightarrow> string" where
  "Symbol_String s = to_upper s"

definition Symbol_Valid :: "symbol \<Rightarrow> unit res" where
  "Symbol_Valid s =
     (if \<not> isAlphaNumeric (Symbol_String s) then Inl (Err ''symbol must be alphanumeric'') else Inr ())"

definition Symbol_Equals :: "symbol \<Rightarrow> symbol \<Rightarrow> bool" where
  "Symbol_Equals s s2 = equal_fold (Symbol_String s) (Symbol_String s2)"

definition Symbol_IsEmpty :: "symbol \<Rightarrow> bool" where
  "Symbol_IsEmpty s = is_blank (Symbol_String s)"

definition IsMiniToken :: "symbol \<Rightarrow> bool" where
  "IsMiniToken s = (case split_on CHR ''-'' (Symbol_String s) of
       _ # p # _ \<Rightarrow> length p = 4 \<and> has_suffix (Symbol_String s) ''M''
     | _ \<Rightarrow> False)"

definition NewTicker :: "string \<Rightarrow> ticker res" where
  "NewTicker tick =
     (if length tick = 0 then Inl (Err ''ticker error: empty ticker'')
      else if length tick > 13 then Inl (Err ''ticker error: too many characters'')
      else if CHR ''/'' \<in> set tick then Inl (Err ''ticker error: cannot contain a /'')
      else Inr (to_upper tick))"

definition Ticker_String :: "ticker \<Rightarrow> string" where
  "Ticker_String t = to_upper t"

definition Ticker_Equals :: "ticker \<Rightarrow> ticker \<Rightarrow> bool" where
  "Ticker_Equals t t2 = equal_fold (Ticker_String t) (Ticker_String t2)"

definition Ticker_IsEmpty :: "ticker \<Rightarrow> bool" where
  "Ticker_IsEmpty t = is_blank (Ticker_String t)"

text \<open>\<open>Symbol.Ticker\<close> drops the error of \<open>NewTicker\<close>, which then returns the empty ticker.\<close>

definition Symbol_Ticker :: "symbol \<Rightarrow> ticker" where
  "Symbol_Ticker s = (case NewTicker (hd (split_on CHR ''-'' (Symbol_String s))) of
     Inl _ \<Rightarrow> '''' | Inr t \<Rightarrow> t)"

section \<open>common/asset.go\<close>

record asset =
  aChain :: chain
  aSymbol :: symbol
  aTicker :: ticker
  aSynth :: bool
  aTrade :: bool
  aSecured :: bool

definition mk_asset :: "chain \<Rightarrow> symbol \<Rightarrow> ticker \<Rightarrow> asset" where
  "mk_asset c s t = \<lparr>aChain = c, aSymbol = s, aTicker = t, aSynth = False, aTrade = False, aSecured = False\<rparr>"

definition EmptyAsset :: asset where "EmptyAsset = mk_asset EmptyChain '''' ''''"
definition ATOMAsset :: asset where "ATOMAsset = mk_asset GAIAChain ''ATOM'' ''ATOM''"
definition BNBBEP20Asset :: asset where "BNBBEP20Asset = mk_asset BSCChain ''BNB'' ''BNB''"
definition BTCAsset :: asset where "BTCAsset = mk_asset BTCChain ''BTC'' ''BTC''"
definition LTCAsset :: asset where "LTCAsset = mk_asset LTCChain ''LTC'' ''LTC''"
definition BCHAsset :: asset where "BCHAsset = mk_asset BCHChain ''BCH'' ''BCH''"
definition DOGEAsset :: asset where "DOGEAsset = mk_asset DOGEChain ''DOGE'' ''DOGE''"
definition ETHAsset :: asset where "ETHAsset = mk_asset ETHChain ''ETH'' ''ETH''"
definition BaseETHAsset :: asset where "BaseETHAsset = mk_asset BASEChain ''ETH'' ''ETH''"
definition AVAXAsset :: asset where "AVAXAsset = mk_asset AVAXChain ''AVAX'' ''AVAX''"
definition XRPAsset :: asset where "XRPAsset = mk_asset XRPChain ''XRP'' ''XRP''"
definition XLMAsset :: asset where "XLMAsset = mk_asset StellarChain ''XLM'' ''XLM''"
definition XLMUSDC :: asset where "XLMUSDC = mk_asset StellarChain ''USDC'' ''USDC''"
definition SwitchNative :: asset where "SwitchNative = mk_asset SWITCHLYChain ''SWITCH'' ''SWITCH''"
definition RUJI :: asset where "RUJI = mk_asset SWITCHLYChain ''RUJI'' ''RUJI''"
definition SWCY :: asset where "SWCY = mk_asset SWITCHLYChain ''SWCY'' ''SWCY''"
definition SWITCHLY :: asset where "SWITCHLY = mk_asset SWITCHLYChain ''SWITCHLY'' ''SWITCHLY''"
definition SWITCHLYBTC :: asset where "SWITCHLYBTC = mk_asset SWITCHLYChain ''BTC'' ''BTC''"

lemmas asset_constants = EmptyChain_def EmptyAsset_def ATOMAsset_def BNBBEP20Asset_def BTCAsset_def LTCAsset_def
  BCHAsset_def DOGEAsset_def ETHAsset_def BaseETHAsset_def AVAXAsset_def XRPAsset_def XLMAsset_def
  XLMUSDC_def SwitchNative_def RUJI_def SWCY_def SWITCHLY_def SWITCHLYBTC_def mk_asset_def

text \<open>The first of the four separators in the input, as the regular expression finds it.\<close>

definition is_sep :: "char \<Rightarrow> bool" where
  "is_sep c = (c = CHR ''~'' \<or> c = CHR ''.'' \<or> c = CHR ''/'' \<or> c = CHR ''-'')"

definition NewAsset :: "string \<Rightarrow> asset res" where
  "NewAsset input =
     (let sep = find is_sep input in
      res_bind
        (case sep of
           None \<Rightarrow> Inr (SWITCHLYChain, input)
         | Some c \<Rightarrow> (let (p0, p1) = split2 c input in
             res_bind (NewChain p0) (\<lambda>ch. Inr (ch, case p1 of None \<Rightarrow> [] | Some s \<Rightarrow> s))))
        (\<lambda>(ch, sym).
      res_bind (NewSymbol sym) (\<lambda>symb.
      res_bind (NewTicker (fst (split2 CHR ''-'' sym))) (\<lambda>tick.
        Inr \<lparr>aChain = ch, aSymbol = symb, aTicker = tick, aSynth = (sep = Some CHR ''/''),
             aTrade = (sep = Some CHR ''~''), aSecured = (sep = Some CHR ''-'')\<rparr>))))"

definition asset_sep :: "asset \<Rightarrow> char" where
  "asset_sep a =
     (if aSecured a then CHR ''-'' else if aTrade a then CHR ''~''
      else if aSynth a then CHR ''/'' else CHR ''.'')"

definition Asset_String :: "asset \<Rightarrow> string" where
  "Asset_String a = Chain_String (aChain a) @ asset_sep a # Symbol_String (aSymbol a)"

definition Asset_Equals :: "asset \<Rightarrow> asset \<Rightarrow> bool" where
  "Asset_Equals a a2 \<longleftrightarrow>
     Chain_Equals (aChain a) (aChain a2) \<and> Symbol_Equals (aSymbol a) (aSymbol a2)
     \<and> Ticker_Equals (aTicker a) (aTicker a2) \<and> aSynth a = aSynth a2 \<and> aTrade a = aTrade a2
     \<and> aSecured a = aSecured a2"

definition Asset_Valid :: "asset \<Rightarrow> unit res" where
  "Asset_Valid a =
     (case Chain_Valid (aChain a) of Inl e \<Rightarrow> Inl (Err ''invalid chain'')
      | Inr _ \<Rightarrow>
     (case Symbol_Valid (aSymbol a) of Inl e \<Rightarrow> Inl (Err ''invalid symbol'')
      | Inr _ \<Rightarrow>
        if aSynth a \<and> aTrade a \<or> aTrade a \<and> aSecured a \<or> aSecured a \<and> aSynth a
          then Inl (Err ''assets can only be one of trade, synth or secured'')
        else if aSynth a \<and> IsSWITCHLYChain (aChain a)
          then Inl (Err ''synth asset cannot have chain SWITCHLY'')
        else if aTrade a \<and> IsSWITCHLYChain (aChain a)
          then Inl (Err ''trade asset cannot have chain SWITCHLY'')
        else if aSecured a \<and> IsSWITCHLYChain (aChain a)
          then Inl (Err ''secured asset cannot have chain SWITCHLY'')
        else Inr ()))"

definition GetChain :: "asset \<Rightarrow> chain" where
  "GetChain a = (if aSynth a \<or> aTrade a \<or> aSecured a then SWITCHLYChain else aChain a)"

definition GetLayer1Asset :: "asset \<Rightarrow> asset" where
  "GetLayer1Asset a =
     (if \<not> aSynth a \<and> \<not> aTrade a \<and> \<not> aSecured a then a
      else mk_asset (aChain a) (aSymbol a) (aTicker a))"

definition GetSyntheticAsset :: "asset \<Rightarrow> asset" where
  "GetSyntheticAsset a =
     (if aSynth a then a else (mk_asset (aChain a) (aSymbol a) (aTicker a))\<lparr>aSynth := True\<rparr>)"

definition GetTradeAsset :: "asset \<Rightarrow> asset" where
  "GetTradeAsset a =
     (if aTrade a then a else (mk_asset (aChain a) (aSymbol a) (aTicker a))\<lparr>aTrade := True\<rparr>)"

definition GetSecuredAsset :: "asset \<Rightarrow> asset" where
  "GetSecuredAsset a =
     (if aSecured a then a else (mk_asset (aChain a) (aSymbol a) (aTicker a))\<lparr>aSecured := True\<rparr>)"

definition GetDerivedAsset :: "asset \<Rightarrow> asset" where
  "GetDerivedAsset a = mk_asset SWITCHLYChain (aSymbol a) (aTicker a)"

definition IsSwitch :: "asset \<Rightarrow> bool" where
  "IsSwitch a = Asset_Equals a SwitchNative"

definition IsSWCY :: "asset \<Rightarrow> bool" where
  "IsSWCY a = Asset_Equals SWCY a"

definition IsRUJI :: "asset \<Rightarrow> bool" where
  "IsRUJI a = Asset_Equals RUJI a"

definition IsNative :: "asset \<Rightarrow> bool" where
  "IsNative a = IsSWITCHLYChain (GetChain a)"

definition IsDerivedAsset :: "asset \<Rightarrow> bool" where
  "IsDerivedAsset a \<longleftrightarrow> \<not> aSynth a \<and> \<not> aTrade a \<and> \<not> aSecured a \<and> IsSWITCHLYChain (GetChain a)
     \<and> \<not> IsSwitch a \<and> \<not> IsSWCY a \<and> \<not> IsRUJI a"

definition Asset_IsEmpty :: "asset \<Rightarrow> bool" where
  "Asset_IsEmpty a \<longleftrightarrow>
     Chain_IsEmpty (aChain a) \<or> Symbol_IsEmpty (aSymbol a) \<or> Ticker_IsEmpty (aTicker a)"

definition Asset_Native :: "asset \<Rightarrow> string" where
  "Asset_Native a =
     (if IsSwitch a then ''switch''
      else if Asset_Equals a SWITCHLY then ''tor''
      else if Asset_Equals a SWCY then ''swcy''
      else if IsRUJI a then ''x/ruji''
      else to_lower (Asset_String a))"

definition GetGasAsset :: "chain \<Rightarrow> asset" where
  "GetGasAsset c =
     (if c = SWITCHLYChain then SwitchNative else if c = BSCChain then BNBBEP20Asset
      else if c = BTCChain then BTCAsset else if c = LTCChain then LTCAsset
      else if c = BCHChain then BCHAsset else if c = DOGEChain then DOGEAsset
      else if c = ETHChain then ETHAsset else if c = AVAXChain then AVAXAsset
      else if c = GAIAChain then ATOMAsset else if c = BASEChain then BaseETHAsset
      else if c = XRPChain then XRPAsset else if c = StellarChain then XLMAsset
      else EmptyAsset)"

definition IsGasAsset :: "asset \<Rightarrow> bool" where
  "IsGasAsset a = (let gasAsset = GetGasAsset (GetChain a) in
     if Asset_IsEmpty gasAsset then False else Asset_Equals a gasAsset)"

definition MimirString :: "asset \<Rightarrow> string" where
  "MimirString a = Chain_String (aChain a) @ ''-'' @ Symbol_String (aSymbol a)"

definition ShortCode :: "asset \<Rightarrow> string" where
  "ShortCode a = (let s = Asset_String a in
     if s = ''SWITCHLY.SWITCH'' then ''r'' else if s = ''GAIA.ATOM'' then ''g''
     else if s = ''DOGE.DOGE'' then ''d'' else if s = ''LTC.LTC'' then ''l''
     else if s = ''BCH.BCH'' then ''c'' else if s = ''AVAX.AVAX'' then ''a''
     else if s = ''BTC.BTC'' then ''b'' else if s = ''BSC.BNB'' then ''n''
     else if s = ''BASE.ETH'' then ''f'' else if s = ''XRP.XRP'' then ''x''
     else if s = ''XLM.XLM'' then ''m'' else if s = ''XLM.USDC'' then ''u''
     else '''')"

text \<open>The table of short codes; a later assignment to the same key replaces an earlier one.\<close>

definition short_code_assets :: "asset list" where
  "short_code_assets = [ATOMAsset, AVAXAsset, BCHAsset, BNBBEP20Asset, BTCAsset, DOGEAsset, ETHAsset,
     LTCAsset, SwitchNative, BaseETHAsset, XRPAsset, XLMAsset, XLMUSDC]"

definition shorts :: "string \<Rightarrow> string option" where
  "shorts = map_of (rev (map (\<lambda>a. (ShortCode a, Asset_String a)) short_code_assets))"

definition NewAssetWithShortCodes :: "string \<Rightarrow> asset res" where
  "NewAssetWithShortCodes input =
     NewAsset (case shorts input of Some long \<Rightarrow> long | None \<Rightarrow> input)"

section \<open>Equality of assets is an equivalence\<close>

text \<open>
  Two assets are equal exactly when their upper-case forms coincide: \<open>asset_key\<close> is the normal form
  the containers of coins are keyed by.
\<close>

definition asset_key :: "asset \<Rightarrow> asset" where
  "asset_key a = a\<lparr>aChain := to_upper (aChain a), aSymbol := to_upper (aSymbol a),
     aTicker := to_upper (aTicker a)\<rparr>"

lemma Asset_Equals_key: "Asset_Equals a b \<longleftrightarrow> asset_key a = asset_key b"
  by (cases a; cases b)
     (auto simp: Asset_Equals_def asset_key_def Chain_Equals_def Symbol_Equals_def
       Ticker_Equals_def Chain_String_def Symbol_String_def Ticker_String_def equal_fold_def)

lemma Asset_Equals_refl [simp]: "Asset_Equals a a"
  by (simp add: Asset_Equals_key)

lemma Asset_Equals_sym: "Asset_Equals a b \<longleftrightarrow> Asset_Equals b a"
  by (auto simp: Asset_Equals_key)

lemma Asset_Equals_trans: "Asset_Equals a b \<Longrightarrow> Asset_Equals b c \<Longrightarrow> Asset_Equals a c"
  by (simp add: Asset_Equals_key)

text \<open>Equal assets print alike, so they share every key of the store.\<close>

lemma Asset_Equals_String: "Asset_Equals a b \<Longrightarrow> Asset_String a = Asset_String b"
  by (cases a; cases b)
     (auto simp: Asset_Equals_key asset_key_def Asset_String_def asset_sep_def
       Chain_String_def Symbol_String_def)

section \<open>Printing and parsing\<close>

lemma char_upper_sep [simp]:
  "char_upper c = CHR ''-'' \<longleftrightarrow> c = CHR ''-''" "char_upper c = CHR ''.'' \<longleftrightarrow> c = CHR ''.''"
  "char_upper c = CHR ''_'' \<longleftrightarrow> c = CHR ''_''" "char_upper c = CHR ''/'' \<longleftrightarrow> c = CHR ''/''"
  "char_upper c = CHR ''~'' \<longleftrightarrow> c = CHR ''~''"
  by (rule char_upper_nonletter; simp)+

lemma char_upper_symbol [simp]: "is_symbol_char (char_upper c) = is_symbol_char c"
  by (auto simp: is_symbol_char_def char_in_def Let_def of_char_upper split: if_splits)

lemma isAlphaNumeric_upper [simp]: "isAlphaNumeric (to_upper s) = isAlphaNumeric s"
  by (auto simp: isAlphaNumeric_def to_upper_def list_all_iff)

lemma split2_upper:
  "split2 CHR ''-'' (to_upper s) =
     (let (a, b) = split2 CHR ''-'' s in (to_upper a, map_option to_upper b))"
  by (induction s) (auto split: prod.splits)

lemma slash_upper [simp]: "CHR ''/'' \<in> set (to_upper s) \<longleftrightarrow> CHR ''/'' \<in> set s"
  by (induction s) (auto simp: eq_commute [of "CHR ''/''"])

lemma NewTicker_Inr:
  "NewTicker s = Inr t \<longleftrightarrow> t = to_upper s \<and> 0 < length s \<and> length s \<le> 13 \<and> CHR ''/'' \<notin> set s"
  by (auto simp: NewTicker_def)

lemma NewSymbol_Inr: "NewSymbol s = Inr t \<longleftrightarrow> t = to_upper s \<and> isAlphaNumeric s"
  by (auto simp: NewSymbol_def)

lemma upper_letter_upper: "is_upper_letter c \<Longrightarrow> char_upper c = c"
  by (auto simp: is_upper_letter_def char_in_def char_upper_def Let_def)

lemma upper_letter_not_sep: "is_upper_letter c \<Longrightarrow> \<not> is_sep c"
  by (auto simp: is_upper_letter_def char_in_def is_sep_def Let_def)

lemma Chain_Valid_Inr:
  "Chain_Valid c = Inr u \<longleftrightarrow> 3 \<le> length c \<and> length c \<le> 10 \<and> list_all is_upper_letter c"
  by (auto simp: Chain_Valid_def)

lemma Chain_Valid_upper: "Chain_Valid c = Inr u \<Longrightarrow> to_upper c = c"
  unfolding to_upper_def by (rule map_idI) (auto simp: Chain_Valid_Inr list_all_iff upper_letter_upper)

lemma NewChain_Inr:
  "NewChain s = Inr c \<longleftrightarrow> c = to_upper s \<and> (\<exists>u. Chain_Valid c = Inr u)"
  by (auto simp: NewChain_def Let_def res_simps)

lemma find_sep_append:
  assumes "list_all is_upper_letter c" and "is_sep x"
  shows "find is_sep (c @ x # s) = Some x"
  using assms(1) by (induction c) (auto simp: assms(2) dest: upper_letter_not_sep)

text \<open>What a successful parse has established about the asset.\<close>

definition parsed_asset :: "asset \<Rightarrow> bool" where
  "parsed_asset a \<longleftrightarrow>
     is_ok (Chain_Valid (aChain a)) \<and> isAlphaNumeric (aSymbol a) \<and> to_upper (aSymbol a) = aSymbol a
     \<and> NewTicker (fst (split2 CHR ''-'' (aSymbol a))) = Inr (aTicker a)
     \<and> \<not> (aSynth a \<and> aTrade a) \<and> \<not> (aTrade a \<and> aSecured a) \<and> \<not> (aSecured a \<and> aSynth a)"

lemma SWITCHLYChain_valid: "is_ok (Chain_Valid SWITCHLYChain)"
  by code_simp

lemma NewAsset_Inr:
  "NewAsset s = Inr a \<longleftrightarrow> (\<exists>ch sym. is_ok (Chain_Valid ch) \<and> isAlphaNumeric sym
     \<and> (case find is_sep s of None \<Rightarrow> ch = SWITCHLYChain \<and> sym = s
        | Some c \<Rightarrow> ch = to_upper (fst (split2 c s))
            \<and> sym = (case snd (split2 c s) of None \<Rightarrow> [] | Some t \<Rightarrow> t))
     \<and> NewTicker (fst (split2 CHR ''-'' sym)) = Inr (aTicker a)
     \<and> aChain a = ch \<and> aSymbol a = to_upper sym \<and> aSynth a = (find is_sep s = Some CHR ''/'')
     \<and> aTrade a = (find is_sep s = Some CHR ''~'') \<and> aSecured a = (find is_sep s = Some CHR ''-''))"
proof (cases "find is_sep s")
  case None
  then show ?thesis
    using SWITCHLYChain_valid by (cases a) (auto simp: NewAsset_def res_simps NewSymbol_Inr)
next
  case (Some c)
  then show ?thesis
    by (cases a)
       (auto simp: NewAsset_def res_simps NewSymbol_Inr NewChain_Inr is_ok_conv split: prod.splits)
qed

lemma NewAsset_parsed:
  assumes "NewAsset s = Inr a"
  shows "parsed_asset a"
proof -
  from assms obtain ch sym where ch: "is_ok (Chain_Valid ch)" and sym: "isAlphaNumeric sym"
    and tick: "NewTicker (fst (split2 CHR ''-'' sym)) = Inr (aTicker a)"
    and a: "aChain a = ch" "aSymbol a = to_upper sym"
    and flags: "aSynth a = (find is_sep s = Some CHR ''/'')"
      "aTrade a = (find is_sep s = Some CHR ''~'')" "aSecured a = (find is_sep s = Some CHR ''-'')"
    unfolding NewAsset_Inr by blast
  from tick have "NewTicker (fst (split2 CHR ''-'' (to_upper sym))) = Inr (aTicker a)"
    by (auto simp: split2_upper NewTicker_Inr split: prod.splits)
  with ch sym a flags show ?thesis by (auto simp: parsed_asset_def)
qed

lemma parse_print:
  assumes "parsed_asset a"
  shows "NewAsset (Asset_String a) = Inr a"
proof -
  obtain u where cv: "Chain_Valid (aChain a) = Inr u" and sym: "isAlphaNumeric (aSymbol a)"
    and up: "to_upper (aSymbol a) = aSymbol a"
    using assms by (auto simp: parsed_asset_def is_ok_conv)
  have c: "to_upper (aChain a) = aChain a" by (rule Chain_Valid_upper [OF cv])
  have letters: "list_all is_upper_letter (aChain a)" using cv by (simp add: Chain_Valid_Inr)
  have sep: "is_sep (asset_sep a)" by (simp add: asset_sep_def is_sep_def)
  have "asset_sep a \<notin> set (aChain a)"
    using letters sep by (auto simp: list_all_iff dest: upper_letter_not_sep)
  then have "split2 (asset_sep a) (Asset_String a) = (aChain a, Some (aSymbol a))"
    by (simp add: Asset_String_def Chain_String_def Symbol_String_def c up split2_append)
  moreover have "find is_sep (Asset_String a) = Some (asset_sep a)"
    by (simp add: Asset_String_def Chain_String_def c find_sep_append [OF letters sep])
  moreover have "NewChain (aChain a) = Inr (aChain a)" using cv by (simp add: NewChain_Inr c)
  moreover have "NewSymbol (aSymbol a) = Inr (aSymbol a)" using sym up by (simp add: NewSymbol_Inr)
  ultimately show ?thesis
    using assms by (cases a) (auto simp: NewAsset_def parsed_asset_def asset_sep_def)
qed

text \<open>The short codes: the code of a listed asset leads back to it, when it has one.\<close>

lemma asset_constants_parsed:
  "\<forall>a \<in> set short_code_assets. parsed_asset a"
  unfolding short_code_assets_def by code_simp

lemma shorts_table:
  "\<forall>a \<in> set short_code_assets. ShortCode a \<noteq> [] \<longrightarrow> shorts (ShortCode a) = Some (Asset_String a)"
  by code_simp

lemma shorts_empty: "shorts [] = Some (Asset_String ETHAsset)"
  by code_simp

lemma gas_assets_parsed: "\<forall>c \<in> set AllChains. parsed_asset (GetGasAsset c)"
  by code_simp

lemma flavour_simps [simp]:
  "GetLayer1Asset (GetLayer1Asset a) = GetLayer1Asset a"
  "GetTradeAsset (GetTradeAsset a) = GetTradeAsset a"
  "GetSecuredAsset (GetSecuredAsset a) = GetSecuredAsset a"
  "GetSyntheticAsset (GetSyntheticAsset a) = GetSyntheticAsset a"
  by (simp_all add: GetLayer1Asset_def GetTradeAsset_def GetSecuredAsset_def GetSyntheticAsset_def
      mk_asset_def)

lemma layer1_flavours:
  assumes "\<not> (aSynth a \<and> aTrade a)" "\<not> (aTrade a \<and> aSecured a)" "\<not> (aSecured a \<and> aSynth a)"
  shows "GetLayer1Asset (GetTradeAsset a) = GetLayer1Asset a"
    "GetLayer1Asset (GetSecuredAsset a) = GetLayer1Asset a"
    "GetLayer1Asset (GetSyntheticAsset a) = GetLayer1Asset a"
  using assms
  by (cases a; auto simp: GetLayer1Asset_def GetTradeAsset_def GetSecuredAsset_def
      GetSyntheticAsset_def mk_asset_def)+

section \<open>Properties\<close>

text \<open>C40. The printed form of every asset that was parsed parses to that asset again.\<close>

theorem asset_parse_print:
  assumes "NewAsset s = Inr a"
  shows "NewAsset (Asset_String a) = Inr a"
  by (rule parse_print [OF NewAsset_parsed [OF assms]])

theorem asset_parse_print_witness:
  "\<exists>a. NewAsset ''btc~btc'' = Inr a \<and> NewAsset (Asset_String a) = Inr a"
proof -
  have "is_ok (NewAsset ''btc~btc'')" by code_simp
  then obtain a where "NewAsset ''btc~btc'' = Inr a" by (auto simp: is_ok_conv)
  with asset_parse_print show ?thesis by blast
qed

text \<open>Equality of assets ignores case, is an equivalence, and equal assets have the same text, hence
  the same key in the store.\<close>

theorem asset_equality:
  "Asset_Equals a a \<and> (Asset_Equals a b \<longrightarrow> Asset_Equals b a)
   \<and> (Asset_Equals a b \<and> Asset_Equals b c \<longrightarrow> Asset_Equals a c)
   \<and> (Asset_Equals a b \<longrightarrow> Asset_String a = Asset_String b)"
  using Asset_Equals_sym [of a b] Asset_Equals_trans [of a b c] Asset_Equals_String [of a b] by simp

theorem asset_equality_witness:
  "Asset_Equals (mk_asset ''btc'' ''BTC'' ''BTC'') BTCAsset
   \<and> Asset_String (mk_asset ''btc'' ''BTC'' ''BTC'') = Asset_String BTCAsset"
proof -
  have "Asset_Equals (mk_asset ''btc'' ''BTC'' ''BTC'') BTCAsset" by code_simp
  with asset_equality show ?thesis by blast
qed

end
