(* ===== verification/Shares.thy ===== *)
theory Shares
  imports Prelude
begin

text \<open>
  Proportional shares of an amount, \<^verbatim>\<open>src/common/type_convert.go\<close>. Every split of a balance in the
  program (liquidity units, trade account units, bonds, fees) goes through \<open>GetUncappedShare\<close> or
  \<open>GetSafeShare\<close>, which divide twice in the fixed-point decimals of \<open>cosmossdk.io/math\<close> and round
  to an integer.

  The decimal library is not part of the repository: it is the parameter \<open>D\<close> of the definitions,
  a record of the six operations the code calls. A decimal is its integer number of units of
  \<open>10^-18\<close>. What the code relies on is the locale \<open>dec_laws\<close>: conversion of an integer is exact,
  \<open>Quo\<close> and \<open>RoundInt\<close> round to a nearest value, and the operations return within their range.
  \<open>legacy_dec\<close> is a concrete library (18 digits, ties to even) that satisfies the laws.
\<close>

section \<open>The decimal library as a parameter\<close>

type_synonym dec = int

definition dec_one :: int where
  "dec_one = 10 ^ 18"

record dec_lib =
  dec_of_uint :: "uint \<Rightarrow> dec option"
  dec_add :: "dec \<Rightarrow> dec \<Rightarrow> dec option"
  dec_quo :: "dec \<Rightarrow> dec \<Rightarrow> dec option"
  dec_mul :: "dec \<Rightarrow> dec \<Rightarrow> dec option"
  dec_round :: "dec \<Rightarrow> int option"
  dec_trunc :: "dec \<Rightarrow> int option"

section \<open>The share functions\<close>

text \<open>
  A panic inside the body of \<open>GetUncappedShare\<close> (a failed conversion, a division by a quotient
  that rounded to zero, an overflow) is recovered by its deferred function: the share is then 0.
\<close>

definition uncapped_share_body :: "dec_lib \<Rightarrow> uint \<Rightarrow> uint \<Rightarrow> uint \<Rightarrow> uint option" where
  "uncapped_share_body D part tot allocation =
     Option.bind (dec_of_uint D allocation) (\<lambda>aD.
     Option.bind (dec_of_uint D part) (\<lambda>pD.
     Option.bind (dec_of_uint D tot) (\<lambda>tD.
     Option.bind (dec_quo D tD pD) (\<lambda>ratio.
     Option.bind (dec_quo D aD ratio) (\<lambda>result.
     Option.bind (dec_round D result) (\<lambda>r.
       if 0 \<le> r \<and> nat r < uint_lim then Some (nat r) else None))))))"

definition GetUncappedShare :: "dec_lib \<Rightarrow> uint \<Rightarrow> uint \<Rightarrow> uint \<Rightarrow> uint" where
  "GetUncappedShare D part tot allocation =
     (if part = 0 \<or> tot = 0 then 0
      else case uncapped_share_body D part tot allocation of None \<Rightarrow> 0 | Some s \<Rightarrow> s)"

definition GetSafeShare :: "dec_lib \<Rightarrow> uint \<Rightarrow> uint \<Rightarrow> uint \<Rightarrow> uint" where
  "GetSafeShare D part tot allocation =
     GetUncappedShare D (if tot \<le> part then tot else part) tot allocation"

definition SafeSub :: "uint \<Rightarrow> uint \<Rightarrow> uint" where
  "SafeSub input1 input2 = (if input1 < input2 then 0 else input1 - input2)"

lemma SafeSub_eq [simp]: "SafeSub a b = a - b"
  by (simp add: SafeSub_def)

section \<open>The contract of the decimal library\<close>

text \<open>
  \<open>dec_range\<close> bounds the magnitude of a decimal: the library keeps 315 bits, and refuses a result
  beyond them. An operation returns when its exact result is in range.
\<close>

definition dec_range :: int where
  "dec_range = 2 ^ 315"

locale dec_laws =
  fixes D :: dec_lib
  assumes of_uint_exact: "dec_of_uint D n = Some d \<Longrightarrow> d = int n * dec_one"
    and of_uint_returns: "int n * dec_one < dec_range \<Longrightarrow> dec_of_uint D n \<noteq> None"
    and add_exact: "dec_add D a b = Some c \<Longrightarrow> c = a + b"
    and add_returns: "\<bar>a + b\<bar> < dec_range \<Longrightarrow> dec_add D a b \<noteq> None"
    and quo_nearest: "dec_quo D a b = Some c \<Longrightarrow> b \<noteq> 0 \<and> 2 * \<bar>c * b - a * dec_one\<bar> \<le> \<bar>b\<bar>"
    and quo_returns: "b \<noteq> 0 \<Longrightarrow> \<bar>a * dec_one\<bar> \<le> (dec_range - 1) * \<bar>b\<bar> \<Longrightarrow> dec_quo D a b \<noteq> None"
    and mul_nearest: "dec_mul D a b = Some c \<Longrightarrow> 2 * \<bar>c * dec_one - a * b\<bar> \<le> dec_one"
    and mul_returns: "\<bar>a * b\<bar> \<le> (dec_range - 1) * dec_one \<Longrightarrow> dec_mul D a b \<noteq> None"
    and round_nearest: "dec_round D a = Some r \<Longrightarrow> 2 * \<bar>r * dec_one - a\<bar> \<le> dec_one"
    and round_returns: "\<bar>a\<bar> \<le> (int uint_lim - 1) * dec_one \<Longrightarrow> dec_round D a \<noteq> None"
    and trunc_down: "dec_trunc D a = Some r \<Longrightarrow> 0 \<le> a \<Longrightarrow> r = a div dec_one"
    and trunc_returns: "0 \<le> a \<Longrightarrow> a \<le> (int uint_lim - 1) * dec_one \<Longrightarrow> dec_trunc D a \<noteq> None"

text \<open>Nearest values of a quotient: what the roundings of a share can do.\<close>

lemma dec_one_pos [simp]: "0 < dec_one" "dec_one \<noteq> 0" "0 \<le> dec_one"
  by (simp_all add: dec_one_def)

lemma abs_double: "2 * \<bar>y\<bar> \<le> (b :: int) \<Longrightarrow> 2 * y \<le> b \<and> - (2 * y) \<le> b"
  by arith

lemma abs_triangle:
  "2 * \<bar>x - y\<bar> \<le> (m :: int) \<Longrightarrow> 2 * \<bar>y - z\<bar> \<le> n \<Longrightarrow> 2 * \<bar>x - z\<bar> \<le> m + n"
  using abs_triangle_ineq [of "x - y" "y - z"] by simp

lemma nearest_le:
  fixes c b x :: int
  assumes "0 < b" and "2 * \<bar>c * b - x\<bar> \<le> b" and "x \<le> u * b"
  shows "c \<le> u"
proof (rule ccontr)
  assume "\<not> c \<le> u"
  then have "(u + 1) * b \<le> c * b" using assms(1) by (intro mult_right_mono) auto
  moreover have "2 * (c * b - x) \<le> b"
    using abs_double [OF assms(2)] by simp
  ultimately show False using assms(1,3) by (simp add: algebra_simps)
qed

lemma nearest_ge:
  fixes c b x :: int
  assumes "0 < b" and "2 * \<bar>c * b - x\<bar> \<le> b" and "l * b \<le> x"
  shows "l \<le> c"
proof (rule ccontr)
  assume "\<not> l \<le> c"
  then have "c * b \<le> (l - 1) * b" using assms(1) by (intro mult_right_mono) auto
  moreover have "2 * (x - c * b) \<le> b"
    using abs_double [OF assms(2)] by simp
  ultimately show False using assms(1,3) by (simp add: algebra_simps)
qed

lemma nearest_exact:
  fixes c b k :: int
  assumes "0 < b" and "2 * \<bar>c * b - k * b\<bar> \<le> b"
  shows "c = k"
  using nearest_le [OF assms, of k] nearest_ge [OF assms, of k] by simp

context dec_laws
begin

lemma body_Some:
  assumes "uncapped_share_body D p t a = Some s"
  obtains q r where "dec_quo D (int t * dec_one) (int p * dec_one) = Some q"
    and "dec_quo D (int a * dec_one) q = Some r" and "dec_round D r = Some (int s)"
  using assms unfolding uncapped_share_body_def
  by (auto simp: Option.bind_eq_Some_conv split: if_splits dest!: of_uint_exact)

text \<open>The ratio \<open>total / part\<close> is at least one when the part does not exceed the total.\<close>

lemma ratio_ge_one:
  assumes "dec_quo D (int t * dec_one) (int p * dec_one) = Some q" and "0 < p" and "p \<le> t"
  shows "dec_one \<le> q"
proof (rule nearest_ge)
  show "0 < int p * dec_one" using assms(2) by simp
  then show "2 * \<bar>q * (int p * dec_one) - int t * dec_one * dec_one\<bar> \<le> int p * dec_one"
    using quo_nearest [OF assms(1)] by simp
  show "dec_one * (int p * dec_one) \<le> int t * dec_one * dec_one"
    using assms(3) by (simp add: mult.commute mult.left_commute)
qed

lemma body_le:
  assumes "uncapped_share_body D p t a = Some s" and "0 < p" and "p \<le> t"
  shows "s \<le> a"
proof -
  from assms(1) obtain q r where q: "dec_quo D (int t * dec_one) (int p * dec_one) = Some q"
    and r: "dec_quo D (int a * dec_one) q = Some r" and s: "dec_round D r = Some (int s)"
    by (rule body_Some)
  have "dec_one \<le> q" by (rule ratio_ge_one [OF q assms(2,3)])
  then have "0 < q" using dec_one_pos(1) by linarith
  have "int a * dec_one * dec_one \<le> int a * dec_one * q"
    using \<open>dec_one \<le> q\<close> by (intro mult_left_mono) auto
  with quo_nearest [OF r] \<open>0 < q\<close> have "r \<le> int a * dec_one"
    by (intro nearest_le [of q r "int a * dec_one * dec_one"]) auto
  with round_nearest [OF s] have "int s \<le> int a"
    by (intro nearest_le [of dec_one "int s" r]) auto
  then show ?thesis by simp
qed

lemma share_le: "p \<le> t \<Longrightarrow> GetUncappedShare D p t a \<le> a"
  by (auto simp: GetUncappedShare_def split: option.splits intro: body_le)

lemma safe_share_le: "GetSafeShare D p t a \<le> a"
  unfolding GetSafeShare_def by (rule share_le) simp

text \<open>The whole of the total gets the whole of the allocation, exactly.\<close>

lemma in_range_uint: "int a * dec_one < dec_range \<Longrightarrow> a < uint_lim"
proof (rule ccontr)
  assume "int a * dec_one < dec_range" and "\<not> a < uint_lim"
  then have "int uint_lim * dec_one \<le> int a * dec_one" by (intro mult_right_mono) auto
  with \<open>int a * dec_one < dec_range\<close> show False
    by (simp add: uint_lim_def dec_one_def dec_range_def)
qed

lemma of_uint_in_range: "int n * dec_one < dec_range \<Longrightarrow> dec_of_uint D n = Some (int n * dec_one)"
  using of_uint_returns of_uint_exact by fastforce

lemma share_whole:
  assumes "0 < t" and "int t * dec_one < dec_range" and "int a * dec_one < dec_range"
  shows "GetUncappedShare D t t a = a"
proof -
  have range: "dec_one \<le> dec_range - 1" by (simp add: dec_one_def dec_range_def)
  have pos: "0 < int t * dec_one" using assms(1) by simp
  have "\<bar>int t * dec_one * dec_one\<bar> \<le> (dec_range - 1) * \<bar>int t * dec_one\<bar>"
    using mult_right_mono [OF range, of "int t * dec_one"] by (simp add: mult.commute abs_mult)
  from quo_returns [OF _ this] assms(1)
  obtain q where q: "dec_quo D (int t * dec_one) (int t * dec_one) = Some q" by auto
  have "2 * \<bar>q * (int t * dec_one) - dec_one * (int t * dec_one)\<bar> \<le> int t * dec_one"
    using quo_nearest [OF q] pos by (simp add: mult.left_commute mult.commute)
  then have "q = dec_one" by (rule nearest_exact [OF pos])
  have "\<bar>int a * dec_one * dec_one\<bar> \<le> (dec_range - 1) * \<bar>dec_one\<bar>"
    using mult_right_mono [of "int a * dec_one" "dec_range - 1" dec_one] assms(3)
    by (simp add: abs_mult)
  from quo_returns [OF _ this]
  obtain r where r: "dec_quo D (int a * dec_one) dec_one = Some r" by auto
  have "r = int a * dec_one"
    by (rule nearest_exact [OF dec_one_pos(1)]) (use quo_nearest [OF r] in simp)
  have "a < uint_lim" by (rule in_range_uint [OF assms(3)])
  then have "\<bar>int a * dec_one\<bar> \<le> (int uint_lim - 1) * dec_one"
    using mult_right_mono [of "int a" "int uint_lim - 1" dec_one] by (simp add: abs_mult)
  from round_returns [OF this]
  obtain n where n: "dec_round D (int a * dec_one) = Some n" by auto
  have "n = int a"
    by (rule nearest_exact [OF dec_one_pos(1)]) (rule round_nearest [OF n])
  with n q r \<open>q = dec_one\<close> \<open>r = int a * dec_one\<close> \<open>a < uint_lim\<close> assms
  show ?thesis
    by (simp add: GetUncappedShare_def uncapped_share_body_def of_uint_in_range)
qed

lemma safe_share_whole:
  assumes "0 < t" and "t \<le> p" and "int t * dec_one < dec_range" and "int a * dec_one < dec_range"
  shows "GetSafeShare D p t a = a"
  using share_whole [OF assms(1,3,4)] assms(2) by (simp add: GetSafeShare_def)

end

lemma sum_doubled:
  "2 * e \<le> x + y \<Longrightarrow> 2 * x \<le> z \<Longrightarrow> y \<le> w \<Longrightarrow> 4 * e \<le> z + 2 * (w :: int)"
  by linarith

text \<open>Error propagation of the two roundings, for a unit \<open>U\<close>.\<close>

lemma roundings_error:
  fixes q p t r a s U :: int
  assumes q: "2 * \<bar>q * p - t * U\<bar> \<le> p" and r: "2 * \<bar>r * q - a * U * U\<bar> \<le> q"
    and s: "2 * \<bar>s * U - r\<bar> \<le> U" and pos: "0 < p" "0 < q" "0 \<le> s" "0 < U"
  shows "4 * (\<bar>s * t - a * p\<bar> * (U * U)) \<le> (U + 1) * (2 * (t * U) + p) + 2 * (s * U * p)"
proof -
  have "2 * \<bar>s * U * q - r * q\<bar> \<le> U * q"
    using mult_right_mono [OF s, of q] pos(2) by (simp add: abs_mult flip: left_diff_distrib)
  from abs_triangle [OF this r] have "2 * \<bar>s * U * q - a * U * U\<bar> \<le> (U + 1) * q"
    by (simp add: distrib_right)
  from mult_right_mono [OF this, of p]
  have A: "2 * \<bar>s * U * q * p - a * U * U * p\<bar> \<le> (U + 1) * (q * p)"
    using pos(1) abs_mult [of "s * U * q - a * U * U" p]
    by (simp add: left_diff_distrib mult.assoc)
  have B: "2 * \<bar>s * U * (t * U) - s * U * (q * p)\<bar> \<le> s * U * p"
    using mult_left_mono [OF q, of "s * U"] pos
    by (simp add: abs_mult mult.assoc abs_minus_commute flip: right_diff_distrib)
  from A have "2 * \<bar>s * U * (q * p) - a * U * U * p\<bar> \<le> (U + 1) * (q * p)"
    by (simp add: mult.assoc)
  from abs_triangle [OF B this]
  have "2 * \<bar>s * t * (U * U) - a * p * (U * U)\<bar> \<le> (U + 1) * (q * p) + s * U * p"
    by (simp add: ac_simps)
  then have "2 * (\<bar>s * t - a * p\<bar> * (U * U)) \<le> (U + 1) * (q * p) + s * U * p"
    by (simp add: abs_mult flip: left_diff_distrib)
  moreover have "2 * ((U + 1) * (q * p)) \<le> (U + 1) * (2 * (t * U) + p)"
    using abs_double [OF q] pos mult_left_mono [of "2 * (q * p)" "2 * (t * U) + p" "U + 1"]
    by (simp add: algebra_simps)
  ultimately show ?thesis by (intro sum_doubled) auto
qed

lemma error_budget:
  fixes A B C P S T W p :: int
  assumes "4 * C \<le> 2 * T + 2 * W + P + p + 2 * S" and "100 * S \<le> A" and "100 * P \<le> T"
    and "100 * W \<le> T" and "100 * p \<le> W" and "0 < T"
  shows "A \<le> B + C \<Longrightarrow> 199 * A \<le> 200 * B + 110 * T"
    and "199 * S \<le> 52 * T \<Longrightarrow> C < T"
  using assms by linarith+

text \<open>
  The error is below one unit when the ratio of part to total and the share itself fit the 18
  digits: \<open>100 p \<le> t U\<close> and \<open>4 a p\<^sup>2 \<le> t\<^sup>2 U\<close>.
\<close>

lemma two_roundings:
  fixes q p t r a s U :: int
  assumes "2 * \<bar>q * p - t * U\<bar> \<le> p" and "2 * \<bar>r * q - a * U * U\<bar> \<le> q"
    and "2 * \<bar>s * U - r\<bar> \<le> U" and pos: "0 < p" "0 < q" "0 \<le> s" "100 \<le> U" "0 < t"
    and ratio: "100 * p \<le> t * U" and small: "4 * (a * p * p) \<le> t * t * U"
  shows "\<bar>s * t - a * p\<bar> < t"
proof -
  define e where "e = \<bar>s * t - a * p\<bar>"
  have T: "0 < t * (U * U)" using pos by simp
  have U: "100 * U \<le> U * U" using pos by (intro mult_right_mono) auto
  have pU: "100 * (p * U) \<le> t * (U * U)" using mult_right_mono [OF ratio, of U] pos by (simp add: ac_simps)
  have tU: "100 * (t * U) \<le> t * (U * U)" using mult_left_mono [OF U, of t] pos by (simp add: ac_simps)
  have E: "4 * (e * (U * U)) \<le> 2 * (t * (U * U)) + 2 * (t * U) + p * U + p + 2 * (s * (p * U))"
    using roundings_error [OF assms(1-3) pos(1-3)] pos(4) unfolding e_def by (simp add: algebra_simps)
  have sp: "100 * (s * (p * U)) \<le> s * (t * (U * U))"
    using mult_left_mono [OF pU, of s] pos by (simp add: ac_simps)
  have "s * t \<le> a * p + e" unfolding e_def by linarith
  from mult_right_mono [OF this, of "U * U"]
  have "s * (t * (U * U)) \<le> a * (p * (U * U)) + e * (U * U)" using pos by (simp add: algebra_simps)
  from error_budget(1) [OF E sp pU tU ratio T this]
  have "199 * (s * (t * (U * U))) \<le> 200 * (a * (p * (U * U))) + 110 * (t * (U * U))" .
  then have "(199 * (s * t)) * (U * U) \<le> (200 * (a * p) + 110 * t) * (U * U)"
    by (simp add: algebra_simps)
  then have "199 * (s * t) \<le> 200 * (a * p) + 110 * t" using pos by (simp add: mult_le_cancel_right)
  from mult_right_mono [OF this, of p]
  have "199 * (s * p * t) \<le> 200 * (a * p * p) + 110 * (t * p)" using pos by (simp add: algebra_simps)
  moreover have "110 * (t * p) \<le> 2 * (t * t * U)"
    using mult_left_mono [OF ratio, of t] pos by (simp add: algebra_simps)
  ultimately have "199 * (s * p * t) \<le> 52 * (t * U) * t" using small by (simp add: algebra_simps)
  then have "(199 * (s * p)) * t \<le> (52 * (t * U)) * t" by (simp add: algebra_simps)
  then have "199 * (s * p) \<le> 52 * (t * U)" using pos by (simp add: mult_le_cancel_right)
  from mult_right_mono [OF this, of U]
  have "199 * (s * (p * U)) \<le> 52 * (t * (U * U))" using pos by (simp add: algebra_simps)
  then have "e * (U * U) < t * (U * U)" using error_budget(2) [OF E sp pU tU ratio T] by blast
  then show ?thesis using pos unfolding e_def by (simp add: mult_less_cancel_right)
qed

context dec_laws
begin

text \<open>A share that was computed differs from the exact proportion by less than one unit.\<close>

lemma ratio_pos:
  assumes "dec_quo D (int t * dec_one) (int p * dec_one) = Some q" and "0 < p"
    and "100 * int p \<le> int t * dec_one"
  shows "0 < q"
proof -
  have "1 \<le> q"
  proof (rule nearest_ge)
    show pos: "0 < int p * dec_one" using assms(2) by simp
    show "2 * \<bar>q * (int p * dec_one) - int t * dec_one * dec_one\<bar> \<le> int p * dec_one"
      using quo_nearest [OF assms(1)] pos by simp
    show "1 * (int p * dec_one) \<le> int t * dec_one * dec_one"
      using mult_right_mono [OF assms(3), of dec_one] pos mult.assoc [of 100 "int p" dec_one] by simp
  qed
  then show ?thesis by simp
qed

lemma body_accurate:
  assumes "uncapped_share_body D p t a = Some s" and "0 < p" and "0 < t"
    and "100 * int p \<le> int t * dec_one" and "4 * int (a * p * p) \<le> int (t * t) * dec_one"
  shows "\<bar>int s * int t - int a * int p\<bar> < int t"
proof -
  from assms(1) obtain q r where q: "dec_quo D (int t * dec_one) (int p * dec_one) = Some q"
    and r: "dec_quo D (int a * dec_one) q = Some r" and s: "dec_round D r = Some (int s)"
    by (rule body_Some)
  have pos: "0 < q" by (rule ratio_pos [OF q assms(2,4)])
  have "2 * (\<bar>q * int p - int t * dec_one\<bar> * dec_one) \<le> int p * dec_one"
    using quo_nearest [OF q] abs_mult [of "q * int p - int t * dec_one" dec_one]
    by (simp add: abs_mult left_diff_distrib mult.assoc)
  then have "2 * \<bar>q * int p - int t * dec_one\<bar> \<le> int p"
    by (simp add: mult_le_cancel_right flip: mult.assoc)
  moreover have "100 \<le> dec_one" by (simp add: dec_one_def)
  ultimately show ?thesis
    using two_roundings [of q "int p" "int t" dec_one r "int a" "int s"]
      quo_nearest [OF r] round_nearest [OF s] pos assms(2-5)
    by simp
qed

lemma uncapped_share_accurate:
  assumes "uncapped_share_body D p t a \<noteq> None" and "0 < p" and "0 < t"
    and "100 * int p \<le> int t * dec_one" and "4 * int (a * p * p) \<le> int (t * t) * dec_one"
  shows "GetUncappedShare D p t a * t < a * p + t \<and> a * p < GetUncappedShare D p t a * t + t"
proof -
  from assms(1) obtain s where s: "uncapped_share_body D p t a = Some s" by auto
  then have "\<bar>int s * int t - int a * int p\<bar> < int t"
    using body_accurate assms by simp
  then have "int (s * t) < int (a * p + t)" and "int (a * p) < int (s * t + t)"
    by (auto simp: abs_less_iff)
  then have "s * t < a * p + t" and "a * p < s * t + t" by linarith+
  with s assms show ?thesis by (simp add: GetUncappedShare_def)
qed

text \<open>
  For allocations up to \<open>10^17\<close> (the supply of the native asset is below that) the conditions hold
  for every part of the total.
\<close>

lemma share_accurate:
  assumes "0 < p" and "p \<le> t" and "a \<le> 10 ^ 17" and "uncapped_share_body D p t a \<noteq> None"
  shows "GetUncappedShare D p t a * t < a * p + t \<and> a * p < GetUncappedShare D p t a * t + t"
proof (rule uncapped_share_accurate [OF assms(4)])
  show "100 * int p \<le> int t * dec_one" using assms(1,2) by (simp add: dec_one_def)
  have "a * (p * p) \<le> 10 ^ 17 * (t * t)" using assms(2,3) by (intro mult_le_mono) auto
  then have "4 * (a * p * p) \<le> t * t * 10 ^ 18" by simp
  then have "int (4 * (a * p * p)) \<le> int (t * t * 10 ^ 18)" by (simp only: of_nat_le_iff)
  then show "4 * int (a * p * p) \<le> int (t * t) * dec_one" by (simp add: dec_one_def)
qed (use assms in auto)

text \<open>A share of in-range amounts is never lost to the recovered panic.\<close>

lemma quo_ints_returns:
  assumes "1 \<le> b" and "0 \<le> a" and "a * dec_one < dec_range"
  shows "\<exists>q. dec_quo D a b = Some q"
proof -
  have "(dec_range - 1) * 1 \<le> (dec_range - 1) * b"
    using assms(1) by (intro mult_left_mono) (auto simp: dec_range_def)
  with assms have "\<bar>a * dec_one\<bar> \<le> (dec_range - 1) * \<bar>b\<bar>"
    using abs_of_nonneg [of "a * dec_one"] by simp
  from quo_returns [OF _ this] assms(1) show ?thesis by auto
qed

lemma body_returns:
  assumes "0 < p" and "100 * int p \<le> int t * dec_one" and "int p * dec_one < dec_range"
    and "int t * dec_one * dec_one < dec_range" and "int a * dec_one * dec_one < dec_range"
  shows "uncapped_share_body D p t a \<noteq> None"
proof -
  let ?U = dec_one
  have U: "1 \<le> ?U" by (simp add: dec_one_def)
  have wide: "int n * ?U \<le> int n * ?U * ?U" for n using mult_left_mono [OF U, of "int n * ?U"] by simp
  have p1: "1 \<le> int p * ?U" using U assms(1) mult_mono [of 1 "int p" 1 ?U] by simp
  from quo_ints_returns [OF p1 _ assms(4)]
  obtain q where q: "dec_quo D (int t * ?U) (int p * ?U) = Some q" by auto
  have q1: "1 \<le> q" using ratio_pos [OF q assms(1,2)] by simp
  from quo_ints_returns [OF q1 _ assms(5)]
  obtain r where r: "dec_quo D (int a * ?U) q = Some r" by auto
  have near: "2 * \<bar>r * q - int a * ?U * ?U\<bar> \<le> q" using quo_nearest [OF r] q1 by simp
  have "int a * ?U * ?U * 1 \<le> int a * ?U * ?U * q" using q1 by (intro mult_left_mono) auto
  then have bounds: "0 \<le> r" "r \<le> int a * ?U * ?U"
    using nearest_ge [OF _ near, of 0] nearest_le [OF _ near, of "int a * ?U * ?U"] q1 by auto
  moreover have "dec_range \<le> (int uint_lim - 1) * ?U"
    by (simp add: dec_range_def uint_lim_def dec_one_def)
  ultimately have lim: "0 \<le> r" "r \<le> (int uint_lim - 1) * ?U" using assms(5) by linarith+
  then have "\<bar>r\<bar> \<le> (int uint_lim - 1) * ?U" by simp
  from round_returns [OF this] obtain n where n: "dec_round D r = Some n" by auto
  have "0 \<le> n" "n \<le> int uint_lim - 1"
    using nearest_ge [OF dec_one_pos(1) round_nearest [OF n], of 0]
      nearest_le [OF dec_one_pos(1) round_nearest [OF n] lim(2)] lim by auto
  moreover have "int t * ?U < dec_range" "int a * ?U < dec_range"
    using wide [of t] wide [of a] assms(4,5) by linarith+
  ultimately show ?thesis
    using n q r assms(3) by (simp add: uncapped_share_body_def of_uint_in_range nat_less_iff)
qed

lemma capped_body_returns:
  assumes "0 < p" and "p \<le> t" and "int t * dec_one * dec_one < dec_range"
    and "int a * dec_one * dec_one < dec_range"
  shows "uncapped_share_body D p t a \<noteq> None"
proof (rule body_returns [OF assms(1) _ _ assms(3,4)])
  show "100 * int p \<le> int t * dec_one" using assms(1,2) by (simp add: dec_one_def)
  have "int p * dec_one \<le> int t * dec_one" using assms(2) by (intro mult_right_mono) auto
  also have "\<dots> \<le> int t * dec_one * dec_one"
    using mult_left_mono [of 1 dec_one "int t * dec_one"] by (simp add: dec_one_def)
  also note assms(3)
  finally show "int p * dec_one < dec_range" .
qed

end

section \<open>A concrete decimal library\<close>

definition round_half_even :: "int \<Rightarrow> int \<Rightarrow> int" where
  "round_half_even n d = (let q = n div d; r = n mod d in
     if 2 * r < d then q else if d < 2 * r then q + 1 else if even q then q else q + 1)"

definition dec_chk :: "int \<Rightarrow> int \<Rightarrow> int option" where
  "dec_chk lim c = (if \<bar>c\<bar> < lim then Some c else None)"

definition legacy_dec :: dec_lib where
  "legacy_dec = \<lparr>
     dec_of_uint = (\<lambda>n. dec_chk dec_range (int n * dec_one)),
     dec_add = (\<lambda>a b. dec_chk dec_range (a + b)),
     dec_quo = (\<lambda>a b. if b = 0 then None
        else dec_chk dec_range (round_half_even (a * dec_one * sgn b) \<bar>b\<bar>)),
     dec_mul = (\<lambda>a b. dec_chk dec_range (round_half_even (a * b) dec_one)),
     dec_round = (\<lambda>a. dec_chk (int uint_lim) (round_half_even a dec_one)),
     dec_trunc = (\<lambda>a. dec_chk (int uint_lim) (sgn a * (\<bar>a\<bar> div dec_one)))\<rparr>"

lemma round_half_even_nearest:
  assumes "0 < d"
  shows "2 * \<bar>round_half_even n d * d - n\<bar> \<le> d"
proof -
  have "n div d * d = n - n mod d" by (simp add: minus_mod_eq_div_mult)
  moreover have "0 \<le> n mod d" "n mod d < d" using assms by auto
  ultimately show ?thesis
    by (auto simp: round_half_even_def Let_def distrib_right)
qed

lemma round_half_even_bound:
  assumes "0 < d" and "\<bar>n\<bar> \<le> m * d"
  shows "\<bar>round_half_even n d\<bar> \<le> m"
proof -
  have "n \<le> m * d" and "- m * d \<le> n" using assms(2) by auto
  then show ?thesis
    using nearest_le [OF assms(1) round_half_even_nearest [OF assms(1)], of n m]
      nearest_ge [OF assms(1) round_half_even_nearest [OF assms(1)], of "- m" n] by auto
qed

interpretation legacy: dec_laws legacy_dec
proof unfold_locales
  fix a b c :: int
  show "dec_quo legacy_dec a b = Some c \<Longrightarrow> b \<noteq> 0 \<and> 2 * \<bar>c * b - a * dec_one\<bar> \<le> \<bar>b\<bar>"
  proof -
    assume "dec_quo legacy_dec a b = Some c"
    then have b: "b \<noteq> 0" and c: "c = round_half_even (a * dec_one * sgn b) \<bar>b\<bar>"
      by (auto simp: legacy_dec_def dec_chk_def split: if_splits)
    have "2 * \<bar>c * \<bar>b\<bar> - a * dec_one * sgn b\<bar> \<le> \<bar>b\<bar>"
      unfolding c using b by (intro round_half_even_nearest) simp
    moreover have "\<bar>c * \<bar>b\<bar> - a * dec_one * sgn b\<bar> = \<bar>c * b - a * dec_one\<bar>"
      using b by (cases "0 < b") (auto simp: sgn_if abs_if)
    ultimately show ?thesis using b by simp
  qed
next
  fix a b :: int
  assume b: "b \<noteq> 0" and le: "\<bar>a * dec_one\<bar> \<le> (dec_range - 1) * \<bar>b\<bar>"
  have "\<bar>a * dec_one * sgn b\<bar> = \<bar>a * dec_one\<bar>" using b by (simp add: abs_mult)
  with le b have "\<bar>round_half_even (a * dec_one * sgn b) \<bar>b\<bar>\<bar> \<le> dec_range - 1"
    by (intro round_half_even_bound) auto
  with b show "dec_quo legacy_dec a b \<noteq> None" by (simp add: legacy_dec_def dec_chk_def)
next
  fix a b :: int
  assume "\<bar>a * b\<bar> \<le> (dec_range - 1) * dec_one"
  then have "\<bar>round_half_even (a * b) dec_one\<bar> \<le> dec_range - 1"
    by (intro round_half_even_bound) auto
  then show "dec_mul legacy_dec a b \<noteq> None" by (simp add: legacy_dec_def dec_chk_def)
next
  fix a :: int
  assume "\<bar>a\<bar> \<le> (int uint_lim - 1) * dec_one"
  then have "\<bar>round_half_even a dec_one\<bar> \<le> int uint_lim - 1"
    by (intro round_half_even_bound) auto
  then show "dec_round legacy_dec a \<noteq> None" by (simp add: legacy_dec_def dec_chk_def)
next
  fix a r :: int
  assume "dec_trunc legacy_dec a = Some r" and "0 \<le> a"
  then show "r = a div dec_one"
    by (cases "a = 0") (auto simp: legacy_dec_def dec_chk_def split: if_splits)
next
  fix a :: int
  assume "0 \<le> a" and "a \<le> (int uint_lim - 1) * dec_one"
  then have "a div dec_one \<le> int uint_lim - 1" and "0 \<le> a div dec_one"
    using zdiv_mono1 [of a "(int uint_lim - 1) * dec_one" dec_one] by (auto simp: pos_imp_zdiv_nonneg_iff)
  with \<open>0 \<le> a\<close> show "dec_trunc legacy_dec a \<noteq> None"
    by (cases "a = 0") (auto simp: legacy_dec_def dec_chk_def)
qed (auto simp: legacy_dec_def dec_chk_def round_half_even_nearest abs_mult split: if_splits)

lemma dec_in_range:
  assumes "n < 10 ^ 58"
  shows "int n * dec_one * dec_one < dec_range" and "int n * dec_one < dec_range"
proof -
  from assms have "int n < int (10 ^ 58)" by (simp only: of_nat_less_iff)
  then show "int n * dec_one * dec_one < dec_range" and "int n * dec_one < dec_range"
    by (simp_all add: dec_one_def dec_range_def)
qed

lemmas legacy_eval = legacy_dec_def dec_chk_def round_half_even_def dec_one_def dec_range_def

section \<open>Properties of the share functions\<close>

text \<open>A capped share never exceeds the allocation, whatever the part and the total are.\<close>

theorem safe_share_bounded:
  assumes "dec_laws D"
  shows "GetSafeShare D part tot allocation \<le> allocation"
  by (rule dec_laws.safe_share_le [OF assms])

theorem safe_share_bounded_witness:
  "dec_laws legacy_dec \<and> GetSafeShare legacy_dec 7 3 100 \<le> 100"
  using safe_share_bounded [OF legacy.dec_laws_axioms, of 7 3 100] legacy.dec_laws_axioms by simp

text \<open>C24. A share of an allocation of at most \<open>10^17\<close> differs from the exact proportion
  \<open>allocation * part / total\<close> by less than one unit, in both directions: the two roundings of the
  decimal library lose nothing more, and the recovered panic never sets in.\<close>

theorem safe_share_accurate:
  assumes "dec_laws D" and "0 < part" and "part \<le> tot" and "tot < 10 ^ 58" and "allocation \<le> 10 ^ 17"
  shows "GetSafeShare D part tot allocation * tot < allocation * part + tot
    \<and> allocation * part < GetSafeShare D part tot allocation * tot + tot"
proof -
  have eq: "GetSafeShare D part tot allocation = GetUncappedShare D part tot allocation"
    using assms(3) by (simp add: GetSafeShare_def)
  have "allocation < 10 ^ 58" using assms(5) by simp
  then have "uncapped_share_body D part tot allocation \<noteq> None"
    by (intro dec_laws.capped_body_returns [OF assms(1-3)] dec_in_range assms(4))
  then show ?thesis unfolding eq by (rule dec_laws.share_accurate [OF assms(1-3,5)])
qed

theorem safe_share_accurate_witness:
  "GetSafeShare legacy_dec 1 3 (10 ^ 17) * 3 < 10 ^ 17 * 1 + 3
    \<and> (10 ^ 17 * 1 :: nat) < GetSafeShare legacy_dec 1 3 (10 ^ 17) * 3 + 3"
  by (rule safe_share_accurate [OF legacy.dec_laws_axioms]) simp_all

end
