(* ===== verification/Coins.thy ===== *)
theory Coins
  imports Assets Shares
begin

text \<open>
  Coins, gas, transactions and keys: \<^verbatim>\<open>src/common/coin.go\<close>, \<^verbatim>\<open>gas.go\<close>, \<^verbatim>\<open>tx.go\<close>, \<^verbatim>\<open>address.go\<close>
  (comparison only), \<^verbatim>\<open>pubkey.go\<close> (comparison and membership) and \<^verbatim>\<open>type_observed_tx.go\<close>.
  Bech32 decoding and the derivation of an account address from a public key belong to the SDK: they
  are the fields of the parameter \<open>K\<close>.
\<close>

section \<open>common/coin.go\<close>

record coin =
  cAsset :: asset
  cAmount :: uint
  cDecimals :: int

type_synonym coins = "coin list"

definition NewCoin :: "asset \<Rightarrow> uint \<Rightarrow> coin" where
  "NewCoin a n = \<lparr>cAsset = a, cAmount = n, cDecimals = 0\<rparr>"

definition NoCoin :: coin where
  "NoCoin = NewCoin EmptyAsset 0"

definition Coin_Equals :: "coin \<Rightarrow> coin \<Rightarrow> bool" where
  "Coin_Equals c cc \<longleftrightarrow> Asset_Equals (cAsset c) (cAsset cc) \<and> cAmount c = cAmount cc"

definition Coin_IsEmpty :: "coin \<Rightarrow> bool" where
  "Coin_IsEmpty c \<longleftrightarrow> Asset_IsEmpty (cAsset c) \<or> cAmount c = 0"

definition Coin_Valid :: "coin \<Rightarrow> unit res" where
  "Coin_Valid c =
     (if Asset_IsEmpty (cAsset c) then Inl (Err ''denom cannot be empty'')
      else if cAmount c = 0 then Inl (Err ''amount cannot be zero'')
      else Inr ())"

definition Coin_IsNative :: "coin \<Rightarrow> bool" where
  "Coin_IsNative c = Chain_Equals (GetChain (cAsset c)) SWITCHLYChain"

definition Coin_IsSwitch :: "coin \<Rightarrow> bool" where
  "Coin_IsSwitch c = IsSwitch (cAsset c)"

definition Coin_IsSWCY :: "coin \<Rightarrow> bool" where
  "Coin_IsSWCY c = IsSWCY (cAsset c)"

text \<open>The coin of the bank module: a denomination and an amount.\<close>

type_synonym bank_coin = "string \<times> uint"

definition Coin_Native :: "coin \<Rightarrow> bank_coin res" where
  "Coin_Native c =
     (if \<not> Coin_IsNative c then Inl (Err ''coin is not on switchly'')
      else Inr (Asset_Native (cAsset c), cAmount c))"

definition WithDecimals :: "coin \<Rightarrow> int \<Rightarrow> coin" where
  "WithDecimals c d = c\<lparr>cDecimals := d\<rparr>"

definition Coins_Valid :: "coins \<Rightarrow> unit res" where
  "Coins_Valid cs = res_fold (\<lambda>c _. Coin_Valid c) cs ()"

definition coin_less :: "coin \<Rightarrow> coin \<Rightarrow> bool" where
  "coin_less c d = str_less (Asset_String (cAsset c)) (Asset_String (cAsset d))"

definition EqualsEx :: "coins \<Rightarrow> coins \<Rightarrow> bool" where
  "EqualsEx cs cs2 \<longleftrightarrow> length cs = length cs2
     \<and> list_all2 Coin_Equals (sort_by coin_less cs) (sort_by coin_less cs2)"

definition Coins_IsEmpty :: "coins \<Rightarrow> bool" where
  "Coins_IsEmpty cs = list_all Coin_IsEmpty cs"

fun Coins_Native :: "coins \<Rightarrow> bank_coin list res" where
  "Coins_Native [] = Inr []"
| "Coins_Native (c # cs) = res_bind (Coin_Native c) (\<lambda>n. res_map ((#) n) (Coins_Native cs))"

definition Coins_Contains :: "coins \<Rightarrow> coin \<Rightarrow> bool" where
  "Coins_Contains cs c = list_ex (Coin_Equals c) cs"

definition GetCoin :: "coins \<Rightarrow> asset \<Rightarrow> coin" where
  "GetCoin cs a = (case find (\<lambda>item. Asset_Equals a (cAsset item)) cs of Some c \<Rightarrow> c | None \<Rightarrow> NoCoin)"

definition Coins_Distinct :: "coins \<Rightarrow> coins" where
  "Coins_Distinct cs =
     fold (\<lambda>item acc. if Coins_Contains acc item then acc else acc @ [item]) cs []"

text \<open>One iteration of the outer loop of \<open>Add\<close>: add to the first coin of the asset, or append.\<close>

fun add_coin :: "coins \<Rightarrow> coin \<Rightarrow> coins res" where
  "add_coin [] c = Inr [c]"
| "add_coin (x # xs) c =
     (if Asset_Equals (cAsset x) (cAsset c)
      then res_map (\<lambda>n. x\<lparr>cAmount := n\<rparr> # xs) (uint_add (cAmount x) (cAmount c))
      else res_map ((#) x) (add_coin xs c))"

definition Coins_Add :: "coins \<Rightarrow> coins \<Rightarrow> coins res" where
  "Coins_Add oldCoins addCoins = res_fold (\<lambda>c cs. add_coin cs c) addCoins oldCoins"

definition sub_coin :: "coins \<Rightarrow> coin \<Rightarrow> coins" where
  "sub_coin cs c = update_first (\<lambda>x. Asset_Equals (cAsset x) (cAsset c))
     (\<lambda>x. x\<lparr>cAmount := SafeSub (cAmount x) (cAmount c)\<rparr>) cs"

definition Coins_SafeSub :: "coins \<Rightarrow> coins \<Rightarrow> coins" where
  "Coins_SafeSub oldCoins subCoins = fold (\<lambda>c cs. sub_coin cs c) subCoins oldCoins"

definition HasSynthetic :: "coins \<Rightarrow> bool" where
  "HasSynthetic cs = list_ex (\<lambda>c. aSynth (cAsset c)) cs"

definition NoneEmpty :: "coins \<Rightarrow> coins" where
  "NoneEmpty cs = filter (\<lambda>c. \<not> Coin_IsEmpty c) cs"

section \<open>common/gas.go\<close>

type_synonym gas = "coin list"

definition uint_of_int :: "int \<Rightarrow> uint res" where
  "uint_of_int n = (if n < 0 then Inl (Panic ''Uint underflow'') else uint_chk (nat n))"

definition GetEVMGasFee :: "chain \<Rightarrow> int \<Rightarrow> nat \<Rightarrow> gas res" where
  "GetEVMGasFee ch gasPrice msgLen =
     res_bind (uint_mul 68 msgLen) (\<lambda>gasBytes.
     res_bind (uint_add 21000 gasBytes) (\<lambda>g.
     res_bind (uint_of_int gasPrice) (\<lambda>p.
     res_bind (uint_mul g p) (\<lambda>n. Inr [NewCoin (GetGasAsset ch) n]))))"

definition MakeEVMGas :: "chain \<Rightarrow> int \<Rightarrow> nat \<Rightarrow> int option \<Rightarrow> gas res" where
  "MakeEVMGas ch gasPrice g layer1Fee =
     res_bind (uint_of_int gasPrice) (\<lambda>p.
     res_bind (uint_mul g p) (\<lambda>base.
     res_bind (case layer1Fee of None \<Rightarrow> Inr base
               | Some fee \<Rightarrow> res_bind (uint_of_int fee) (uint_add base)) (\<lambda>unrounded.
     res_bind (uint_quo unrounded (10 ^ 10)) (\<lambda>rounded.
     res_bind (uint_mul rounded (10 ^ 10)) (\<lambda>back.
     res_bind (if back < unrounded \<or> rounded = 0 then uint_add rounded 1 else Inr rounded) (\<lambda>n.
       Inr [NewCoin (GetGasAsset ch) n]))))))"

definition Gas_Equals :: "gas \<Rightarrow> gas \<Rightarrow> bool" where
  "Gas_Equals g gas2 = EqualsEx g gas2"

definition ToCoins :: "gas \<Rightarrow> coins" where
  "ToCoins g = map (\<lambda>c. NewCoin (cAsset c) (cAmount c)) g"

text \<open>\<open>Adds_deprecated\<close> adds to every coin of the asset and appends the coins without a match.\<close>

fun add_all_matching :: "gas \<Rightarrow> coin \<Rightarrow> gas res" where
  "add_all_matching [] c = Inr []"
| "add_all_matching (x # xs) c =
     res_bind (if Asset_Equals (cAsset x) (cAsset c)
               then res_map (\<lambda>n. x\<lparr>cAmount := n\<rparr>) (uint_add (cAmount x) (cAmount c)) else Inr x)
       (\<lambda>y. res_map ((#) y) (add_all_matching xs c))"

definition Adds_deprecated :: "gas \<Rightarrow> gas \<Rightarrow> gas res" where
  "Adds_deprecated g g2 =
     res_map (\<lambda>(g', new). g' @ new)
       (res_fold (\<lambda>gc2 (g', new).
          if list_ex (\<lambda>gc1. Asset_Equals (cAsset gc1) (cAsset gc2)) g'
          then res_map (\<lambda>g''. (g'', new)) (add_all_matching g' gc2)
          else Inr (g', new @ [gc2])) g2 (g, []))"

section \<open>Addresses, keys and transaction ids\<close>

type_synonym address = string
type_synonym acc = string
type_synonym pubkey = string
type_synonym txid = string

record key_lib =
  acc_from_bech32 :: "string \<Rightarrow> acc option"
  acc_string :: "acc \<Rightarrow> string"
  pubkey_from_bech32 :: "string \<Rightarrow> bool"
  pubkey_acc :: "pubkey \<Rightarrow> acc option"

definition acc_ok :: "acc \<Rightarrow> bool" where
  "acc_ok a \<longleftrightarrow> a \<noteq> [] \<and> length a \<le> 255"

text \<open>
  What the code relies on: account addresses have 1 to 255 bytes, the printed form of such an address
  decodes to it, and only such addresses are decoded.
\<close>

definition keys_ok :: "key_lib \<Rightarrow> bool" where
  "keys_ok K \<longleftrightarrow> (\<forall>a. acc_ok a \<longrightarrow> acc_from_bech32 K (acc_string K a) = Some a)
     \<and> (\<forall>s a. acc_from_bech32 K s = Some a \<longrightarrow> acc_ok a)"

text \<open>A concrete key library, in which text is its own encoding.\<close>

definition plain_keys :: key_lib where
  "plain_keys = \<lparr>acc_from_bech32 = (\<lambda>s. if s = [] \<or> 255 < length s then None else Some s),
     acc_string = (\<lambda>a. a), pubkey_from_bech32 = (\<lambda>s. hd s \<noteq> CHR ''!''), pubkey_acc = Some\<rparr>"

lemma plain_keys_ok: "keys_ok plain_keys"
  by (auto simp: keys_ok_def acc_ok_def plain_keys_def)

definition Address_Equals :: "address \<Rightarrow> address \<Rightarrow> bool" where
  "Address_Equals a b = equal_fold a b"

definition Address_IsEmpty :: "address \<Rightarrow> bool" where
  "Address_IsEmpty a = is_blank a"

definition IsNoop :: "address \<Rightarrow> bool" where
  "IsNoop a = Address_Equals a ''noop''"

definition NewPubKey :: "key_lib \<Rightarrow> string \<Rightarrow> pubkey res" where
  "NewPubKey K key =
     (if length key = 0 then Inr ''''
      else if \<not> pubkey_from_bech32 K key then Inl (Err ''not bech32 encoded pub key'')
      else Inr key)"

definition PubKeys_Contains :: "pubkey list \<Rightarrow> pubkey \<Rightarrow> bool" where
  "PubKeys_Contains p pk = list_ex (\<lambda>pp. pp = pk) p"

definition PubKeys_Equals :: "pubkey list \<Rightarrow> pubkey list \<Rightarrow> bool" where
  "PubKeys_Equals p newPks \<longleftrightarrow> length p = length newPks
     \<and> list_all2 (=) (sort_by str_less p) (sort_by str_less newPks)"

text \<open>The loops that keep the decodable entries of a list of strings.\<close>

definition parse_accs :: "key_lib \<Rightarrow> string list \<Rightarrow> acc list" where
  "parse_accs K xs = List.map_filter (acc_from_bech32 K) xs"

definition parse_pubkeys :: "key_lib \<Rightarrow> string list \<Rightarrow> pubkey list" where
  "parse_pubkeys K xs =
     List.map_filter (\<lambda>s. case NewPubKey K s of Inl _ \<Rightarrow> None | Inr pk \<Rightarrow> Some pk) xs"

lemma parse_pubkeys_all:
  "(\<And>s. s \<in> set xs \<Longrightarrow> NewPubKey K s = Inr s) \<Longrightarrow> parse_pubkeys K xs = xs"
  by (induction xs) (auto simp: parse_pubkeys_def List.map_filter_simps)

definition BlankTxID :: txid where
  "BlankTxID = replicate 64 CHR ''0''"

definition NewTxID :: "string \<Rightarrow> txid res" where
  "NewTxID hash =
     (if length hash = 64 then Inr (to_upper hash)
      else if length hash = 66 then
        (if \<not> has_prefix hash ''0x'' then Inl (Err ''txid error: must be 66 characters'')
         else Inr (to_upper hash))
      else Inl (Err ''txid error: must be 64 characters''))"

definition TxID_Equals :: "txid \<Rightarrow> txid \<Rightarrow> bool" where
  "TxID_Equals t t2 = equal_fold t t2"

definition TxID_IsEmpty :: "txid \<Rightarrow> bool" where
  "TxID_IsEmpty t = is_blank t"

definition IsBlank :: "txid \<Rightarrow> bool" where
  "IsBlank t = TxID_Equals t BlankTxID"

definition TxID_Reverse :: "txid \<Rightarrow> txid" where
  "TxID_Reverse t = rev t"

section \<open>common/tx.go\<close>

record tx =
  tID :: txid
  tChain :: chain
  tFromAddress :: address
  tToAddress :: address
  tCoins :: coins
  tGas :: gas
  tMemo :: string

definition NewTx :: "txid \<Rightarrow> address \<Rightarrow> address \<Rightarrow> coins \<Rightarrow> gas \<Rightarrow> string \<Rightarrow> tx" where
  "NewTx i from to cs g memo = \<lparr>tID = i,
     tChain = (case cs of [] \<Rightarrow> '''' | c # _ \<Rightarrow> GetChain (cAsset c)),
     tFromAddress = from, tToAddress = to, tCoins = cs, tGas = g, tMemo = memo\<rparr>"

definition GetRagnarokTx :: "chain \<Rightarrow> address \<Rightarrow> address \<Rightarrow> tx" where
  "GetRagnarokTx ch fromAddr toAddr = (let blankAsset = mk_asset ch ''BLANK'' ''BLANK'' in
     \<lparr>tID = BlankTxID, tChain = ch, tFromAddress = fromAddr, tToAddress = toAddr,
      tCoins = [NewCoin blankAsset 1], tGas = [NewCoin blankAsset 1], tMemo = ''Ragnarok''\<rparr>)"

definition Tx_IsEmpty :: "tx \<Rightarrow> bool" where
  "Tx_IsEmpty t = TxID_IsEmpty (tID t)"

definition Tx_EqualsEx :: "tx \<Rightarrow> tx \<Rightarrow> bool" where
  "Tx_EqualsEx t t2 \<longleftrightarrow> TxID_Equals (tID t) (tID t2) \<and> Chain_Equals (tChain t) (tChain t2)
     \<and> Address_Equals (tFromAddress t) (tFromAddress t2)
     \<and> Address_Equals (tToAddress t) (tToAddress t2)
     \<and> EqualsEx (tCoins t) (tCoins t2) \<and> Gas_Equals (tGas t) (tGas t2)
     \<and> equal_fold (tMemo t) (tMemo t2)"

definition Tx_Valid :: "tx \<Rightarrow> unit res" where
  "Tx_Valid t =
     (if TxID_IsEmpty (tID t) then Inl (Err ''Tx ID cannot be empty'')
      else if Address_IsEmpty (tFromAddress t) then Inl (Err ''from address cannot be empty'')
      else if Address_IsEmpty (tToAddress t) then Inl (Err ''to address cannot be empty'')
      else if Chain_IsEmpty (tChain t) then Inl (Err ''chain cannot be empty'')
      else if tCoins t = [] then Inl (Err ''must have at least 1 coin'')
      else res_bind (Coins_Valid (tCoins t)) (\<lambda>_.
        if \<not> Chain_Equals (tChain t) SWITCHLYChain \<and> tGas t = []
          then Inl (Err ''must have at least 1 gas coin'')
        else res_bind (Coins_Valid (tGas t)) (\<lambda>_.
          if length (tMemo t) > MaxMemoSize then Inl (Err ''memo must not exceed 250 bytes'')
          else Inr ())))"

section \<open>Containers of coins: one contract\<close>

text \<open>
  A list of coins, a gas list and a vault all keep amounts per asset, credit a coin and debit a coin
  (never below zero). The laws say how the amount recorded for any asset changes.
\<close>

locale coin_container =
  fixes amount_of :: "'c \<Rightarrow> asset \<Rightarrow> uint"
    and credit :: "'c \<Rightarrow> coin \<Rightarrow> 'c res"
    and debit :: "'c \<Rightarrow> coin \<Rightarrow> 'c"
  assumes amount_credit: "credit s c = Inr s' \<Longrightarrow>
      amount_of s' a = amount_of s a + (if Asset_Equals a (cAsset c) then cAmount c else 0)"
    and credit_returns: "amount_of s (cAsset c) + cAmount c < uint_lim \<Longrightarrow> \<exists>s'. credit s c = Inr s'"
    and amount_debit:
      "amount_of (debit s c) a = amount_of s a - (if Asset_Equals a (cAsset c) then cAmount c else 0)"
begin

lemma debit_credit: "credit s c = Inr s' \<Longrightarrow> amount_of (debit s' c) a = amount_of s a"
  by (simp add: amount_debit amount_credit)

lemma amount_credit_all:
  assumes "res_fold (\<lambda>c s. credit s c) cs s = Inr s'"
  shows "amount_of s' a = amount_of s a + sum_list (map cAmount (filter (\<lambda>c. Asset_Equals a (cAsset c)) cs))"
  using assms by (induction cs arbitrary: s) (auto simp: res_simps amount_credit)

lemma amount_debit_all:
  "amount_of (fold (\<lambda>c s. debit s c) cs s) a =
     amount_of s a - sum_list (map cAmount (filter (\<lambda>c. Asset_Equals a (cAsset c)) cs))"
  by (induction cs arbitrary: s) (auto simp: amount_debit)

lemma debit_all_credit_all:
  assumes "res_fold (\<lambda>c s. credit s c) cs s = Inr s'"
  shows "amount_of (fold (\<lambda>c s. debit s c) cs s') a = amount_of s a"
  by (simp add: amount_debit_all amount_credit_all [OF assms])

end

text \<open>The lookups of the containers depend on the asset only up to equality.\<close>

lemma Asset_Equals_cong: "Asset_Equals a b \<Longrightarrow> Asset_Equals a c = Asset_Equals b c"
  by (simp add: Asset_Equals_key)

lemma GetCoin_simps [simp]:
  "GetCoin [] a = NoCoin"
  "GetCoin (x # xs) a = (if Asset_Equals a (cAsset x) then x else GetCoin xs a)"
  by (simp_all add: GetCoin_def)

lemma NoCoin_amount [simp]: "cAmount NoCoin = 0"
  by (simp add: NoCoin_def NewCoin_def)

lemma amount_add_coin:
  "add_coin cs c = Inr cs' \<Longrightarrow>
     cAmount (GetCoin cs' a) = cAmount (GetCoin cs a) + (if Asset_Equals a (cAsset c) then cAmount c else 0)"
proof (induction cs arbitrary: cs')
  case (Cons x xs)
  then show ?case
    by (auto simp: res_simps uint_simps Asset_Equals_key split: if_splits)
qed auto

lemma add_coin_returns:
  "cAmount (GetCoin cs (cAsset c)) + cAmount c < uint_lim \<Longrightarrow> \<exists>cs'. add_coin cs c = Inr cs'"
  by (induction cs) (auto simp: res_simps uint_simps Asset_Equals_key split: if_splits)

lemma amount_sub_coin:
  "cAmount (GetCoin (sub_coin cs c) a) =
     cAmount (GetCoin cs a) - (if Asset_Equals a (cAsset c) then cAmount c else 0)"
  by (induction cs) (auto simp: sub_coin_def Asset_Equals_key)

interpretation coin_list: coin_container "\<lambda>cs a. cAmount (GetCoin cs a)" add_coin sub_coin
  by unfold_locales (auto simp: amount_add_coin amount_sub_coin intro: add_coin_returns)

text \<open>A list of coins with one entry per asset stays one.\<close>

definition one_per_asset :: "coins \<Rightarrow> bool" where
  "one_per_asset cs \<longleftrightarrow> distinct (map (asset_key \<circ> cAsset) cs)"

lemma add_coin_keys:
  "add_coin cs c = Inr cs' \<Longrightarrow>
     map (asset_key \<circ> cAsset) cs' = map (asset_key \<circ> cAsset) cs
       @ (if asset_key (cAsset c) \<in> set (map (asset_key \<circ> cAsset) cs) then [] else [asset_key (cAsset c)])"
  by (induction cs arbitrary: cs') (auto simp: res_simps uint_simps Asset_Equals_key split: if_splits)

lemma one_per_asset_add: "add_coin cs c = Inr cs' \<Longrightarrow> one_per_asset cs \<Longrightarrow> one_per_asset cs'"
  unfolding one_per_asset_def by (drule add_coin_keys) auto

lemma one_per_asset_Coins_Add:
  "Coins_Add cs ds = Inr cs' \<Longrightarrow> one_per_asset cs \<Longrightarrow> one_per_asset cs'"
  unfolding Coins_Add_def by (rule res_fold_invariant) (auto intro: one_per_asset_add)

lemma one_per_asset_sub: "one_per_asset (sub_coin cs c) = one_per_asset cs"
  unfolding one_per_asset_def sub_coin_def by (subst map_update_first) auto

section \<open>Equality of coin lists and transactions\<close>

lemma Coin_Equals_equiv:
  "Coin_Equals c c" "Coin_Equals c d \<longleftrightarrow> Coin_Equals d c"
  "Coin_Equals c d \<Longrightarrow> Coin_Equals d e \<Longrightarrow> Coin_Equals c e"
  by (auto simp: Coin_Equals_def Asset_Equals_key)

lemma EqualsEx_refl [simp]: "EqualsEx cs cs"
  by (simp add: EqualsEx_def list_all2_refl Coin_Equals_equiv(1))

lemma EqualsEx_sym: "EqualsEx cs ds \<Longrightarrow> EqualsEx ds cs"
  unfolding EqualsEx_def
  by (auto simp: list_all2_conv_all_nth Coin_Equals_equiv(2))

lemma EqualsEx_trans: "EqualsEx cs ds \<Longrightarrow> EqualsEx ds es \<Longrightarrow> EqualsEx cs es"
  unfolding EqualsEx_def
  by (auto intro: list_all2_trans [of Coin_Equals Coin_Equals Coin_Equals] Coin_Equals_equiv(3))

lemma Tx_EqualsEx_refl [simp]: "Tx_EqualsEx t t"
  by (simp add: Tx_EqualsEx_def TxID_Equals_def Chain_Equals_def Address_Equals_def Gas_Equals_def)

lemma Tx_EqualsEx_sym: "Tx_EqualsEx t u \<longleftrightarrow> Tx_EqualsEx u t"
  by (auto simp: Tx_EqualsEx_def TxID_Equals_def Chain_Equals_def Address_Equals_def Gas_Equals_def
      equal_fold_def intro: EqualsEx_sym)

lemma Tx_EqualsEx_trans: "Tx_EqualsEx t u \<Longrightarrow> Tx_EqualsEx u v \<Longrightarrow> Tx_EqualsEx t v"
  by (auto simp: Tx_EqualsEx_def TxID_Equals_def Chain_Equals_def Address_Equals_def Gas_Equals_def
      equal_fold_def intro: EqualsEx_trans)

section \<open>Gas amounts round up\<close>

lemma round_up_units:
  fixes x d :: nat
  assumes "0 < d" and n: "n = (if x div d * d < x \<or> x div d = 0 then x div d + 1 else x div d)"
  shows "0 < n \<and> x \<le> n * d \<and> (n - 1) * d \<le> x"
proof -
  define q where "q = x div d"
  define m where "m = x mod d"
  have x: "x = q * d + m" and "m < d" using assms(1) by (simp_all add: q_def m_def)
  have "n = (if q * d < x \<or> q = 0 then q + 1 else q)" using n by (simp add: q_def)
  moreover have "(q - 1) * d \<le> q * d" by (intro mult_le_mono) auto
  ultimately show ?thesis using \<open>m < d\<close> by (auto simp: x split: if_splits)
qed

lemma MakeEVMGas_amount:
  assumes "MakeEVMGas ch price g fee = Inr gs"
  shows "\<exists>n. gs = [NewCoin (GetGasAsset ch) n] \<and> 0 < n
     \<and> nat price * g + (case fee of None \<Rightarrow> 0 | Some f \<Rightarrow> nat f) \<le> n * 10 ^ 10
     \<and> (n - 1) * 10 ^ 10 \<le> nat price * g + (case fee of None \<Rightarrow> 0 | Some f \<Rightarrow> nat f)"
proof -
  define x where "x = nat price * g + (case fee of None \<Rightarrow> 0 | Some f \<Rightarrow> nat f)"
  define n where "n = (if x div 10 ^ 10 * 10 ^ 10 < x \<or> x div 10 ^ 10 = 0
     then x div 10 ^ 10 + 1 else x div 10 ^ 10)"
  from assms have "gs = [NewCoin (GetGasAsset ch) n]"
    unfolding n_def x_def
    by (auto simp: MakeEVMGas_def uint_of_int_def res_simps uint_simps mult.commute
        split: if_splits option.splits)
  with round_up_units [OF _ n_def] show ?thesis
    unfolding x_def by (intro exI [of _ n]) simp
qed

section \<open>Properties\<close>

text \<open>Adding coins to a list raises the amount of every asset by what was added of it, and safely
  subtracting the same coins restores every amount; a list with one entry per asset stays one.\<close>

theorem coins_add_sub:
  assumes "Coins_Add cs ds = Inr cs'"
  shows "cAmount (GetCoin cs' a) = cAmount (GetCoin cs a)
      + sum_list (map cAmount (filter (\<lambda>c. Asset_Equals a (cAsset c)) ds))
    \<and> cAmount (GetCoin (Coins_SafeSub cs' ds) a) = cAmount (GetCoin cs a)
    \<and> (one_per_asset cs \<longrightarrow> one_per_asset cs')"
  using coin_list.amount_credit_all [OF assms [unfolded Coins_Add_def]]
    coin_list.debit_all_credit_all [OF assms [unfolded Coins_Add_def]] one_per_asset_Coins_Add [OF assms]
  by (simp add: Coins_SafeSub_def)

theorem coins_add_sub_witness:
  "\<exists>cs'. Coins_Add [NewCoin BTCAsset 1] [NewCoin BTCAsset 5, NewCoin ETHAsset 2] = Inr cs'
     \<and> cAmount (GetCoin (Coins_SafeSub cs' [NewCoin BTCAsset 5, NewCoin ETHAsset 2]) BTCAsset)
       = cAmount (GetCoin [NewCoin BTCAsset 1] BTCAsset)"
proof -
  have "\<not> Asset_Equals BTCAsset ETHAsset" by code_simp
  then have "\<exists>cs'. Coins_Add [NewCoin BTCAsset 1] [NewCoin BTCAsset 5, NewCoin ETHAsset 2] = Inr cs'"
    by (simp add: Coins_Add_def NewCoin_def uint_eval)
  with coins_add_sub show ?thesis by blast
qed

text \<open>The gas coin of an EVM transaction covers the gas spent (in wei, with the layer-1 fee), is
  never zero and is rounded up by less than one unit of \<open>10^-8\<close>.\<close>

theorem evm_gas_covers_spent:
  assumes "MakeEVMGas ch price g fee = Inr gs"
  shows "\<exists>n. gs = [NewCoin (GetGasAsset ch) n] \<and> 0 < n
     \<and> nat price * g + (case fee of None \<Rightarrow> 0 | Some f \<Rightarrow> nat f) \<le> n * 10 ^ 10
     \<and> (n - 1) * 10 ^ 10 \<le> nat price * g + (case fee of None \<Rightarrow> 0 | Some f \<Rightarrow> nat f)"
  by (rule MakeEVMGas_amount [OF assms])

theorem evm_gas_covers_spent_witness:
  "\<exists>gs. MakeEVMGas ETHChain 5 21000 None = Inr gs
     \<and> (\<exists>n. gs = [NewCoin (GetGasAsset ETHChain) n] \<and> 0 < n)"
proof -
  have "\<exists>gs. MakeEVMGas ETHChain 5 21000 None = Inr gs"
    by (simp add: MakeEVMGas_def uint_of_int_def uint_eval)
  with evm_gas_covers_spent show ?thesis by blast
qed

text \<open>Equality of transactions, by which observations are grouped, is an equivalence.\<close>

theorem tx_equality:
  "Tx_EqualsEx t t \<and> (Tx_EqualsEx t u \<longrightarrow> Tx_EqualsEx u t)
   \<and> (Tx_EqualsEx t u \<and> Tx_EqualsEx u v \<longrightarrow> Tx_EqualsEx t v)"
  using Tx_EqualsEx_sym [of t u] Tx_EqualsEx_trans [of t u v] by simp

theorem tx_equality_witness:
  "Tx_EqualsEx (GetRagnarokTx BTCChain ''A'' ''b'') (GetRagnarokTx BTCChain ''a'' ''B'')
   \<and> Tx_EqualsEx (GetRagnarokTx BTCChain ''a'' ''B'') (GetRagnarokTx BTCChain ''A'' ''b'')"
proof -
  have fold: "equal_fold ''A'' ''a''" "equal_fold ''b'' ''B''" by code_simp+
  have "Tx_EqualsEx (GetRagnarokTx BTCChain ''A'' ''b'') (GetRagnarokTx BTCChain ''a'' ''B'')"
    using fold by (simp add: Tx_EqualsEx_def GetRagnarokTx_def Let_def TxID_Equals_def Chain_Equals_def
        Address_Equals_def Gas_Equals_def)
  with tx_equality show ?thesis by blast
qed

end
