(* ===== verification/Pools.thy ===== *)
theory Pools
  imports Coins Numerics
begin

text \<open>
  Liquidity pools: \<^verbatim>\<open>src/x/switchly/types/type_pool.go\<close>. A pool keeps the depths of the native
  asset and of one external asset, the units of its liquidity providers and of the synthetic asset,
  and a status. The valuations go through the share functions of \<open>Shares\<close>.
\<close>

section \<open>State\<close>

text \<open>The protobuf enum is open: a stored status may be any 32-bit number.\<close>

datatype PoolStatus = PoolStatus_Unknown | PoolStatus_Available | PoolStatus_Staged
  | PoolStatus_Suspended | PoolStatus_Other int

record pool =
  BalanceSwitch :: uint
  BalanceAsset :: uint
  pAsset :: asset
  LPUnits :: uint
  pStatus :: PoolStatus
  StatusSince :: int
  pDecimals :: int
  SynthUnits :: uint
  PendingInboundSwitch :: uint
  PendingInboundAsset :: uint

definition PoolStatus_Valid :: "PoolStatus \<Rightarrow> unit res" where
  "PoolStatus_Valid x =
     (case x of PoolStatus_Other _ \<Rightarrow> Inl (Err ''invalid pool status'') | _ \<Rightarrow> Inr ())"

definition GetPoolStatus :: "string \<Rightarrow> PoolStatus" where
  "GetPoolStatus ps =
     (if ps = ''UnknownPoolStatus'' then PoolStatus_Unknown
      else if ps = ''Available'' then PoolStatus_Available
      else if ps = ''Staged'' then PoolStatus_Staged
      else PoolStatus_Suspended)"

definition NewPool :: pool where
  "NewPool = \<lparr>BalanceSwitch = 0, BalanceAsset = 0, pAsset = EmptyAsset, LPUnits = 0,
     pStatus = PoolStatus_Available, StatusSince = 0, pDecimals = 0, SynthUnits = 0,
     PendingInboundSwitch = 0, PendingInboundAsset = 0\<rparr>"

section \<open>Operations\<close>

definition Pool_IsEmpty :: "pool \<Rightarrow> bool" where
  "Pool_IsEmpty m = Asset_IsEmpty (pAsset m)"

definition Pool_Valid :: "pool \<Rightarrow> unit res" where
  "Pool_Valid m = guard_err (Pool_IsEmpty m) ''pool asset cannot be empty''"

definition GetPoolUnits :: "pool \<Rightarrow> uint res" where
  "GetPoolUnits m = uint_add (LPUnits m) (SynthUnits m)"

text \<open>\<open>CalcUnits\<close> sets the synth units and returns the total: the pair is (total, updated pool).\<close>

definition CalcUnits :: "pool \<Rightarrow> uint \<Rightarrow> (uint \<times> pool) res" where
  "CalcUnits m s =
     res_bind
       (if BalanceAsset m = 0 \<or> aSynth (pAsset m) then Inr (m\<lparr>SynthUnits := 0\<rparr>)
        else res_bind (uint_mul (LPUnits m) s) (\<lambda>numerator.
             res_bind (uint_mul (BalanceAsset m) 2) (\<lambda>twice.
               let d = SafeSub twice s; denominator = (if d = 0 then 1 else d) in
               res_map (\<lambda>u. m\<lparr>SynthUnits := u\<rparr>) (uint_quo numerator denominator))))
       (\<lambda>m'. res_map (\<lambda>u. (u, m')) (GetPoolUnits m'))"

definition IsAvailable :: "pool \<Rightarrow> bool" where
  "IsAvailable m \<longleftrightarrow> pStatus m = PoolStatus_Available"

definition IsStaged :: "pool \<Rightarrow> bool" where
  "IsStaged m \<longleftrightarrow> pStatus m = PoolStatus_Staged"

text \<open>The message matters only by its dynamic type: is it a \<open>MsgSwap\<close>?\<close>

definition EnsureValidPoolStatus :: "pool \<Rightarrow> bool \<Rightarrow> unit res" where
  "EnsureValidPoolStatus m isMsgSwap =
     (case pStatus m of
        PoolStatus_Available \<Rightarrow> Inr ()
      | PoolStatus_Staged \<Rightarrow>
          if isMsgSwap then Inl (Err ''pool is in staged status, can't swap'') else Inr ()
      | PoolStatus_Suspended \<Rightarrow> Inl (Err ''pool suspended'')
      | _ \<Rightarrow> Inl (Err ''unknown pool status''))"

definition AssetValueInSWITCH :: "dec_lib \<Rightarrow> pool \<Rightarrow> uint \<Rightarrow> uint" where
  "AssetValueInSWITCH D m amt =
     (if BalanceSwitch m = 0 \<or> BalanceAsset m = 0 then 0
      else GetUncappedShare D (BalanceSwitch m) (BalanceAsset m) amt)"

definition SWITCHReimbursementForAssetWithdrawal :: "dec_lib \<Rightarrow> pool \<Rightarrow> uint \<Rightarrow> uint" where
  "SWITCHReimbursementForAssetWithdrawal D m amt =
     (if BalanceSwitch m = 0 \<or> BalanceAsset m = 0 then 0
      else let denom = SafeSub (BalanceAsset m) amt in
        if denom = 0 then 0 else GetUncappedShare D (BalanceSwitch m) denom amt)"

definition SWITCHValueInAsset :: "dec_lib \<Rightarrow> pool \<Rightarrow> uint \<Rightarrow> uint res" where
  "SWITCHValueInAsset D m amt =
     (if BalanceSwitch m = 0 \<or> BalanceAsset m = 0 then Inr 0
      else RoundToDecimal (GetUncappedShare D (BalanceAsset m) (BalanceSwitch m) amt) (pDecimals m))"

definition Pools_Get :: "pool list \<Rightarrow> asset \<Rightarrow> pool \<times> bool" where
  "Pools_Get ps a = (case find (\<lambda>p. Asset_Equals (pAsset p) a) ps of
       Some p \<Rightarrow> (p, True) | None \<Rightarrow> (NewPool, False))"

definition Pools_Set :: "pool list \<Rightarrow> pool \<Rightarrow> pool list" where
  "Pools_Set ps q = map (\<lambda>p. if Asset_Equals (pAsset p) (pAsset q) then q else p) ps @ [q]"

definition SWITCHDisbursementForAssetAdd :: "dec_lib \<Rightarrow> pool \<Rightarrow> uint \<Rightarrow> uint res" where
  "SWITCHDisbursementForAssetAdd D m amt =
     (if BalanceSwitch m = 0 \<or> BalanceAsset m = 0 then Inr 0
      else res_map (\<lambda>denom. GetUncappedShare D (BalanceSwitch m) denom amt)
             (uint_add (BalanceAsset m) amt))"

definition AssetDisbursementForSwitchAdd :: "dec_lib \<Rightarrow> pool \<Rightarrow> uint \<Rightarrow> uint res" where
  "AssetDisbursementForSwitchAdd D m amt =
     (if BalanceSwitch m = 0 \<or> BalanceAsset m = 0 then Inr 0
      else res_bind (uint_add (BalanceSwitch m) amt) (\<lambda>denom.
             RoundToDecimal (GetUncappedShare D (BalanceAsset m) denom amt) (pDecimals m)))"

text \<open>\<open>big.Int.Sqrt\<close>: the integer square root, two bits at a time.\<close>

function isqrt :: "nat \<Rightarrow> nat" where
  "isqrt n = (if n = 0 then 0
     else let r = 2 * isqrt (n div 4) in if (r + 1) * (r + 1) \<le> n then r + 1 else r)"
  by pat_completeness auto
termination by (relation "measure id") auto

definition GetLUVI :: "pool \<Rightarrow> uint res" where
  "GetLUVI m =
     res_bind (uint_mul (BalanceSwitch m) (10 ^ 12)) (\<lambda>balSWITCH.
     res_bind (uint_mul (BalanceAsset m) (10 ^ 12)) (\<lambda>balAsset.
       let num = isqrt (balSWITCH * balAsset) in
     res_bind (GetPoolUnits m) (\<lambda>denom.
       if denom = 0 then Inr 0 else uint_chk (num div denom))))"

section \<open>Lemmas\<close>

declare isqrt.simps [simp del]

lemma isqrt_bounds: "isqrt n * isqrt n \<le> n \<and> n < (isqrt n + 1) * (isqrt n + 1)"
proof (induction n rule: isqrt.induct)
  case (1 n)
  show ?case
  proof (cases "n = 0")
    case False
    define k where "k = isqrt (n div 4)"
    have IH: "k * k \<le> n div 4" "n div 4 < (k + 1) * (k + 1)"
      using 1 [OF False] by (simp_all add: k_def)
    have "n div 4 + 1 \<le> (k + 1) * (k + 1)" using IH(2) by simp
    then have "n < 4 * ((k + 1) * (k + 1))" and "4 * (k * k) \<le> n" using IH(1) by linarith+
    moreover have "isqrt n = (if (2 * k + 1) * (2 * k + 1) \<le> n then 2 * k + 1 else 2 * k)"
      using False by (simp add: isqrt.simps [of n] Let_def k_def)
    ultimately show ?thesis by (simp add: algebra_simps)
  qed (simp add: isqrt.simps)
qed

lemma isqrt_unique:
  assumes "k * k \<le> n" and "n < (k + 1) * (k + 1)"
  shows "isqrt n = k"
proof -
  have "isqrt n * isqrt n < (k + 1) * (k + 1)" and "k * k < (isqrt n + 1) * (isqrt n + 1)"
    using isqrt_bounds [of n] assms by linarith+
  then have "isqrt n < k + 1" and "k < isqrt n + 1"
    by (meson mult_le_mono not_less)+
  then show ?thesis by simp
qed

lemma root_quotient_bounds:
  assumes l: "l = isqrt n div u" and "u \<noteq> 0"
  shows "(l * u) * (l * u) \<le> n \<and> n < ((l + 1) * u) * ((l + 1) * u)"
proof -
  have lo: "l * u \<le> isqrt n" unfolding l by (rule div_times_less_eq_dividend)
  have hi: "isqrt n + 1 \<le> (l + 1) * u"
    unfolding l using dividend_less_div_times [of u "isqrt n"] assms(2) by simp
  show ?thesis
    using mult_le_mono [OF lo lo] mult_le_mono [OF hi hi] isqrt_bounds [of n] by linarith
qed

lemma GetLUVI_Inr:
  assumes "GetLUVI m = Inr l" and "GetPoolUnits m = Inr u" and "u \<noteq> 0"
  shows "l = isqrt (BalanceSwitch m * BalanceAsset m * 10 ^ 24) div u"
proof -
  have "BalanceSwitch m * 10 ^ 12 * (BalanceAsset m * 10 ^ 12) = BalanceSwitch m * BalanceAsset m * 10 ^ 24"
    by simp
  with assms show ?thesis by (auto simp: GetLUVI_def Let_def res_simps uint_simps simp del: power_numeral)
qed

lemma CalcUnits_Inr:
  assumes "CalcUnits m s = Inr (u, m')"
  shows "m' = m\<lparr>SynthUnits := SynthUnits m'\<rparr> \<and> u = LPUnits m + SynthUnits m'
    \<and> SynthUnits m' = (if BalanceAsset m = 0 \<or> aSynth (pAsset m) then 0
        else LPUnits m * s div (if 2 * BalanceAsset m \<le> s then 1 else 2 * BalanceAsset m - s))"
  using assms by (auto simp: CalcUnits_def GetPoolUnits_def Let_def res_simps uint_simps mult.commute
      split: if_splits)

text \<open>A disbursement keeps the product of the depths, to less than one unit of the paid side.\<close>

lemma product_after_swap:
  fixes X Y x y :: nat
  assumes "y * (X + x) < x * Y + (X + x)" and "x * Y < y * (X + x) + (X + x)" and "y \<le> Y"
  shows "X * Y < (Y - y) * (X + x) + (X + x)" and "(Y - y) * (X + x) < X * Y + (X + x)"
proof -
  have "(Y - y) * (X + x) + y * (X + x) = Y * (X + x)"
    using assms(3) by (simp flip: distrib_right)
  then have "(Y - y) * (X + x) + y * (X + x) = X * Y + x * Y" by (simp add: algebra_simps)
  with assms show "X * Y < (Y - y) * (X + x) + (X + x)" and "(Y - y) * (X + x) < X * Y + (X + x)"
    by linarith+
qed

lemma product_after_refund:
  fixes X Y x y :: nat
  assumes "y * (X - x) < x * Y + (X - x)" and "x * Y < y * (X - x) + (X - x)" and "x \<le> X"
  shows "X * Y < (Y + y) * (X - x) + (X - x)" and "(Y + y) * (X - x) < X * Y + (X - x)"
proof -
  have "Y * (X - x) + x * Y = X * Y" using assms(3)
    by (simp add: mult.commute flip: distrib_left)
  then have "(Y + y) * (X - x) + x * Y = X * Y + y * (X - x)" by (simp add: distrib_right)
  with assms show "X * Y < (Y + y) * (X - x) + (X - x)" and "(Y + y) * (X - x) < X * Y + (X - x)"
    by linarith+
qed

text \<open>
  The amounts for which the 18 digits of the decimals are enough: \<open>part\<close> of \<open>tot\<close> applied to
  \<open>amt\<close> has at most 16 digits of ratio, and the product of ratio and result fits.
\<close>

definition share_fits :: "uint \<Rightarrow> uint \<Rightarrow> uint \<Rightarrow> bool" where
  "share_fits part tot amt \<longleftrightarrow> 0 < part \<and> 0 < tot \<and> part < 10 ^ 58 \<and> tot < 10 ^ 58 \<and> amt < 10 ^ 58
     \<and> 100 * part \<le> tot * 10 ^ 18 \<and> 4 * (amt * part * part) \<le> tot * tot * 10 ^ 18"

lemma share_fits_accurate:
  assumes "dec_laws D" and "share_fits p t a"
  shows "GetUncappedShare D p t a * t < a * p + t \<and> a * p < GetUncappedShare D p t a * t + t"
proof -
  from assms(2) have pos: "0 < p" "0 < t" and small: "p < 10 ^ 58" "t < 10 ^ 58" "a < 10 ^ 58"
    and "int (100 * p) \<le> int (t * 10 ^ 18)"
    and "int (4 * (a * p * p)) \<le> int (t * t * 10 ^ 18)"
    unfolding share_fits_def by (simp_all only: of_nat_le_iff)
  then have ratio: "100 * int p \<le> int t * dec_one"
    and prod: "4 * int (a * p * p) \<le> int (t * t) * dec_one" by (simp_all add: dec_one_def)
  have "uncapped_share_body D p t a \<noteq> None"
    by (rule dec_laws.body_returns [OF assms(1) pos(1) ratio dec_in_range(2) [OF small(1)]
          dec_in_range(1) [OF small(2)] dec_in_range(1) [OF small(3)]])
  then show ?thesis
    by (rule dec_laws.uncapped_share_accurate [OF assms(1) _ pos ratio prod])
qed

lemma paid_le_depth:
  fixes X Y x y :: nat
  assumes "y * (X + x) < x * Y + (X + x)" and "0 < X"
  shows "y \<le> Y"
proof (rule ccontr)
  assume "\<not> y \<le> Y"
  then have "(Y + 1) * (X + x) \<le> y * (X + x)" by (intro mult_right_mono) auto
  also note assms(1)
  finally have "Y * (X + x) < x * Y" by (simp add: distrib_right)
  then show False by (simp add: distrib_left mult.commute)
qed

section \<open>Properties\<close>

text \<open>Paying out \<open>SWITCHDisbursementForAssetAdd\<close> for an added amount of the asset never empties
  the SWITCH side below zero and keeps the product of the two depths to less than one unit of SWITCH.\<close>

theorem disbursement_constant_product:
  assumes "dec_laws D" and "0 < BalanceAsset m"
    and "share_fits (BalanceSwitch m) (BalanceAsset m + amt) amt"
    and "SWITCHDisbursementForAssetAdd D m amt = Inr y"
  shows "y \<le> BalanceSwitch m
    \<and> BalanceAsset m * BalanceSwitch m
        < (BalanceSwitch m - y) * (BalanceAsset m + amt) + (BalanceAsset m + amt)
    \<and> (BalanceSwitch m - y) * (BalanceAsset m + amt)
        < BalanceAsset m * BalanceSwitch m + (BalanceAsset m + amt)"
proof -
  have "0 < BalanceSwitch m" using assms(3) by (simp add: share_fits_def)
  with assms(2,4) have "y = GetUncappedShare D (BalanceSwitch m) (BalanceAsset m + amt) amt"
    by (auto simp: SWITCHDisbursementForAssetAdd_def res_simps uint_simps)
  with share_fits_accurate [OF assms(1,3)]
  have acc: "y * (BalanceAsset m + amt) < amt * BalanceSwitch m + (BalanceAsset m + amt)"
      "amt * BalanceSwitch m < y * (BalanceAsset m + amt) + (BalanceAsset m + amt)" by simp_all
  have le: "y \<le> BalanceSwitch m" by (rule paid_le_depth [OF acc(1) assms(2)])
  with product_after_swap [OF acc le] show ?thesis by simp
qed

definition demo_pool :: pool where
  "demo_pool = NewPool\<lparr>BalanceSwitch := 1000, BalanceAsset := 400, pAsset := BTCAsset, LPUnits := 1000\<rparr>"

lemmas demo_pool_eval = demo_pool_def NewPool_def BTCAsset_def mk_asset_def legacy_eval uint_eval
  share_fits_def GetUncappedShare_def uncapped_share_body_def SWITCHDisbursementForAssetAdd_def
  SWITCHReimbursementForAssetWithdrawal_def CalcUnits_def GetPoolUnits_def GetLUVI_def Let_def

theorem disbursement_constant_product_witness:
  "SWITCHDisbursementForAssetAdd legacy_dec demo_pool 100 = Inr 200 \<and>
   200 \<le> BalanceSwitch demo_pool
    \<and> BalanceAsset demo_pool * BalanceSwitch demo_pool
        < (BalanceSwitch demo_pool - 200) * (BalanceAsset demo_pool + 100) + (BalanceAsset demo_pool + 100)
    \<and> (BalanceSwitch demo_pool - 200) * (BalanceAsset demo_pool + 100)
        < BalanceAsset demo_pool * BalanceSwitch demo_pool + (BalanceAsset demo_pool + 100)"
proof -
  have "SWITCHDisbursementForAssetAdd legacy_dec demo_pool 100 = Inr 200"
    "0 < BalanceAsset demo_pool" "share_fits (BalanceSwitch demo_pool) (BalanceAsset demo_pool + 100) 100"
    by (simp_all add: demo_pool_eval)
  then show ?thesis using disbursement_constant_product [OF legacy.dec_laws_axioms] by blast
qed

text \<open>The SWITCH paid in for withdrawn asset (\<open>SWITCHReimbursementForAssetWithdrawal\<close>) keeps the
  product of the depths to less than one unit of SWITCH.\<close>

theorem reimbursement_constant_product:
  assumes "dec_laws D" and "amt < BalanceAsset m"
    and "share_fits (BalanceSwitch m) (BalanceAsset m - amt) amt"
    and "y = SWITCHReimbursementForAssetWithdrawal D m amt"
  shows "BalanceAsset m * BalanceSwitch m
        < (BalanceSwitch m + y) * (BalanceAsset m - amt) + (BalanceAsset m - amt)
    \<and> (BalanceSwitch m + y) * (BalanceAsset m - amt)
        < BalanceAsset m * BalanceSwitch m + (BalanceAsset m - amt)"
proof -
  have "0 < BalanceSwitch m" using assms(3) by (simp add: share_fits_def)
  with assms(2,4) have "y = GetUncappedShare D (BalanceSwitch m) (BalanceAsset m - amt) amt"
    by (auto simp: SWITCHReimbursementForAssetWithdrawal_def)
  with share_fits_accurate [OF assms(1,3)]
  have acc: "y * (BalanceAsset m - amt) < amt * BalanceSwitch m + (BalanceAsset m - amt)"
      "amt * BalanceSwitch m < y * (BalanceAsset m - amt) + (BalanceAsset m - amt)" by simp_all
  show ?thesis using product_after_refund [OF acc] assms(2) by simp
qed

theorem reimbursement_constant_product_witness:
  "SWITCHReimbursementForAssetWithdrawal legacy_dec demo_pool 100 = 333 \<and>
   BalanceAsset demo_pool * BalanceSwitch demo_pool
        < (BalanceSwitch demo_pool + 333) * (BalanceAsset demo_pool - 100) + (BalanceAsset demo_pool - 100)
    \<and> (BalanceSwitch demo_pool + 333) * (BalanceAsset demo_pool - 100)
        < BalanceAsset demo_pool * BalanceSwitch demo_pool + (BalanceAsset demo_pool - 100)"
proof -
  have "333 = SWITCHReimbursementForAssetWithdrawal legacy_dec demo_pool 100"
    "100 < BalanceAsset demo_pool" "share_fits (BalanceSwitch demo_pool) (BalanceAsset demo_pool - 100) 100"
    by (simp_all add: demo_pool_eval)
  then show ?thesis using reimbursement_constant_product [OF legacy.dec_laws_axioms] by metis
qed

text \<open>\<open>CalcUnits\<close> gives the synthetic asset units worth exactly its claim on the pool: with
  \<open>s\<close> synths outstanding, less than twice the asset depth \<open>A\<close>, synth units over total units is
  \<open>s / (2 A)\<close> rounded down, and no other field of the pool changes.\<close>

theorem synth_units_proportional:
  assumes "CalcUnits m s = Inr (u, m')" and "s < 2 * BalanceAsset m" and "\<not> aSynth (pAsset m)"
  shows "m' = m\<lparr>SynthUnits := SynthUnits m'\<rparr> \<and> u = LPUnits m + SynthUnits m'
    \<and> SynthUnits m' * (2 * BalanceAsset m) \<le> s * u
    \<and> s * u + s < (SynthUnits m' + 1) * (2 * BalanceAsset m)"
proof -
  define d where "d = 2 * BalanceAsset m - s"
  have A: "2 * BalanceAsset m = d + s" and d: "0 < d" using assms(2) by (simp_all add: d_def)
  have su: "SynthUnits m' = LPUnits m * s div d" and u: "u = LPUnits m + SynthUnits m'"
    using CalcUnits_Inr [OF assms(1)] assms(2,3) by (auto simp: d_def)
  have "SynthUnits m' * d \<le> LPUnits m * s" unfolding su by (rule div_times_less_eq_dividend)
  moreover have "LPUnits m * s < (SynthUnits m' + 1) * d"
    unfolding su using dividend_less_div_times [OF d] by (simp add: mult.commute)
  ultimately have "SynthUnits m' * (2 * BalanceAsset m) \<le> s * u"
    and "s * u + s < (SynthUnits m' + 1) * (2 * BalanceAsset m)"
    unfolding A u by (simp_all add: algebra_simps)
  then show ?thesis using CalcUnits_Inr [OF assms(1)] by blast
qed

theorem synth_units_proportional_witness:
  "CalcUnits demo_pool 200 = Inr (1333, demo_pool\<lparr>SynthUnits := 333\<rparr>)
    \<and> SynthUnits (demo_pool\<lparr>SynthUnits := 333\<rparr>) * (2 * BalanceAsset demo_pool) \<le> 200 * 1333"
proof -
  have "CalcUnits demo_pool 200 = Inr (1333, demo_pool\<lparr>SynthUnits := 333\<rparr>)"
    "200 < 2 * BalanceAsset demo_pool" "\<not> aSynth (pAsset demo_pool)"
    by (simp_all add: demo_pool_eval)
  then show ?thesis using synth_units_proportional by blast
qed

text \<open>\<open>GetLUVI\<close> is the value of one unit, \<open>sqrt (depth product) / units\<close> scaled by \<open>10^12\<close> and
  rounded down.\<close>

theorem luvi_is_scaled_root:
  assumes "GetLUVI m = Inr l" and "GetPoolUnits m = Inr u" and "u \<noteq> 0"
  shows "(l * u) * (l * u) \<le> BalanceSwitch m * BalanceAsset m * 10 ^ 24
    \<and> BalanceSwitch m * BalanceAsset m * 10 ^ 24 < ((l + 1) * u) * ((l + 1) * u)"
  by (rule root_quotient_bounds [OF GetLUVI_Inr [OF assms] assms(3)])

theorem luvi_is_scaled_root_witness:
  "GetLUVI demo_pool = Inr 632455532033 \<and>
   (632455532033 * 1000) * (632455532033 * 1000) \<le> BalanceSwitch demo_pool * BalanceAsset demo_pool * 10 ^ 24"
proof -
  have "isqrt (1000 * 10 ^ 12 * (400 * 10 ^ 12)) = 632455532033675" by (rule isqrt_unique) simp_all
  then have "GetLUVI demo_pool = Inr 632455532033" "GetPoolUnits demo_pool = Inr 1000"
    by (simp_all add: demo_pool_eval)
  with luvi_is_scaled_root [of demo_pool 632455532033 1000] show ?thesis by simp
qed

text \<open>A pool list returns the pool that was set last, and setting a pool leaves the others; but
  the entry is always appended, so setting a pool that is in the list makes the list one longer.\<close>

lemma pools_set_get:
  "Pools_Get (Pools_Set ps q) (pAsset q) = (q, True)
    \<and> (\<not> Asset_Equals (pAsset q) a \<longrightarrow> Pools_Get (Pools_Set ps q) a = Pools_Get ps a)
    \<and> length (Pools_Set ps q) = length ps + 1"
  by (induction ps) (auto simp: Pools_Get_def Pools_Set_def Asset_Equals_key)

end
