(* ===== verification/Swapper.thy ===== *)
theory Swapper
  imports Pools
begin

text \<open>
  The price formulas of the swapper, \<^verbatim>\<open>src/x/switchly/swap_current.go\<close>: emission, liquidity fee and
  slip of a swap of \<open>x\<close> into a pool with depths \<open>X\<close> (in) and \<open>Y\<close> (out), with and without the
  artificial slip floor, and the validation of a swap message.
\<close>

section \<open>Validation\<close>

definition validateMessage :: "tx \<Rightarrow> asset \<Rightarrow> address \<Rightarrow> unit res" where
  "validateMessage t target destination =
     res_bind (Tx_Valid t) (\<lambda>_.
       if Asset_IsEmpty target then Inl (Err ''target is empty'')
       else if Address_IsEmpty destination then Inl (Err ''destination is empty'')
       else (let c = hd (tCoins t) in
         if aTrade (cAsset c) \<and> \<not> aTrade target \<and> \<not> IsSwitch target
           then Inl (Err ''swaps from trade asset to L1 incur slip, use trade-'')
         else if aTrade target \<and> \<not> aTrade (cAsset c) \<and> \<not> Coin_IsSwitch c
           then Inl (Err ''swaps from L1 to trade asset incur slip, use trade+'')
         else Inr ()))"

section \<open>Price formulas\<close>

definition CalcAssetEmission :: "uint \<Rightarrow> uint \<Rightarrow> uint \<Rightarrow> uint res" where
  "CalcAssetEmission X x Y =
     res_bind (uint_mul x X) (\<lambda>xX. res_bind (uint_mul xX Y) (\<lambda>numerator.
     res_bind (uint_add x X) (\<lambda>s. res_bind (uint_mul s s) (\<lambda>denominator.
       if denominator = 0 then Inr 0 else uint_quo numerator denominator))))"

definition CalcMaxAssetEmission :: "uint \<Rightarrow> uint \<Rightarrow> uint \<Rightarrow> uint \<Rightarrow> uint res" where
  "CalcMaxAssetEmission X x Y fee =
     res_bind (uint_mul x Y) (\<lambda>numerator. res_bind (uint_add x X) (\<lambda>denominator.
       if denominator = 0 then Inr 0
       else res_map (\<lambda>q. SafeSub q fee) (uint_quo numerator denominator)))"

definition CalcLiquidityFee :: "uint \<Rightarrow> uint \<Rightarrow> uint \<Rightarrow> uint res" where
  "CalcLiquidityFee X x Y =
     res_bind (uint_mul x x) (\<lambda>xx. res_bind (uint_mul xx Y) (\<lambda>numerator.
     res_bind (uint_add x X) (\<lambda>s. res_bind (uint_mul s s) (\<lambda>denominator.
       if denominator = 0 then Inr 0 else uint_quo numerator denominator))))"

definition MaxBasisPts :: nat where
  "MaxBasisPts = 10000"

definition CalcMinLiquidityFee :: "dec_lib \<Rightarrow> uint \<Rightarrow> uint \<Rightarrow> uint \<Rightarrow> uint \<Rightarrow> uint res" where
  "CalcMinLiquidityFee D X x Y minSlipBps =
     res_bind (uint_mul x Y) (\<lambda>xY.
       let numerator = GetSafeShare D minSlipBps MaxBasisPts xY in
     res_bind (uint_add x X) (\<lambda>denominator.
       if denominator = 0 then Inr 0 else uint_quo numerator denominator))"

text \<open>A decimal operation that panics ends the call: there is no recovery here.\<close>

definition dec_res :: "'a option \<Rightarrow> 'a res" where
  "dec_res o' = (case o' of None \<Rightarrow> Inl (Panic ''decimal out of range'') | Some v \<Rightarrow> Inr v)"

text \<open>\<open>uint64(d.RoundInt64())\<close>: a panic outside of int64, then the conversion to 64 bits.\<close>

definition round_int64 :: "dec_lib \<Rightarrow> dec \<Rightarrow> int res" where
  "round_int64 D d = res_bind (dec_res (dec_round D d)) (\<lambda>r.
     if - (2 ^ 63) \<le> r \<and> r < 2 ^ 63 then Inr r else Inl (Panic ''Int64() out of bound''))"

definition CalcSwapSlip :: "dec_lib \<Rightarrow> uint \<Rightarrow> uint \<Rightarrow> uint res" where
  "CalcSwapSlip D Xi xi =
     res_bind (dec_res (dec_of_uint D xi)) (\<lambda>xD.
     res_bind (dec_res (dec_of_uint D Xi)) (\<lambda>XD.
     res_bind (dec_res (dec_add D xD XD)) (\<lambda>denD.
       if denD = 0 then Inr 0
       else res_bind (dec_res (dec_quo D xD denD)) (\<lambda>swapSlipD.
            res_bind (dec_res (dec_mul D swapSlipD (10000 * dec_one))) (\<lambda>swapSlip.
            res_map (\<lambda>r. nat (r mod 2 ^ 64)) (round_int64 D swapSlip))))))"

definition GetSwapCalc ::
  "dec_lib \<Rightarrow> uint \<Rightarrow> uint \<Rightarrow> uint \<Rightarrow> uint \<Rightarrow> uint \<Rightarrow> (uint \<times> uint \<times> uint) res" where
  "GetSwapCalc D X x Y slipBps minSlipBps =
     (if slipBps < minSlipBps then
        res_bind (CalcMinLiquidityFee D X x Y minSlipBps) (\<lambda>liquidityFee.
        res_map (\<lambda>emitAssets. (emitAssets, liquidityFee, minSlipBps))
          (CalcMaxAssetEmission X x Y liquidityFee))
      else
        res_bind (CalcLiquidityFee X x Y) (\<lambda>liquidityFee.
        res_map (\<lambda>emitAssets. (emitAssets, liquidityFee, slipBps))
          (CalcAssetEmission X x Y)))"

section \<open>Lemmas\<close>

lemma CalcAssetEmission_Inr:
  "CalcAssetEmission X x Y = Inr e \<Longrightarrow> e = x * X * Y div ((x + X) * (x + X))"
  by (auto simp: CalcAssetEmission_def res_simps uint_simps split: if_splits)

lemma CalcLiquidityFee_Inr:
  "CalcLiquidityFee X x Y = Inr f \<Longrightarrow> f = x * x * Y div ((x + X) * (x + X))"
  by (auto simp: CalcLiquidityFee_def res_simps uint_simps split: if_splits)

lemma CalcMaxAssetEmission_Inr:
  "CalcMaxAssetEmission X x Y f = Inr e \<Longrightarrow> e = x * Y div (x + X) - f"
  by (auto simp: CalcMaxAssetEmission_def res_simps uint_simps split: if_splits)

lemma CalcMinLiquidityFee_Inr:
  "CalcMinLiquidityFee D X x Y m = Inr f \<Longrightarrow> f = GetSafeShare D m MaxBasisPts (x * Y) div (x + X)"
  by (auto simp: CalcMinLiquidityFee_def Let_def res_simps uint_simps split: if_splits)

text \<open>The slip-based emission and fee together are at most the constant-product output.\<close>

lemma emission_plus_fee:
  fixes X x Y :: nat
  shows "x * X * Y div ((x + X) * (x + X)) + x * x * Y div ((x + X) * (x + X)) \<le> x * Y div (x + X)"
proof -
  define s where "s = x + X"
  have "x * X * Y div (s * s) + x * x * Y div (s * s) \<le> (x * X * Y + x * x * Y) div (s * s)"
    using div_add1_eq [of "x * X * Y" "x * x * Y" "s * s"] by linarith
  also have "x * X * Y + x * x * Y = (x * Y) * s" by (simp add: s_def algebra_simps)
  also have "(x * Y) * s div (s * s) = x * Y div s"
    by (cases "s = 0") (simp_all add: div_mult2_eq)
  finally show ?thesis by (simp add: s_def)
qed

lemma constant_product_kept:
  fixes X x Y out :: nat
  assumes "out \<le> x * Y div (x + X)"
  shows "X * Y \<le> (X + x) * (Y - out)" and "out \<le> Y" and "0 < X \<Longrightarrow> 0 < Y \<Longrightarrow> out < Y"
proof -
  have "out * (x + X) \<le> x * Y div (x + X) * (x + X)" using assms by (intro mult_right_mono) auto
  also have "\<dots> \<le> x * Y" by (rule div_times_less_eq_dividend)
  finally have paid: "(X + x) * out \<le> x * Y" by (simp add: mult.commute add.commute)
  show le: "out \<le> Y"
  proof (cases "x + X = 0")
    case False
    have "x * Y \<le> Y * (x + X)" by (simp add: algebra_simps)
    then have "x * Y div (x + X) \<le> Y * (x + X) div (x + X)" by (rule div_le_mono)
    with False assms show ?thesis by simp
  qed (use assms in simp)
  from le obtain k where k: "Y = out + k" using le_Suc_ex by blast
  have "(X + x) * (Y - out) + (X + x) * out = X * Y + x * Y"
    unfolding k by (simp add: algebra_simps)
  with paid show "X * Y \<le> (X + x) * (Y - out)" by linarith
  assume "0 < X" "0 < Y"
  then have "0 < X * Y" by simp
  with \<open>X * Y \<le> (X + x) * (Y - out)\<close> have "0 < Y - out" by (metis mult_0_right neq0_conv not_le)
  then show "out < Y" by simp
qed

lemma GetSwapCalc_out:
  assumes "dec_laws D" and "GetSwapCalc D X x Y slip minSlip = Inr (e, f, s)"
  shows "e + f \<le> x * Y div (x + X) \<and> s = max slip minSlip"
proof (cases "slip < minSlip")
  case True
  with assms(2) have f: "f = GetSafeShare D minSlip MaxBasisPts (x * Y) div (x + X)"
    and e: "e = x * Y div (x + X) - f" and s: "s = minSlip"
    by (auto simp: GetSwapCalc_def res_simps
        dest!: CalcMinLiquidityFee_Inr CalcMaxAssetEmission_Inr)
  have "f \<le> x * Y div (x + X)"
    unfolding f by (intro div_le_mono dec_laws.safe_share_le [OF assms(1)])
  with e s True show ?thesis by simp
next
  case False
  with assms(2) have "e = x * X * Y div ((x + X) * (x + X))"
    and "f = x * x * Y div ((x + X) * (x + X))" and "s = slip"
    by (auto simp: GetSwapCalc_def res_simps dest!: CalcLiquidityFee_Inr CalcAssetEmission_Inr)
  with emission_plus_fee [of x X Y] False show ?thesis by simp
qed

lemma scaled_abs: "2 * \<bar>a - b\<bar> \<le> (c :: int) \<Longrightarrow> 0 \<le> k \<Longrightarrow> 2 * \<bar>k * a - k * b\<bar> \<le> k * c"
  using mult_left_mono [of "2 * \<bar>a - b\<bar>" c k] by (simp add: abs_mult flip: right_diff_distrib)

text \<open>The three roundings of the slip.\<close>

lemma slip_roundings:
  fixes q t x r U :: int
  assumes q: "2 * \<bar>q * t - x * U\<bar> \<le> t" and r: "2 * \<bar>r * U - 10000 * q\<bar> \<le> U"
    and t: "0 < t" and U: "10000 < U"
  shows "\<bar>r * t - 10000 * x\<bar> < t"
proof -
  have "2 * \<bar>r * U * t - 10000 * (q * t)\<bar> \<le> U * t"
    using mult_right_mono [OF r, of t] t abs_mult [of "r * U - 10000 * q" t]
    by (simp add: left_diff_distrib mult.assoc)
  moreover have "2 * \<bar>10000 * (q * t) - 10000 * (x * U)\<bar> \<le> 10000 * t"
    using scaled_abs [OF q, of 10000] by simp
  ultimately have "2 * \<bar>r * U * t - 10000 * (x * U)\<bar> \<le> U * t + 10000 * t" by (rule abs_triangle)
  moreover have "r * U * t - 10000 * (x * U) = (r * t - 10000 * x) * U" by (simp add: algebra_simps)
  ultimately have "2 * (\<bar>r * t - 10000 * x\<bar> * U) \<le> U * t + 10000 * t"
    using U by (simp add: abs_mult)
  moreover have "10000 * t < U * t" using U t by simp
  ultimately have "\<bar>r * t - 10000 * x\<bar> * U < t * U" by (simp add: mult.commute)
  then show ?thesis using U by (simp add: mult_less_cancel_right)
qed

context dec_laws
begin

lemma CalcSwapSlip_steps:
  assumes "0 < x + X" and "x < 10 ^ 57" and "X < 10 ^ 57"
  obtains q r where "2 * \<bar>q * int (x + X) - int x * dec_one\<bar> \<le> int (x + X)"
    and "2 * \<bar>r * dec_one - 10000 * q\<bar> \<le> dec_one" and "0 \<le> r" and "r \<le> 10000"
    and "CalcSwapSlip D X x = Inr (nat r)"
proof -
  define t where "t = x + X"
  have t: "0 < t" "x \<le> t" "t < 10 ^ 58" using assms by (auto simp: t_def)
  have xt: "int x * dec_one \<le> int t * dec_one" using t(2) by (intro mult_right_mono) auto
  have dx: "dec_of_uint D x = Some (int x * dec_one)" and dX: "dec_of_uint D X = Some (int X * dec_one)"
    using assms by (auto intro!: of_uint_in_range dec_in_range(2))
  have sum: "int x * dec_one + int X * dec_one = int t * dec_one" by (simp add: t_def distrib_right)
  have "\<bar>int x * dec_one + int X * dec_one\<bar> < dec_range"
    unfolding sum using dec_in_range(2) [OF t(3)] by (simp add: abs_mult)
  from add_returns [OF this] add_exact
  have da: "dec_add D (int x * dec_one) (int X * dec_one) = Some (int t * dec_one)"
    unfolding sum [symmetric] by (metis option.exhaust)
  have b1: "1 \<le> int t * dec_one"
    using mult_mono [of 1 "int t" 1 dec_one] t(1) by (simp add: dec_one_def)
  have "x < 10 ^ 58" using assms(2) by simp
  from quo_ints_returns [OF b1 _ dec_in_range(1) [OF this]]
  obtain q where q: "dec_quo D (int x * dec_one) (int t * dec_one) = Some q" by auto
  have pos: "0 < int t * dec_one" using t(1) by simp
  have near: "2 * \<bar>q * (int t * dec_one) - int x * dec_one * dec_one\<bar> \<le> int t * dec_one"
    using quo_nearest [OF q] pos by simp
  have "int x * dec_one * dec_one \<le> dec_one * (int t * dec_one)"
    using mult_right_mono [OF xt, of dec_one] by (simp add: ac_simps)
  then have q01: "0 \<le> q" "q \<le> dec_one"
    using nearest_ge [OF pos near, of 0] nearest_le [OF pos near, of dec_one] by auto
  have "q * (10000 * dec_one) \<le> dec_one * (10000 * dec_one)" using q01 by (intro mult_right_mono) auto
  then have "\<bar>q * (10000 * dec_one)\<bar> \<le> (dec_range - 1) * dec_one"
    using q01(1) by (simp add: dec_range_def dec_one_def)
  from mul_returns [OF this] obtain m where m: "dec_mul D q (10000 * dec_one) = Some m" by auto
  have "m = 10000 * q"
    by (rule nearest_exact [OF dec_one_pos(1)]) (use mul_nearest [OF m] in \<open>simp add: ac_simps\<close>)
  have "\<bar>m\<bar> \<le> (int uint_lim - 1) * dec_one"
    using q01 \<open>m = 10000 * q\<close> by (simp add: uint_lim_def dec_one_def)
  from round_returns [OF this] obtain r where r: "dec_round D m = Some r" by auto
  have rn: "2 * \<bar>r * dec_one - 10000 * q\<bar> \<le> dec_one" using round_nearest [OF r] \<open>m = 10000 * q\<close> by simp
  have r01: "0 \<le> r" "r \<le> 10000"
    using nearest_ge [OF dec_one_pos(1) rn, of 0] nearest_le [OF dec_one_pos(1) rn, of 10000] q01 by auto
  have "2 * (\<bar>q * int t - int x * dec_one\<bar> * dec_one) \<le> int t * dec_one"
    using near by (simp add: abs_mult mult.assoc flip: left_diff_distrib)
      (simp add: abs_mult flip: left_diff_distrib mult.assoc)
  then have "2 * \<bar>q * int t - int x * dec_one\<bar> \<le> int t"
    by (simp add: mult_le_cancel_right flip: mult.assoc)
  moreover have "CalcSwapSlip D X x = Inr (nat r)"
    using dx dX da q m r r01 t(1) by (simp add: CalcSwapSlip_def dec_res_def round_int64_def)
  ultimately show ?thesis using that rn r01 unfolding t_def by blast
qed

end

lemma below_pow85:
  fixes X x Y :: nat
  assumes "X < 2 ^ 85" and "x < 2 ^ 85" and "Y < 2 ^ 85"
  shows "x * X * Y < uint_lim" "x * x * Y < uint_lim" "x * X < uint_lim" "x * x < uint_lim"
    "x * Y < uint_lim" "x + X < uint_lim" "(x + X) * (x + X) < uint_lim"
proof -
  have le: "X \<le> 2 ^ 85" "x \<le> 2 ^ 85" "Y \<le> 2 ^ 85" "x + X \<le> 2 ^ 86" using assms by simp_all
  have "x * X * Y \<le> 2 ^ 85 * 2 ^ 85 * 2 ^ 85" "x * x * Y \<le> 2 ^ 85 * 2 ^ 85 * 2 ^ 85"
    "x * X \<le> 2 ^ 85 * 2 ^ 85" "x * x \<le> 2 ^ 85 * 2 ^ 85" "x * Y \<le> 2 ^ 85 * 2 ^ 85"
    "(x + X) * (x + X) \<le> 2 ^ 86 * 2 ^ 86"
    using le by (simp_all only: mult_le_mono)
  then show "x * X * Y < uint_lim" "x * x * Y < uint_lim" "x * X < uint_lim" "x * x < uint_lim"
    "x * Y < uint_lim" "x + X < uint_lim" "(x + X) * (x + X) < uint_lim"
    using le(4) by (simp_all add: uint_lim_def)
qed

section \<open>Properties\<close>

text \<open>C12. Whatever the slip floor is, the assets emitted by a swap and its liquidity fee together
  never exceed the constant-product output \<open>x Y / (x + X)\<close>: the product of the depths after the swap
  is at least the product before, and a pool with both depths positive is never drained.\<close>

theorem swap_keeps_product:
  assumes "dec_laws D" and "GetSwapCalc D X x Y slipBps minSlipBps = Inr (emit, fee, slip)"
  shows "emit + fee \<le> x * Y div (x + X)
    \<and> X * Y \<le> (X + x) * (Y - (emit + fee))
    \<and> (0 < X \<and> 0 < Y \<longrightarrow> emit + fee < Y)
    \<and> slip = max slipBps minSlipBps"
  using GetSwapCalc_out [OF assms] constant_product_kept [of "emit + fee" x Y X] by blast

theorem swap_keeps_product_witness:
  "GetSwapCalc legacy_dec 1000 100 2000 909 5 = Inr (165, 16, 909) \<and>
   (165 + 16 :: nat) \<le> 100 * 2000 div (100 + 1000)"
proof -
  have calc: "GetSwapCalc legacy_dec 1000 100 2000 909 5 = Inr (165, 16, 909)"
    by (simp add: GetSwapCalc_def CalcLiquidityFee_def CalcAssetEmission_def uint_eval)
  with swap_keeps_product [OF legacy.dec_laws_axioms calc] show ?thesis by blast
qed

text \<open>A swap priced by its own slip never emits more than a quarter of the output depth.\<close>

lemma emission_at_most_quarter:
  assumes "CalcAssetEmission X x Y = Inr emit"
  shows "4 * emit \<le> Y"
proof -
  have "emit * ((x + X) * (x + X)) \<le> x * X * Y"
    unfolding CalcAssetEmission_Inr [OF assms] by (rule div_times_less_eq_dividend)
  then have "4 * emit * ((x + X) * (x + X)) \<le> 4 * (x * X * Y)" by (simp only: mult.assoc mult_le_mono2)
  also have "4 * (x * X) \<le> (x + X) * (x + X)"
  proof -
    have "0 \<le> (int x - int X) * (int x - int X)" by simp
    then have "int (4 * (x * X)) \<le> int ((x + X) * (x + X))" by (simp add: algebra_simps)
    then show ?thesis by (simp only: of_nat_le_iff)
  qed
  then have "4 * (x * X * Y) \<le> Y * ((x + X) * (x + X))"
    using mult_right_mono [of "4 * (x * X)" "(x + X) * (x + X)" Y] by (simp add: ac_simps)
  finally show ?thesis
    using CalcAssetEmission_Inr [OF assms] by (cases "x + X = 0") (auto simp: mult_le_cancel2)
qed

text \<open>C27. For depths and inputs below \<open>2^85\<close> (more than \<open>10^25\<close>) no intermediate product leaves the
  256-bit range: the price of a swap is always computed, without a panic.\<close>

theorem swap_calc_returns:
  assumes "X < 2 ^ 85" and "x < 2 ^ 85" and "Y < 2 ^ 85"
  shows "\<exists>emit fee. GetSwapCalc D X x Y slipBps minSlipBps = Inr (emit, fee, max slipBps minSlipBps)"
  using below_pow85 [OF assms]
  by (simp add: GetSwapCalc_def CalcMinLiquidityFee_def CalcMaxAssetEmission_def CalcLiquidityFee_def
      CalcAssetEmission_def Let_def uint_ops_in_range)

theorem swap_calc_returns_witness:
  "\<exists>emit fee. GetSwapCalc legacy_dec (10 ^ 15) (10 ^ 8) (10 ^ 20) 0 5 = Inr (emit, fee, 5)"
  using swap_calc_returns [of "10 ^ 15" "10 ^ 8" "10 ^ 20" legacy_dec 0 5] by simp

text \<open>The slip of a swap is computed without a panic, is at most 10000 basis points, and is
  within one basis point of \<open>10000 x / (x + X)\<close>.\<close>

theorem swap_slip_accurate:
  assumes "dec_laws D" and "0 < x + X" and "x < 10 ^ 57" and "X < 10 ^ 57"
  shows "\<exists>s. CalcSwapSlip D X x = Inr s \<and> s \<le> 10000
    \<and> s * (x + X) < 10000 * x + (x + X) \<and> 10000 * x < s * (x + X) + (x + X)"
proof -
  obtain q r where q: "2 * \<bar>q * int (x + X) - int x * dec_one\<bar> \<le> int (x + X)"
    and r: "2 * \<bar>r * dec_one - 10000 * q\<bar> \<le> dec_one" "0 \<le> r" "r \<le> 10000"
    and calc: "CalcSwapSlip D X x = Inr (nat r)"
    using dec_laws.CalcSwapSlip_steps [OF assms] by blast
  have "\<bar>r * int (x + X) - 10000 * int x\<bar> < int (x + X)"
    using slip_roundings [OF q r(1)] of_nat_less_iff [of 0 "x + X"] assms(2) by (simp add: dec_one_def)
  then have "int (nat r * (x + X)) < int (10000 * x + (x + X))"
    and "int (10000 * x) < int (nat r * (x + X) + (x + X))"
    using r(2) by (auto simp: abs_less_iff)
  then have "nat r * (x + X) < 10000 * x + (x + X)" and "10000 * x < nat r * (x + X) + (x + X)"
    by (simp_all only: of_nat_less_iff)
  with calc r show ?thesis by (intro exI [of _ "nat r"]) simp
qed

theorem swap_slip_accurate_witness:
  "\<exists>s. CalcSwapSlip legacy_dec 1000 100 = Inr s \<and> s \<le> 10000
    \<and> s * (100 + 1000) < 10000 * 100 + (100 + 1000) \<and> 10000 * 100 < s * (100 + 1000) + (100 + 1000)"
  using swap_slip_accurate [OF legacy.dec_laws_axioms, of 100 1000] by simp

end
