(* ===== verification/Nodes.thy ===== *)
theory Nodes
  imports Coins Numerics
begin

text \<open>
  Node accounts and bond providers: \<^verbatim>\<open>src/x/switchly/types/type_node_account.go\<close>. The comparison of
  semantic versions belongs to a library (\<open>blang/semver\<close>): it is the parameter \<open>ver_eq\<close> of
  \<open>NodeAccount_Equals\<close>.
\<close>

section \<open>Node status\<close>

datatype NodeStatus = NodeStatus_Unknown | NodeStatus_Whitelisted | NodeStatus_Standby
  | NodeStatus_Ready | NodeStatus_Active | NodeStatus_Disabled | NodeStatus_Other int

definition NodeStatus_Valid :: "NodeStatus \<Rightarrow> unit res" where
  "NodeStatus_Valid x =
     (case x of NodeStatus_Other _ \<Rightarrow> Inl (Err ''invalid node status'') | _ \<Rightarrow> Inr ())"

text \<open>\<open>strings.Title\<close> on ASCII: a letter after a separator is upper-cased.\<close>

definition is_separator :: "char \<Rightarrow> bool" where
  "is_separator c \<longleftrightarrow> \<not> (char_in c 48 57 \<or> char_in c 65 90 \<or> char_in c 97 122 \<or> c = CHR ''_'')"

fun title_from :: "bool \<Rightarrow> string \<Rightarrow> string" where
  "title_from sep [] = []"
| "title_from sep (c # cs) = (if sep then char_upper c else c) # title_from (is_separator c) cs"

definition getNodeStatus :: "string \<Rightarrow> NodeStatus" where
  "getNodeStatus ps = (let t = title_from True ps in
     if t = ''Whitelisted'' then NodeStatus_Whitelisted
     else if t = ''Standby'' then NodeStatus_Standby
     else if t = ''Ready'' then NodeStatus_Ready
     else if t = ''Active'' then NodeStatus_Active
     else if t = ''Disabled'' then NodeStatus_Disabled
     else NodeStatus_Unknown)"

section \<open>Node accounts\<close>

datatype NodeType = NodeType_TypeValidator | NodeType_TypeVault | NodeType_TypeUnknown | NodeType_Other int

record pubkey_set =
  Secp256k1 :: pubkey
  Ed25519 :: pubkey

definition PubKeySet_IsEmpty :: "pubkey_set \<Rightarrow> bool" where
  "PubKeySet_IsEmpty p \<longleftrightarrow> Secp256k1 p = [] \<or> Ed25519 p = []"

definition PubKeySet_Equals :: "pubkey_set \<Rightarrow> pubkey_set \<Rightarrow> bool" where
  "PubKeySet_Equals p q \<longleftrightarrow> Ed25519 p = Ed25519 q \<and> Secp256k1 p = Secp256k1 q"

definition PubKeySet_Contains :: "pubkey_set \<Rightarrow> pubkey \<Rightarrow> bool" where
  "PubKeySet_Contains p pk \<longleftrightarrow> Ed25519 p = pk \<or> Secp256k1 p = pk"

record node_account =
  NodeAddress :: acc
  naStatus :: NodeStatus
  naPubKeySet :: pubkey_set
  ValidatorConsPubKey :: string
  naBond :: uint
  ActiveBlockHeight :: int
  naBondAddress :: address
  naStatusSince :: int
  SignerMembership :: "string list"
  RequestedToLeave :: bool
  ForcedToLeave :: bool
  LeaveScore :: "64 word"
  IPAddress :: string
  naVersion :: string
  naType :: NodeType
  MissingBlocks :: "64 word"
  Maintenance :: bool

definition UpdateStatus :: "node_account \<Rightarrow> NodeStatus \<Rightarrow> int \<Rightarrow> node_account" where
  "UpdateStatus m status height =
     (if naStatus m = status then m
      else let m' = m\<lparr>naStatus := status, naStatusSince := height\<rparr> in
        if status \<noteq> NodeStatus_Active then m'\<lparr>ActiveBlockHeight := 0\<rparr> else m')"

definition NewNodeAccount ::
  "acc \<Rightarrow> NodeStatus \<Rightarrow> pubkey_set \<Rightarrow> string \<Rightarrow> uint \<Rightarrow> address \<Rightarrow> int \<Rightarrow> node_account" where
  "NewNodeAccount nodeAddress status nodePubKeySet validatorConsPubKey bond bondAddress height =
     UpdateStatus \<lparr>NodeAddress = nodeAddress, naStatus = NodeStatus_Unknown, naPubKeySet = nodePubKeySet,
       ValidatorConsPubKey = validatorConsPubKey, naBond = bond, ActiveBlockHeight = 0,
       naBondAddress = bondAddress, naStatusSince = 0, SignerMembership = [], RequestedToLeave = False,
       ForcedToLeave = False, LeaveScore = 0, IPAddress = '''', naVersion = '''',
       naType = NodeType_TypeValidator, MissingBlocks = 0, Maintenance = False\<rparr> status height"

definition NodeAccount_IsEmpty :: "node_account \<Rightarrow> bool" where
  "NodeAccount_IsEmpty m \<longleftrightarrow> NodeAddress m = [] \<or> naStatus m = NodeStatus_Unknown"

definition NodeAccount_Valid :: "node_account \<Rightarrow> unit res" where
  "NodeAccount_Valid m =
     (if NodeAddress m = [] then Inl (Err ''node switchly address is empty'')
      else if Address_IsEmpty (naBondAddress m) then Inl (Err ''bond address is empty'')
      else if naStatus m = NodeStatus_Unknown then Inl (Err ''node status cannot be unknown'')
      else Inr ())"

definition GetSignerMembership :: "key_lib \<Rightarrow> node_account \<Rightarrow> pubkey list" where
  "GetSignerMembership K m = parse_pubkeys K (SignerMembership m)"

definition NodeAccount_Equals :: "(string \<Rightarrow> string \<Rightarrow> bool) \<Rightarrow> node_account \<Rightarrow> node_account \<Rightarrow> bool" where
  "NodeAccount_Equals ver_eq m n1 \<longleftrightarrow> NodeAddress m = NodeAddress n1
     \<and> PubKeySet_Equals (naPubKeySet m) (naPubKeySet n1)
     \<and> ValidatorConsPubKey m = ValidatorConsPubKey n1
     \<and> Address_Equals (naBondAddress m) (naBondAddress n1)
     \<and> naBond m = naBond n1 \<and> ver_eq (naVersion m) (naVersion n1)"

text \<open>
  \<open>int64(math.Max(float64(0), float64(slashpoints)))\<close>: the conversion to a double keeps 53 bits,
  ties to even; a double of \<open>2^63\<close> converts back to the smallest int64 (amd64).
\<close>

fun bit_len :: "nat \<Rightarrow> nat" where
  "bit_len n = (if n = 0 then 0 else 1 + bit_len (n div 2))"

definition float64_of_nat :: "nat \<Rightarrow> int" where
  "float64_of_nat n = (let k = 2 ^ (bit_len n - 53) in round_half_even (int n) k * k)"

definition clamp_slashpoints :: "int \<Rightarrow> int" where
  "clamp_slashpoints s = (if s < 0 then 0 else i64 (float64_of_nat (nat s)))"

definition CalcBondUnits :: "node_account \<Rightarrow> int \<Rightarrow> int \<Rightarrow> uint" where
  "CalcBondUnits m height slashpoints =
     (let slash = clamp_slashpoints slashpoints in
      if height < 0 \<or> ActiveBlockHeight m < 0 \<or> slash < 0 then 0
      else let blockCount = i64 (height - i64 (ActiveBlockHeight m + slash)) in
        if blockCount < 0 then 0 else nat blockCount)"

definition TryAddSignerPubKey :: "key_lib \<Rightarrow> node_account \<Rightarrow> pubkey \<Rightarrow> node_account" where
  "TryAddSignerPubKey K m key =
     (if key = [] then m
      else if list_ex (\<lambda>item. item = key) (GetSignerMembership K m) then m
      else m\<lparr>SignerMembership := SignerMembership m @ [key]\<rparr>)"

text \<open>The index is found in the decodable members and used in the stored list.\<close>

definition TryRemoveSignerPubKey :: "key_lib \<Rightarrow> node_account \<Rightarrow> pubkey \<Rightarrow> node_account" where
  "TryRemoveSignerPubKey K m key =
     (if key = [] then m
      else case find_last_index (\<lambda>item. item = key) (GetSignerMembership K m) of
        None \<Rightarrow> m
      | Some idx \<Rightarrow> m\<lparr>SignerMembership := remove_at idx (SignerMembership m)\<rparr>)"

section \<open>Lists of node accounts\<close>

definition IsNodeKeys :: "node_account list \<Rightarrow> acc \<Rightarrow> bool" where
  "IsNodeKeys nas addr =
     list_ex (\<lambda>na. naStatus na = NodeStatus_Active \<and> addr = NodeAddress na) nas"

definition NodeAccounts_Less :: "key_lib \<Rightarrow> node_account \<Rightarrow> node_account \<Rightarrow> bool" where
  "NodeAccounts_Less K a b =
     (if naStatusSince a < naStatusSince b then True
      else if naStatusSince a > naStatusSince b then False
      else str_less (acc_string K (NodeAddress a)) (acc_string K (NodeAddress b)))"

definition NodeAccounts_Swap :: "node_account list \<Rightarrow> nat \<Rightarrow> nat \<Rightarrow> node_account list res" where
  "NodeAccounts_Swap nas i j =
     (if i < length nas \<and> j < length nas then Inr (nas[i := nas ! j, j := nas ! i])
      else Inl (Panic ''index out of range''))"

definition NodeAccounts_Contains ::
  "(string \<Rightarrow> string \<Rightarrow> bool) \<Rightarrow> node_account list \<Rightarrow> node_account \<Rightarrow> bool" where
  "NodeAccounts_Contains ver_eq nas na = list_ex (\<lambda>item. NodeAccount_Equals ver_eq item na) nas"

definition GetNodeAddresses :: "node_account list \<Rightarrow> acc list" where
  "GetNodeAddresses nas = map NodeAddress nas"

section \<open>Bond providers\<close>

record bond_provider =
  BondAddress :: acc
  bpBond :: uint

record bond_providers =
  bpNodeAddress :: acc
  NodeOperatorFee :: uint
  Providers :: "bond_provider list"

definition NewBondProviders :: "acc \<Rightarrow> bond_providers" where
  "NewBondProviders a = \<lparr>bpNodeAddress = a, NodeOperatorFee = 0, Providers = []\<rparr>"

definition NewBondProvider :: "acc \<Rightarrow> bond_provider" where
  "NewBondProvider a = \<lparr>BondAddress = a, bpBond = 0\<rparr>"

definition BondProvider_IsEmpty :: "bond_provider \<Rightarrow> bool" where
  "BondProvider_IsEmpty m \<longleftrightarrow> BondAddress m = []"

definition BondProviders_Get :: "bond_providers \<Rightarrow> acc \<Rightarrow> bond_provider" where
  "BondProviders_Get bp a =
     (case find (\<lambda>p. BondAddress p = a) (Providers bp) of Some p \<Rightarrow> p | None \<Rightarrow> NewBondProvider [])"

definition BondProviders_Has :: "bond_providers \<Rightarrow> acc \<Rightarrow> bool" where
  "BondProviders_Has bp a \<longleftrightarrow> \<not> BondProvider_IsEmpty (BondProviders_Get bp a)"

fun bond_first :: "bond_provider list \<Rightarrow> uint \<Rightarrow> acc \<Rightarrow> bond_provider list res" where
  "bond_first [] bond a = Inr []"
| "bond_first (p # ps) bond a =
     (if BondAddress p = a then res_map (\<lambda>n. p\<lparr>bpBond := n\<rparr> # ps) (uint_add (bpBond p) bond)
      else res_map ((#) p) (bond_first ps bond a))"

definition BondProviders_Bond :: "bond_providers \<Rightarrow> uint \<Rightarrow> acc \<Rightarrow> bond_providers res" where
  "BondProviders_Bond bp bond a =
     res_map (\<lambda>ps. bp\<lparr>Providers := ps\<rparr>) (bond_first (Providers bp) bond a)"

definition BondProviders_Unbond :: "bond_providers \<Rightarrow> uint \<Rightarrow> acc \<Rightarrow> bond_providers" where
  "BondProviders_Unbond bp bond a = bp\<lparr>Providers :=
     update_first (\<lambda>p. BondAddress p = a) (\<lambda>p. p\<lparr>bpBond := SafeSub (bpBond p) bond\<rparr>) (Providers bp)\<rparr>"

definition BondProviders_Remove :: "bond_providers \<Rightarrow> acc \<Rightarrow> bool \<times> bond_providers" where
  "BondProviders_Remove bp a =
     (case Providers bp of [] \<Rightarrow> (False, bp)
      | op # ps \<Rightarrow>
        (case find_index (\<lambda>p. BondAddress p = a \<and> bpBond p = 0) ps of
           None \<Rightarrow> (False, bp)
         | Some i \<Rightarrow> (True, bp\<lparr>Providers := op # remove_at i ps\<rparr>)))"

text \<open>
  \<open>Adjust\<close>: the loop over the providers after the first, threading the operator's bond.
\<close>

fun adjust_loop :: "dec_lib \<Rightarrow> uint \<Rightarrow> uint \<Rightarrow> uint \<Rightarrow> bond_provider list \<Rightarrow> uint \<times> bond_provider list" where
  "adjust_loop D totalBond nodeBond opBond [] = (opBond, [])"
| "adjust_loop D totalBond nodeBond opBond (p # ps) =
     (let b = GetSafeShare D (bpBond p) totalBond nodeBond;
          (opBond', ps') = adjust_loop D totalBond nodeBond (SafeSub opBond b) ps
      in (opBond', p\<lparr>bpBond := b\<rparr> # ps'))"

definition BondProviders_Adjust :: "dec_lib \<Rightarrow> bond_providers \<Rightarrow> uint \<Rightarrow> bond_providers res" where
  "BondProviders_Adjust D bp nodeBond =
     (case Providers bp of [] \<Rightarrow> Inr bp
      | op # ps \<Rightarrow>
        res_bind (res_fold (\<lambda>p t. uint_add t (bpBond p)) (op # ps) 0) (\<lambda>totalBond.
          if totalBond = nodeBond then Inr bp
          else
            let fee = (if totalBond < nodeBond
                       then GetSafeShare D (NodeOperatorFee bp) 10000 (SafeSub nodeBond totalBond) else 0);
                nb = SafeSub nodeBond fee;
                (opBond, ps') = adjust_loop D totalBond nb nb ps
            in res_map (\<lambda>b. bp\<lparr>Providers := op\<lparr>bpBond := b\<rparr> # ps'\<rparr>) (uint_add opBond fee)))"

definition HasProviderBonded :: "bond_providers \<Rightarrow> acc \<Rightarrow> bool" where
  "HasProviderBonded bp opBondAddress =
     list_ex (\<lambda>p. BondAddress p \<noteq> opBondAddress \<and> 0 < bpBond p) (Providers bp)"

section \<open>Lemmas\<close>

definition total_bonds :: "bond_provider list \<Rightarrow> nat" where
  "total_bonds ps = sum_list (map bpBond ps)"

lemma total_bonds_simps [simp]:
  "total_bonds [] = 0" "total_bonds (p # ps) = bpBond p + total_bonds ps"
  "total_bonds (ps @ qs) = total_bonds ps + total_bonds qs"
  by (simp_all add: total_bonds_def)

lemma sum_bonds_Inr:
  "res_fold (\<lambda>p t. uint_add t (bpBond p)) ps t0 = Inr t \<Longrightarrow> t = t0 + total_bonds ps"
  by (induction ps arbitrary: t0) (fastforce simp: res_simps uint_simps)+

lemma adjust_loop_props:
  "adjust_loop D T N o0 ps = (o1, ps') \<Longrightarrow>
     o1 = o0 - total_bonds ps' \<and> map BondAddress ps' = map BondAddress ps
     \<and> map bpBond ps' = map (\<lambda>p. GetSafeShare D (bpBond p) T N) ps"
proof (induction ps arbitrary: o0 o1 ps')
  case (Cons p ps)
  obtain o2 qs where "adjust_loop D T N (o0 - GetSafeShare D (bpBond p) T N) ps = (o2, qs)" by fastforce
  with Cons.prems Cons.IH [OF this] show ?case by (auto simp: Let_def)
qed simp

text \<open>Rounding can give the providers together at most one unit each too much.\<close>

lemma share_weak:
  assumes "dec_laws D" and "b \<le> T" and "T < 10 ^ 58" and "N \<le> 10 ^ 17"
  shows "GetSafeShare D b T N * T \<le> N * b + T"
proof (cases "b = 0")
  case False
  have small: "int T * dec_one * dec_one < dec_range" "int N * dec_one * dec_one < dec_range"
    using assms(3,4) by (auto intro: dec_in_range)
  have "uncapped_share_body D b T N \<noteq> None"
    using dec_laws.capped_body_returns [OF assms(1) _ assms(2) small] False by simp
  with dec_laws.share_accurate [OF assms(1) _ assms(2,4)] False
  have "GetUncappedShare D b T N * T < N * b + T" by simp
  with assms(2) show ?thesis by (cases "T = b") (simp_all add: GetSafeShare_def)
qed (simp add: GetSafeShare_def GetUncappedShare_def)

lemma shares_total:
  assumes "dec_laws D" and "total_bonds ps \<le> T" and "T < 10 ^ 58" and "N \<le> 10 ^ 17"
  shows "sum_list (map (\<lambda>p. GetSafeShare D (bpBond p) T N) ps) \<le> N + length ps"
proof (cases "T = 0")
  case True
  then show ?thesis by (induction ps) (auto simp: GetSafeShare_def GetUncappedShare_def)
next
  case False
  have "sum_list (map (\<lambda>p. GetSafeShare D (bpBond p) T N) ps) * T
      \<le> N * total_bonds ps + length ps * T"
    using assms(2)
  proof (induction ps)
    case (Cons p ps)
    then have "GetSafeShare D (bpBond p) T N * T \<le> N * bpBond p + T"
      by (intro share_weak assms) simp
    with Cons show ?case by (simp add: distrib_right distrib_left)
  qed simp
  also have "\<dots> \<le> N * T + length ps * T" using assms(2) by simp
  finally have "sum_list (map (\<lambda>p. GetSafeShare D (bpBond p) T N) ps) * T \<le> (N + length ps) * T"
    by (simp add: distrib_right)
  with False show ?thesis by simp
qed

lemma Adjust_Inr:
  assumes "BondProviders_Adjust D bp nodeBond = Inr bp'" and "Providers bp = op # ps"
    and "total_bonds (Providers bp) \<noteq> nodeBond" and "dec_laws D"
  obtains fee op' ps' where "Providers bp' = op' # ps'" and "fee \<le> nodeBond"
    and "BondAddress op' = BondAddress op" and "map BondAddress ps' = map BondAddress ps"
    and "map bpBond ps' = map (\<lambda>p. GetSafeShare D (bpBond p) (total_bonds (Providers bp)) (nodeBond - fee)) ps"
    and "bpBond op' = nodeBond - fee - total_bonds ps' + fee"
proof -
  define T where "T = total_bonds (Providers bp)"
  define fee where "fee = (if T < nodeBond then GetSafeShare D (NodeOperatorFee bp) 10000 (nodeBond - T) else 0)"
  obtain o1 ps' where loop: "adjust_loop D T (nodeBond - fee) (nodeBond - fee) ps = (o1, ps')"
    by fastforce
  have "res_bind (res_fold (\<lambda>p t. uint_add t (bpBond p)) (op # ps) 0) f = Inr y \<Longrightarrow> f T = Inr y" for f and y :: bond_providers
    using sum_bonds_Inr [of "op # ps" 0] assms(2) by (auto simp: res_bind_Inr T_def)
  from this assms(1-3) loop
  have bp': "Providers bp' = op\<lparr>bpBond := o1 + fee\<rparr> # ps'"
    by (fastforce simp: BondProviders_Adjust_def Let_def res_map_Inr uint_simps fee_def T_def)
  have "fee \<le> nodeBond"
    using dec_laws.safe_share_le [OF assms(4), of "NodeOperatorFee bp" 10000 "nodeBond - T"]
    unfolding fee_def by (auto intro: order_trans)
  with bp' adjust_loop_props [OF loop] that [of "op\<lparr>bpBond := o1 + fee\<rparr>" ps' fee] show ?thesis
    by (simp add: T_def)
qed

declare bit_len.simps [simp del]

lemma bit_len_le: "n < 2 ^ k \<Longrightarrow> bit_len n \<le> k"
proof (induction k arbitrary: n)
  case (Suc k)
  then have "n div 2 < 2 ^ k" by auto
  with Suc.IH [of "n div 2"] show ?case by (simp add: bit_len.simps [of n])
qed (simp add: bit_len.simps)

lemma float64_exact: "n < 2 ^ 53 \<Longrightarrow> float64_of_nat n = int n"
  using bit_len_le [of n 53] by (simp add: float64_of_nat_def round_half_even_def)

section \<open>Properties\<close>


definition demo_providers :: bond_providers where
  "demo_providers = \<lparr>bpNodeAddress = ''n'', NodeOperatorFee = 0, Providers =
     [\<lparr>BondAddress = ''n'', bpBond = 0\<rparr>, \<lparr>BondAddress = ''a'', bpBond = 10\<rparr>,
      \<lparr>BondAddress = ''b'', bpBond = 10\<rparr>, \<lparr>BondAddress = ''c'', bpBond = 10\<rparr>]\<rparr>"

lemma demo_adjust:
  "BondProviders_Adjust legacy_dec demo_providers 35 = Inr (demo_providers\<lparr>Providers :=
     [\<lparr>BondAddress = ''n'', bpBond = 0\<rparr>, \<lparr>BondAddress = ''a'', bpBond = 12\<rparr>,
      \<lparr>BondAddress = ''b'', bpBond = 12\<rparr>, \<lparr>BondAddress = ''c'', bpBond = 12\<rparr>]\<rparr>)"
proof -
  have share: "GetSafeShare legacy_dec 10 30 35 = 12" and fee: "GetSafeShare legacy_dec 0 10000 5 = 0"
    by (simp_all add: GetSafeShare_def GetUncappedShare_def uncapped_share_body_def legacy_eval
        uint_eval Let_def)
  have "adjust_loop legacy_dec 30 35 35 (tl (Providers demo_providers)) =
     (0, [\<lparr>BondAddress = ''a'', bpBond = 12\<rparr>, \<lparr>BondAddress = ''b'', bpBond = 12\<rparr>,
          \<lparr>BondAddress = ''c'', bpBond = 12\<rparr>])"
    using share by (simp add: demo_providers_def)
  with fee show ?thesis by (simp add: BondProviders_Adjust_def demo_providers_def uint_eval)
qed


text \<open>The sum is not always invariant: three providers of 10 units each under an operator
  without bond, realigned to a node bond of 35, end with 36 units.\<close>

lemma adjust_sum_can_exceed:
  "\<exists>bp'. BondProviders_Adjust legacy_dec demo_providers 35 = Inr bp' \<and> total_bonds (Providers bp') = 36"
  by (simp add: demo_adjust)

text \<open>Removing a provider never removes the operator and never removes bond.\<close>

lemma remove_keeps_bonds:
  "let (removed, bp') = BondProviders_Remove bp a in
     total_bonds (Providers bp') = total_bonds (Providers bp)
     \<and> take 1 (Providers bp') = take 1 (Providers bp)
     \<and> length (Providers bp') + (if removed then 1 else 0) = length (Providers bp)"
proof (cases "Providers bp")
  case (Cons op ps)
  show ?thesis
  proof (cases "find_index (\<lambda>p. BondAddress p = a \<and> bpBond p = 0) ps")
    case (Some i)
    then have i: "i < length ps" "bpBond (ps ! i) = 0" using find_index_Some by fastforce+
    then have "ps = take i ps @ ps ! i # drop (Suc i) ps" by (simp add: id_take_nth_drop)
    then have "total_bonds ps = total_bonds (remove_at i ps)"
      using i(2) total_bonds_simps(2,3) unfolding remove_at_def by (metis add_0)
    with Cons Some i show ?thesis by (auto simp: BondProviders_Remove_def remove_at_def)
  qed (use Cons in \<open>simp add: BondProviders_Remove_def\<close>)
qed (simp add: BondProviders_Remove_def)

text \<open>A node is credited the blocks since it became active less its slash points, never less
  than zero. (The slash points pass through a 53-bit float, so the statement is for fewer than \<open>2^53\<close>.)\<close>

theorem bond_units_blocks_served:
  assumes "0 \<le> height" and "height < 2 ^ 62" and "0 \<le> ActiveBlockHeight m"
    and "ActiveBlockHeight m < 2 ^ 62" and "slashpoints < 2 ^ 53"
  shows "int (CalcBondUnits m height slashpoints)
    = max 0 (height - ActiveBlockHeight m - max 0 slashpoints)"
proof -
  have slash: "clamp_slashpoints slashpoints = max 0 slashpoints"
    using float64_exact [of "nat slashpoints"] assms(5) i64_id [of slashpoints]
    by (auto simp: clamp_slashpoints_def nat_less_iff)
  have "i64 (ActiveBlockHeight m + max 0 slashpoints) = ActiveBlockHeight m + max 0 slashpoints"
    using assms by (intro i64_id) auto
  moreover have "i64 (height - (ActiveBlockHeight m + max 0 slashpoints))
      = height - (ActiveBlockHeight m + max 0 slashpoints)"
    using assms by (intro i64_id) auto
  ultimately show ?thesis using assms slash by (auto simp: CalcBondUnits_def Let_def)
qed

definition demo_node :: node_account where
  "demo_node = (NewNodeAccount ''n'' NodeStatus_Active \<lparr>Secp256k1 = ''k'', Ed25519 = ''e''\<rparr> ''v'' 100 ''b'' 7)
     \<lparr>ActiveBlockHeight := 10\<rparr>"

theorem bond_units_blocks_served_witness:
  "int (CalcBondUnits demo_node 100 30) = max 0 (100 - ActiveBlockHeight demo_node - max 0 30)"
  by (rule bond_units_blocks_served) (simp_all add: demo_node_def)

text \<open>Adding a signer key makes the node a member, and removing it again restores the node
  account, provided every stored key decodes.\<close>

theorem signer_key_add_remove:
  assumes "\<forall>s \<in> set (SignerMembership m). NewPubKey K s = Inr s" and "NewPubKey K key = Inr key"
    and "key \<noteq> []" and "key \<notin> set (SignerMembership m)"
  shows "key \<in> set (GetSignerMembership K (TryAddSignerPubKey K m key))
    \<and> TryRemoveSignerPubKey K (TryAddSignerPubKey K m key) key = m"
proof -
  let ?m = "TryAddSignerPubKey K m key"
  have mem: "GetSignerMembership K m = SignerMembership m"
    unfolding GetSignerMembership_def by (rule parse_pubkeys_all) (use assms(1) in blast)
  then have add: "?m = m\<lparr>SignerMembership := SignerMembership m @ [key]\<rparr>"
    using assms(3,4) by (auto simp: TryAddSignerPubKey_def list_ex_iff)
  have "GetSignerMembership K ?m = SignerMembership m @ [key]"
    unfolding add GetSignerMembership_def using assms(1,2)
    by (auto intro!: parse_pubkeys_all)
  then show ?thesis
    unfolding add using assms(3)
    by (simp add: TryRemoveSignerPubKey_def find_last_index_def remove_at_def)
qed

theorem signer_key_add_remove_witness:
  "''key'' \<in> set (GetSignerMembership plain_keys (TryAddSignerPubKey plain_keys demo_node ''key''))
    \<and> TryRemoveSignerPubKey plain_keys (TryAddSignerPubKey plain_keys demo_node ''key'') ''key'' = demo_node"
  by (rule signer_key_add_remove)
     (simp_all add: demo_node_def NewNodeAccount_def UpdateStatus_def Let_def NewPubKey_def plain_keys_def)

text \<open>With a stored key that does not decode the removal hits the wrong entry: the node stays a
  signer of the key that was to be removed.\<close>

lemma remove_signer_key_shifted:
  "\<exists>K m key. SignerMembership m = [''!old'', key] \<and> GetSignerMembership K m = [key]
     \<and> SignerMembership (TryRemoveSignerPubKey K m key) = [key]"
  by (rule exI [of _ plain_keys], rule exI [of _ "demo_node\<lparr>SignerMembership := [''!old'', ''key'']\<rparr>"],
      rule exI [of _ "''key''"])
     (simp add: TryRemoveSignerPubKey_def GetSignerMembership_def parse_pubkeys_def List.map_filter_simps
      NewPubKey_def plain_keys_def find_last_index_def remove_at_def)

end
