(* ===== verification/TxOut.thy ===== *)
theory TxOut
  imports Coins
begin

text \<open>Outbound items: \<^verbatim>\<open>src/x/switchly/types/type_tx_out.go\<close>.\<close>

record tx_out_item =
  toiChain :: chain
  toiToAddress :: address
  toiVaultPubKey :: pubkey
  toiCoin :: coin
  toiMemo :: string
  toiMaxGas :: gas
  toiGasRate :: int
  toiInHash :: txid
  toiOutHash :: txid
  toiModuleName :: string
  toiAggregator :: string
  toiAggregatorTargetAsset :: string
  toiAggregatorTargetLimit :: "uint option"
  toiCloutSpent :: "uint option"

definition TxOutItem_Valid :: "tx_out_item \<Rightarrow> unit res" where
  "TxOutItem_Valid m =
     (if Chain_IsEmpty (toiChain m) then Inl (Err ''chain cannot be empty'')
      else if TxID_IsEmpty (toiInHash m) then Inl (Err ''In Hash cannot be empty'')
      else if Address_IsEmpty (toiToAddress m) then Inl (Err ''To address cannot be empty'')
      else if toiVaultPubKey m = [] then Inl (Err ''vault pubkey cannot be empty'')
      else if toiGasRate m = 0 then Inl (Err ''gas rate is zero'')
      else if Asset_IsEmpty (GetGasAsset (toiChain m)) then Inl (Err ''invalid base asset'')
      else res_bind (Coin_Valid (toiCoin m)) (\<lambda>_. Coins_Valid (toiMaxGas m)))"

definition TxOutItem_Equals :: "tx_out_item \<Rightarrow> tx_out_item \<Rightarrow> bool" where
  "TxOutItem_Equals m toi2 \<longleftrightarrow> Chain_Equals (toiChain m) (toiChain toi2)
     \<and> Address_Equals (toiToAddress m) (toiToAddress toi2) \<and> toiVaultPubKey m = toiVaultPubKey toi2
     \<and> Coin_Equals (toiCoin m) (toiCoin toi2) \<and> TxID_Equals (toiInHash m) (toiInHash toi2)
     \<and> toiMemo m = toiMemo toi2 \<and> toiGasRate m = toiGasRate toi2"

definition AsgardName :: string where
  "AsgardName = ''asgard''"

definition GetModuleName :: "tx_out_item \<Rightarrow> string" where
  "GetModuleName toi = (if toiModuleName toi = [] then AsgardName else toiModuleName toi)"

record tx_out =
  toHeight :: int
  TxArray :: "tx_out_item list"

definition NewTxOut :: "int \<Rightarrow> tx_out" where
  "NewTxOut height = \<lparr>toHeight = height, TxArray = []\<rparr>"

definition TxOut_IsEmpty :: "tx_out \<Rightarrow> bool" where
  "TxOut_IsEmpty m \<longleftrightarrow> TxArray m = []"

definition TxOut_Valid :: "tx_out \<Rightarrow> unit res" where
  "TxOut_Valid m = res_fold (\<lambda>t _. TxOutItem_Valid t) (TxArray m) ()"

end
