(* ===== verification/Voters.thy ===== *)
theory Voters
  imports Nodes TxOut
begin

text \<open>
  Voting by the active nodes: the majority tests of \<^verbatim>\<open>src/x/switchly/types/types.go\<close>, observed
  transactions (\<^verbatim>\<open>src/common/type_observed_tx.go\<close>, \<^verbatim>\<open>src/x/switchly/types/type_observed_tx.go\<close>) and
  the other voters: key generation (\<^verbatim>\<open>type_tss.go\<close>), errata, bans, solvency, network fees, keysign
  failures, and the timing metrics.

  Every voter keeps its signers as bech32 strings; \<open>GetSigners\<close> decodes them and drops what does not
  decode. The locale \<open>signer_set\<close> is the contract of signing, interpreted for each voter.
\<close>

section \<open>Majorities (types.go)\<close>

definition HasSuperMajority :: "int \<Rightarrow> int \<Rightarrow> bool" where
  "HasSuperMajority signers tot =
     (if signers > tot then False else if signers \<le> 0 then False
      else let twice = i64 (tot * 2); mn = go_quot twice 3;
               mn' = (if go_rem twice 3 > 0 then mn + 1 else mn) in signers \<ge> mn')"

definition HasSimpleMajority :: "int \<Rightarrow> int \<Rightarrow> bool" where
  "HasSimpleMajority signers tot =
     (if signers > tot then False else if signers \<le> 0 then False
      else let mn = go_quot tot 2; mn' = (if go_rem tot 2 > 0 then mn + 1 else mn) in signers \<ge> mn')"

definition HasMinority :: "int \<Rightarrow> int \<Rightarrow> bool" where
  "HasMinority signers tot =
     (if signers > tot then False else if signers \<le> 0 then False
      else let mn = go_quot tot 3; mn' = (if go_rem tot 3 > 0 then mn + 1 else mn) in signers \<ge> mn')"

section \<open>Observed transactions (common/type_observed_tx.go)\<close>

datatype Status = Status_incomplete | Status_done | Status_reverted | Status_other int

record observed_tx =
  oTx :: tx
  oStatus :: Status
  OutHashes :: "string list"
  oBlockHeight :: int
  oSigners :: "string list"
  ObservedPubKey :: pubkey
  KeysignMs :: int
  FinaliseHeight :: int
  Aggregator :: string
  AggregatorTarget :: string
  AggregatorTargetLimit :: "uint option"

definition NewObservedTx :: "tx \<Rightarrow> int \<Rightarrow> pubkey \<Rightarrow> int \<Rightarrow> observed_tx" where
  "NewObservedTx t height pk finalisedHeight = \<lparr>oTx = t, oStatus = Status_incomplete, OutHashes = [],
     oBlockHeight = height, oSigners = [], ObservedPubKey = pk, KeysignMs = 0,
     FinaliseHeight = finalisedHeight, Aggregator = '''', AggregatorTarget = '''',
     AggregatorTargetLimit = None\<rparr>"

definition EmptyTx :: tx where
  "EmptyTx = \<lparr>tID = '''', tChain = '''', tFromAddress = '''', tToAddress = '''', tCoins = [], tGas = [],
     tMemo = ''''\<rparr>"

text \<open>The zero value \<open>ObservedTx{}\<close>.\<close>

definition EmptyObservedTx :: observed_tx where
  "EmptyObservedTx = NewObservedTx EmptyTx 0 '''' 0"

definition ObservedTx_Valid :: "observed_tx \<Rightarrow> unit res" where
  "ObservedTx_Valid m = res_bind (Tx_Valid (oTx m)) (\<lambda>_.
     if oBlockHeight m \<le> 0 then Inl (Err ''block height can't be zero'')
     else if ObservedPubKey m = [] then Inl (Err ''observed pool pubkey is empty'')
     else if FinaliseHeight m \<le> 0 then Inl (Err ''finalise block height can't be zero'')
     else Inr ())"

definition ObservedTx_IsEmpty :: "observed_tx \<Rightarrow> bool" where
  "ObservedTx_IsEmpty m = Tx_IsEmpty (oTx m)"

definition limit_of :: "uint option \<Rightarrow> uint" where
  "limit_of l = (case l of None \<Rightarrow> 0 | Some n \<Rightarrow> n)"

definition ObservedTx_Equals :: "observed_tx \<Rightarrow> observed_tx \<Rightarrow> bool" where
  "ObservedTx_Equals m tx2 \<longleftrightarrow> Tx_EqualsEx (oTx m) (oTx tx2)
     \<and> ObservedPubKey m = ObservedPubKey tx2 \<and> oBlockHeight m = oBlockHeight tx2
     \<and> FinaliseHeight m = FinaliseHeight tx2 \<and> equal_fold (Aggregator m) (Aggregator tx2)
     \<and> equal_fold (AggregatorTarget m) (AggregatorTarget tx2)
     \<and> limit_of (AggregatorTargetLimit m) = limit_of (AggregatorTargetLimit tx2)"

definition IsFinal :: "observed_tx \<Rightarrow> bool" where
  "IsFinal m \<longleftrightarrow> FinaliseHeight m = oBlockHeight m"

definition GetOutHashes :: "observed_tx \<Rightarrow> txid list" where
  "GetOutHashes m =
     List.map_filter (\<lambda>s. case NewTxID s of Inl _ \<Rightarrow> None | Inr t \<Rightarrow> Some t) (OutHashes m)"

definition ObservedTx_GetSigners :: "key_lib \<Rightarrow> observed_tx \<Rightarrow> acc list" where
  "ObservedTx_GetSigners K m = parse_accs K (oSigners m)"

definition ObservedTx_HasSigned :: "key_lib \<Rightarrow> observed_tx \<Rightarrow> acc \<Rightarrow> bool" where
  "ObservedTx_HasSigned K m signer = list_ex (\<lambda>s. s = signer) (ObservedTx_GetSigners K m)"

definition ObservedTx_Sign :: "key_lib \<Rightarrow> observed_tx \<Rightarrow> acc \<Rightarrow> bool \<times> observed_tx" where
  "ObservedTx_Sign K m signer =
     (if ObservedTx_HasSigned K m signer then (False, m)
      else (True, m\<lparr>oSigners := oSigners m @ [acc_string K signer]\<rparr>))"

definition ObservedTx_IsDone :: "observed_tx \<Rightarrow> int \<Rightarrow> bool" where
  "ObservedTx_IsDone m numOuts \<longleftrightarrow> int (length (OutHashes m)) \<ge> numOuts"

definition ObservedTx_SetDone :: "observed_tx \<Rightarrow> txid \<Rightarrow> int \<Rightarrow> observed_tx" where
  "ObservedTx_SetDone m hash numOuts =
     (if \<not> TxID_Equals hash BlankTxID \<and> list_ex (\<lambda>done. TxID_Equals done hash) (GetOutHashes m) then m
      else let m' = m\<lparr>OutHashes := OutHashes m @ [hash]\<rparr> in
        if ObservedTx_IsDone m' numOuts then m'\<lparr>oStatus := Status_done\<rparr> else m')"

definition ObservedTxs_Contains :: "observed_tx list \<Rightarrow> observed_tx \<Rightarrow> bool" where
  "ObservedTxs_Contains txs t = list_ex (\<lambda>item. ObservedTx_Equals item t) txs"

section \<open>The voter of an observed transaction (types/type_observed_tx.go)\<close>

record observed_tx_voter =
  vTxID :: txid
  vTx :: observed_tx
  vHeight :: int
  vTxs :: "observed_tx list"
  vActions :: "tx_out_item list"
  vOutTxs :: "tx list"
  vFinalisedHeight :: int
  vUpdatedVault :: bool
  vReverted :: bool
  vOutboundHeight :: int

definition NewObservedTxVoter :: "txid \<Rightarrow> observed_tx list \<Rightarrow> observed_tx_voter" where
  "NewObservedTxVoter i txs = \<lparr>vTxID = i, vTx = EmptyObservedTx, vHeight = 0, vTxs = txs, vActions = [],
     vOutTxs = [], vFinalisedHeight = 0, vUpdatedVault = False, vReverted = False, vOutboundHeight = 0\<rparr>"

definition ObservedTxVoter_Valid :: "observed_tx_voter \<Rightarrow> unit res" where
  "ObservedTxVoter_Valid m =
     (if TxID_IsEmpty (vTxID m) then Inl (Err ''cannot have an empty tx id'')
      else res_fold (\<lambda>t _. ObservedTx_Valid t) (vTxs m) ())"

definition match_coin :: "tx \<Rightarrow> tx_out_item \<Rightarrow> bool res" where
  "match_coin outboundTx toi =
     (let matchCoin = Coins_Contains (tCoins outboundTx) (toiCoin toi);
          a = GetGasAsset (toiChain toi) in
      if \<not> matchCoin \<and> Asset_Equals (cAsset (toiCoin toi)) a then
        res_bind (uint_add (cAmount (toiCoin toi)) (cAmount (GetCoin (ToCoins (toiMaxGas toi)) a)))
          (\<lambda>intendToSpend.
        res_bind (uint_add (cAmount (GetCoin (tCoins outboundTx) a))
                           (cAmount (GetCoin (ToCoins (tGas outboundTx)) a))) (\<lambda>actualSpend.
          Inr (intendToSpend = actualSpend)))
      else Inr matchCoin)"

fun match_actions :: "tx \<Rightarrow> tx_out_item list \<Rightarrow> bool res" where
  "match_actions outboundTx [] = Inr False"
| "match_actions outboundTx (toi # tois) =
     res_bind (match_coin outboundTx toi) (\<lambda>matchCoin.
       if equal_fold (toiMemo toi) (tMemo outboundTx)
          \<and> Address_Equals (toiToAddress toi) (tToAddress outboundTx)
          \<and> Chain_Equals (toiChain toi) (tChain outboundTx) \<and> matchCoin
       then Inr True else match_actions outboundTx tois)"

definition matchActionItem :: "observed_tx_voter \<Rightarrow> tx \<Rightarrow> bool res" where
  "matchActionItem m outboundTx = match_actions outboundTx (vActions m)"

definition AddOutTx :: "observed_tx_voter \<Rightarrow> tx \<Rightarrow> (bool \<times> observed_tx_voter) res" where
  "AddOutTx m t =
     res_map (\<lambda>matched.
       if \<not> matched then (False, m)
       else if \<not> TxID_Equals (tID t) BlankTxID \<and> list_ex (\<lambda>o'. TxID_Equals (tID t) (tID o')) (vOutTxs m)
         then (True, m)
       else
         let n = int (length (vActions m));
             m' = m\<lparr>vOutTxs := vOutTxs m @ [t],
                   vTxs := map (\<lambda>x. ObservedTx_SetDone x (tID t) n) (vTxs m)\<rparr> in
         (True, if ObservedTx_IsEmpty (vTx m') then m'
                else m'\<lparr>vTx := ObservedTx_SetDone (vTx m') (tID t) n\<rparr>))
     (matchActionItem m t)"

definition ObservedTxVoter_IsDone :: "observed_tx_voter \<Rightarrow> bool" where
  "ObservedTxVoter_IsDone m \<longleftrightarrow> length (vActions m) \<le> length (vOutTxs m)"

text \<open>
  \<open>Add\<close>: the loop returns false at the first equal observation the signer has signed; otherwise the
  last equal observation is signed, or the observation is appended with its first signer.
\<close>

definition ObservedTxVoter_Add ::
  "key_lib \<Rightarrow> observed_tx_voter \<Rightarrow> observed_tx \<Rightarrow> acc \<Rightarrow> bool \<times> observed_tx_voter" where
  "ObservedTxVoter_Add K m observedTx signer =
     (if list_ex (\<lambda>t. ObservedTx_Equals t observedTx
          \<and> list_ex (\<lambda>s. s = signer) (ObservedTx_GetSigners K t)) (vTxs m)
      then (False, m)
      else case find_last_index (\<lambda>t. ObservedTx_Equals t observedTx) (vTxs m) of
        Some idx \<Rightarrow> (case ObservedTx_Sign K (vTxs m ! idx) signer of
          (b, t') \<Rightarrow> (b, m\<lparr>vTxs := (vTxs m)[idx := t']\<rparr>))
      | None \<Rightarrow> (True, m\<lparr>vTxs := vTxs m @ [observedTx\<lparr>oSigners := [acc_string K signer]\<rparr>]\<rparr>))"

text \<open>The keys of the map \<open>voters\<close> built for one observation.\<close>

definition consensus_voters ::
  "key_lib \<Rightarrow> node_account list \<Rightarrow> bool \<Rightarrow> observed_tx list \<Rightarrow> observed_tx \<Rightarrow> string list" where
  "consensus_voters K accounts final txs txFinal =
     remdups (map (acc_string K) (filter (IsNodeKeys accounts)
       (concat (map (ObservedTx_GetSigners K)
         (filter (\<lambda>txIn. IsFinal txIn = final \<and> Tx_EqualsEx (oTx txFinal) (oTx txIn)) txs)))))"

definition getConsensusTx ::
  "key_lib \<Rightarrow> observed_tx_voter \<Rightarrow> node_account list \<Rightarrow> bool \<Rightarrow> observed_tx" where
  "getConsensusTx K m accounts final =
     (case find (\<lambda>txFinal. IsFinal txFinal = final
          \<and> HasSuperMajority (int (length (consensus_voters K accounts final (vTxs m) txFinal)))
              (int (length accounts))) (vTxs m) of
        Some t \<Rightarrow> t | None \<Rightarrow> EmptyObservedTx)"

definition GetTx :: "key_lib \<Rightarrow> observed_tx_voter \<Rightarrow> node_account list \<Rightarrow> observed_tx" where
  "GetTx K m nodeAccounts =
     (if \<not> ObservedTx_IsEmpty (vTx m) \<and> IsFinal (vTx m) then vTx m
      else let finalTx = getConsensusTx K m nodeAccounts True in
        if \<not> ObservedTx_IsEmpty finalTx then finalTx
        else let discoverTx = getConsensusTx K m nodeAccounts False in
          if \<not> ObservedTx_IsEmpty discoverTx then discoverTx else vTx m)"

definition ObservedTxVoter_HasConsensus :: "key_lib \<Rightarrow> observed_tx_voter \<Rightarrow> node_account list \<Rightarrow> bool" where
  "ObservedTxVoter_HasConsensus K m nodeAccounts \<longleftrightarrow> \<not> ObservedTx_IsEmpty (GetTx K m nodeAccounts)"

definition HasFinalised :: "key_lib \<Rightarrow> observed_tx_voter \<Rightarrow> node_account list \<Rightarrow> bool" where
  "HasFinalised K m nodeAccounts =
     (let finalTx = GetTx K m nodeAccounts in
      if ObservedTx_IsEmpty finalTx then False else IsFinal finalTx)"

text \<open>The loop of \<open>setStatus\<close> assigns to a copy of each observation: the list is not changed.\<close>

definition setStatus :: "observed_tx_voter \<Rightarrow> Status \<Rightarrow> observed_tx_voter" where
  "setStatus m toStatus =
     (if \<not> ObservedTx_IsEmpty (vTx m) then m\<lparr>vTx := (vTx m)\<lparr>oStatus := toStatus\<rparr>\<rparr> else m)"

definition SetReverted :: "observed_tx_voter \<Rightarrow> observed_tx_voter" where
  "SetReverted m = (setStatus m Status_reverted)\<lparr>vReverted := True\<rparr>"

definition ObservedTxVoter_SetDone :: "observed_tx_voter \<Rightarrow> observed_tx_voter" where
  "ObservedTxVoter_SetDone m = setStatus m Status_done"

text \<open>The loop keeps the first occurrence of each signer, by its printed form.\<close>

definition add_signer :: "key_lib \<Rightarrow> acc \<Rightarrow> acc list \<Rightarrow> acc list" where
  "add_signer K s signers =
     (if acc_string K s \<in> set (map (acc_string K) signers) then signers else signers @ [s])"

definition GetConsensusSigners :: "key_lib \<Rightarrow> observed_tx_voter \<Rightarrow> acc list" where
  "GetConsensusSigners K m =
     (if ObservedTx_IsEmpty (vTx m) then []
      else fold (add_signer K) (concat (map (ObservedTx_GetSigners K)
        (filter (\<lambda>t. IsFinal t = IsFinal (vTx m) \<and> Tx_EqualsEx (oTx t) (oTx (vTx m))) (vTxs m)))) [])"

section \<open>Lemmas on majorities\<close>

text \<open>The minimum that the three tests compute is a ceiling.\<close>

lemma ceil_quot:
  assumes "0 \<le> a" and "0 < b"
  shows "(s \<ge> (if go_rem a b > 0 then go_quot a b + 1 else go_quot a b)) \<longleftrightarrow> a \<le> b * s"
proof -
  define q where "q = a div b"
  define r where "r = a mod b"
  have a: "a = b * q + r" and r: "0 \<le> r" "r < b" using assms by (simp_all add: q_def r_def)
  have "b * q + r \<le> b * s \<longleftrightarrow> (if r > 0 then q + 1 \<le> s else q \<le> s)"
  proof (cases "r > 0")
    case True
    show ?thesis
    proof (cases "q + 1 \<le> s")
      case le: True
      then have "b * (q + 1) \<le> b * s" using assms(2) by (intro mult_left_mono) auto
      with le True r show ?thesis by (simp add: distrib_left)
    next
      case False
      then have "b * s \<le> b * q" using assms(2) by (intro mult_left_mono) auto
      with False True show ?thesis by simp
    qed
  qed (use r assms(2) in simp)
  moreover have "go_quot a b = q" "go_rem a b = r"
    using assms by (simp_all add: go_quot_nonneg go_rem_nonneg q_def r_def)
  ultimately show ?thesis using a by (auto split: if_splits)
qed

lemma super_majority_iff:
  assumes "0 \<le> n" and "n < 2 ^ 62"
  shows "HasSuperMajority s n \<longleftrightarrow> 0 < s \<and> s \<le> n \<and> 2 * n \<le> 3 * s"
proof -
  have "i64 (n * 2) = n * 2" using assms by (intro i64_id) auto
  then show ?thesis using ceil_quot [of "n * 2" 3 s] assms
    by (auto simp: HasSuperMajority_def Let_def)
qed

lemma simple_majority_iff:
  "0 \<le> n \<Longrightarrow> HasSimpleMajority s n \<longleftrightarrow> 0 < s \<and> s \<le> n \<and> n \<le> 2 * s"
  using ceil_quot [of n 2 s] by (auto simp: HasSimpleMajority_def Let_def)

lemma minority_iff:
  "0 \<le> n \<Longrightarrow> HasMinority s n \<longleftrightarrow> 0 < s \<and> s \<le> n \<and> n \<le> 3 * s"
  using ceil_quot [of n 3 s] by (auto simp: HasMinority_def Let_def)

text \<open>The active nodes among a set of accounts.\<close>

definition active_of :: "node_account list \<Rightarrow> acc set \<Rightarrow> acc set" where
  "active_of nas A = {a \<in> A. IsNodeKeys nas a}"

lemma active_nodes_bound:
  "finite {a. IsNodeKeys nas a} \<and> card {a. IsNodeKeys nas a} \<le> length nas"
proof -
  have "{a. IsNodeKeys nas a} \<subseteq> set (map NodeAddress nas)"
    by (auto simp: IsNodeKeys_def list_ex_iff)
  then show ?thesis
    by (metis List.finite_set card_length card_mono finite_subset le_trans length_map)
qed

text \<open>Two sets of active signers with two thirds of the nodes each share a third of the nodes.\<close>

lemma quorum_overlap:
  assumes "2 * length nas \<le> 3 * card (active_of nas A)" and "2 * length nas \<le> 3 * card (active_of nas B)"
  shows "length nas \<le> 3 * card (active_of nas (A \<inter> B))"
proof -
  let ?N = "{a. IsNodeKeys nas a}"
  have fin: "finite ?N" and le: "card ?N \<le> length nas" using active_nodes_bound by blast+
  have sub: "active_of nas A \<subseteq> ?N" "active_of nas B \<subseteq> ?N" by (auto simp: active_of_def)
  then have "finite (active_of nas A)" "finite (active_of nas B)" using fin finite_subset by blast+
  then have "card (active_of nas A) + card (active_of nas B)
      = card (active_of nas A \<union> active_of nas B) + card (active_of nas A \<inter> active_of nas B)"
    by (rule card_Un_Int)
  moreover have "active_of nas A \<inter> active_of nas B = active_of nas (A \<inter> B)"
    by (auto simp: active_of_def)
  moreover have "card (active_of nas A \<union> active_of nas B) \<le> card ?N"
    using sub fin by (intro card_mono) auto
  ultimately show ?thesis using assms le by simp
qed

section \<open>Signing: the contract\<close>

text \<open>
  \<open>sign\<close> either refuses and leaves the voter as it is, or appends the printed form of a signer that
  had not signed. \<open>acc_ok\<close> addresses decode to themselves.
\<close>

locale signer_set =
  fixes K :: key_lib
    and signers :: "'v \<Rightarrow> string list"
    and sign :: "'v \<Rightarrow> acc \<Rightarrow> bool \<times> 'v"
  assumes keys: "keys_ok K"
    and sign_refused: "sign v a = (False, v') \<Longrightarrow> v' = v"
    and sign_accepted: "sign v a = (True, v') \<Longrightarrow>
      a \<notin> set (parse_accs K (signers v)) \<and> signers v' = signers v @ [acc_string K a]"
begin

lemma parse_append:
  "acc_ok a \<Longrightarrow> parse_accs K (xs @ [acc_string K a]) = parse_accs K xs @ [a]"
  using keys by (simp add: parse_accs_def keys_ok_def List.map_filter_def)

lemma signed_after: "acc_ok a \<Longrightarrow> sign v a = (True, v') \<Longrightarrow>
    parse_accs K (signers v') = parse_accs K (signers v) @ [a]"
  by (simp add: sign_accepted parse_append)

text \<open>No double vote: the decoded signers stay distinct.\<close>

lemma distinct_signers:
  assumes "acc_ok a" and "sign v a = (b, v')" and "distinct (parse_accs K (signers v))"
  shows "distinct (parse_accs K (signers v'))"
  using assms sign_refused sign_accepted signed_after by (cases b) fastforce+

text \<open>A second vote of the same signer is refused.\<close>

lemma sign_twice:
  assumes "acc_ok a" and "sign v a = (True, v')"
  shows "sign v' a = (False, v')"
proof (cases "sign v' a")
  case (Pair b w)
  show ?thesis
  proof (cases b)
    case True
    with Pair have "sign v' a = (True, w)" by simp
    then have "a \<notin> set (parse_accs K (signers v'))" using sign_accepted by blast
    with signed_after [OF assms] show ?thesis by simp
  qed (use Pair sign_refused in auto)
qed

text \<open>The number of votes of active nodes is the number of active nodes that voted.\<close>

lemma active_votes:
  assumes "distinct (parse_accs K (signers v))"
  shows "length (filter (IsNodeKeys nas) (parse_accs K (signers v)))
    = card (active_of nas (set (parse_accs K (signers v))))"
proof -
  have "active_of nas (set (parse_accs K (signers v))) = set (filter (IsNodeKeys nas) (parse_accs K (signers v)))"
    by (auto simp: active_of_def)
  with assms show ?thesis by (metis distinct_card distinct_filter)
qed

end

lemma observed_signer_set:
  "keys_ok K \<Longrightarrow> signer_set K oSigners (ObservedTx_Sign K)"
  by unfold_locales
     (auto simp: ObservedTx_Sign_def ObservedTx_HasSigned_def ObservedTx_GetSigners_def list_ex_iff
      split: if_splits)

interpretation observed: signer_set plain_keys oSigners "ObservedTx_Sign plain_keys"
  by (rule observed_signer_set [OF plain_keys_ok])

section \<open>Lemmas on observations\<close>

lemma ObservedTx_Equals_equiv:
  "ObservedTx_Equals t t" "ObservedTx_Equals t u \<longleftrightarrow> ObservedTx_Equals u t"
  "ObservedTx_Equals t u \<Longrightarrow> ObservedTx_Equals u w \<Longrightarrow> ObservedTx_Equals t w"
  by (auto simp: ObservedTx_Equals_def Tx_EqualsEx_sym equal_fold_def intro: Tx_EqualsEx_trans)

text \<open>Votes, hashes and status are not part of the identity of an observation.\<close>

lemma Equals_ignores [simp]:
  "ObservedTx_Equals (t\<lparr>oSigners := ss\<rparr>) u = ObservedTx_Equals t u"
  "ObservedTx_Equals u (t\<lparr>oSigners := ss\<rparr>) = ObservedTx_Equals u t"
  "ObservedTx_Equals (ObservedTx_SetDone t h n) u = ObservedTx_Equals t u"
  "ObservedTx_Equals u (ObservedTx_SetDone t h n) = ObservedTx_Equals u t"
  by (simp_all add: ObservedTx_Equals_def ObservedTx_SetDone_def Let_def)

lemma SetDone_signers [simp]: "ObservedTx_GetSigners K (ObservedTx_SetDone t h n) = ObservedTx_GetSigners K t"
  by (simp add: ObservedTx_GetSigners_def ObservedTx_SetDone_def Let_def)

lemma Sign_new:
  "\<not> ObservedTx_HasSigned K t a \<Longrightarrow>
     ObservedTx_Sign K t a = (True, t\<lparr>oSigners := oSigners t @ [acc_string K a]\<rparr>)"
  by (simp add: ObservedTx_Sign_def)

lemma find_last_index_Some:
  assumes "find_last_index p xs = Some i"
  shows "i < length xs \<and> p (xs ! i)"
proof -
  from assms obtain j where "find_index p (rev xs) = Some j" and i: "i = length xs - 1 - j"
    by (auto simp: find_last_index_def)
  with find_index_Some [of p "rev xs" j] have "j < length xs" "p (rev xs ! j)" by auto
  then show ?thesis unfolding i by (simp add: rev_nth)
qed

lemma find_last_index_None: "find_last_index p xs = None \<longleftrightarrow> (\<forall>x \<in> set xs. \<not> p x)"
  by (simp add: find_last_index_def find_index_None)

text \<open>What \<open>Add\<close> does, on each of its three paths.\<close>

lemma Add_cases:
  assumes "ObservedTxVoter_Add K m obs a = (b, m')"
  obtains
    (refused) t where "t \<in> set (vTxs m)" "ObservedTx_Equals t obs" "a \<in> set (ObservedTx_GetSigners K t)"
      "\<not> b" "m' = m"
  | (signed) xs t ys where "vTxs m = xs @ t # ys" "ObservedTx_Equals t obs" "\<not> ObservedTx_HasSigned K t a"
      "b" "m' = m\<lparr>vTxs := xs @ t\<lparr>oSigners := oSigners t @ [acc_string K a]\<rparr> # ys\<rparr>"
  | (appended) "\<forall>t \<in> set (vTxs m). \<not> ObservedTx_Equals t obs" "b"
      "m' = m\<lparr>vTxs := vTxs m @ [obs\<lparr>oSigners := [acc_string K a]\<rparr>]\<rparr>"
proof (cases "list_ex (\<lambda>t. ObservedTx_Equals t obs
    \<and> list_ex (\<lambda>s. s = a) (ObservedTx_GetSigners K t)) (vTxs m)")
  case True
  with assms have "\<not> b" "m' = m" by (simp_all add: ObservedTxVoter_Add_def)
  moreover from True obtain t where "t \<in> set (vTxs m)" "ObservedTx_Equals t obs"
    "a \<in> set (ObservedTx_GetSigners K t)" by (auto simp: list_ex_iff)
  ultimately show ?thesis using refused by blast
next
  case new: False
  show ?thesis
  proof (cases "find_last_index (\<lambda>t. ObservedTx_Equals t obs) (vTxs m)")
    case None
    with assms new have "b" "m' = m\<lparr>vTxs := vTxs m @ [obs\<lparr>oSigners := [acc_string K a]\<rparr>]\<rparr>"
      by (simp_all add: ObservedTxVoter_Add_def)
    with None appended show ?thesis by (simp add: find_last_index_None)
  next
    case (Some i)
    then have i: "i < length (vTxs m)" "ObservedTx_Equals (vTxs m ! i) obs"
      using find_last_index_Some by blast+
    have ns: "\<not> ObservedTx_HasSigned K (vTxs m ! i) a"
      using new i nth_mem [OF i(1)] by (auto simp: list_ex_iff ObservedTx_HasSigned_def)
    from assms new Some ns have "b" and "m' = m\<lparr>vTxs := (vTxs m)[i :=
        (vTxs m ! i)\<lparr>oSigners := oSigners (vTxs m ! i) @ [acc_string K a]\<rparr>]\<rparr>"
      by (simp_all add: ObservedTxVoter_Add_def Sign_new)
    then show ?thesis
      using signed [OF id_take_nth_drop [OF i(1)] i(2) ns] i(1) by (simp add: upd_conv_take_nth_drop)
  qed
qed

text \<open>The votes for an observation, with multiplicity.\<close>

definition votes_for :: "key_lib \<Rightarrow> observed_tx_voter \<Rightarrow> observed_tx \<Rightarrow> acc multiset" where
  "votes_for K m t = mset (concat (map (ObservedTx_GetSigners K)
     (filter (\<lambda>x. ObservedTx_Equals x t) (vTxs m))))"

lemma GetSigners_signed:
  assumes "keys_ok K" and "acc_ok a"
  shows "ObservedTx_GetSigners K (t\<lparr>oSigners := ss @ [acc_string K a]\<rparr>) = parse_accs K ss @ [a]"
  using signer_set.parse_append [OF observed_signer_set [OF assms(1)] assms(2)]
  by (simp add: ObservedTx_GetSigners_def)

section \<open>The life of an observation voter\<close>

text \<open>
  The operations on a voter, with the field assignments of the handlers (the consensus transaction,
  heights, planned outbounds) as one rule: they leave the recorded votes and outbounds alone.
\<close>

inductive voter_step :: "key_lib \<Rightarrow> observed_tx_voter \<Rightarrow> observed_tx_voter \<Rightarrow> bool" for K where
  add: "acc_ok a \<Longrightarrow> ObservedTxVoter_Add K m obs a = (b, m') \<Longrightarrow> voter_step K m m'"
| out: "AddOutTx m t = Inr (b, m') \<Longrightarrow> voter_step K m m'"
| revert: "voter_step K m (SetReverted m)"
| finish: "voter_step K m (ObservedTxVoter_SetDone m)"
| assign: "voter_step K m (m\<lparr>vTx := t, vHeight := h, vActions := as, vFinalisedHeight := fh,
     vUpdatedVault := uv, vOutboundHeight := oh\<rparr>)"

inductive voter_reachable :: "key_lib \<Rightarrow> observed_tx_voter \<Rightarrow> bool" for K where
  init: "voter_reachable K (NewObservedTxVoter i [])"
| step: "voter_reachable K m \<Longrightarrow> voter_step K m m' \<Longrightarrow> voter_reachable K m'"

definition distinct_outs :: "tx list \<Rightarrow> bool" where
  "distinct_outs ts = sorted_wrt (\<lambda>s t. TxID_Equals (tID t) (tID s) \<longrightarrow> IsBlank (tID t)) ts"

definition voter_ok :: "key_lib \<Rightarrow> observed_tx_voter \<Rightarrow> bool" where
  "voter_ok K m \<longleftrightarrow> (\<forall>t \<in> set (vTxs m). distinct (ObservedTx_GetSigners K t))
     \<and> sorted_wrt (\<lambda>s t. \<not> ObservedTx_Equals s t) (vTxs m) \<and> distinct_outs (vOutTxs m)"

lemma voter_ok_cong:
  "vTxs m' = vTxs m \<Longrightarrow> vOutTxs m' = vOutTxs m \<Longrightarrow> voter_ok K m' = voter_ok K m"
  by (simp add: voter_ok_def)

lemma voter_ok_add:
  assumes "keys_ok K" and "acc_ok a" and "ObservedTxVoter_Add K m obs a = (b, m')" and "voter_ok K m"
  shows "voter_ok K m'"
  using assms(3)
proof (cases rule: Add_cases)
  case (signed xs t ys)
  have "distinct (parse_accs K (oSigners t) @ [a])"
    using assms(4) signed(1,3)
    by (auto simp: voter_ok_def ObservedTx_GetSigners_def ObservedTx_HasSigned_def list_ex_iff)
  with assms(4) signed(1) show ?thesis
    unfolding signed(5) voter_ok_def
    by (auto simp: sorted_wrt_append GetSigners_signed [OF assms(1,2)])
next
  case appended
  then show ?thesis using assms(4) GetSigners_signed [OF assms(1,2), where ss = "[]" and t = obs]
    by (auto simp: voter_ok_def sorted_wrt_append parse_accs_def List.map_filter_simps)
qed (use assms(4) in simp)

lemma AddOutTx_Inr:
  assumes "AddOutTx m t = Inr (b, m')"
  shows "\<not> b \<and> m' = m \<and> matchActionItem m t = Inr False
   \<or> b \<and> m' = m \<and> matchActionItem m t = Inr True \<and> (\<exists>o' \<in> set (vOutTxs m). TxID_Equals (tID t) (tID o'))
   \<or> (b \<and> matchActionItem m t = Inr True
     \<and> (\<forall>o' \<in> set (vOutTxs m). TxID_Equals (tID t) (tID o') \<longrightarrow> IsBlank (tID t))
     \<and> vOutTxs m' = vOutTxs m @ [t] \<and> vActions m' = vActions m
     \<and> vTxs m' = map (\<lambda>x. ObservedTx_SetDone x (tID t) (int (length (vActions m)))) (vTxs m))"
  using assms by (auto simp: AddOutTx_def res_map_Inr Let_def list_ex_iff IsBlank_def split: if_splits)

lemma voter_ok_out:
  assumes "AddOutTx m t = Inr (b, m')" and "voter_ok K m"
  shows "voter_ok K m'"
  using AddOutTx_Inr [OF assms(1)] assms(2)
  by (auto simp: voter_ok_def sorted_wrt_append sorted_wrt_map distinct_outs_def)

lemma voter_ok_step:
  assumes "keys_ok K" and "voter_step K m m'" and "voter_ok K m"
  shows "voter_ok K m'"
  using assms(2,3)
proof (cases rule: voter_step.cases)
  case (add a obs b)
  then show ?thesis using voter_ok_add assms by blast
next
  case (out t b)
  then show ?thesis using voter_ok_out assms by blast
qed (auto simp: voter_ok_def SetReverted_def ObservedTxVoter_SetDone_def setStatus_def)

section \<open>Consensus\<close>

text \<open>The accounts that signed an observation of the same transaction and finality.\<close>

definition supporters :: "key_lib \<Rightarrow> observed_tx_voter \<Rightarrow> bool \<Rightarrow> tx \<Rightarrow> acc set" where
  "supporters K m final t = (\<Union>x \<in> {x \<in> set (vTxs m). IsFinal x = final \<and> Tx_EqualsEx t (oTx x)}.
     set (ObservedTx_GetSigners K x))"

lemma set_consensus_voters:
  "set (consensus_voters K nas final (vTxs m) t)
     = acc_string K ` active_of nas (supporters K m final (oTx t))"
  by (auto simp: consensus_voters_def supporters_def active_of_def)

lemma voters_le:
  "length (consensus_voters K nas final (vTxs m) t) \<le> card (active_of nas (supporters K m final (oTx t)))"
proof -
  have fin: "finite (active_of nas (supporters K m final (oTx t)))"
    by (auto simp: active_of_def supporters_def)
  have "length (consensus_voters K nas final (vTxs m) t) = card (set (consensus_voters K nas final (vTxs m) t))"
    unfolding consensus_voters_def by (rule distinct_card [symmetric]) simp
  then show ?thesis unfolding set_consensus_voters using card_image_le [OF fin] by simp
qed

text \<open>Decodable addresses print differently, so every supporter is counted.\<close>

lemma voters_eq:
  assumes "keys_ok K"
  shows "length (consensus_voters K nas final (vTxs m) t) = card (active_of nas (supporters K m final (oTx t)))"
proof -
  have "inj_on (acc_string K) (supporters K m final (oTx t))"
  proof (rule inj_on_inverseI)
    fix a assume "a \<in> supporters K m final (oTx t)"
    then obtain s where "acc_from_bech32 K s = Some a"
      by (auto simp: supporters_def ObservedTx_GetSigners_def parse_accs_def List.map_filter_def)
    with assms show "the (acc_from_bech32 K (acc_string K a)) = a" by (auto simp: keys_ok_def)
  qed
  then have "inj_on (acc_string K) (active_of nas (supporters K m final (oTx t)))"
    by (rule inj_on_subset) (auto simp: active_of_def)
  from card_image [OF this] have "card (set (consensus_voters K nas final (vTxs m) t))
      = card (active_of nas (supporters K m final (oTx t)))"
    unfolding set_consensus_voters .
  moreover have "card (set (consensus_voters K nas final (vTxs m) t))
      = length (consensus_voters K nas final (vTxs m) t)"
    unfolding consensus_voters_def by (rule distinct_card) simp
  ultimately show ?thesis by simp
qed

lemma empty_is_empty [simp]: "ObservedTx_IsEmpty EmptyObservedTx"
  by (simp add: ObservedTx_IsEmpty_def Tx_IsEmpty_def TxID_IsEmpty_def is_blank_def EmptyObservedTx_def
      NewObservedTx_def EmptyTx_def)

lemma getConsensusTx_quorum:
  assumes "\<not> ObservedTx_IsEmpty (getConsensusTx K m nas final)" and "length nas < 2 ^ 62"
  shows "2 * length nas \<le> 3 * card (active_of nas (supporters K m final (oTx (getConsensusTx K m nas final))))"
proof -
  let ?maj = "\<lambda>t. IsFinal t = final
      \<and> HasSuperMajority (int (length (consensus_voters K nas final (vTxs m) t))) (int (length nas))"
  from assms(1) obtain t where t: "find ?maj (vTxs m) = Some t" and g: "getConsensusTx K m nas final = t"
    by (auto simp: getConsensusTx_def split: option.splits)
  from t have "?maj t" by (auto simp: find_Some_iff)
  moreover have "int (length nas) < 2 ^ 62" using assms(2) by simp
  ultimately have "2 * int (length nas) \<le> 3 * int (length (consensus_voters K nas final (vTxs m) t))"
    using super_majority_iff by simp
  with voters_le [of K nas final m t] g show ?thesis by simp
qed

section \<open>Properties\<close>

text \<open>The three majority tests are exactly ``at least 2/3'', ``at least 1/2'' and ``at least 1/3''
  of the total, with at least one and at most all signers, for any number of nodes below \<open>2^62\<close>.\<close>

theorem majority_thresholds:
  assumes "0 \<le> tot" and "tot < 2 ^ 62"
  shows "(HasSuperMajority s tot \<longleftrightarrow> 0 < s \<and> s \<le> tot \<and> 2 * tot \<le> 3 * s)
    \<and> (HasSimpleMajority s tot \<longleftrightarrow> 0 < s \<and> s \<le> tot \<and> tot \<le> 2 * s)
    \<and> (HasMinority s tot \<longleftrightarrow> 0 < s \<and> s \<le> tot \<and> tot \<le> 3 * s)"
  using super_majority_iff [OF assms] simple_majority_iff [OF assms(1)] minority_iff [OF assms(1)] by blast

theorem majority_thresholds_witness:
  "HasSuperMajority 3 4 \<and> \<not> HasSuperMajority 2 4 \<and> HasSimpleMajority 2 4"
  using majority_thresholds [of 4 3] majority_thresholds [of 4 2] by simp

text \<open>C17. In every reachable voter no account has two votes for one observation, no observation is
  listed twice, and no outbound transaction (other than the blank one) is recorded twice.\<close>

theorem reachable_voter_ok:
  assumes "keys_ok K" and "voter_reachable K m"
  shows "voter_ok K m"
  using assms(2)
proof induction
  case (init i)
  show ?case by (simp add: voter_ok_def NewObservedTxVoter_def distinct_outs_def)
next
  case (step m m')
  then show ?case using voter_ok_step assms(1) by blast
qed

definition demo_tx :: tx where
  "demo_tx = NewTx (replicate 64 CHR ''A'') ''from'' ''to'' [NewCoin BTCAsset 5] [] ''memo''"

definition demo_obs :: observed_tx where
  "demo_obs = NewObservedTx demo_tx 10 ''pk'' 10"

definition demo_voter :: observed_tx_voter where
  "demo_voter = snd (ObservedTxVoter_Add plain_keys (NewObservedTxVoter ''id'' []) demo_obs ''n1'')"

theorem reachable_voter_ok_witness: "keys_ok plain_keys \<and> voter_ok plain_keys demo_voter"
proof -
  have "acc_ok ''n1''" by (simp add: acc_ok_def)
  then have "voter_step plain_keys (NewObservedTxVoter ''id'' []) demo_voter"
    unfolding demo_voter_def by (rule voter_step.add) (rule prod.collapse [symmetric])
  then have "voter_reachable plain_keys demo_voter" by (rule voter_reachable.step [OF voter_reachable.init])
  with reachable_voter_ok [OF plain_keys_ok] plain_keys_ok show ?thesis by blast
qed

text \<open>An accepted vote adds exactly one vote, of the signer and for the given observation, and
  a refused one changes nothing; a vote is refused exactly when the signer has voted for it before.\<close>

theorem add_counts_one_vote:
  assumes "keys_ok K" and "acc_ok a" and "ObservedTxVoter_Add K m obs a = (b, m')"
  shows "(b \<longleftrightarrow> a \<notin># votes_for K m obs)
    \<and> (b \<longrightarrow> (\<forall>t. votes_for K m' t = votes_for K m t + (if ObservedTx_Equals obs t then {#a#} else {#})))
    \<and> (\<not> b \<longrightarrow> m' = m)"
  using assms(3)
proof (cases rule: Add_cases)
  case (refused t)
  then show ?thesis by (auto simp: votes_for_def)
next
  case (signed xs t ys)
  have eq: "ObservedTx_Equals t u = ObservedTx_Equals obs u" for u
    using signed(2) ObservedTx_Equals_equiv by blast
  have "a \<notin># votes_for K m obs"
    using assms(3) signed(4) by (auto simp: votes_for_def ObservedTxVoter_Add_def list_ex_iff split: if_splits)
  then show ?thesis
    unfolding signed(5) using signed(1,4)
    by (simp add: votes_for_def eq GetSigners_signed [OF assms(1,2)] flip: ObservedTx_GetSigners_def)
next
  case appended
  then show ?thesis
    using GetSigners_signed [OF assms(1,2), where ss = "[]" and t = obs]
    by (auto simp: votes_for_def parse_accs_def List.map_filter_simps)
qed

theorem add_counts_one_vote_witness:
  "votes_for plain_keys demo_voter demo_obs = votes_for plain_keys (NewObservedTxVoter ''id'' []) demo_obs + {#''n1''#}"
proof -
  have ok: "acc_ok ''n1''" by (simp add: acc_ok_def)
  have "ObservedTxVoter_Add plain_keys (NewObservedTxVoter ''id'' []) demo_obs ''n1'' = (True, demo_voter)"
    by (simp add: demo_voter_def ObservedTxVoter_Add_def NewObservedTxVoter_def find_last_index_def)
  from add_counts_one_vote [OF plain_keys_ok ok this] show ?thesis
    by (simp add: ObservedTx_Equals_equiv(1))
qed

text \<open>C11. A transaction is reported as having consensus only if at least two thirds of the nodes are
  active signers of it; two reports, of whatever transactions, voters and finality, need at least a
  third of the nodes to have signed both.\<close>

theorem consensus_needs_two_thirds:
  assumes "length nas < 2 ^ 62"
    and "\<not> ObservedTx_IsEmpty (getConsensusTx K m nas final)"
    and "\<not> ObservedTx_IsEmpty (getConsensusTx K m' nas final')"
  shows "2 * length nas \<le> 3 * card (active_of nas (supporters K m final (oTx (getConsensusTx K m nas final))))
    \<and> length nas \<le> 3 * card (active_of nas
        (supporters K m final (oTx (getConsensusTx K m nas final))
         \<inter> supporters K m' final' (oTx (getConsensusTx K m' nas final'))))"
  using getConsensusTx_quorum [OF assms(2,1)] getConsensusTx_quorum [OF assms(3,1)] quorum_overlap by blast

definition demo_nodes :: "node_account list" where
  "demo_nodes = [demo_node\<lparr>NodeAddress := ''n1''\<rparr>]"

lemma demo_voter_txs: "vTxs demo_voter = [demo_obs\<lparr>oSigners := [''n1'']\<rparr>]"
  by (simp add: demo_voter_def ObservedTxVoter_Add_def NewObservedTxVoter_def find_last_index_def plain_keys_def)

lemma demo_consensus:
  "getConsensusTx plain_keys demo_voter demo_nodes True = demo_obs\<lparr>oSigners := [''n1'']\<rparr>"
  "\<not> ObservedTx_IsEmpty (demo_obs\<lparr>oSigners := [''n1'']\<rparr>)" "IsFinal (demo_obs\<lparr>oSigners := [''n1'']\<rparr>)"
proof -
  have node: "IsNodeKeys demo_nodes ''n1''" and signers: "parse_accs plain_keys [''n1''] = [''n1'']"
    by (simp_all add: demo_nodes_def IsNodeKeys_def demo_node_def NewNodeAccount_def UpdateStatus_def
        Let_def parse_accs_def plain_keys_def List.map_filter_simps)
  show final: "IsFinal (demo_obs\<lparr>oSigners := [''n1'']\<rparr>)"
    by (simp add: IsFinal_def demo_obs_def NewObservedTx_def)
  have "consensus_voters plain_keys demo_nodes True (vTxs demo_voter) (demo_obs\<lparr>oSigners := [''n1'']\<rparr>) = [''n1'']"
    using final node signers
    by (simp add: consensus_voters_def demo_voter_txs ObservedTx_GetSigners_def)
       (simp add: plain_keys_def)
  then show "getConsensusTx plain_keys demo_voter demo_nodes True = demo_obs\<lparr>oSigners := [''n1'']\<rparr>"
    using final by (simp add: getConsensusTx_def demo_voter_txs super_majority_iff demo_nodes_def)
  show "\<not> ObservedTx_IsEmpty (demo_obs\<lparr>oSigners := [''n1'']\<rparr>)"
    by (simp add: ObservedTx_IsEmpty_def Tx_IsEmpty_def TxID_IsEmpty_def demo_obs_def NewObservedTx_def
        demo_tx_def NewTx_def is_blank_def is_space_def list_all_iff)
qed

theorem consensus_needs_two_thirds_witness:
  "2 * length demo_nodes \<le> 3 * card (active_of demo_nodes
     (supporters plain_keys demo_voter True (oTx (demo_obs\<lparr>oSigners := [''n1'']\<rparr>))))"
  using consensus_needs_two_thirds [of demo_nodes plain_keys demo_voter True demo_voter True] demo_consensus
  by (simp add: demo_nodes_def)

text \<open>C21. Consensus is reached as soon as two thirds of the nodes are active signers of one
  transaction: with every observation valid (a non-empty id), such a transaction makes the voter
  report a consensus transaction, whose finality is the one asked for.\<close>

theorem two_thirds_give_consensus:
  assumes "keys_ok K" and "length nas < 2 ^ 62" and "nas \<noteq> []"
    and "\<forall>x \<in> set (vTxs m). \<not> ObservedTx_IsEmpty x"
    and "t \<in> set (vTxs m)" and "IsFinal t = final"
    and "2 * length nas \<le> 3 * card (active_of nas (supporters K m final (oTx t)))"
  shows "\<not> ObservedTx_IsEmpty (getConsensusTx K m nas final)
    \<and> IsFinal (getConsensusTx K m nas final) = final"
proof -
  let ?maj = "\<lambda>t. IsFinal t = final
      \<and> HasSuperMajority (int (length (consensus_voters K nas final (vTxs m) t))) (int (length nas))"
  have "card (active_of nas (supporters K m final (oTx t))) \<le> card {a. IsNodeKeys nas a}"
    using active_nodes_bound by (intro card_mono) (auto simp: active_of_def)
  then have le: "card (active_of nas (supporters K m final (oTx t))) \<le> length nas"
    using active_nodes_bound [of nas] by simp
  have "int (length nas) < 2 ^ 62" and "0 < length nas" using assms(2,3) by auto
  then have "0 < card (active_of nas (supporters K m final (oTx t)))" using assms(7) by linarith
  with \<open>int (length nas) < 2 ^ 62\<close> have maj: "?maj t"
    using le assms(6,7) by (simp add: super_majority_iff voters_eq [OF assms(1)])
  obtain u where u: "find ?maj (vTxs m) = Some u"
    using assms(5) maj by (cases "find ?maj (vTxs m)") (auto simp: find_None_iff)
  then have "?maj u" and "u \<in> set (vTxs m)" by (auto simp: find_Some_iff)
  with assms(4) u show ?thesis by (simp add: getConsensusTx_def)
qed

theorem two_thirds_give_consensus_witness:
  "\<not> ObservedTx_IsEmpty (getConsensusTx plain_keys demo_voter demo_nodes True)
    \<and> IsFinal (getConsensusTx plain_keys demo_voter demo_nodes True) = True"
proof -
  let ?t = "demo_obs\<lparr>oSigners := [''n1'']\<rparr>"
  have "2 * length demo_nodes \<le> 3 * card (active_of demo_nodes (supporters plain_keys demo_voter True (oTx ?t)))"
    using getConsensusTx_quorum [of plain_keys demo_voter demo_nodes True] demo_consensus
    by (simp add: demo_nodes_def)
  with two_thirds_give_consensus [OF plain_keys_ok, of demo_nodes demo_voter ?t True] demo_consensus
  show ?thesis by (simp add: demo_nodes_def demo_voter_txs)
qed

text \<open>Reporting the same outbound transaction again changes nothing (unless its id is blank), and
  an outbound that matches no planned action is not recorded.\<close>

theorem outbound_recorded_once:
  assumes "AddOutTx m t = Inr (b, m')" and "\<not> IsBlank (tID t)"
  shows "AddOutTx m' t = Inr (b, m') \<and> (\<not> b \<longrightarrow> m' = m)
    \<and> (b \<longrightarrow> matchActionItem m t = Inr True \<and> (\<exists>o' \<in> set (vOutTxs m'). TxID_Equals (tID t) (tID o')))"
proof -
  consider (no) "\<not> b" "m' = m" | (old) "b" "m' = m" "matchActionItem m t = Inr True"
      "\<exists>o' \<in> set (vOutTxs m). TxID_Equals (tID t) (tID o')"
    | (new) "b" "matchActionItem m t = Inr True" "vOutTxs m' = vOutTxs m @ [t]" "vActions m' = vActions m"
    using AddOutTx_Inr [OF assms(1)] by blast
  then show ?thesis
  proof cases
    case new
    then have "matchActionItem m' t = Inr True" by (simp add: matchActionItem_def)
    with new assms(2) show ?thesis by (simp add: AddOutTx_def IsBlank_def TxID_Equals_def)
  qed (use assms(1) in simp_all)
qed

definition demo_action :: tx_out_item where
  "demo_action = \<lparr>toiChain = BTCChain, toiToAddress = ''to'', toiVaultPubKey = ''pk'', toiCoin = NewCoin BTCAsset 5,
     toiMemo = ''memo'', toiMaxGas = [], toiGasRate = 1, toiInHash = ''in'', toiOutHash = '''',
     toiModuleName = '''', toiAggregator = '''', toiAggregatorTargetAsset = '''',
     toiAggregatorTargetLimit = None, toiCloutSpent = None\<rparr>"

theorem outbound_recorded_once_witness:
  "\<exists>m'. AddOutTx (demo_voter\<lparr>vActions := [demo_action]\<rparr>) demo_tx = Inr (True, m')
     \<and> AddOutTx m' demo_tx = Inr (True, m')"
proof -
  have match: "match_actions demo_tx [demo_action] = Inr True" and blank: "\<not> IsBlank (tID demo_tx)"
    by code_simp+
  have "\<exists>m'. AddOutTx (demo_voter\<lparr>vActions := [demo_action]\<rparr>) demo_tx = Inr (True, m')"
    by (simp add: AddOutTx_def matchActionItem_def match del: match_actions.simps) (simp add: Let_def)
  then obtain m' where "AddOutTx (demo_voter\<lparr>vActions := [demo_action]\<rparr>) demo_tx = Inr (True, m')" ..
  with outbound_recorded_once [OF this blank] show ?thesis by blast
qed

text \<open>\<open>SetReverted\<close> and \<open>SetDone\<close> change the status of the consensus transaction only: the
  listed observations keep their status.\<close>

lemma set_status_skips_observations:
  "vTxs (SetReverted m) = vTxs m \<and> vTxs (ObservedTxVoter_SetDone m) = vTxs m
   \<and> (\<not> ObservedTx_IsEmpty (vTx m) \<longrightarrow> oStatus (vTx (SetReverted m)) = Status_reverted)"
  by (simp add: SetReverted_def ObservedTxVoter_SetDone_def setStatus_def)

end
