(* ===== verification/Vote_Records.thy ===== *)
theory Vote_Records
  imports Voters
begin

text \<open>
  The voters beside the observation voter: key generation (\<^verbatim>\<open>type_tss.go\<close>), errata
  (\<^verbatim>\<open>type_errata.go\<close>), bans (\<^verbatim>\<open>type_ban.go\<close>), solvency (\<^verbatim>\<open>type_solvency_voter.go\<close>), network fees
  (\<^verbatim>\<open>type_observed_network_fee_voter.go\<close>), keysign failures (\<^verbatim>\<open>type_tss_keysign_fail.go\<close>) and the
  timing metrics (\<^verbatim>\<open>type_tss_metric.go\<close>), all under \<^verbatim>\<open>src/x/switchly/types\<close>. Each interprets
  the contract \<open>signer_set\<close> of \<open>Voters\<close>.
\<close>

text \<open>The test shared by the \<open>HasSigned\<close> methods, and the count of their \<open>HasConsensus\<close> methods.\<close>

definition has_signed :: "key_lib \<Rightarrow> string list \<Rightarrow> acc \<Rightarrow> bool" where
  "has_signed K signers a = list_ex (\<lambda>s. s = a) (parse_accs K signers)"

definition count_votes :: "key_lib \<Rightarrow> node_account list \<Rightarrow> string list \<Rightarrow> int" where
  "count_votes K nas signers = int (length (filter (IsNodeKeys nas) (parse_accs K signers)))"

section \<open>Key generation (type_tss.go)\<close>

record tss_voter =
  tssID :: string
  PoolPubKey :: pubkey
  tssPubKeys :: "string list"
  tssBlockHeight :: int
  tssChains :: "string list"
  tssSigners :: "string list"
  MajorityConsensusBlockHeight :: int
  Secp256K1Signatures :: "string list"

definition NewTssVoter :: "string \<Rightarrow> string list \<Rightarrow> pubkey \<Rightarrow> tss_voter" where
  "NewTssVoter i pks pool = \<lparr>tssID = i, PoolPubKey = pool, tssPubKeys = pks, tssBlockHeight = 0,
     tssChains = [], tssSigners = [], MajorityConsensusBlockHeight = 0, Secp256K1Signatures = []\<rparr>"

definition parse_chains :: "string list \<Rightarrow> chain list" where
  "parse_chains cs = List.map_filter (\<lambda>c. case NewChain c of Inl _ \<Rightarrow> None | Inr ch \<Rightarrow> Some ch) cs"

definition TssVoter_GetChains :: "tss_voter \<Rightarrow> chain list" where
  "TssVoter_GetChains m = parse_chains (tssChains m)"

definition TssVoter_GetPubKeys :: "key_lib \<Rightarrow> tss_voter \<Rightarrow> pubkey list" where
  "TssVoter_GetPubKeys K m = parse_pubkeys K (tssPubKeys m)"

definition TssVoter_HasSigned :: "key_lib \<Rightarrow> tss_voter \<Rightarrow> acc \<Rightarrow> bool" where
  "TssVoter_HasSigned K m signer = has_signed K (tssSigners m) signer"

definition TssVoter_Sign ::
  "key_lib \<Rightarrow> string list \<Rightarrow> string \<Rightarrow> tss_voter \<Rightarrow> acc \<Rightarrow> bool \<times> tss_voter" where
  "TssVoter_Sign K cs sig m signer =
     (if TssVoter_HasSigned K m signer then (False, m)
      else if list_ex (\<lambda>pk. pubkey_acc K pk = Some signer) (TssVoter_GetPubKeys K m)
      then (True, m\<lparr>tssSigners := tssSigners m @ [acc_string K signer],
                   tssChains := tssChains m @ cs,
                   Secp256K1Signatures := (if length sig > 0 then Secp256K1Signatures m @ [sig]
                                           else Secp256K1Signatures m)\<rparr>)
      else (False, m))"

text \<open>
  The two map loops count occurrences; \<open>ConsensusChains\<close> sorts what it collects, and in
  \<open>ConsensusCheckSignature\<close> the order of the map is not specified: the model takes the first
  signature of the list that has the majority (\<open>check_signature_unique\<close> shows there is one at most).
\<close>

definition ConsensusChains :: "tss_voter \<Rightarrow> chain list" where
  "ConsensusChains m = (let cs = TssVoter_GetChains m in
     sort_by str_less (filter (\<lambda>c. HasSuperMajority (int (count_list cs c)) (int (length (tssPubKeys m))))
       (remdups cs)))"

definition HasCompleteConsensus :: "tss_voter \<Rightarrow> bool" where
  "HasCompleteConsensus m \<longleftrightarrow> length (tssSigners m) = length (tssPubKeys m)"

definition ConsensusCheckSignature :: "tss_voter \<Rightarrow> string \<times> bool" where
  "ConsensusCheckSignature m =
     (case find (\<lambda>s. HasSuperMajority (int (count_list (Secp256K1Signatures m) s))
         (int (length (tssPubKeys m)))) (Secp256K1Signatures m) of
        Some s \<Rightarrow> (s, True) | None \<Rightarrow> ('''', False))"

definition TssVoter_HasConsensus :: "tss_voter \<Rightarrow> bool" where
  "TssVoter_HasConsensus m = HasSuperMajority (int (length (tssSigners m))) (int (length (tssPubKeys m)))"

definition TssVoter_IsEmpty :: "tss_voter \<Rightarrow> bool" where
  "TssVoter_IsEmpty m \<longleftrightarrow> tssID m = [] \<or> PoolPubKey m = [] \<or> tssPubKeys m = []"

section \<open>Errata, bans, solvency, network fees, keysign failures\<close>

record errata_tx_voter =
  errTxID :: txid
  errChain :: chain
  errBlockHeight :: int
  errSigners :: "string list"

definition NewErrataTxVoter :: "txid \<Rightarrow> chain \<Rightarrow> errata_tx_voter" where
  "NewErrataTxVoter i c = \<lparr>errTxID = i, errChain = c, errBlockHeight = 0, errSigners = []\<rparr>"

definition ErrataTxVoter_Sign :: "key_lib \<Rightarrow> errata_tx_voter \<Rightarrow> acc \<Rightarrow> bool \<times> errata_tx_voter" where
  "ErrataTxVoter_Sign K m signer =
     (if has_signed K (errSigners m) signer then (False, m)
      else (True, m\<lparr>errSigners := errSigners m @ [acc_string K signer]\<rparr>))"

definition ErrataTxVoter_HasConsensus :: "key_lib \<Rightarrow> errata_tx_voter \<Rightarrow> node_account list \<Rightarrow> bool" where
  "ErrataTxVoter_HasConsensus K m nas =
     HasSuperMajority (count_votes K nas (errSigners m)) (int (length nas))"

definition ErrataTxVoter_Empty :: "errata_tx_voter \<Rightarrow> bool" where
  "ErrataTxVoter_Empty m \<longleftrightarrow> TxID_IsEmpty (errTxID m) \<or> Chain_IsEmpty (errChain m)"

record ban_voter =
  banNodeAddress :: acc
  banBlockHeight :: int
  banSigners :: "string list"

definition NewBanVoter :: "acc \<Rightarrow> ban_voter" where
  "NewBanVoter a = \<lparr>banNodeAddress = a, banBlockHeight = 0, banSigners = []\<rparr>"

definition BanVoter_Valid :: "ban_voter \<Rightarrow> unit res" where
  "BanVoter_Valid m =
     (if banNodeAddress m = [] then Inl (Err ''node address is empty'')
      else if banBlockHeight m \<le> 0 then Inl (Err ''block height cannot be equal to or less than zero'')
      else Inr ())"

definition BanVoter_Sign :: "key_lib \<Rightarrow> ban_voter \<Rightarrow> acc \<Rightarrow> ban_voter" where
  "BanVoter_Sign K m signer =
     (if \<not> has_signed K (banSigners m) signer
      then m\<lparr>banSigners := banSigners m @ [acc_string K signer]\<rparr> else m)"

definition BanVoter_HasConsensus :: "key_lib \<Rightarrow> ban_voter \<Rightarrow> node_account list \<Rightarrow> bool" where
  "BanVoter_HasConsensus K m nas =
     HasSuperMajority (count_votes K nas (banSigners m)) (int (length nas))"

record solvency_voter =
  solId :: txid
  solChain :: chain
  solPubKey :: pubkey
  solCoins :: coins
  solHeight :: int
  ConsensusBlockHeight :: int
  solSigners :: "string list"

definition NewSolvencyVoter :: "txid \<Rightarrow> chain \<Rightarrow> pubkey \<Rightarrow> coins \<Rightarrow> int \<Rightarrow> solvency_voter" where
  "NewSolvencyVoter i c pk cs h = \<lparr>solId = i, solChain = c, solPubKey = pk, solCoins = cs, solHeight = h,
     ConsensusBlockHeight = 0, solSigners = []\<rparr>"

definition SolvencyVoter_Sign :: "key_lib \<Rightarrow> solvency_voter \<Rightarrow> acc \<Rightarrow> bool \<times> solvency_voter" where
  "SolvencyVoter_Sign K m signer =
     (if has_signed K (solSigners m) signer then (False, m)
      else (True, m\<lparr>solSigners := solSigners m @ [acc_string K signer]\<rparr>))"

definition SolvencyVoter_HasConsensus :: "key_lib \<Rightarrow> solvency_voter \<Rightarrow> node_account list \<Rightarrow> bool" where
  "SolvencyVoter_HasConsensus K m nas =
     HasMinority (count_votes K nas (solSigners m)) (int (length nas))"

definition SolvencyVoter_Empty :: "solvency_voter \<Rightarrow> bool" where
  "SolvencyVoter_Empty m \<longleftrightarrow> TxID_IsEmpty (solId m) \<or> Chain_IsEmpty (solChain m) \<or> solHeight m \<le> 0
     \<or> solSigners m = []"

record network_fee_voter =
  nfBlockHeight :: int
  ReportBlockHeight :: int
  nfChain :: chain
  nfSigners :: "string list"
  FeeRate :: int
  TransactionSize :: int

definition NewObservedNetworkFeeVoter :: "int \<Rightarrow> chain \<Rightarrow> network_fee_voter" where
  "NewObservedNetworkFeeVoter h c = \<lparr>nfBlockHeight = 0, ReportBlockHeight = h, nfChain = c, nfSigners = [],
     FeeRate = 0, TransactionSize = 0\<rparr>"

definition NetworkFeeVoter_Sign :: "key_lib \<Rightarrow> network_fee_voter \<Rightarrow> acc \<Rightarrow> bool \<times> network_fee_voter" where
  "NetworkFeeVoter_Sign K m signer =
     (if has_signed K (nfSigners m) signer then (False, m)
      else (True, m\<lparr>nfSigners := nfSigners m @ [acc_string K signer]\<rparr>))"

definition NetworkFeeVoter_HasConsensus :: "key_lib \<Rightarrow> network_fee_voter \<Rightarrow> node_account list \<Rightarrow> bool" where
  "NetworkFeeVoter_HasConsensus K m nas =
     HasSuperMajority (count_votes K nas (nfSigners m)) (int (length nas))"

definition NetworkFeeVoter_IsEmpty :: "network_fee_voter \<Rightarrow> bool" where
  "NetworkFeeVoter_IsEmpty m \<longleftrightarrow> Chain_IsEmpty (nfChain m) \<and> ReportBlockHeight m = 0"

record keysign_fail_voter =
  kfID :: string
  kfHeight :: int
  kfSigners :: "string list"

definition NewTssKeysignFailVoter :: "string \<Rightarrow> int \<Rightarrow> keysign_fail_voter" where
  "NewTssKeysignFailVoter i h = \<lparr>kfID = i, kfHeight = h, kfSigners = []\<rparr>"

definition KeysignFailVoter_Sign :: "key_lib \<Rightarrow> keysign_fail_voter \<Rightarrow> acc \<Rightarrow> bool \<times> keysign_fail_voter" where
  "KeysignFailVoter_Sign K m signer =
     (if has_signed K (kfSigners m) signer then (False, m)
      else (True, m\<lparr>kfSigners := kfSigners m @ [acc_string K signer]\<rparr>))"

text \<open>Here every listed node counts, whatever its status.\<close>

definition KeysignFailVoter_HasConsensus ::
  "key_lib \<Rightarrow> keysign_fail_voter \<Rightarrow> node_account list \<Rightarrow> bool" where
  "KeysignFailVoter_HasConsensus K m nas =
     HasSimpleMajority (int (length (filter (\<lambda>s. list_ex (\<lambda>item. s = NodeAddress item) nas)
       (parse_accs K (kfSigners m))))) (int (length nas))"

definition KeysignFailVoter_Empty :: "keysign_fail_voter \<Rightarrow> bool" where
  "KeysignFailVoter_Empty m \<longleftrightarrow> kfID m = [] \<or> kfHeight m = 0"

section \<open>Timing metrics (type_tss_metric.go)\<close>

record node_tss_time =
  ntAddress :: acc
  TssTime :: int

text \<open>
  \<open>AddNodeTssTime\<close> of both metrics: the time of a known node is assigned to the loop variable, a copy,
  so the list is not changed.
\<close>

definition AddNodeTssTime :: "node_tss_time list \<Rightarrow> acc \<Rightarrow> int \<Rightarrow> node_tss_time list" where
  "AddNodeTssTime ts addr keygenTime =
     (if list_ex (\<lambda>item. ntAddress item = addr) ts then ts
      else ts @ [\<lparr>ntAddress = addr, TssTime = keygenTime\<rparr>])"

definition getMedianTime :: "node_tss_time list \<Rightarrow> int" where
  "getMedianTime ts =
     (if ts = [] then 0
      else let v = sort_by (\<lambda>a b. TssTime a < TssTime b) ts; n = length v; mid = n div 2 in
        if n mod 2 \<noteq> 0 then TssTime (v ! mid)
        else go_quot (i64 (TssTime (v ! (mid - 1)) + TssTime (v ! mid))) 2)"

section \<open>All of them sign alike\<close>

lemmas sign_defs = TssVoter_Sign_def TssVoter_HasSigned_def ErrataTxVoter_Sign_def BanVoter_Sign_def
  SolvencyVoter_Sign_def NetworkFeeVoter_Sign_def KeysignFailVoter_Sign_def has_signed_def list_ex_iff

lemma signer_sets:
  assumes "keys_ok K"
  shows "signer_set K tssSigners (TssVoter_Sign K cs sig)"
    and "signer_set K errSigners (ErrataTxVoter_Sign K)"
    and "signer_set K banSigners (\<lambda>m a. (\<not> has_signed K (banSigners m) a, BanVoter_Sign K m a))"
    and "signer_set K solSigners (SolvencyVoter_Sign K)"
    and "signer_set K nfSigners (NetworkFeeVoter_Sign K)"
    and "signer_set K kfSigners (KeysignFailVoter_Sign K)"
  using assms by (unfold_locales; auto simp: sign_defs split: if_splits)+

interpretation tss: signer_set plain_keys tssSigners "TssVoter_Sign plain_keys cs sig"
  by (rule signer_sets(1) [OF plain_keys_ok])

interpretation errata: signer_set plain_keys errSigners "ErrataTxVoter_Sign plain_keys"
  by (rule signer_sets(2) [OF plain_keys_ok])

interpretation ban: signer_set plain_keys banSigners
    "\<lambda>m a. (\<not> has_signed plain_keys (banSigners m) a, BanVoter_Sign plain_keys m a)"
  by (rule signer_sets(3) [OF plain_keys_ok])

interpretation solvency: signer_set plain_keys solSigners "SolvencyVoter_Sign plain_keys"
  by (rule signer_sets(4) [OF plain_keys_ok])

interpretation network_fee: signer_set plain_keys nfSigners "NetworkFeeVoter_Sign plain_keys"
  by (rule signer_sets(5) [OF plain_keys_ok])

interpretation keysign_fail: signer_set plain_keys kfSigners "KeysignFailVoter_Sign plain_keys"
  by (rule signer_sets(6) [OF plain_keys_ok])

section \<open>Lemmas\<close>

context signer_set
begin

text \<open>After any sequence of attempts to sign, the signers are distinct and among those who tried.\<close>

lemma fold_signs:
  assumes "\<forall>a \<in> set as. acc_ok a" and "distinct (parse_accs K (signers v))"
  shows "distinct (parse_accs K (signers (fold (\<lambda>a v. snd (sign v a)) as v)))
    \<and> set (parse_accs K (signers (fold (\<lambda>a v. snd (sign v a)) as v)))
        \<subseteq> set (parse_accs K (signers v)) \<union> set as"
  using assms
proof (induction as arbitrary: v)
  case (Cons a as)
  obtain b v' where s: "sign v a = (b, v')" by fastforce
  have "set (parse_accs K (signers v')) \<subseteq> insert a (set (parse_accs K (signers v)))"
    using s sign_refused [of v a v'] signed_after [of a v v'] Cons.prems(1) by (cases b) auto
  moreover have "distinct (parse_accs K (signers v'))"
    using distinct_signers [OF _ s] Cons.prems by simp
  ultimately show ?case using Cons.IH [of v'] Cons.prems(1) s by auto
qed simp

lemma votes_le_signers:
  assumes "\<forall>a \<in> set as. acc_ok a" and "parse_accs K (signers v) = []"
  shows "count_votes K nas (signers (fold (\<lambda>a v. snd (sign v a)) as v)) \<le> int (card (active_of nas (set as)))"
proof -
  let ?v = "fold (\<lambda>a v. snd (sign v a)) as v"
  have d: "distinct (parse_accs K (signers ?v))" and sub: "set (parse_accs K (signers ?v)) \<subseteq> set as"
    using fold_signs [OF assms(1), of v] assms(2) by auto
  have "card (active_of nas (set (parse_accs K (signers ?v)))) \<le> card (active_of nas (set as))"
    using sub by (intro card_mono) (auto simp: active_of_def)
  with active_votes [OF d] show ?thesis by (simp add: count_votes_def)
qed

end

lemma two_majorities:
  "2 * n \<le> 3 * (a :: nat) \<Longrightarrow> 2 * n \<le> 3 * b \<Longrightarrow> a + b \<le> n \<Longrightarrow> a = 0 \<and> b = 0"
  by simp

lemma count_list_two: "s \<noteq> t \<Longrightarrow> count_list xs s + count_list xs t \<le> length xs"
  by (induction xs) auto

section \<open>Properties\<close>

text \<open>However the nodes try to sign, an errata reaches consensus only with the signatures of
  distinct active nodes that are two thirds of the network, a ban and a network fee likewise, and a
  solvency report only with a third.\<close>

theorem vote_consensus_thresholds:
  assumes "keys_ok K" and "length nas < 2 ^ 62" and "\<forall>a \<in> set as. acc_ok a"
  shows "(ErrataTxVoter_HasConsensus K (fold (\<lambda>a v. snd (ErrataTxVoter_Sign K v a)) as (NewErrataTxVoter i c)) nas
      \<longrightarrow> 2 * length nas \<le> 3 * card (active_of nas (set as)))
    \<and> (BanVoter_HasConsensus K (fold (\<lambda>a v. BanVoter_Sign K v a) as (NewBanVoter addr)) nas
      \<longrightarrow> 2 * length nas \<le> 3 * card (active_of nas (set as)))
    \<and> (NetworkFeeVoter_HasConsensus K
        (fold (\<lambda>a v. snd (NetworkFeeVoter_Sign K v a)) as (NewObservedNetworkFeeVoter h c)) nas
      \<longrightarrow> 2 * length nas \<le> 3 * card (active_of nas (set as)))
    \<and> (SolvencyVoter_HasConsensus K
        (fold (\<lambda>a v. snd (SolvencyVoter_Sign K v a)) as (NewSolvencyVoter i c pk coins h)) nas
      \<longrightarrow> length nas \<le> 3 * card (active_of nas (set as)))"
proof -
  have super: "HasSuperMajority x (int (length nas)) \<Longrightarrow> x \<le> int k \<Longrightarrow> 2 * length nas \<le> 3 * k"
    and third: "HasMinority x (int (length nas)) \<Longrightarrow> x \<le> int k \<Longrightarrow> length nas \<le> 3 * k" for x k
    using assms(2) by (auto simp: super_majority_iff minority_iff)
  note vl = signer_set.votes_le_signers [OF _ assms(3)]
  have none: "parse_accs K [] = []" by (simp add: parse_accs_def List.map_filter_simps)
  have "ErrataTxVoter_HasConsensus K (fold (\<lambda>a v. snd (ErrataTxVoter_Sign K v a)) as (NewErrataTxVoter i c)) nas
      \<Longrightarrow> 2 * length nas \<le> 3 * card (active_of nas (set as))"
    unfolding ErrataTxVoter_HasConsensus_def
    by (erule super, rule vl [OF signer_sets(2) [OF assms(1)]]) (simp add: NewErrataTxVoter_def none)
  moreover have "BanVoter_HasConsensus K (fold (\<lambda>a v. BanVoter_Sign K v a) as (NewBanVoter addr)) nas
      \<Longrightarrow> 2 * length nas \<le> 3 * card (active_of nas (set as))"
    unfolding BanVoter_HasConsensus_def
    by (erule super, rule vl [OF signer_sets(3) [OF assms(1)], simplified]) (simp add: NewBanVoter_def none)
  moreover have "NetworkFeeVoter_HasConsensus K
        (fold (\<lambda>a v. snd (NetworkFeeVoter_Sign K v a)) as (NewObservedNetworkFeeVoter h c)) nas
      \<Longrightarrow> 2 * length nas \<le> 3 * card (active_of nas (set as))"
    unfolding NetworkFeeVoter_HasConsensus_def
    by (erule super, rule vl [OF signer_sets(5) [OF assms(1)]]) (simp add: NewObservedNetworkFeeVoter_def none)
  moreover have "SolvencyVoter_HasConsensus K
        (fold (\<lambda>a v. snd (SolvencyVoter_Sign K v a)) as (NewSolvencyVoter i c pk coins h)) nas
      \<Longrightarrow> length nas \<le> 3 * card (active_of nas (set as))"
    unfolding SolvencyVoter_HasConsensus_def
    by (erule third, rule vl [OF signer_sets(4) [OF assms(1)]]) (simp add: NewSolvencyVoter_def none)
  ultimately show ?thesis by blast
qed

theorem vote_consensus_thresholds_witness:
  "ErrataTxVoter_HasConsensus plain_keys
     (fold (\<lambda>a v. snd (ErrataTxVoter_Sign plain_keys v a)) [''n1'', ''n1''] (NewErrataTxVoter ''id'' BTCChain)) demo_nodes
   \<and> 2 * length demo_nodes \<le> 3 * card (active_of demo_nodes (set [''n1'', ''n1'']))"
proof -
  have "ErrataTxVoter_HasConsensus plain_keys
     (fold (\<lambda>a v. snd (ErrataTxVoter_Sign plain_keys v a)) [''n1'', ''n1''] (NewErrataTxVoter ''id'' BTCChain)) demo_nodes"
    by code_simp
  moreover have "\<forall>a \<in> set [''n1'', ''n1'']. acc_ok a" "length demo_nodes < 2 ^ 62"
    by (simp_all add: acc_ok_def demo_nodes_def)
  ultimately show ?thesis using vote_consensus_thresholds [OF plain_keys_ok] by blast
qed

text \<open>A key generation accepts the signature of a member once, and of nobody else; the chains
  and the check signature of a refused attempt are not recorded.\<close>

theorem keygen_signers_are_members:
  assumes "keys_ok K" and "acc_ok a" and "TssVoter_Sign K cs sig m a = (b, m')"
  shows "(b \<longleftrightarrow> (\<exists>pk \<in> set (TssVoter_GetPubKeys K m). pubkey_acc K pk = Some a) \<and> \<not> TssVoter_HasSigned K m a)
    \<and> (b \<longrightarrow> TssVoter_HasSigned K m' a \<and> length (tssSigners m') = length (tssSigners m) + 1
           \<and> tssChains m' = tssChains m @ cs)
    \<and> (\<not> b \<longrightarrow> m' = m)"
proof -
  have "b \<Longrightarrow> a \<in> set (parse_accs K (tssSigners m'))"
    using signer_set.signed_after [OF signer_sets(1) [OF assms(1)] assms(2)] assms(3) by fastforce
  then show ?thesis using assms(3)
    by (auto simp: TssVoter_Sign_def TssVoter_HasSigned_def has_signed_def list_ex_iff split: if_splits)
qed

theorem keygen_signers_are_members_witness:
  "\<exists>m'. TssVoter_Sign plain_keys [''BTC''] ''s'' (NewTssVoter ''id'' [''p1'', ''p2''] ''pool'') ''p1'' = (True, m')
     \<and> TssVoter_HasSigned plain_keys m' ''p1''"
proof -
  obtain b m' where s: "TssVoter_Sign plain_keys [''BTC''] ''s'' (NewTssVoter ''id'' [''p1'', ''p2''] ''pool'') ''p1'' = (b, m')"
    by fastforce
  have "fst (TssVoter_Sign plain_keys [''BTC''] ''s'' (NewTssVoter ''id'' [''p1'', ''p2''] ''pool'') ''p1'')"
    by code_simp
  with s keygen_signers_are_members [OF plain_keys_ok _ s] show ?thesis by (auto simp: acc_ok_def)
qed

text \<open>At most one check signature has the majority of a key generation (each member gives at most
  one), so the unspecified order of the map does not matter.\<close>

theorem check_signature_unique:
  assumes "length (Secp256K1Signatures m) \<le> length (tssPubKeys m)" and "length (tssPubKeys m) < 2 ^ 62"
    and "HasSuperMajority (int (count_list (Secp256K1Signatures m) s)) (int (length (tssPubKeys m)))"
  shows "ConsensusCheckSignature m = (s, True)"
proof -
  let ?n = "length (tssPubKeys m)" and ?c = "count_list (Secp256K1Signatures m)"
  have maj: "HasSuperMajority (int (?c t)) (int ?n) \<longleftrightarrow> 0 < ?c t \<and> ?c t \<le> ?n \<and> 2 * ?n \<le> 3 * ?c t" for t
    using assms(2) by (auto simp: super_majority_iff)
  have unique: "t = s" if "HasSuperMajority (int (?c t)) (int ?n)" for t
  proof (rule ccontr)
    assume "t \<noteq> s"
    from le_trans [OF count_list_two [OF this] assms(1)] have "?c t + ?c s \<le> ?n" .
    moreover have "2 * ?n \<le> 3 * ?c t" "2 * ?n \<le> 3 * ?c s" "0 < ?c s"
      using that assms(3) maj [of t] maj [of s] by simp_all
    ultimately show False using two_majorities [of ?n "?c t" "?c s"] by simp
  qed
  have "0 < ?c s" using assms(3) maj [of s] by simp
  then have "s \<in> set (Secp256K1Signatures m)" using count_list_0_iff [of "Secp256K1Signatures m" s] by simp
  then obtain t where t: "find (\<lambda>s. HasSuperMajority (int (?c s)) (int ?n)) (Secp256K1Signatures m) = Some t"
    using assms(3) find_None_iff by (metis (no_types, lifting) not_Some_eq)
  then have "HasSuperMajority (int (?c t)) (int ?n)" by (auto simp: find_Some_iff)
  then have "t = s" by (rule unique)
  with t show ?thesis unfolding ConsensusCheckSignature_def by simp
qed

theorem check_signature_unique_witness:
  "ConsensusCheckSignature ((NewTssVoter ''id'' [''p1'', ''p2'', ''p3''] ''pool'')
     \<lparr>Secp256K1Signatures := [''x'', ''s'', ''s'']\<rparr>) = (''s'', True)"
  by (rule check_signature_unique) (simp_all add: NewTssVoter_def super_majority_iff)

end
