(* ===== verification/Vaults.thy ===== *)
theory Vaults
  imports TxOut Numerics
begin

text \<open>
  Vaults: \<^verbatim>\<open>src/x/switchly/types/type_vault.go\<close>. A vault keeps coins; it interprets the contract
  \<open>coin_container\<close> of \<open>Coins\<close>.
\<close>

section \<open>State\<close>

datatype VaultType = VaultType_UnknownVault | VaultType_AsgardVault | VaultType_Other int

datatype VaultStatus = VaultStatus_InactiveVault | VaultStatus_ActiveVault | VaultStatus_RetiringVault
  | VaultStatus_InitVault | VaultStatus_Other int

record chain_contract =
  ccChain :: chain
  ccRouter :: address

record vault =
  vtBlockHeight :: int
  vtPubKey :: pubkey
  vtCoins :: coins
  vtType :: VaultType
  vtStatus :: VaultStatus
  vtStatusSince :: int
  vtMembership :: "string list"
  vtChains :: "string list"
  InboundTxCount :: int
  OutboundTxCount :: int
  PendingTxBlockHeights :: "int list"
  vtRouters :: "chain_contract list"
  vtFrozen :: "string list"
  Ed25519PubKey :: pubkey

definition NewVault ::
  "int \<Rightarrow> VaultStatus \<Rightarrow> VaultType \<Rightarrow> pubkey \<Rightarrow> string list \<Rightarrow> chain_contract list \<Rightarrow> vault" where
  "NewVault height status vtype pk cs routers = \<lparr>vtBlockHeight = height, vtPubKey = pk, vtCoins = [],
     vtType = vtype, vtStatus = status, vtStatusSince = height, vtMembership = [], vtChains = cs,
     InboundTxCount = 0, OutboundTxCount = 0, PendingTxBlockHeights = [], vtRouters = routers,
     vtFrozen = [], Ed25519PubKey = ''''\<rparr>"

text \<open>The zero value \<open>Vault{}\<close>.\<close>

definition EmptyVault :: vault where
  "EmptyVault = NewVault 0 VaultStatus_InactiveVault VaultType_UnknownVault '''' [] []"

section \<open>Queries\<close>

definition Vault_GetChains :: "vault \<Rightarrow> chain list" where
  "Vault_GetChains m =
     List.map_filter (\<lambda>c. case NewChain c of Inl _ \<Rightarrow> None | Inr ch \<Rightarrow> Some ch) (vtChains m)"

definition GetMembership :: "key_lib \<Rightarrow> vault \<Rightarrow> pubkey list" where
  "GetMembership K m = parse_pubkeys K (vtMembership m)"

definition IsType :: "vault \<Rightarrow> VaultType \<Rightarrow> bool" where
  "IsType m vtype \<longleftrightarrow> vtType m = vtype"

definition IsAsgard :: "vault \<Rightarrow> bool" where
  "IsAsgard m = IsType m VaultType_AsgardVault"

definition IsActive :: "vault \<Rightarrow> bool" where
  "IsActive m \<longleftrightarrow> vtStatus m = VaultStatus_ActiveVault"

definition IsRetiring :: "vault \<Rightarrow> bool" where
  "IsRetiring m \<longleftrightarrow> vtStatus m = VaultStatus_RetiringVault"

definition Vault_IsEmpty :: "vault \<Rightarrow> bool" where
  "Vault_IsEmpty m \<longleftrightarrow> vtPubKey m = []"

definition PubKeyForChain :: "vault \<Rightarrow> chain \<Rightarrow> pubkey" where
  "PubKeyForChain m c =
     (if Chain_Equals c StellarChain \<and> Ed25519PubKey m \<noteq> [] then Ed25519PubKey m else vtPubKey m)"

definition Vault_Contains :: "key_lib \<Rightarrow> vault \<Rightarrow> pubkey \<Rightarrow> bool" where
  "Vault_Contains K m pk = PubKeys_Contains (GetMembership K m) pk"

definition MembershipEquals :: "key_lib \<Rightarrow> vault \<Rightarrow> pubkey list \<Rightarrow> bool" where
  "MembershipEquals K m pks \<longleftrightarrow> length (vtMembership m) = length pks \<and> list_all (Vault_Contains K m) pks"

definition Vault_UpdateStatus :: "vault \<Rightarrow> VaultStatus \<Rightarrow> int \<Rightarrow> vault" where
  "Vault_UpdateStatus m s height = m\<lparr>vtStatus := s, vtStatusSince := height\<rparr>"

definition Vault_Valid :: "vault \<Rightarrow> unit res" where
  "Vault_Valid m = guard_err (vtPubKey m = []) ''pubkey cannot be empty''"

definition HasFunds :: "vault \<Rightarrow> bool" where
  "HasFunds m = list_ex (\<lambda>c. \<not> Coin_IsSwitch c \<and> cAmount c \<noteq> 0) (vtCoins m)"

definition HasFundsForChain :: "vault \<Rightarrow> chain \<Rightarrow> bool" where
  "HasFundsForChain m ch = list_ex (\<lambda>c. Chain_Equals (GetChain (cAsset c)) ch \<and> cAmount c \<noteq> 0) (vtCoins m)"

definition CoinLength :: "vault \<Rightarrow> nat" where
  "CoinLength m = length (filter (\<lambda>c. cAmount c \<noteq> 0) (vtCoins m))"

definition CoinLengthByChain :: "vault \<Rightarrow> chain \<Rightarrow> nat" where
  "CoinLengthByChain m ch =
     length (filter (\<lambda>c. Chain_Equals (GetChain (cAsset c)) ch \<and> cAmount c \<noteq> 0) (vtCoins m))"

definition Vault_GetCoin :: "vault \<Rightarrow> asset \<Rightarrow> coin" where
  "Vault_GetCoin m a = (case find (\<lambda>c. Asset_Equals (cAsset c) a) (vtCoins m) of
     Some c \<Rightarrow> c | None \<Rightarrow> NewCoin a 0)"

definition HasAsset :: "vault \<Rightarrow> asset \<Rightarrow> bool" where
  "HasAsset m a \<longleftrightarrow> cAmount (Vault_GetCoin m a) \<noteq> 0"

fun get_members :: "key_lib \<Rightarrow> acc list \<Rightarrow> pubkey list \<Rightarrow> pubkey list res" where
  "get_members K activeObservers [] = Inr []"
| "get_members K activeObservers (k # ks) =
     (case pubkey_acc K k of
        None \<Rightarrow> Inl (Err ''fail to get switchly address'')
      | Some addr \<Rightarrow> res_map (\<lambda>rest. map (\<lambda>_. k) (filter (\<lambda>item. item = addr) activeObservers) @ rest)
          (get_members K activeObservers ks))"

definition GetMembers :: "key_lib \<Rightarrow> vault \<Rightarrow> acc list \<Rightarrow> pubkey list res" where
  "GetMembers K m activeObservers = get_members K activeObservers (GetMembership K m)"

definition GetContract :: "vault \<Rightarrow> chain \<Rightarrow> chain_contract" where
  "GetContract v c = (case find (\<lambda>item. Chain_Equals (ccChain item) c) (vtRouters v) of
     Some item \<Rightarrow> item | None \<Rightarrow> \<lparr>ccChain = '''', ccRouter = ''''\<rparr>)"

section \<open>Updates\<close>

definition UpdateContract :: "vault \<Rightarrow> chain_contract \<Rightarrow> vault" where
  "UpdateContract v cc =
     (let routers = map (\<lambda>item. if Chain_Equals (ccChain item) (ccChain cc) then cc else item) (vtRouters v);
          exist = list_ex (\<lambda>item. Chain_Equals (ccChain item) (ccChain cc)) (vtRouters v)
      in v\<lparr>vtRouters := (if exist then routers else routers @ [cc])\<rparr>)"

definition addFund :: "vault \<Rightarrow> coin \<Rightarrow> vault res" where
  "addFund m c =
     (case find_index (\<lambda>y. Asset_Equals (cAsset y) (cAsset c)) (vtCoins m) of
        Some i \<Rightarrow> res_map (\<lambda>n. m\<lparr>vtCoins := (vtCoins m)[i := (vtCoins m ! i)\<lparr>cAmount := n\<rparr>]\<rparr>)
          (uint_add (cAmount (vtCoins m ! i)) (cAmount c))
      | None \<Rightarrow>
          let m' = (if Chains_Has (Vault_GetChains m) (GetChain (cAsset c)) then m
                    else m\<lparr>vtChains := vtChains m @ [Chain_String (GetChain (cAsset c))]\<rparr>)
          in Inr (m'\<lparr>vtCoins := vtCoins m' @ [c]\<rparr>))"

definition AddFunds :: "vault \<Rightarrow> coins \<Rightarrow> vault res" where
  "AddFunds m cs = res_fold (\<lambda>c v. addFund v c) cs m"

definition subFund :: "vault \<Rightarrow> coin \<Rightarrow> vault" where
  "subFund m c = m\<lparr>vtCoins := update_first (\<lambda>y. Asset_Equals (cAsset c) (cAsset y))
     (\<lambda>y. y\<lparr>cAmount := SafeSub (cAmount y) (cAmount c)\<rparr>) (vtCoins m)\<rparr>"

definition SubFunds :: "vault \<Rightarrow> coins \<Rightarrow> vault" where
  "SubFunds m cs = fold (\<lambda>c v. subFund v c) cs m"

text \<open>An asset and the gas of one outstanding outbound item are taken from every matching coin.\<close>

definition deduct_coin :: "coin \<Rightarrow> coin \<Rightarrow> coin" where
  "deduct_coin c x = (if Asset_Equals (cAsset x) (cAsset c) then x\<lparr>cAmount := SafeSub (cAmount x) (cAmount c)\<rparr> else x)"

definition pending_gas :: "tx_out_item \<Rightarrow> coin" where
  "pending_gas toi = (if Coins_IsEmpty (toiMaxGas toi) then NoCoin
     else GetCoin (ToCoins (toiMaxGas toi)) (GetGasAsset (toiChain toi)))"

definition DeductVaultPendingOutbounds :: "vault \<Rightarrow> tx_out_item list \<Rightarrow> vault" where
  "DeductVaultPendingOutbounds m pendingOutbounds =
     fold (\<lambda>toi v.
        if toiVaultPubKey toi \<noteq> vtPubKey v then v
        else if \<not> TxID_IsEmpty (toiOutHash toi) then v
        else v\<lparr>vtCoins := map (\<lambda>x. deduct_coin (pending_gas toi) (deduct_coin (toiCoin toi) x)) (vtCoins v)\<rparr>)
       pendingOutbounds m"

definition AppendPendingTxBlockHeights :: "vault \<Rightarrow> int \<Rightarrow> int \<Rightarrow> vault" where
  "AppendPendingTxBlockHeights m blockHeight signingTransactionPeriod =
     m\<lparr>PendingTxBlockHeights := blockHeight #
        filter (\<lambda>item. i64 (blockHeight - item) \<le> signingTransactionPeriod) (PendingTxBlockHeights m)\<rparr>"

definition RemovePendingTxBlockHeights :: "vault \<Rightarrow> int \<Rightarrow> vault" where
  "RemovePendingTxBlockHeights m blockHeight =
     (case find_index (\<lambda>item. item = blockHeight) (PendingTxBlockHeights m) of
        None \<Rightarrow> m
      | Some idx \<Rightarrow> m\<lparr>PendingTxBlockHeights := remove_at idx (PendingTxBlockHeights m)\<rparr>)"

definition LenPendingTxBlockHeights :: "vault \<Rightarrow> int \<Rightarrow> int \<Rightarrow> nat" where
  "LenPendingTxBlockHeights m currentBlockHeight maxBlocks =
     length (filter (\<lambda>item. i64 (currentBlockHeight - item) \<le> maxBlocks) (PendingTxBlockHeights m))"

section \<open>Lists of vaults\<close>

definition SortBy :: "vault list \<Rightarrow> asset \<Rightarrow> vault list" where
  "SortBy vs a = sort_by (\<lambda>v w. cAmount (Vault_GetCoin v a) > cAmount (Vault_GetCoin w a)) vs"

definition Vaults_Has :: "vault list \<Rightarrow> coin \<Rightarrow> vault list" where
  "Vaults_Has vs target = filter (\<lambda>v. cAmount (Vault_GetCoin v (cAsset target)) \<ge> cAmount target) vs"

text \<open>The selection loop of the two \<open>SelectBy\<close> methods: \<open>better v w\<close> when \<open>v\<close> replaces \<open>w\<close>.\<close>

definition select_vault :: "(uint \<Rightarrow> uint \<Rightarrow> bool) \<Rightarrow> vault list \<Rightarrow> asset \<Rightarrow> vault" where
  "select_vault better vs a =
     (case vs of [v] \<Rightarrow> v
      | _ \<Rightarrow> fold (\<lambda>v best. if Vault_IsEmpty best
            \<or> better (cAmount (Vault_GetCoin v a)) (cAmount (Vault_GetCoin best a)) then v else best) vs EmptyVault)"

definition SelectByMinCoin :: "vault list \<Rightarrow> asset \<Rightarrow> vault" where
  "SelectByMinCoin vs a = select_vault (<) vs a"

definition SelectByMaxCoin :: "vault list \<Rightarrow> asset \<Rightarrow> vault" where
  "SelectByMaxCoin vs a = select_vault (>) vs a"

section \<open>Lemmas\<close>

definition vault_amount :: "vault \<Rightarrow> asset \<Rightarrow> uint" where
  "vault_amount m a = cAmount (Vault_GetCoin m a)"

lemma vault_amount_GetCoin: "vault_amount m a = cAmount (GetCoin (vtCoins m) a)"
proof -
  have sym: "(\<lambda>c. Asset_Equals (cAsset c) a) = (\<lambda>c. Asset_Equals a (cAsset c))"
    by (auto simp: Asset_Equals_key)
  show ?thesis
    unfolding vault_amount_def Vault_GetCoin_def GetCoin_def sym
    by (simp add: NewCoin_def NoCoin_def split: option.splits)
qed

text \<open>A vault adds and takes funds the way a list of coins does.\<close>

lemma add_coin_index:
  "add_coin cs c = (case find_index (\<lambda>y. Asset_Equals (cAsset y) (cAsset c)) cs of
     Some i \<Rightarrow> res_map (\<lambda>n. cs[i := (cs ! i)\<lparr>cAmount := n\<rparr>]) (uint_add (cAmount (cs ! i)) (cAmount c))
   | None \<Rightarrow> Inr (cs @ [c]))"
proof (induction cs)
  case (Cons x xs)
  then show ?case
    by (auto simp: res_map_def split: option.splits sum.splits)
qed simp

lemma addFund_add_coin: "res_map vtCoins (addFund m c) = add_coin (vtCoins m) c"
  unfolding addFund_def add_coin_index
  by (auto simp: Let_def res_map_def split: option.splits sum.splits)

lemma addFund_Inr: "addFund m c = Inr m' \<Longrightarrow> add_coin (vtCoins m) c = Inr (vtCoins m')"
  using addFund_add_coin [of m c] by simp

lemma addFund_returns: "add_coin (vtCoins m) c = Inr cs \<Longrightarrow> \<exists>m'. addFund m c = Inr m'"
  using addFund_add_coin [of m c] by (auto simp: res_map_Inr)

lemma subFund_sub_coin: "vtCoins (subFund m c) = sub_coin (vtCoins m) c"
proof -
  have sym: "(\<lambda>y. Asset_Equals (cAsset c) (cAsset y)) = (\<lambda>y. Asset_Equals (cAsset y) (cAsset c))"
    by (auto simp: Asset_Equals_key)
  show ?thesis unfolding subFund_def sub_coin_def sym by simp
qed

interpretation vault: coin_container vault_amount addFund subFund
proof unfold_locales
  fix s s' c a
  show "addFund s c = Inr s' \<Longrightarrow>
      vault_amount s' a = vault_amount s a + (if Asset_Equals a (cAsset c) then cAmount c else 0)"
    unfolding vault_amount_GetCoin by (rule coin_list.amount_credit [OF addFund_Inr])
  show "vault_amount s (cAsset c) + cAmount c < uint_lim \<Longrightarrow> \<exists>s'. addFund s c = Inr s'"
    unfolding vault_amount_GetCoin using coin_list.credit_returns addFund_returns by blast
  show "vault_amount (subFund s c) a = vault_amount s a - (if Asset_Equals a (cAsset c) then cAmount c else 0)"
    unfolding vault_amount_GetCoin subFund_sub_coin by (rule coin_list.amount_debit)
qed

text \<open>What the outstanding items of a vault take of an asset.\<close>

definition pending_for :: "pubkey \<Rightarrow> tx_out_item \<Rightarrow> bool" where
  "pending_for pk toi \<longleftrightarrow> toiVaultPubKey toi = pk \<and> TxID_IsEmpty (toiOutHash toi)"

definition pending_amount :: "asset \<Rightarrow> tx_out_item \<Rightarrow> nat" where
  "pending_amount a toi = (if Asset_Equals a (cAsset (toiCoin toi)) then cAmount (toiCoin toi) else 0)
     + (if Asset_Equals a (cAsset (pending_gas toi)) then cAmount (pending_gas toi) else 0)"

lemma amount_map_deduct:
  "cAmount (GetCoin (map (deduct_coin c) cs) a)
     = cAmount (GetCoin cs a) - (if Asset_Equals a (cAsset c) then cAmount c else 0)"
  by (induction cs) (auto simp: deduct_coin_def Asset_Equals_key)

lemma deduct_one:
  "cAmount (GetCoin (map (\<lambda>x. deduct_coin g (deduct_coin c x)) cs) a)
     = cAmount (GetCoin cs a) - ((if Asset_Equals a (cAsset c) then cAmount c else 0)
         + (if Asset_Equals a (cAsset g) then cAmount g else 0))"
  using amount_map_deduct [of g "map (deduct_coin c) cs" a] by (simp add: amount_map_deduct o_def)

text \<open>Selection keeps a vault of the list that no other one beats.\<close>

lemma select_fold:
  assumes "\<And>x y z. \<not> better x y \<Longrightarrow> \<not> better y z \<Longrightarrow> \<not> better x z" and "\<And>x. \<not> better x x"
    and "\<And>x y z. better x y \<Longrightarrow> \<not> better z y \<Longrightarrow> \<not> better z x"
    and "\<not> Vault_IsEmpty best" and "\<forall>v \<in> set vs. \<not> Vault_IsEmpty v"
  shows "let w = fold (\<lambda>v best. if Vault_IsEmpty best \<or> better (amt v) (amt best) then v else best) vs best in
     w \<in> insert best (set vs) \<and> \<not> better (amt best) (amt w) \<and> (\<forall>v \<in> set vs. \<not> better (amt v) (amt w))"
  using assms(4,5)
proof (induction vs arbitrary: best)
  case (Cons v vs)
  define b where "b = (if Vault_IsEmpty best \<or> better (amt v) (amt best) then v else best)"
  define w where "w = fold (\<lambda>v best. if Vault_IsEmpty best \<or> better (amt v) (amt best) then v else best) vs b"
  have vb: "\<not> better (amt v) (amt b)" and bb: "\<not> better (amt best) (amt b)" and mem: "b = v \<or> b = best"
    using assms(2) assms(3) [of "amt v" "amt best" "amt best"] Cons.prems(1)
    by (cases "better (amt v) (amt best)"; simp add: b_def)+
  have "\<not> Vault_IsEmpty b" using Cons.prems by (simp add: b_def)
  from Cons.IH [OF this] Cons.prems(2)
  have IH: "w \<in> insert b (set vs)" "\<not> better (amt b) (amt w)" "\<forall>v \<in> set vs. \<not> better (amt v) (amt w)"
    by (simp_all add: w_def Let_def)
  have "\<not> better (amt v) (amt w)" "\<not> better (amt best) (amt w)"
    using assms(1) [OF vb IH(2)] assms(1) [OF bb IH(2)] by auto
  moreover have "fold (\<lambda>v best. if Vault_IsEmpty best \<or> better (amt v) (amt best) then v else best) (v # vs) best = w"
    by (simp add: w_def b_def)
  ultimately show ?case using IH mem by (simp only: Let_def) auto
qed (simp add: assms(2))

lemma select_vault_best:
  assumes "\<And>x y z. \<not> better x y \<Longrightarrow> \<not> better y z \<Longrightarrow> \<not> better x z" and "\<And>x. \<not> better x x"
    and "\<And>x y z. better x y \<Longrightarrow> \<not> better z y \<Longrightarrow> \<not> better z x"
    and "vs \<noteq> []" and "\<forall>v \<in> set vs. \<not> Vault_IsEmpty v"
  shows "select_vault better vs a \<in> set vs
    \<and> (\<forall>v \<in> set vs. \<not> better (vault_amount v a) (vault_amount (select_vault better vs a) a))"
proof (cases "length vs = 1")
  case True
  then obtain v where "vs = [v]" by (auto simp: length_Suc_conv)
  with assms(2) show ?thesis by (simp add: select_vault_def)
next
  case False
  from assms(4) obtain v rest where vs: "vs = v # rest" by (cases vs) auto
  have "Vault_IsEmpty EmptyVault" by (simp add: Vault_IsEmpty_def EmptyVault_def NewVault_def)
  with False vs have sel: "select_vault better vs a = fold (\<lambda>v best. if Vault_IsEmpty best
      \<or> better (vault_amount v a) (vault_amount best a) then v else best) rest v"
    by (auto simp: select_vault_def vault_amount_def split: list.splits)
  from select_fold [where better = better and best = v and vs = rest and amt = "\<lambda>v. vault_amount v a",
      OF assms(1-3)] assms(5) vs
  show ?thesis unfolding sel by (simp add: Let_def)
qed

section \<open>Properties\<close>

text \<open>C26. Adding funds to a vault raises the amount of each asset by what was added of it, and taking
  the same funds out again restores every amount; adding fails only when an amount leaves 256 bits.\<close>

theorem vault_funds_round_trip:
  assumes "AddFunds m cs = Inr m'"
  shows "vault_amount m' a = vault_amount m a + sum_list (map cAmount (filter (\<lambda>c. Asset_Equals a (cAsset c)) cs))
    \<and> vault_amount (SubFunds m' cs) a = vault_amount m a"
  using vault.amount_credit_all [OF assms [unfolded AddFunds_def]]
    vault.debit_all_credit_all [OF assms [unfolded AddFunds_def]] by (simp add: SubFunds_def)

definition demo_vault :: vault where
  "demo_vault = NewVault 1 VaultStatus_ActiveVault VaultType_AsgardVault ''pk'' [] []"

theorem vault_funds_round_trip_witness:
  "\<exists>m'. AddFunds demo_vault [NewCoin BTCAsset 5, NewCoin BTCAsset 2] = Inr m'
     \<and> vault_amount (SubFunds m' [NewCoin BTCAsset 5, NewCoin BTCAsset 2]) BTCAsset = vault_amount demo_vault BTCAsset"
proof -
  have "\<exists>m'. AddFunds demo_vault [NewCoin BTCAsset 5, NewCoin BTCAsset 2] = Inr m'"
    by (simp add: AddFunds_def addFund_def demo_vault_def NewVault_def NewCoin_def uint_eval
        Asset_Equals_key Let_def)
  with vault_funds_round_trip show ?thesis by blast
qed

lemma deduct_amount:
  "vault_amount (DeductVaultPendingOutbounds m tois) a =
     vault_amount m a - sum_list (map (pending_amount a) (filter (pending_for (vtPubKey m)) tois))
   \<and> vtPubKey (DeductVaultPendingOutbounds m tois) = vtPubKey m"
proof (induction tois arbitrary: m)
  case (Cons toi tois)
  show ?case
  proof (cases "pending_for (vtPubKey m) toi")
    case True
    define m' where "m' = m\<lparr>vtCoins := map (\<lambda>x. deduct_coin (pending_gas toi) (deduct_coin (toiCoin toi) x)) (vtCoins m)\<rparr>"
    have "DeductVaultPendingOutbounds m (toi # tois) = DeductVaultPendingOutbounds m' tois"
      using True by (simp add: DeductVaultPendingOutbounds_def pending_for_def m'_def)
    moreover have "vault_amount m' a = vault_amount m a - pending_amount a toi"
      by (simp add: vault_amount_GetCoin m'_def deduct_one pending_amount_def)
    ultimately show ?thesis using Cons.IH [of m'] True by (simp add: m'_def)
  next
    case False
    then have "DeductVaultPendingOutbounds m (toi # tois) = DeductVaultPendingOutbounds m tois"
      by (auto simp: DeductVaultPendingOutbounds_def pending_for_def)
    with Cons.IH [of m] False show ?thesis by simp
  qed
qed (simp add: DeductVaultPendingOutbounds_def)

text \<open>Deducting the pending outbounds takes from each asset of the vault exactly what its own,
  still outstanding items will send and burn as gas, stopping at zero.\<close>

theorem deduct_pending_outbounds:
  "vault_amount (DeductVaultPendingOutbounds m tois) a =
     vault_amount m a - sum_list (map (pending_amount a) (filter (pending_for (vtPubKey m)) tois))
   \<and> vtPubKey (DeductVaultPendingOutbounds m tois) = vtPubKey m"
  by (rule deduct_amount)

text \<open>Sorting vaults by an asset permutes them into descending amounts of it.\<close>

lemma sort_by_descending:
  "mset (SortBy vs a) = mset vs \<and> sorted_wrt (\<lambda>v w. vault_amount w a \<le> vault_amount v a) (SortBy vs a)"
proof -
  have "weak_order (\<lambda>v w. cAmount (Vault_GetCoin v a) > cAmount (Vault_GetCoin w a))"
    unfolding weak_order_def by auto
  from sorted_sort_by [OF this, of vs] show ?thesis
    by (simp add: SortBy_def vault_amount_def not_less)
qed

text \<open>Selection by maximum (minimum) returns a vault of the list that holds the most (least) of
  the asset, for a non-empty list of vaults with keys.\<close>

theorem select_by_extreme_coin:
  assumes "vs \<noteq> []" and "\<forall>v \<in> set vs. \<not> Vault_IsEmpty v"
  shows "SelectByMaxCoin vs a \<in> set vs \<and> (\<forall>v \<in> set vs. vault_amount v a \<le> vault_amount (SelectByMaxCoin vs a) a)
    \<and> SelectByMinCoin vs a \<in> set vs \<and> (\<forall>v \<in> set vs. vault_amount (SelectByMinCoin vs a) a \<le> vault_amount v a)"
proof -
  have "SelectByMaxCoin vs a \<in> set vs
      \<and> (\<forall>v \<in> set vs. \<not> vault_amount v a > vault_amount (SelectByMaxCoin vs a) a)"
    unfolding SelectByMaxCoin_def using assms by (intro select_vault_best) auto
  moreover have "SelectByMinCoin vs a \<in> set vs
      \<and> (\<forall>v \<in> set vs. \<not> vault_amount v a < vault_amount (SelectByMinCoin vs a) a)"
    unfolding SelectByMinCoin_def using assms by (intro select_vault_best) auto
  ultimately show ?thesis by (simp add: not_less)
qed

theorem select_by_extreme_coin_witness:
  "SelectByMaxCoin [demo_vault, demo_vault\<lparr>vtCoins := [NewCoin BTCAsset 9]\<rparr>] BTCAsset
     \<in> {demo_vault, demo_vault\<lparr>vtCoins := [NewCoin BTCAsset 9]\<rparr>}"
  using select_by_extreme_coin [of "[demo_vault, demo_vault\<lparr>vtCoins := [NewCoin BTCAsset 9]\<rparr>]" BTCAsset]
  by (simp add: Vault_IsEmpty_def demo_vault_def NewVault_def)

text \<open>For a vault whose stored members decode and for distinct keys, \<open>MembershipEquals\<close> is
  equality of the two member sets.\<close>

theorem membership_equals_sets:
  assumes "\<forall>s \<in> set (vtMembership m). NewPubKey K s = Inr s" and "distinct (vtMembership m)" and "distinct pks"
  shows "MembershipEquals K m pks \<longleftrightarrow> set pks = set (vtMembership m)"
proof -
  have mem: "GetMembership K m = vtMembership m"
    unfolding GetMembership_def by (rule parse_pubkeys_all) (use assms(1) in blast)
  have "MembershipEquals K m pks \<longleftrightarrow> length (vtMembership m) = length pks \<and> set pks \<subseteq> set (vtMembership m)"
    by (auto simp: MembershipEquals_def Vault_Contains_def PubKeys_Contains_def mem list_all_iff list_ex_iff)
  also have "\<dots> \<longleftrightarrow> set pks = set (vtMembership m)"
    using assms(2,3) distinct_card [of pks] distinct_card [of "vtMembership m"]
    by (metis List.finite_set card_subset_eq order_refl)
  finally show ?thesis .
qed

theorem membership_equals_sets_witness:
  "MembershipEquals plain_keys (demo_vault\<lparr>vtMembership := [''a'', ''b'']\<rparr>) [''b'', ''a'']
     \<longleftrightarrow> set [''b'', ''a''] = set [''a'', ''b'']"
  using membership_equals_sets [of "demo_vault\<lparr>vtMembership := [''a'', ''b'']\<rparr>" plain_keys "[''b'', ''a'']"]
  by (simp add: NewPubKey_def plain_keys_def)

end
