(* ===== verification/Stores.thy ===== *)
theory Stores
  imports Coins
begin

text \<open>
  The key-value store of the keeper (\<^verbatim>\<open>src/x/switchly/keeper/v1/keeper.go\<close>), as a map from keys to
  slots per record type. A key is the upper-cased text that \<open>GetKey\<close> puts after the prefix of the
  type. A slot that does not decode is \<open>Corrupt\<close>: reading it is the error branch of the getters.

  \<open>record_store\<close> is the contract of a record type that is stored under its own key; components that
  keep a total over the stored records prove how it changes once, here. \<open>erasable_store\<close> extends it
  with removal.
\<close>

section \<open>The key-value store\<close>

datatype 'v slot = Stored 'v | Corrupt

type_synonym 'v kv = "string \<rightharpoonup> 'v slot"

definition kv_key :: "string \<Rightarrow> string" where
  "kv_key k = to_upper k"

text \<open>Read into a record that starts as the given default.\<close>

definition kv_get :: "'v kv \<Rightarrow> string \<Rightarrow> 'v \<Rightarrow> 'v res" where
  "kv_get m k dflt = (case m k of None \<Rightarrow> Inr dflt | Some (Stored v) \<Rightarrow> Inr v
     | Some Corrupt \<Rightarrow> Inl (Err ''KVStore Error: Unmarshal''))"

definition kv_set :: "'v kv \<Rightarrow> string \<Rightarrow> 'v \<Rightarrow> 'v kv" where
  "kv_set m k v = m(k \<mapsto> Stored v)"

definition kv_del :: "'v kv \<Rightarrow> string \<Rightarrow> 'v kv" where
  "kv_del m k = m(k := None)"

section \<open>Stores of records: the contract\<close>

text \<open>
  A record is stored under its own key; writing one changes no other. The sum of a quantity over all
  stored records changes by the difference of the written and the overwritten record.
\<close>

definition slot_val :: "('v \<Rightarrow> nat) \<Rightarrow> 'v slot option \<Rightarrow> nat" where
  "slot_val f o' = (case o' of Some (Stored v) \<Rightarrow> f v | _ \<Rightarrow> 0)"

definition kv_total :: "('v \<Rightarrow> nat) \<Rightarrow> 'v kv \<Rightarrow> nat" where
  "kv_total f m = (\<Sum>k \<in> dom m. slot_val f (m k))"

lemma slot_val_simps [simp]: "slot_val f None = 0" "slot_val f (Some (Stored v)) = f v"
  by (simp_all add: slot_val_def)

locale record_store =
  fixes slot :: "'s \<Rightarrow> 'v kv"
    and put :: "'s \<Rightarrow> 'v \<Rightarrow> 's"
    and key :: "'v \<Rightarrow> string"
  assumes slot_put: "slot (put s v) = (slot s)(key v \<mapsto> Stored v)"
begin

lemma read_back: "kv_get (slot (put s v)) (key v) d = Inr v"
  by (simp add: slot_put kv_get_def)

lemma read_other: "k \<noteq> key v \<Longrightarrow> kv_get (slot (put s v)) k d = kv_get (slot s) k d"
  by (simp add: slot_put kv_get_def)

lemma finite_put: "finite (dom (slot s)) \<Longrightarrow> finite (dom (slot (put s v)))"
  by (simp add: slot_put)

lemma total_put:
  assumes "finite (dom (slot s))"
  shows "kv_total f (slot (put s v)) + slot_val f (slot s (key v)) = kv_total f (slot s) + f v"
proof -
  let ?m = "slot s" and ?k = "key v"
  have "kv_total f (slot (put s v)) = (\<Sum>k \<in> insert ?k (dom ?m - {?k}). slot_val f ((?m(?k \<mapsto> Stored v)) k))"
    by (simp add: kv_total_def slot_put insert_absorb)
  also have "\<dots> = f v + (\<Sum>k \<in> dom ?m - {?k}. slot_val f (?m k))"
    using assms by (subst sum.insert) (auto intro!: sum.cong)
  finally have new: "kv_total f (slot (put s v)) = f v + (\<Sum>k \<in> dom ?m - {?k}. slot_val f (?m k))" .
  have "kv_total f ?m = slot_val f (?m ?k) + (\<Sum>k \<in> dom ?m - {?k}. slot_val f (?m k))"
  proof (cases "?k \<in> dom ?m")
    case True
    then show ?thesis unfolding kv_total_def by (rule sum.remove [OF assms])
  next
    case False
    then have "?m ?k = None" by auto
    with False show ?thesis by (simp add: kv_total_def)
  qed
  with new show ?thesis by simp
qed

end

locale erasable_store = record_store +
  fixes erase :: "'a \<Rightarrow> 'b \<Rightarrow> 'a"
  assumes slot_erase: "slot (erase s v) = (slot s)(key v := None)"
begin

lemma finite_erase: "finite (dom (slot s)) \<Longrightarrow> finite (dom (slot (erase s v)))"
  by (simp add: slot_erase)

lemma total_erase:
  assumes "finite (dom (slot s))"
  shows "kv_total f (slot (erase s v)) + slot_val f (slot s (key v)) = kv_total f (slot s)"
proof -
  let ?m = "slot s" and ?k = "key v"
  have new: "kv_total f (slot (erase s v)) = (\<Sum>k \<in> dom ?m - {?k}. slot_val f (?m k))"
    by (auto simp: kv_total_def slot_erase intro!: sum.cong)
  show ?thesis
  proof (cases "?k \<in> dom ?m")
    case True
    then have "kv_total f ?m = slot_val f (?m ?k) + (\<Sum>k \<in> dom ?m - {?k}. slot_val f (?m k))"
      unfolding kv_total_def by (rule sum.remove [OF assms])
    with new show ?thesis by simp
  next
    case False
    then have "?m ?k = None" by auto
    with False new show ?thesis by (simp add: kv_total_def)
  qed
qed

end

section \<open>Keys\<close>

definition asset_slot :: "asset \<Rightarrow> string" where
  "asset_slot a = kv_key (Asset_String a)"

lemma upper_slash: "char_upper c = CHR ''/'' \<longleftrightarrow> c = CHR ''/''"
  by (rule char_upper_nonletter) simp

lemma slot_le_total:
  assumes "finite (dom m)"
  shows "slot_val f (m k) \<le> kv_total f m"
proof (cases "k \<in> dom m")
  case True
  with assms show ?thesis unfolding kv_total_def by (intro member_le_sum) auto
next
  case False
  then have "m k = None" by auto
  then show ?thesis by simp
qed

section \<open>Stores that are iterated\<close>

text \<open>A store whose records are also visited in the order of their keys, as a list in that order.\<close>

fun queue_put :: "string \<Rightarrow> 'a \<Rightarrow> (string \<times> 'a) list \<Rightarrow> (string \<times> 'a) list" where
  "queue_put k v [] = [(k, v)]"
| "queue_put k v ((k', v') # q) =
     (if k = k' then (k, v) # q else if str_less k k' then (k, v) # (k', v') # q else (k', v') # queue_put k v q)"

lemma map_of_queue_put: "map_of (queue_put k v q) = (map_of q)(k \<mapsto> v)"
  by (induction k v q rule: queue_put.induct) (auto simp: fun_upd_twist)

lemma set_queue_put: "(k, v) \<in> set (queue_put k v q)"
  by (induction k v q rule: queue_put.induct) auto

end
