(* ===== verification/Share_Ledger.thy ===== *)
theory Share_Ledger
  imports Shares
begin

text \<open>
  The contract that trade accounts and secured assets have in common: a pot of an asset whose holders
  own shares. A deposit mints shares in proportion to the pot, a withdrawal burns the shares of the
  amount asked for and pays what they stand for. \<open>ledger\<close> is this contract as an abstract machine and
  \<open>share_ledger\<close> says that an implementation refines it, through a view of its state; what holds of every
  such pot is proved once, here, and interpreted for the two implementations.
\<close>

section \<open>The abstract machine\<close>

record ledger =
  ldShares :: "string \<Rightarrow> nat"
  ldTotal :: nat
  ldDepth :: nat

definition ledger_mint :: "dec_lib \<Rightarrow> ledger \<Rightarrow> nat \<Rightarrow> nat" where
  "ledger_mint D l n =
     (if ldTotal l = 0 \<or> ldDepth l = 0 then n else if n = 0 then 0 else GetUncappedShare D n (ldDepth l) (ldTotal l))"

definition ledger_claim :: "dec_lib \<Rightarrow> ledger \<Rightarrow> string \<Rightarrow> nat" where
  "ledger_claim D l h = GetSafeShare D (ldShares l h) (ldTotal l) (ldDepth l)"

definition ledger_deposit :: "dec_lib \<Rightarrow> ledger \<Rightarrow> string \<Rightarrow> nat \<Rightarrow> ledger" where
  "ledger_deposit D l h n =
     l\<lparr>ldShares := (ldShares l)(h := ldShares l h + ledger_mint D l n), ldTotal := ldTotal l + ledger_mint D l n,
       ldDepth := ldDepth l + n\<rparr>"

definition ledger_burn :: "dec_lib \<Rightarrow> ledger \<Rightarrow> string \<Rightarrow> nat \<Rightarrow> nat" where
  "ledger_burn D l h n = GetSafeShare D n (ledger_claim D l h) (ldShares l h)"

definition ledger_pay :: "dec_lib \<Rightarrow> ledger \<Rightarrow> string \<Rightarrow> nat \<Rightarrow> nat" where
  "ledger_pay D l h n = GetSafeShare D (ledger_burn D l h n) (ldShares l h) (ledger_claim D l h)"

definition ledger_withdraw :: "dec_lib \<Rightarrow> ledger \<Rightarrow> string \<Rightarrow> nat \<Rightarrow> ledger" where
  "ledger_withdraw D l h n =
     l\<lparr>ldShares := (ldShares l)(h := ldShares l h - ledger_burn D l h n), ldTotal := ldTotal l - ledger_burn D l h n,
       ldDepth := ldDepth l - ledger_pay D l h n\<rparr>"

text \<open>Every share has a holder.\<close>

definition ledger_ok :: "ledger \<Rightarrow> bool" where
  "ledger_ok l \<longleftrightarrow> finite {h. ldShares l h \<noteq> 0} \<and> (\<Sum>h | ldShares l h \<noteq> 0. ldShares l h) = ldTotal l"

lemma sum_update:
  fixes f :: "'a \<Rightarrow> nat"
  assumes "finite {h. f h \<noteq> 0}"
  shows "finite {h. (f(k := n)) h \<noteq> 0}"
    and "(\<Sum>h | (f(k := n)) h \<noteq> 0. (f(k := n)) h) + f k = (\<Sum>h | f h \<noteq> 0. f h) + n"
proof -
  let ?S = "insert k {h. f h \<noteq> 0}"
  show "finite {h. (f(k := n)) h \<noteq> 0}" by (rule finite_subset [of _ ?S]) (use assms in auto)
  have "(\<Sum>h | (f(k := n)) h \<noteq> 0. (f(k := n)) h) = (\<Sum>h \<in> ?S. (f(k := n)) h)"
    using assms by (intro sum.mono_neutral_left) auto
  also have "\<dots> = n + (\<Sum>h \<in> {h. f h \<noteq> 0} - {k}. f h)"
    using assms by (simp add: sum.insert_remove)
  moreover have "(\<Sum>h | f h \<noteq> 0. f h) = f k + (\<Sum>h \<in> {h. f h \<noteq> 0} - {k}. f h)"
    using assms by (cases "f k = 0") (simp_all add: sum.remove [of _ k])
  ultimately show "(\<Sum>h | (f(k := n)) h \<noteq> 0. (f(k := n)) h) + f k = (\<Sum>h | f h \<noteq> 0. f h) + n" by simp
qed

lemma shares_le_total:
  assumes "ledger_ok l"
  shows "ldShares l h \<le> ldTotal l"
proof (cases "ldShares l h = 0")
  case False
  then have "ldShares l h \<le> (\<Sum>h | ldShares l h \<noteq> 0. ldShares l h)"
    using assms by (intro member_le_sum) (auto simp: ledger_ok_def)
  then show ?thesis using assms by (simp add: ledger_ok_def)
qed simp

lemma ledger_deposit_ok: "ledger_ok l \<Longrightarrow> ledger_ok (ledger_deposit D l h n)"
  using sum_update [of "ldShares l" h "ldShares l h + ledger_mint D l n"] by (simp add: ledger_ok_def ledger_deposit_def)

context dec_laws
begin

lemma ledger_withdraw_ok:
  assumes "ledger_ok l"
  shows "ledger_ok (ledger_withdraw D l h n)"
proof -
  have "ledger_burn D l h n \<le> ldShares l h" unfolding ledger_burn_def by (rule safe_share_le)
  moreover have "ldShares l h \<le> ldTotal l" by (rule shares_le_total [OF assms])
  ultimately show ?thesis
    using sum_update [of "ldShares l" h "ldShares l h - ledger_burn D l h n"] assms
    by (simp add: ledger_ok_def ledger_withdraw_def)
qed

lemma ledger_pays:
  "ledger_pay D l h n \<le> ledger_claim D l h" "ledger_claim D l h \<le> ldDepth l"
  "ldDepth (ledger_withdraw D l h n) + ledger_pay D l h n = ldDepth l"
proof -
  show c: "ledger_claim D l h \<le> ldDepth l" unfolding ledger_claim_def by (rule safe_share_le)
  show p: "ledger_pay D l h n \<le> ledger_claim D l h" unfolding ledger_pay_def by (rule safe_share_le)
  from c p show "ldDepth (ledger_withdraw D l h n) + ledger_pay D l h n = ldDepth l" by (simp add: ledger_withdraw_def)
qed

end

section \<open>Implementations\<close>

text \<open>Sequences of operations, with what was paid in less what was paid out.\<close>

datatype 'o share_op = ShareDeposit 'o nat | ShareWithdraw 'o nat

fun run_shares ::
  "('s \<Rightarrow> 'o \<Rightarrow> nat \<Rightarrow> 's res) \<Rightarrow> ('s \<Rightarrow> 'o \<Rightarrow> nat \<Rightarrow> (nat \<times> 's) res) \<Rightarrow> 'o share_op list \<Rightarrow> 's \<Rightarrow> (int \<times> 's) res" where
  "run_shares dep wd [] s = Inr (0, s)"
| "run_shares dep wd (ShareDeposit o' n # ops) s =
     res_bind (dep s o' n) (\<lambda>s1. res_map (\<lambda>(p, s2). (int n + p, s2)) (run_shares dep wd ops s1))"
| "run_shares dep wd (ShareWithdraw o' n # ops) s =
     res_bind (wd s o' n) (\<lambda>(x, s1). res_map (\<lambda>(p, s2). (p - int x, s2)) (run_shares dep wd ops s1))"

fun op_owner :: "'o share_op \<Rightarrow> 'o" where
  "op_owner (ShareDeposit o' n) = o'"
| "op_owner (ShareWithdraw o' n) = o'"

locale share_ledger =
  fixes D :: dec_lib
    and inv :: "'s \<Rightarrow> bool"
    and view :: "'s \<Rightarrow> ledger"
    and holder :: "'o \<Rightarrow> string"
    and owner :: "'o \<Rightarrow> bool"
    and deposit :: "'s \<Rightarrow> 'o \<Rightarrow> nat \<Rightarrow> 's res"
    and withdraw :: "'s \<Rightarrow> 'o \<Rightarrow> nat \<Rightarrow> (nat \<times> 's) res"
  assumes decimals: "inv s \<Longrightarrow> dec_laws D"
    and deposit_refines: "inv s \<Longrightarrow> owner o' \<Longrightarrow> deposit s o' n = Inr s'
      \<Longrightarrow> inv s' \<and> view s' = ledger_deposit D (view s) (holder o') n"
    and withdraw_refines: "inv s \<Longrightarrow> owner o' \<Longrightarrow> withdraw s o' n = Inr (x, s')
      \<Longrightarrow> inv s' \<and> x = ledger_pay D (view s) (holder o') n \<and> view s' = ledger_withdraw D (view s) (holder o') n"
begin

lemma solvent:
  assumes "run_shares deposit withdraw ops s = Inr (paid, s')" and "list_all (\<lambda>p. owner (op_owner p)) ops"
    and "inv s" and "ledger_ok (view s)"
  shows "inv s' \<and> ledger_ok (view s') \<and> int (ldDepth (view s')) = int (ldDepth (view s)) + paid"
  using assms
proof (induction ops arbitrary: s paid)
  case Nil
  then show ?case by simp
next
  case (Cons p ops)
  show ?case
  proof (cases p)
    case (ShareDeposit o' n)
    with Cons.prems obtain s1 q where d: "deposit s o' n = Inr s1" "run_shares deposit withdraw ops s1 = Inr (q, s')" "paid = int n + q"
      by (auto simp: res_simps)
    with ShareDeposit Cons.prems deposit_refines [OF Cons.prems(3) _ d(1)]
    have v: "inv s1" "view s1 = ledger_deposit D (view s) (holder o') n" by simp_all
    with Cons.IH [OF d(2)] Cons.prems ledger_deposit_ok d(3) show ?thesis by (simp add: ledger_deposit_def)
  next
    case (ShareWithdraw o' n)
    with Cons.prems obtain x s1 q where d: "withdraw s o' n = Inr (x, s1)" "run_shares deposit withdraw ops s1 = Inr (q, s')"
      "paid = q - int x" by (auto simp: res_simps)
    with ShareWithdraw Cons.prems withdraw_refines [OF Cons.prems(3) _ d(1)]
    have v: "inv s1" "x = ledger_pay D (view s) (holder o') n" "view s1 = ledger_withdraw D (view s) (holder o') n" by simp_all
    note D = decimals [OF Cons.prems(3)]
    from v Cons.IH [OF d(2)] Cons.prems dec_laws.ledger_withdraw_ok [OF D Cons.prems(4)]
      dec_laws.ledger_pays(3) [OF D, of "view s" "holder o'" n] d(3)
    show ?thesis by auto
  qed
qed

lemma claim_bounds:
  assumes "inv s" and "owner o'" and "withdraw s o' n = Inr (x, s')"
  shows "x \<le> ledger_claim D (view s) (holder o')" and "ledger_claim D (view s) (holder o') \<le> ldDepth (view s)"
  using withdraw_refines [OF assms] dec_laws.ledger_pays(1,2) [OF decimals [OF assms(1)]] by auto

end

end
