(* ===== verification/Trade_Accounts.thy ===== *)
theory Trade_Accounts
  imports Stores Share_Ledger
begin

text \<open>
  Trade accounts: \<^verbatim>\<open>src/x/switchly/manager_trade_account_current.go\<close>, the records of
  \<^verbatim>\<open>types/type_trade_account.go\<close> and \<^verbatim>\<open>types/type_trade_unit.go\<close>, their storage in
  \<^verbatim>\<open>keeper/v1/keeper_trade_accounts.go\<close>, the messages of \<^verbatim>\<open>types/msg_trade_account.go\<close> and the
  deposit handler \<^verbatim>\<open>handler_trade_account_deposit.go\<close>.

  The records are kept in the key-value store of \<open>Stores\<close>, one map per record type.
\<close>

section \<open>Records\<close>

record trade_account =
  trAsset :: asset
  trUnits :: uint
  trOwner :: acc
  LastAddHeight :: int
  LastWithdrawHeight :: int

record trade_unit =
  tuAsset :: asset
  tuUnits :: uint
  tuDepth :: uint

definition NewTradeAccount :: "acc \<Rightarrow> asset \<Rightarrow> trade_account" where
  "NewTradeAccount addr a =
     \<lparr>trAsset = a, trUnits = 0, trOwner = addr, LastAddHeight = 0, LastWithdrawHeight = 0\<rparr>"

definition TradeAccount_Key :: "key_lib \<Rightarrow> trade_account \<Rightarrow> string" where
  "TradeAccount_Key K tr = acc_string K (trOwner tr) @ ''/'' @ Asset_String (trAsset tr)"

definition NewTradeUnit :: "asset \<Rightarrow> trade_unit" where
  "NewTradeUnit a = \<lparr>tuAsset = a, tuUnits = 0, tuDepth = 0\<rparr>"

definition TradeUnit_Key :: "trade_unit \<Rightarrow> string" where
  "TradeUnit_Key tu = Asset_String (tuAsset tu)"

section \<open>The keeper\<close>

record trade_store =
  tradeAccounts :: "trade_account kv"
  tradeUnits :: "trade_unit kv"

definition GetTradeAccount :: "key_lib \<Rightarrow> trade_store \<Rightarrow> acc \<Rightarrow> asset \<Rightarrow> trade_account res" where
  "GetTradeAccount K s addr a = (let record = NewTradeAccount addr a in
     kv_get (tradeAccounts s) (kv_key (TradeAccount_Key K record)) record)"

definition SetTradeAccount :: "key_lib \<Rightarrow> trade_store \<Rightarrow> trade_account \<Rightarrow> trade_store" where
  "SetTradeAccount K s tr =
     s\<lparr>tradeAccounts := kv_set (tradeAccounts s) (kv_key (TradeAccount_Key K tr)) tr\<rparr>"

definition RemoveTradeAccount :: "key_lib \<Rightarrow> trade_store \<Rightarrow> trade_account \<Rightarrow> trade_store" where
  "RemoveTradeAccount K s tr =
     s\<lparr>tradeAccounts := kv_del (tradeAccounts s) (kv_key (TradeAccount_Key K tr))\<rparr>"

definition GetTradeUnit :: "trade_store \<Rightarrow> asset \<Rightarrow> trade_unit res" where
  "GetTradeUnit s a = (let record = NewTradeUnit a in
     kv_get (tradeUnits s) (kv_key (TradeUnit_Key record)) record)"

definition SetTradeUnit :: "trade_store \<Rightarrow> trade_unit \<Rightarrow> trade_store" where
  "SetTradeUnit s tu = s\<lparr>tradeUnits := kv_set (tradeUnits s) (kv_key (TradeUnit_Key tu)) tu\<rparr>"

section \<open>The manager\<close>

definition Trade_BalanceOf :: "dec_lib \<Rightarrow> key_lib \<Rightarrow> trade_store \<Rightarrow> asset \<Rightarrow> acc \<Rightarrow> uint" where
  "Trade_BalanceOf D K s a addr =
     (case GetTradeUnit s (GetTradeAsset a) of Inl _ \<Rightarrow> 0
      | Inr tu \<Rightarrow> (case GetTradeAccount K s addr (GetTradeAsset a) of Inl _ \<Rightarrow> 0
        | Inr tr \<Rightarrow> GetSafeShare D (trUnits tr) (tuUnits tu) (tuDepth tu)))"

definition calcDepositUnits :: "dec_lib \<Rightarrow> uint \<Rightarrow> uint \<Rightarrow> uint \<Rightarrow> uint" where
  "calcDepositUnits D oldUnits depth add =
     (if oldUnits = 0 \<or> depth = 0 then add
      else if add = 0 then 0
      else GetUncappedShare D add depth oldUnits)"

text \<open>The result of an operation is the amount and the store; an error leaves no store.\<close>

definition Trade_Deposit ::
  "dec_lib \<Rightarrow> key_lib \<Rightarrow> int \<Rightarrow> trade_store \<Rightarrow> asset \<Rightarrow> uint \<Rightarrow> acc \<Rightarrow> (uint \<times> trade_store) res" where
  "Trade_Deposit D K blockHeight s a amount owner =
     res_bind (GetTradeUnit s (GetTradeAsset a)) (\<lambda>tu.
     res_bind (GetTradeAccount K s owner (GetTradeAsset a)) (\<lambda>tr.
       let units = calcDepositUnits D (tuUnits tu) (tuDepth tu) amount in
     res_bind (uint_add (tuUnits tu) units) (\<lambda>tuU.
     res_bind (uint_add (trUnits tr) units) (\<lambda>trU.
     res_bind (uint_add (tuDepth tu) amount) (\<lambda>d.
       Inr (amount, SetTradeAccount K (SetTradeUnit s (tu\<lparr>tuUnits := tuU, tuDepth := d\<rparr>))
              (tr\<lparr>trUnits := trU, LastAddHeight := blockHeight\<rparr>)))))))"

definition Trade_Withdrawal ::
  "dec_lib \<Rightarrow> key_lib \<Rightarrow> int \<Rightarrow> trade_store \<Rightarrow> asset \<Rightarrow> uint \<Rightarrow> acc \<Rightarrow> (uint \<times> trade_store) res" where
  "Trade_Withdrawal D K blockHeight s a amount owner =
     res_bind (GetTradeUnit s (GetTradeAsset a)) (\<lambda>tu.
     res_bind (GetTradeAccount K s owner (GetTradeAsset a)) (\<lambda>tr.
       let assetAvailable = GetSafeShare D (trUnits tr) (tuUnits tu) (tuDepth tu);
           unitsToClaim = GetSafeShare D amount assetAvailable (trUnits tr);
           tokensToClaim = GetSafeShare D unitsToClaim (trUnits tr) assetAvailable
       in Inr (tokensToClaim,
            SetTradeAccount K
              (SetTradeUnit s (tu\<lparr>tuUnits := SafeSub (tuUnits tu) unitsToClaim,
                                  tuDepth := SafeSub (tuDepth tu) tokensToClaim\<rparr>))
              (tr\<lparr>trUnits := SafeSub (trUnits tr) unitsToClaim, LastWithdrawHeight := blockHeight\<rparr>))))"

section \<open>The deposit message and its handler\<close>

record msg_trade_deposit =
  mtdTx :: tx
  mtdAsset :: asset
  mtdAmount :: uint
  mtdAddress :: acc
  mtdSigner :: acc

definition MsgTradeAccountDeposit_ValidateBasic :: "msg_trade_deposit \<Rightarrow> unit res" where
  "MsgTradeAccountDeposit_ValidateBasic m =
     (if Asset_IsEmpty (mtdAsset m) then Inl (Err ''asset cannot be empty'')
      else if Chain_Equals (GetChain (mtdAsset m)) SWITCHLYChain
        then Inl (Err ''asset cannot be SWITCHLYChain asset'')
      else if mtdAmount m = 0 then Inl (Err ''amount cannot be zero'')
      else if mtdAddress m = [] then Inl (Err ''invalid address'')
      else if mtdSigner m = [] then Inl (Err ''invalid address'')
      else if TxID_IsEmpty (tID (mtdTx m)) then Inl (Err ''txID cannot be empty'')
      else Inr ())"

text \<open>
  The handler with the values it reads from the configuration (\<open>TradeAccountsEnabled\<close>,
  \<open>TradeAccountsDepositEnabled\<close>) and whether the node version is at least 3.0.0.
\<close>

definition TradeAccountDeposit_validate :: "bool \<Rightarrow> int \<Rightarrow> int \<Rightarrow> msg_trade_deposit \<Rightarrow> unit res" where
  "TradeAccountDeposit_validate version3 enabled depositEnabled msg =
     (if \<not> version3 then Inl (Err ''bad version'')
      else if enabled \<le> 0 \<or> depositEnabled \<le> 0 then Inl (Err ''trade accounts are disabled'')
      else MsgTradeAccountDeposit_ValidateBasic msg)"

definition TradeAccountDeposit_handle ::
  "dec_lib \<Rightarrow> key_lib \<Rightarrow> bool \<Rightarrow> int \<Rightarrow> trade_store \<Rightarrow> msg_trade_deposit \<Rightarrow> trade_store res" where
  "TradeAccountDeposit_handle D K version3 blockHeight s msg =
     (if \<not> version3 then Inl (Err ''bad version'')
      else res_map snd (Trade_Deposit D K blockHeight s (mtdAsset msg) (mtdAmount msg) (mtdAddress msg)))"

definition TradeAccountDeposit_Run ::
  "dec_lib \<Rightarrow> key_lib \<Rightarrow> bool \<Rightarrow> int \<Rightarrow> int \<Rightarrow> int \<Rightarrow> trade_store \<Rightarrow> msg_trade_deposit \<Rightarrow> trade_store res" where
  "TradeAccountDeposit_Run D K version3 enabled depositEnabled blockHeight s msg =
     res_bind (TradeAccountDeposit_validate version3 enabled depositEnabled msg)
       (\<lambda>_. TradeAccountDeposit_handle D K version3 blockHeight s msg)"

section \<open>The two record stores\<close>

interpretation accounts: record_store tradeAccounts "SetTradeAccount K" "\<lambda>tr. kv_key (TradeAccount_Key K tr)"
  for K
  by unfold_locales (simp add: SetTradeAccount_def kv_set_def)

interpretation units: record_store tradeUnits SetTradeUnit "\<lambda>tu. kv_key (TradeUnit_Key tu)"
  by unfold_locales (simp add: SetTradeUnit_def kv_set_def)

lemma set_frames [simp]:
  "tradeUnits (SetTradeAccount K s tr) = tradeUnits s" "tradeAccounts (SetTradeUnit s tu) = tradeAccounts s"
  by (simp_all add: SetTradeAccount_def SetTradeUnit_def)

section \<open>The invariant of trade accounts\<close>

text \<open>The printed form of an owner has no slash (bech32 has none), so a key determines its asset.\<close>

definition owner_ok :: "key_lib \<Rightarrow> acc \<Rightarrow> bool" where
  "owner_ok K a \<longleftrightarrow> CHR ''/'' \<notin> set (acc_string K a)"

definition units_in :: "string \<Rightarrow> trade_account \<Rightarrow> nat" where
  "units_in ak tr = (if asset_slot (trAsset tr) = ak then trUnits tr else 0)"

definition trade_inv :: "key_lib \<Rightarrow> trade_store \<Rightarrow> bool" where
  "trade_inv K s \<longleftrightarrow> finite (dom (tradeAccounts s))
     \<and> (\<forall>k sl. tradeAccounts s k = Some sl \<longrightarrow>
          (\<exists>tr. sl = Stored tr \<and> k = kv_key (TradeAccount_Key K tr) \<and> owner_ok K (trOwner tr)))
     \<and> (\<forall>k sl. tradeUnits s k = Some sl \<longrightarrow> (\<exists>tu. sl = Stored tu \<and> k = kv_key (TradeUnit_Key tu)))
     \<and> (\<forall>ak. slot_val tuUnits (tradeUnits s ak) = kv_total (units_in ak) (tradeAccounts s))"

lemma account_key_split:
  assumes "owner_ok K (trOwner tr)"
  shows "split2 (CHR ''/'') (kv_key (TradeAccount_Key K tr))
    = (to_upper (acc_string K (trOwner tr)), Some (asset_slot (trAsset tr)))"
proof -
  have "CHR ''/'' \<notin> set (to_upper (acc_string K (trOwner tr)))"
    using assms by (simp add: owner_ok_def slash_upper)
  moreover have "kv_key (TradeAccount_Key K tr)
      = to_upper (acc_string K (trOwner tr)) @ CHR ''/'' # asset_slot (trAsset tr)"
    using upper_slash [of "CHR ''/''"] by (simp add: kv_key_def TradeAccount_Key_def asset_slot_def)
  ultimately show ?thesis using split2_append by metis
qed

lemma account_key_asset:
  assumes "kv_key (TradeAccount_Key K tr) = kv_key (TradeAccount_Key K tr')"
    and "owner_ok K (trOwner tr)" and "owner_ok K (trOwner tr')"
  shows "asset_slot (trAsset tr) = asset_slot (trAsset tr')"
  using account_key_split [OF assms(2)] account_key_split [OF assms(3)] assms(1) by simp

text \<open>What a successful read of a well-formed store returns.\<close>

lemma GetTradeUnit_Inr:
  assumes "trade_inv K s" and "GetTradeUnit s a = Inr tu"
  shows "kv_key (TradeUnit_Key tu) = asset_slot a \<and> slot_val tuUnits (tradeUnits s (asset_slot a)) = tuUnits tu
    \<and> slot_val tuDepth (tradeUnits s (asset_slot a)) = tuDepth tu"
proof (cases "tradeUnits s (asset_slot a)")
  case None
  with assms(2) have "tu = NewTradeUnit a"
    by (simp add: GetTradeUnit_def Let_def kv_get_def asset_slot_def TradeUnit_Key_def NewTradeUnit_def)
  with None show ?thesis by (simp add: NewTradeUnit_def TradeUnit_Key_def asset_slot_def)
next
  case (Some sl)
  with assms(1) obtain tu' where tu': "sl = Stored tu'" "asset_slot a = kv_key (TradeUnit_Key tu')"
    unfolding trade_inv_def by blast
  with Some assms(2) have "tu = tu'"
    by (simp add: GetTradeUnit_def Let_def kv_get_def asset_slot_def TradeUnit_Key_def NewTradeUnit_def)
  with tu' Some show ?thesis by simp
qed

lemma GetTradeAccount_Inr:
  assumes "trade_inv K s" and "GetTradeAccount K s owner a = Inr tr" and "owner_ok K owner"
  shows "kv_key (TradeAccount_Key K tr) = kv_key (TradeAccount_Key K (NewTradeAccount owner a))
    \<and> owner_ok K (trOwner tr) \<and> asset_slot (trAsset tr) = asset_slot a
    \<and> slot_val (units_in ak) (tradeAccounts s (kv_key (TradeAccount_Key K tr))) = units_in ak tr"
proof -
  let ?n = "NewTradeAccount owner a" and ?k = "kv_key (TradeAccount_Key K (NewTradeAccount owner a))"
  have n: "owner_ok K (trOwner ?n)" "trAsset ?n = a" "trUnits ?n = 0"
    using assms(3) by (simp_all add: NewTradeAccount_def)
  show ?thesis
  proof (cases "tradeAccounts s ?k")
    case None
    with assms(2) have "tr = ?n" by (simp add: GetTradeAccount_def Let_def kv_get_def)
    with None n show ?thesis by (simp add: units_in_def)
  next
    case (Some sl)
    with assms(1) obtain tr' where tr': "sl = Stored tr'" "?k = kv_key (TradeAccount_Key K tr')"
      "owner_ok K (trOwner tr')" unfolding trade_inv_def by blast
    with Some assms(2) have "tr = tr'" by (simp add: GetTradeAccount_def Let_def kv_get_def)
    with tr' Some n account_key_asset [of K tr' ?n] show ?thesis by simp
  qed
qed

text \<open>Writing back both records keeps the invariant when their units change by the same amount.\<close>

lemma trade_inv_update:
  assumes inv: "trade_inv K s" and tu: "GetTradeUnit s a = Inr tu"
    and tr: "GetTradeAccount K s owner a = Inr tr" and ok: "owner_ok K owner"
    and tu': "tuAsset tu' = tuAsset tu" and tr': "trAsset tr' = trAsset tr" "trOwner tr' = trOwner tr"
    and balance: "tuUnits tu' + trUnits tr = tuUnits tu + trUnits tr'"
  shows "trade_inv K (SetTradeAccount K (SetTradeUnit s tu') tr')"
proof -
  let ?s = "SetTradeAccount K (SetTradeUnit s tu') tr'"
  have ku: "kv_key (TradeUnit_Key tu') = asset_slot a" and vu: "slot_val tuUnits (tradeUnits s (asset_slot a)) = tuUnits tu"
    using GetTradeUnit_Inr [OF inv tu] tu' by (simp_all add: TradeUnit_Key_def)
  have ka: "kv_key (TradeAccount_Key K tr') = kv_key (TradeAccount_Key K tr)"
    using tr' by (simp add: TradeAccount_Key_def)
  have own: "owner_ok K (trOwner tr')" and asl: "asset_slot (trAsset tr') = asset_slot a"
    using GetTradeAccount_Inr [OF inv tr ok] tr' by simp_all
  have va: "slot_val (units_in ak) (tradeAccounts s (kv_key (TradeAccount_Key K tr'))) = units_in ak tr" for ak
    unfolding ka using GetTradeAccount_Inr [OF inv tr ok, of ak] by blast
  have acc: "tradeAccounts ?s = (tradeAccounts s)(kv_key (TradeAccount_Key K tr') \<mapsto> Stored tr')"
    by (simp add: accounts.slot_put)
  have unit: "tradeUnits ?s = (tradeUnits s)(asset_slot a \<mapsto> Stored tu')"
    using units.slot_put [of s tu'] ku by simp
  have fin: "finite (dom (tradeAccounts s))" using inv by (simp add: trade_inv_def)
  have sum: "slot_val tuUnits (tradeUnits ?s ak) = kv_total (units_in ak) (tradeAccounts ?s)" for ak
  proof -
    have tot: "kv_total (units_in ak) (tradeAccounts ?s) + units_in ak tr
        = kv_total (units_in ak) (tradeAccounts s) + units_in ak tr'"
      using accounts.total_put [of "SetTradeUnit s tu'" "units_in ak" K tr'] fin va by simp
    have old: "slot_val tuUnits (tradeUnits s ak) = kv_total (units_in ak) (tradeAccounts s)"
      using inv by (simp add: trade_inv_def)
    show ?thesis
    proof (cases "ak = asset_slot a")
      case True
      then show ?thesis using tot old vu unit balance asl tr' by (simp add: units_in_def)
    next
      case False
      then show ?thesis using tot old unit asl tr' by (simp add: units_in_def)
    qed
  qed
  have "(\<forall>k sl. tradeAccounts ?s k = Some sl \<longrightarrow>
      (\<exists>tr. sl = Stored tr \<and> k = kv_key (TradeAccount_Key K tr) \<and> owner_ok K (trOwner tr)))"
    using inv own unfolding acc trade_inv_def by auto
  moreover have "(\<forall>k sl. tradeUnits ?s k = Some sl \<longrightarrow> (\<exists>tu. sl = Stored tu \<and> k = kv_key (TradeUnit_Key tu)))"
    using inv ku unfolding unit trade_inv_def by auto
  ultimately show ?thesis using sum fin unfolding trade_inv_def acc by simp
qed

text \<open>The units of one account are part of the units of its asset.\<close>

lemma account_units_le:
  assumes "trade_inv K s" and "GetTradeUnit s a = Inr tu" and "GetTradeAccount K s owner a = Inr tr"
    and "owner_ok K owner"
  shows "trUnits tr \<le> tuUnits tu"
proof -
  let ?k = "kv_key (TradeAccount_Key K tr)" and ?f = "units_in (asset_slot a)"
  have "asset_slot (trAsset tr) = asset_slot a" and v: "slot_val ?f (tradeAccounts s ?k) = ?f tr"
    using GetTradeAccount_Inr [OF assms(1,3,4), of "asset_slot a"] by blast+
  then have f: "slot_val ?f (tradeAccounts s ?k) = trUnits tr" unfolding v by (simp add: units_in_def)
  have "slot_val ?f (tradeAccounts s ?k) \<le> kv_total ?f (tradeAccounts s)"
  proof (cases "?k \<in> dom (tradeAccounts s)")
    case True
    then show ?thesis using assms(1) unfolding kv_total_def trade_inv_def
      by (intro member_le_sum) auto
  next
    case False
    then have "tradeAccounts s ?k = None" by auto
    then show ?thesis by simp
  qed
  also have "\<dots> = tuUnits tu"
    using assms(1) GetTradeUnit_Inr [OF assms(1,2)] unfolding trade_inv_def by metis
  finally show ?thesis using f by simp
qed

text \<open>The effect of the two operations on a well-formed store.\<close>

lemma Deposit_Inr:
  assumes "Trade_Deposit D K h s a amount owner = Inr (x, s')"
  obtains tu tr u where "GetTradeUnit s (GetTradeAsset a) = Inr tu"
    and "GetTradeAccount K s owner (GetTradeAsset a) = Inr tr" and "x = amount"
    and "s' = SetTradeAccount K (SetTradeUnit s (tu\<lparr>tuUnits := tuUnits tu + u, tuDepth := tuDepth tu + amount\<rparr>))
        (tr\<lparr>trUnits := trUnits tr + u, LastAddHeight := h\<rparr>)"
    and "u = calcDepositUnits D (tuUnits tu) (tuDepth tu) amount"
  using assms by (auto simp: Trade_Deposit_def Let_def res_simps uint_simps)

lemma Withdrawal_Inr:
  assumes "Trade_Withdrawal D K h s a amount owner = Inr (x, s')"
  obtains tu tr u where "GetTradeUnit s (GetTradeAsset a) = Inr tu"
    and "GetTradeAccount K s owner (GetTradeAsset a) = Inr tr"
    and "u = GetSafeShare D amount (GetSafeShare D (trUnits tr) (tuUnits tu) (tuDepth tu)) (trUnits tr)"
    and "x = GetSafeShare D u (trUnits tr) (GetSafeShare D (trUnits tr) (tuUnits tu) (tuDepth tu))"
    and "s' = SetTradeAccount K (SetTradeUnit s (tu\<lparr>tuUnits := tuUnits tu - u, tuDepth := tuDepth tu - x\<rparr>))
        (tr\<lparr>trUnits := trUnits tr - u, LastWithdrawHeight := h\<rparr>)"
  using assms by (auto simp: Trade_Withdrawal_def Let_def res_simps)

definition depth_at :: "trade_store \<Rightarrow> string \<Rightarrow> nat" where
  "depth_at s ak = slot_val tuDepth (tradeUnits s ak)"

lemma depth_after:
  assumes "kv_key (TradeUnit_Key tu') = asset_slot a"
  shows "depth_at (SetTradeAccount K (SetTradeUnit s tu') tr') ak
    = (if ak = asset_slot a then tuDepth tu' else depth_at s ak)"
  using assms units.slot_put [of s tu'] by (simp add: depth_at_def)

lemma deposit_keeps_inv:
  assumes "trade_inv K s" and "owner_ok K owner" and "Trade_Deposit D K h s a amount owner = Inr (x, s')"
  shows "trade_inv K s' \<and> x = amount \<and> depth_at s' ak
    = (if ak = asset_slot (GetTradeAsset a) then depth_at s ak + x else depth_at s ak)"
  using assms(3)
proof (rule Deposit_Inr)
  fix tu tr u
  assume tu: "GetTradeUnit s (GetTradeAsset a) = Inr tu"
    and tr: "GetTradeAccount K s owner (GetTradeAsset a) = Inr tr" and x: "x = amount"
    and s': "s' = SetTradeAccount K (SetTradeUnit s (tu\<lparr>tuUnits := tuUnits tu + u, tuDepth := tuDepth tu + amount\<rparr>))
        (tr\<lparr>trUnits := trUnits tr + u, LastAddHeight := h\<rparr>)"
  have "trade_inv K s'"
    unfolding s' by (rule trade_inv_update [OF assms(1) tu tr assms(2)]) simp_all
  moreover have "kv_key (TradeUnit_Key tu) = asset_slot (GetTradeAsset a)"
    "depth_at s (asset_slot (GetTradeAsset a)) = tuDepth tu"
    using GetTradeUnit_Inr [OF assms(1) tu] by (simp_all add: depth_at_def)
  ultimately show ?thesis using x unfolding s' by (simp add: depth_after TradeUnit_Key_def)
qed

lemma withdrawal_keeps_inv:
  assumes "dec_laws D" and "trade_inv K s" and "owner_ok K owner"
    and "Trade_Withdrawal D K h s a amount owner = Inr (x, s')"
  shows "trade_inv K s' \<and> x \<le> Trade_BalanceOf D K s a owner
    \<and> Trade_BalanceOf D K s a owner \<le> depth_at s (asset_slot (GetTradeAsset a))
    \<and> depth_at s' ak = (if ak = asset_slot (GetTradeAsset a) then depth_at s ak - x else depth_at s ak)"
  using assms(4)
proof (rule Withdrawal_Inr)
  fix tu tr u
  assume tu: "GetTradeUnit s (GetTradeAsset a) = Inr tu"
    and tr: "GetTradeAccount K s owner (GetTradeAsset a) = Inr tr"
    and u: "u = GetSafeShare D amount (GetSafeShare D (trUnits tr) (tuUnits tu) (tuDepth tu)) (trUnits tr)"
    and x: "x = GetSafeShare D u (trUnits tr) (GetSafeShare D (trUnits tr) (tuUnits tu) (tuDepth tu))"
    and s': "s' = SetTradeAccount K (SetTradeUnit s (tu\<lparr>tuUnits := tuUnits tu - u, tuDepth := tuDepth tu - x\<rparr>))
        (tr\<lparr>trUnits := trUnits tr - u, LastWithdrawHeight := h\<rparr>)"
  note le = dec_laws.safe_share_le [OF assms(1)]
  have "u \<le> trUnits tr" unfolding u by (rule le)
  then have "trade_inv K s'"
    unfolding s' using account_units_le [OF assms(2) tu tr assms(3)]
    by (intro trade_inv_update [OF assms(2) tu tr assms(3)]) simp_all
  moreover have bal: "Trade_BalanceOf D K s a owner = GetSafeShare D (trUnits tr) (tuUnits tu) (tuDepth tu)"
    using tu tr by (simp add: Trade_BalanceOf_def)
  moreover have "x \<le> GetSafeShare D (trUnits tr) (tuUnits tu) (tuDepth tu)" unfolding x by (rule le)
  moreover have "kv_key (TradeUnit_Key tu) = asset_slot (GetTradeAsset a)"
    "depth_at s (asset_slot (GetTradeAsset a)) = tuDepth tu"
    using GetTradeUnit_Inr [OF assms(2) tu] by (simp_all add: depth_at_def)
  ultimately show ?thesis
    unfolding s' using le [of "trUnits tr" "tuUnits tu" "tuDepth tu"] by (simp add: depth_after TradeUnit_Key_def)
qed

section \<open>Trade accounts refine the share ledger\<close>

definition trade_view :: "asset \<Rightarrow> trade_store \<Rightarrow> ledger" where
  "trade_view a s = (let ak = asset_slot (GetTradeAsset a) in
     \<lparr>ldShares = (\<lambda>k. slot_val (units_in ak) (tradeAccounts s k)), ldTotal = slot_val tuUnits (tradeUnits s ak),
      ldDepth = slot_val tuDepth (tradeUnits s ak)\<rparr>)"

definition trade_holder :: "key_lib \<Rightarrow> asset \<Rightarrow> acc \<Rightarrow> string" where
  "trade_holder K a owner = kv_key (TradeAccount_Key K (NewTradeAccount owner (GetTradeAsset a)))"

lemma trade_view_read:
  assumes "trade_inv K s" and "owner_ok K owner"
    and tu: "GetTradeUnit s (GetTradeAsset a) = Inr tu" and tr: "GetTradeAccount K s owner (GetTradeAsset a) = Inr tr"
  shows "ldShares (trade_view a s) (trade_holder K a owner) = trUnits tr" and "ldTotal (trade_view a s) = tuUnits tu"
    and "ldDepth (trade_view a s) = tuDepth tu"
  using GetTradeUnit_Inr [OF assms(1) tu] GetTradeAccount_Inr [OF assms(1) tr assms(2), of "asset_slot (GetTradeAsset a)"]
  by (auto simp: trade_view_def Let_def trade_holder_def units_in_def)

lemma trade_view_write:
  assumes inv: "trade_inv K s" "owner_ok K owner"
    and tu: "GetTradeUnit s (GetTradeAsset a) = Inr tu" and tr: "GetTradeAccount K s owner (GetTradeAsset a) = Inr tr"
    and tu': "tuAsset tu' = tuAsset tu" and tr': "trAsset tr' = trAsset tr" "trOwner tr' = trOwner tr"
  shows "trade_view a (SetTradeAccount K (SetTradeUnit s tu') tr') = (trade_view a s)\<lparr>
    ldShares := (ldShares (trade_view a s))(trade_holder K a owner := trUnits tr'), ldTotal := tuUnits tu', ldDepth := tuDepth tu'\<rparr>"
proof -
  let ?ak = "asset_slot (GetTradeAsset a)"
  have ku: "kv_key (TradeUnit_Key tu') = ?ak" using GetTradeUnit_Inr [OF inv(1) tu] tu' by (simp add: TradeUnit_Key_def)
  have ka: "kv_key (TradeAccount_Key K tr') = trade_holder K a owner" "asset_slot (trAsset tr') = ?ak"
    using GetTradeAccount_Inr [OF inv(1) tr inv(2)] tr' by (simp_all add: TradeAccount_Key_def trade_holder_def)
  show ?thesis
    using accounts.slot_put [of K "SetTradeUnit s tu'" tr'] units.slot_put [of s tu'] ku ka
    by (auto simp: trade_view_def Let_def units_in_def fun_eq_iff)
qed

interpretation trade_pot: share_ledger D "\<lambda>s. dec_laws D \<and> trade_inv K s" "trade_view a" "trade_holder K a" "owner_ok K"
  "\<lambda>s owner n. res_map snd (Trade_Deposit D K h s a n owner)" "\<lambda>s owner n. Trade_Withdrawal D K h s a n owner"
proof (rule share_ledger.intro)
  show "dec_laws D" if "dec_laws D \<and> trade_inv K s" for s using that by blast
next
  fix s o' n s'
  assume inv: "dec_laws D \<and> trade_inv K s" and ok: "owner_ok K o'" and "res_map snd (Trade_Deposit D K h s a n o') = Inr s'"
  then obtain x where run: "Trade_Deposit D K h s a n o' = Inr (x, s')" by (auto simp: res_simps)
  from run show "(dec_laws D \<and> trade_inv K s') \<and> trade_view a s' = ledger_deposit D (trade_view a s) (trade_holder K a o') n"
  proof (rule Deposit_Inr)
    fix tu tr u
    assume tu: "GetTradeUnit s (GetTradeAsset a) = Inr tu" and tr: "GetTradeAccount K s o' (GetTradeAsset a) = Inr tr"
      and u: "u = calcDepositUnits D (tuUnits tu) (tuDepth tu) n"
      and s': "s' = SetTradeAccount K (SetTradeUnit s (tu\<lparr>tuUnits := tuUnits tu + u, tuDepth := tuDepth tu + n\<rparr>))
        (tr\<lparr>trUnits := trUnits tr + u, LastAddHeight := h\<rparr>)"
    note read = trade_view_read [OF _ ok tu tr]
    have "u = ledger_mint D (trade_view a s) n" using inv by (simp add: u ledger_mint_def calcDepositUnits_def read)
    then show ?thesis
      using inv deposit_keeps_inv [OF _ ok run] by (simp add: s' trade_view_write [OF _ ok tu tr] ledger_deposit_def read)
  qed
next
  fix s o' n x s'
  assume inv: "dec_laws D \<and> trade_inv K s" and ok: "owner_ok K o'" and run: "Trade_Withdrawal D K h s a n o' = Inr (x, s')"
  from run show "(dec_laws D \<and> trade_inv K s') \<and> x = ledger_pay D (trade_view a s) (trade_holder K a o') n
      \<and> trade_view a s' = ledger_withdraw D (trade_view a s) (trade_holder K a o') n"
  proof (rule Withdrawal_Inr)
    fix tu tr u
    assume tu: "GetTradeUnit s (GetTradeAsset a) = Inr tu" and tr: "GetTradeAccount K s o' (GetTradeAsset a) = Inr tr"
      and u: "u = GetSafeShare D n (GetSafeShare D (trUnits tr) (tuUnits tu) (tuDepth tu)) (trUnits tr)"
      and x: "x = GetSafeShare D u (trUnits tr) (GetSafeShare D (trUnits tr) (tuUnits tu) (tuDepth tu))"
      and s': "s' = SetTradeAccount K (SetTradeUnit s (tu\<lparr>tuUnits := tuUnits tu - u, tuDepth := tuDepth tu - x\<rparr>))
        (tr\<lparr>trUnits := trUnits tr - u, LastWithdrawHeight := h\<rparr>)"
    note read = trade_view_read [OF _ ok tu tr]
    have u': "u = ledger_burn D (trade_view a s) (trade_holder K a o') n"
      using inv by (simp add: u ledger_burn_def ledger_claim_def read)
    moreover have "x = ledger_pay D (trade_view a s) (trade_holder K a o') n"
      using inv by (simp add: x ledger_pay_def ledger_claim_def u' read)
    ultimately show ?thesis
      using inv withdrawal_keeps_inv [OF _ _ ok run] by (simp add: s' trade_view_write [OF _ ok tu tr] ledger_withdraw_def read)
  qed
qed

section \<open>Sequences of deposits and withdrawals\<close>

definition empty_store :: trade_store where
  "empty_store = \<lparr>tradeAccounts = (\<lambda>_. None), tradeUnits = (\<lambda>_. None)\<rparr>"

text \<open>
  \<open>trade_reach D K s flow\<close>: the store \<open>s\<close> is reached from the empty one, and \<open>flow\<close> is what was paid
  in less what was paid out, per asset.
\<close>

inductive trade_reach :: "dec_lib \<Rightarrow> key_lib \<Rightarrow> trade_store \<Rightarrow> (string \<Rightarrow> int) \<Rightarrow> bool" for D K where
  init: "trade_reach D K empty_store (\<lambda>_. 0)"
| deposit: "trade_reach D K s f \<Longrightarrow> owner_ok K owner \<Longrightarrow> Trade_Deposit D K h s a amount owner = Inr (x, s') \<Longrightarrow>
    k = asset_slot (GetTradeAsset a) \<Longrightarrow> trade_reach D K s' (f(k := f k + int x))"
| withdraw: "trade_reach D K s f \<Longrightarrow> owner_ok K owner \<Longrightarrow> Trade_Withdrawal D K h s a amount owner = Inr (x, s') \<Longrightarrow>
    k = asset_slot (GetTradeAsset a) \<Longrightarrow> trade_reach D K s' (f(k := f k - int x))"

lemma trade_inv_empty: "trade_inv K empty_store"
  by (simp add: trade_inv_def empty_store_def kv_total_def)

section \<open>Properties\<close>

text \<open>C10. In every store reached by deposits and withdrawals, the units of each trade asset are the sum
  of the units of its accounts, and its depth is exactly what was deposited less what was withdrawn
  (so no more is ever withdrawn than was deposited).\<close>

theorem trade_accounts_solvent:
  assumes "dec_laws D" and "trade_reach D K s flow"
  shows "trade_inv K s \<and> (\<forall>ak. int (depth_at s ak) = flow ak)"
  using assms(2)
proof induction
  case init
  show ?case using trade_inv_empty by (simp add: depth_at_def empty_store_def)
next
  case (deposit s f owner h a amount x s' k)
  then have inv: "trade_inv K s" and "\<forall>ak. int (depth_at s ak) = f ak" by blast+
  with deposit.hyps(4) deposit_keeps_inv [OF inv deposit.hyps(2,3)] show ?case by simp
next
  case (withdraw s f owner h a amount x s' k)
  then have inv: "trade_inv K s" and flow: "\<forall>ak. int (depth_at s ak) = f ak" by blast+
  note w = withdrawal_keeps_inv [OF assms(1) inv withdraw.hyps(2,3)]
  have "x \<le> depth_at s k" using w withdraw.hyps(4) order_trans by blast
  with w flow withdraw.hyps(4) show ?case by (simp add: of_nat_diff)
qed

theorem trade_accounts_solvent_witness:
  "\<exists>s flow. trade_reach legacy_dec plain_keys s flow \<and> int (depth_at s (asset_slot (GetTradeAsset BTCAsset))) = 100"
proof -
  have "\<exists>s'. Trade_Deposit legacy_dec plain_keys 1 empty_store BTCAsset 100 ''n1'' = Inr (100, s')"
    by (simp add: Trade_Deposit_def GetTradeUnit_def GetTradeAccount_def Let_def kv_get_def empty_store_def
        NewTradeUnit_def NewTradeAccount_def calcDepositUnits_def uint_eval)
  then obtain s' where d: "Trade_Deposit legacy_dec plain_keys 1 empty_store BTCAsset 100 ''n1'' = Inr (100, s')" ..
  have "owner_ok plain_keys ''n1''" by (simp add: owner_ok_def plain_keys_def)
  from trade_reach.deposit [OF trade_reach.init this d refl]
  have "trade_reach legacy_dec plain_keys s' ((\<lambda>_. 0)(asset_slot (GetTradeAsset BTCAsset) := 100))" by simp
  with trade_accounts_solvent [OF legacy.dec_laws_axioms this] show ?thesis by fastforce
qed

text \<open>A withdrawal pays at most the balance of the account, which is at most the depth of the asset,
  takes exactly what it pays from the depth and leaves every other asset alone.\<close>

theorem withdrawal_bounded_by_balance:
  assumes "dec_laws D" and "trade_inv K s" and "owner_ok K owner"
    and "Trade_Withdrawal D K h s a amount owner = Inr (x, s')"
  shows "x \<le> Trade_BalanceOf D K s a owner
    \<and> Trade_BalanceOf D K s a owner \<le> depth_at s (asset_slot (GetTradeAsset a))
    \<and> depth_at s' (asset_slot (GetTradeAsset a)) + x = depth_at s (asset_slot (GetTradeAsset a))
    \<and> (\<forall>ak. ak \<noteq> asset_slot (GetTradeAsset a) \<longrightarrow> depth_at s' ak = depth_at s ak)"
  using withdrawal_keeps_inv [OF assms] by fastforce

theorem withdrawal_bounded_by_balance_witness:
  "\<exists>x s'. Trade_Withdrawal legacy_dec plain_keys 1 empty_store BTCAsset 5 ''n1'' = Inr (x, s')
     \<and> x \<le> Trade_BalanceOf legacy_dec plain_keys empty_store BTCAsset ''n1''"
proof -
  have "\<exists>x s'. Trade_Withdrawal legacy_dec plain_keys 1 empty_store BTCAsset 5 ''n1'' = Inr (x, s')"
    by (simp add: Trade_Withdrawal_def GetTradeUnit_def GetTradeAccount_def Let_def kv_get_def empty_store_def)
  moreover have "owner_ok plain_keys ''n1''" by (simp add: owner_ok_def plain_keys_def)
  ultimately show ?thesis
    using withdrawal_bounded_by_balance [OF legacy.dec_laws_axioms trade_inv_empty] by blast
qed

text \<open>Asking for at least the whole balance pays the whole balance and leaves the account without
  units, for amounts below \<open>10^58\<close>.\<close>

theorem withdraw_whole_balance:
  assumes "dec_laws D" and "GetTradeUnit s (GetTradeAsset a) = Inr tu"
    and "GetTradeAccount K s owner (GetTradeAsset a) = Inr tr"
    and "bal = Trade_BalanceOf D K s a owner" and "0 < bal" and "bal \<le> amount"
    and "bal < 10 ^ 58" and "trUnits tr < 10 ^ 58"
  shows "\<exists>s'. Trade_Withdrawal D K h s a amount owner = Inr (bal, s')
    \<and> tradeAccounts s' (kv_key (TradeAccount_Key K tr))
        = Some (Stored (tr\<lparr>trUnits := 0, LastWithdrawHeight := h\<rparr>))"
proof -
  have bal: "bal = GetSafeShare D (trUnits tr) (tuUnits tu) (tuDepth tu)"
    using assms(2-4) by (simp add: Trade_BalanceOf_def)
  then have pos: "0 < trUnits tr"
    using assms(5) by (cases "trUnits tr = 0") (auto simp: GetSafeShare_def GetUncappedShare_def split: if_splits)
  have u: "GetSafeShare D amount bal (trUnits tr) = trUnits tr"
    by (rule dec_laws.safe_share_whole [OF assms(1,5,6) dec_in_range(2) [OF assms(7)] dec_in_range(2) [OF assms(8)]])
  have x: "GetSafeShare D (trUnits tr) (trUnits tr) bal = bal"
    by (rule dec_laws.safe_share_whole [OF assms(1) pos order_refl dec_in_range(2) [OF assms(8)]
          dec_in_range(2) [OF assms(7)]])
  show ?thesis
    unfolding Trade_Withdrawal_def using assms(2,3) u x
    by (simp add: Let_def accounts.slot_put TradeAccount_Key_def flip: bal)
qed

definition demo_store :: trade_store where
  "demo_store = SetTradeAccount plain_keys
     (SetTradeUnit empty_store \<lparr>tuAsset = GetTradeAsset BTCAsset, tuUnits = 100, tuDepth = 200\<rparr>)
     ((NewTradeAccount ''n1'' (GetTradeAsset BTCAsset))\<lparr>trUnits := 50\<rparr>)"

theorem withdraw_whole_balance_witness:
  "\<exists>s'. Trade_Withdrawal legacy_dec plain_keys 7 demo_store BTCAsset 500 ''n1'' = Inr (100, s')"
proof -
  let ?tu = "\<lparr>tuAsset = GetTradeAsset BTCAsset, tuUnits = 100, tuDepth = 200\<rparr>"
  let ?tr = "(NewTradeAccount ''n1'' (GetTradeAsset BTCAsset))\<lparr>trUnits := 50\<rparr>"
  have tu: "GetTradeUnit demo_store (GetTradeAsset BTCAsset) = Inr ?tu"
    by (simp add: GetTradeUnit_def demo_store_def SetTradeUnit_def kv_set_def kv_get_def TradeUnit_Key_def NewTradeUnit_def)
  have tr: "GetTradeAccount plain_keys demo_store ''n1'' (GetTradeAsset BTCAsset) = Inr ?tr"
    by (simp add: GetTradeAccount_def demo_store_def SetTradeAccount_def kv_set_def kv_get_def TradeAccount_Key_def
        NewTradeAccount_def)
  have "GetSafeShare legacy_dec 50 100 200 = 100"
    by (simp add: GetSafeShare_def GetUncappedShare_def uncapped_share_body_def legacy_eval uint_eval Let_def)
  with tu tr have "100 = Trade_BalanceOf legacy_dec plain_keys demo_store BTCAsset ''n1''"
    by (simp add: Trade_BalanceOf_def NewTradeAccount_def)
  from withdraw_whole_balance [OF legacy.dec_laws_axioms tu tr this, of 500 7] show ?thesis
    by (auto simp: NewTradeAccount_def)
qed

text \<open>C22. Trade accounts refine the share ledger: a deposit and a withdrawal do to the shares, the total and
  the depth of their asset, and pay, exactly what the abstract machine does.\<close>

theorem trade_accounts_refine_ledger:
  assumes "dec_laws D" and "trade_inv K s" and "owner_ok K owner"
  shows "(\<forall>x s'. Trade_Deposit D K h s a n owner = Inr (x, s')
      \<longrightarrow> trade_view a s' = ledger_deposit D (trade_view a s) (trade_holder K a owner) n)
    \<and> (\<forall>x s'. Trade_Withdrawal D K h s a n owner = Inr (x, s')
      \<longrightarrow> x = ledger_pay D (trade_view a s) (trade_holder K a owner) n
        \<and> trade_view a s' = ledger_withdraw D (trade_view a s) (trade_holder K a owner) n)"
proof (intro conjI allI impI)
  have inv: "dec_laws D \<and> trade_inv K s" using assms by blast
  show "trade_view a s' = ledger_deposit D (trade_view a s) (trade_holder K a owner) n"
    if "Trade_Deposit D K h s a n owner = Inr (x, s')" for x s'
    using trade_pot.deposit_refines [OF inv assms(3), of h a n s'] that by simp
  show "x = ledger_pay D (trade_view a s) (trade_holder K a owner) n"
    "trade_view a s' = ledger_withdraw D (trade_view a s) (trade_holder K a owner) n"
    if "Trade_Withdrawal D K h s a n owner = Inr (x, s')" for x s'
    using trade_pot.withdraw_refines [OF inv assms(3) that] by blast+
qed

theorem trade_accounts_refine_ledger_witness:
  "\<exists>s'. Trade_Deposit legacy_dec plain_keys 1 empty_store BTCAsset 100 ''n1'' = Inr (100, s')
    \<and> trade_view BTCAsset s' = ledger_deposit legacy_dec (trade_view BTCAsset empty_store) (trade_holder plain_keys BTCAsset ''n1'') 100"
proof -
  have "\<exists>s'. Trade_Deposit legacy_dec plain_keys 1 empty_store BTCAsset 100 ''n1'' = Inr (100, s')"
    by (simp add: Trade_Deposit_def GetTradeUnit_def GetTradeAccount_def Let_def kv_get_def empty_store_def
        NewTradeUnit_def NewTradeAccount_def calcDepositUnits_def uint_eval)
  moreover have "owner_ok plain_keys ''n1''" by (simp add: owner_ok_def plain_keys_def)
  ultimately show ?thesis
    using trade_accounts_refine_ledger [OF legacy.dec_laws_axioms trade_inv_empty, of plain_keys "''n1''" 1 BTCAsset 100] by blast
qed

end
