(* ===== verification/Addresses.thy ===== *)
theory Addresses
  imports Coins
begin

text \<open>
  Addresses of the external chains: \<^verbatim>\<open>src/common/address.go\<close>, \<^verbatim>\<open>address_mainnet.go\<close>,
  \<^verbatim>\<open>address_mocknet.go\<close> and \<^verbatim>\<open>chain_network.go\<close>. The decoders of the chains (bech32, base58, strkey
  and the address packages of the UTXO chains) are third-party code: they are the fields of the
  parameter \<open>A\<close>. Which network the node was built for is the argument \<open>currentNetwork\<close>.
\<close>

section \<open>Networks and the decoding libraries\<close>

datatype ChainNetwork = TestNet | MainNet | MockNet | StageNet

definition SoftEquals :: "ChainNetwork \<Rightarrow> ChainNetwork \<Rightarrow> bool" where
  "SoftEquals net net2 =
     (if net = MainNet \<and> net2 = MainNet then True
      else if net \<noteq> MainNet \<and> net2 \<noteq> MainNet then True else False)"

datatype net_params = MainNetParams | TestNetParams | RegressionNetParams

text \<open>What a decoded address is: the packages distinguish plain public keys.\<close>

datatype decoded_address = DecodedPubKey | DecodedOther

record addr_lib =
  is_hex_address :: "string \<Rightarrow> bool"
  bech32_decode :: "string \<Rightarrow> string option"
  base58_check_decode :: "string \<Rightarrow> nat list option"
  ed25519_strkey :: "string \<Rightarrow> bool"
  decode_address :: "chain \<Rightarrow> net_params \<Rightarrow> string \<Rightarrow> decoded_address option"

text \<open>\<open>prefix, _, _ := bech32.Decode(s)\<close>: the prefix is empty when decoding fails.\<close>

definition bech32_prefix :: "addr_lib \<Rightarrow> string \<Rightarrow> string" where
  "bech32_prefix A s = (case bech32_decode A s of None \<Rightarrow> '''' | Some p \<Rightarrow> p)"

section \<open>Validity\<close>

definition IsValidXRPAddress :: "addr_lib \<Rightarrow> string \<Rightarrow> bool" where
  "IsValidXRPAddress A a =
     (case base58_check_decode A a of None \<Rightarrow> False
      | Some decoded \<Rightarrow> length decoded = 21 \<and> decoded ! 0 = 0)"

definition IsValidXLMAddress :: "addr_lib \<Rightarrow> string \<Rightarrow> bool" where
  "IsValidXLMAddress A a =
     (if ed25519_strkey A a then True
      else if length a = 56 \<and> has_prefix a ''C''
        then list_all (\<lambda>c. char_in c 65 90 \<or> char_in c 50 55) (tl a)
      else False)"

text \<open>The address formats the node's network accepts beside hex, bech32, XRP and Stellar.\<close>

definition new_address_formats :: "ChainNetwork \<Rightarrow> (chain \<times> net_params) list" where
  "new_address_formats currentNetwork =
     (if currentNetwork = MockNet
      then [(BTCChain, TestNetParams), (LTCChain, TestNetParams), (BCHChain, TestNetParams),
            (BCHChain, RegressionNetParams), (DOGEChain, TestNetParams), (DOGEChain, RegressionNetParams)]
      else [(BTCChain, MainNetParams), (LTCChain, MainNetParams), (BCHChain, MainNetParams),
            (DOGEChain, MainNetParams)])"

definition newAddress :: "addr_lib \<Rightarrow> ChainNetwork \<Rightarrow> string \<Rightarrow> address res" where
  "newAddress A currentNetwork a =
     (if list_ex (\<lambda>(c, p). decode_address A c p a = Some DecodedOther) (new_address_formats currentNetwork)
      then Inr a else Inl (Err ''address format not supported''))"

definition is_addr_char :: "char \<Rightarrow> bool" where
  "is_addr_char c \<longleftrightarrow> c = CHR '':'' \<or> char_in c 65 90 \<or> char_in c 97 122 \<or> char_in c 48 57"

definition NewAddress :: "addr_lib \<Rightarrow> ChainNetwork \<Rightarrow> string \<Rightarrow> address res" where
  "NewAddress A currentNetwork a =
     (if length a = 0 then Inr ''''
      else if \<not> list_all is_addr_char a then Inl (Err ''address format not supported'')
      else if is_hex_address A a then Inr a
      else if bech32_decode A a \<noteq> None then Inr a
      else if IsValidXRPAddress A a then Inr a
      else if IsValidXLMAddress A a then Inr a
      else newAddress A currentNetwork a)"

section \<open>Chain and network of an address\<close>

definition decodes :: "addr_lib \<Rightarrow> chain \<Rightarrow> net_params \<Rightarrow> string \<Rightarrow> bool" where
  "decodes A c p a \<longleftrightarrow> decode_address A c p a \<noteq> None"

definition IsChain :: "addr_lib \<Rightarrow> address \<Rightarrow> chain \<Rightarrow> bool" where
  "IsChain A addr c =
     (if IsEVM c then has_prefix addr ''0x''
      else if c = XRPChain then IsValidXRPAddress A addr
      else if c = StellarChain then IsValidXLMAddress A addr
      else if c = GAIAChain then bech32_prefix A addr = ''cosmos''
      else if c = SWITCHLYChain then bech32_prefix A addr \<in> set
        [''switch'', ''sswitch'', ''tswitch'', ''switchvaloper'', ''sswitchvaloper'', ''tswitchvaloper'']
      else if c = BTCChain then bech32_decode A addr \<in> set [Some ''bc'', Some ''tb'']
        \<or> decodes A c MainNetParams addr \<or> decodes A c TestNetParams addr
      else if c = LTCChain then bech32_decode A addr \<in> set [Some ''ltc'', Some ''tltc'', Some ''rltc'']
        \<or> decodes A c MainNetParams addr \<or> decodes A c TestNetParams addr
      else if c = BCHChain \<or> c = DOGEChain then decodes A c MainNetParams addr
        \<or> decodes A c TestNetParams addr \<or> decodes A c RegressionNetParams addr
      else True)"

definition address_chains :: "chain list" where
  "address_chains = [ETHChain, SWITCHLYChain, BTCChain, LTCChain, BCHChain, DOGEChain, GAIAChain,
     AVAXChain, XRPChain, StellarChain]"

definition Address_GetChain :: "addr_lib \<Rightarrow> address \<Rightarrow> chain" where
  "Address_GetChain A addr =
     (case find (IsChain A addr) address_chains of Some c \<Rightarrow> c | None \<Rightarrow> EmptyChain)"

text \<open>The fall-through cases of the switch return the network of the build.\<close>

definition utxo_network :: "addr_lib \<Rightarrow> ChainNetwork \<Rightarrow> address \<Rightarrow> chain \<Rightarrow> ChainNetwork" where
  "utxo_network A currentNetwork addr c =
     (if decodes A c MainNetParams addr then (if currentNetwork = StageNet then StageNet else MainNet)
      else if decodes A c TestNetParams addr then MockNet
      else if decodes A c RegressionNetParams addr then MockNet
      else currentNetwork)"

definition GetNetwork :: "addr_lib \<Rightarrow> ChainNetwork \<Rightarrow> address \<Rightarrow> chain \<Rightarrow> ChainNetwork" where
  "GetNetwork A currentNetwork addr c =
     (let mainNet = (if currentNetwork = StageNet then StageNet else MainNet);
          prefix = bech32_prefix A addr
      in if IsEVM c then currentNetwork
      else if c = SWITCHLYChain then
        (if equal_fold prefix ''switch'' \<or> equal_fold prefix ''switchvaloper'' then mainNet
         else if equal_fold prefix ''tswitch'' \<or> equal_fold prefix ''tswitchvaloper'' then MockNet
         else if equal_fold prefix ''sswitch'' \<or> equal_fold prefix ''sswitchvaloper'' then StageNet
         else currentNetwork)
      else if c = BTCChain then
        (if prefix = ''bc'' then mainNet else if prefix \<in> set [''bcrt'', ''tb''] then MockNet
         else utxo_network A currentNetwork addr c)
      else if c = LTCChain then
        (if prefix = ''ltc'' then mainNet else if prefix \<in> set [''rltc'', ''tltc''] then MockNet
         else utxo_network A currentNetwork addr c)
      else if c = BCHChain \<or> c = DOGEChain then utxo_network A currentNetwork addr c
      else currentNetwork)"

section \<open>Lemmas\<close>

lemma GetChain_sound: "Address_GetChain A addr = c \<Longrightarrow> c \<noteq> EmptyChain \<Longrightarrow> IsChain A addr c"
  by (auto simp: Address_GetChain_def split: option.splits dest!: find_SomeD)

lemma not_evm [simp]:
  "\<not> IsEVM XRPChain" "\<not> IsEVM StellarChain" "\<not> IsEVM GAIAChain" "\<not> IsEVM SWITCHLYChain" "\<not> IsEVM BTCChain"
  "\<not> IsEVM LTCChain" "\<not> IsEVM BCHChain" "\<not> IsEVM DOGEChain" "IsEVM ETHChain"
  by code_simp+

lemma NewAddress_Inr: "NewAddress A net a = Inr b \<Longrightarrow> b = a"
  by (auto simp: NewAddress_def newAddress_def split: if_splits)

text \<open>Every address that is accepted is recognised as one of some chain, unless it is only known to be
  hexadecimal or bech32 text: those two tests accept text of no supported chain.\<close>

lemma accepted_has_chain:
  assumes "NewAddress A net a = Inr a" and "a \<noteq> ''''" and "\<not> is_hex_address A a" and "bech32_decode A a = None"
  shows "Address_GetChain A a \<noteq> EmptyChain"
proof -
  have "\<exists>c \<in> {BTCChain, LTCChain, BCHChain, DOGEChain, XRPChain, StellarChain}. IsChain A a c"
    using assms by (auto simp: NewAddress_def newAddress_def new_address_formats_def IsChain_def decodes_def
        split: if_splits)
  then have "find (IsChain A a) address_chains \<noteq> None"
    unfolding find_None_iff by (auto simp: address_chains_def)
  then obtain c where "find (IsChain A a) address_chains = Some c" by blast
  moreover from find_SomeD [OF this] have "c \<noteq> EmptyChain" by (auto simp: address_chains_def EmptyChain_def)
  ultimately show ?thesis by (simp add: Address_GetChain_def)
qed

text \<open>A concrete library: hexadecimal text with \<open>0x\<close>, and bech32 text whose prefix ends at the digit 1.\<close>

definition plain_addrs :: addr_lib where
  "plain_addrs = \<lparr>is_hex_address = (\<lambda>s. has_prefix s ''0x''),
     bech32_decode = (\<lambda>s. case split2 (CHR ''1'') s of (p, Some _) \<Rightarrow> Some p | _ \<Rightarrow> None),
     base58_check_decode = (\<lambda>s. None), ed25519_strkey = (\<lambda>s. length s = 56 \<and> has_prefix s ''G''),
     decode_address = (\<lambda>c p s. None)\<rparr>"

end
