(* ===== verification/Constants.thy ===== *)
theory Constants
  imports Prelude
begin

text \<open>
  The constants of the network: the table of \<^verbatim>\<open>src/constants/constants_v1.go\<close>, its accessors in
  \<^verbatim>\<open>constants.go\<close> and the overrides of the stagenet build (\<^verbatim>\<open>constants_stagenet.go\<close>). A
  \<open>ConstantName\<close> is its printed name, which is also the key of the mimir that overrides it. The
  overrides of a build are a record, so that every theorem holds for every build.
\<close>

record const_overrides =
  int64Overrides :: "string \<rightharpoonup> int"
  boolOverrides :: "string \<rightharpoonup> bool"
  stringOverrides :: "string \<rightharpoonup> string"

definition int64values :: "(string \<times> int) list" where
  "int64values = [
    (''EmissionCurve'', 6), (''BlocksPerYear'', 5256000), (''MaxSWITCHSupply'', - 1),
    (''OutboundTransactionFee'', 2000000), (''NativeOutboundFeeUSD'', 2000000),
    (''NativeTransactionFee'', 2000000), (''NativeTransactionFeeUSD'', 2000000),
    (''PoolCycle'', 43200), (''StagedPoolCost'', 1000000000),
    (''PendingLiquidityAgeLimit'', 100800), (''MinSWITCHPoolDepth'', 1000000000000),
    (''MaxAvailablePools'', 100), (''MinimumNodesForBFT'', 4), (''DesiredValidatorSet'', 100),
    (''AsgardSize'', 40), (''DerivedDepthBasisPts'', 0), (''DerivedMinDepth'', 100),
    (''MaxAnchorSlip'', 1500), (''MaxAnchorBlocks'', 300),
    (''DynamicMaxAnchorSlipBlocks'', 201600), (''DynamicMaxAnchorTarget'', 0),
    (''DynamicMaxAnchorCalcInterval'', 14400), (''FundMigrationInterval'', 360),
    (''ChurnInterval'', 43200), (''ChurnRetryInterval'', 720), (''MissingBlockChurnOut'', 0),
    (''MaxMissingBlockChurnOut'', 0), (''MaxTrackMissingBlock'', 700),
    (''BadValidatorRedline'', 3), (''LackOfObservationPenalty'', 2),
    (''SigningTransactionPeriod'', 300), (''DoubleSignMaxAge'', 24), (''PauseBond'', 0),
    (''PauseUnbond'', 0), (''MinimumBondInSWITCH'', 100000000000000), (''MaxBondProviders'', 6),
    (''MaxOutboundAttempts'', 0), (''SlashPenalty'', 15000),
    (''PauseOnSlashThreshold'', 10000000000), (''FailKeygenSlashPoints'', 720),
    (''FailKeysignSlashPoints'', 2), (''LiquidityLockUpBlocks'', 0), (''ObserveSlashPoints'', 1),
    (''DoubleBlockSignSlashPoints'', 1000), (''MissBlockSignSlashPoints'', 1),
    (''ObservationDelayFlexibility'', 10), (''JailTimeKeygen'', 4320), (''JailTimeKeysign'', 60),
    (''NodePauseChainBlocks'', 720), (''NodeOperatorFee'', 500), (''EnableDerivedAssets'', 0),
    (''MinSwapsPerBlock'', 10), (''MaxSwapsPerBlock'', 100), (''EnableOrderBooks'', 0),
    (''EnableAdvSwapQueue'', 0), (''VirtualMultSynths'', 2),
    (''VirtualMultSynthsBasisPoints'', 10000), (''MaxSynthPerPoolDepth'', 1700),
    (''MaxSynthsForSaversYield'', 0), (''MinSlashPointsForBadValidator'', 100),
    (''StreamingSwapPause'', 0), (''StreamingSwapMinBPFee'', 0),
    (''StreamingSwapMaxLength'', 14400), (''StreamingSwapMaxLengthNative'', 5256000),
    (''MinCR'', 10000), (''MaxCR'', 60000), (''LoanStreamingSwapsInterval'', 0),
    (''PauseLoans'', 1), (''LoanRepaymentMaturity'', 0), (''LendingLever'', 3333),
    (''MinTxOutVolumeThreshold'', 100000000000), (''TxOutDelayRate'', 2500000000),
    (''TxOutDelayMax'', 17280), (''MaxTxOutOffset'', 720), (''TNSRegisterFee'', 1000000000),
    (''TNSRegisterFeeUSD'', 1000000000), (''TNSFeeOnSale'', 1000), (''TNSFeePerBlock'', 20),
    (''TNSFeePerBlockUSD'', 20), (''PermittedSolvencyGap'', 100), (''ValidatorMaxRewardRatio'', 1),
    (''MaxNodeToChurnOutForLowVersion'', 1), (''ChurnOutForLowVersionBlocks'', 21600),
    (''POLMaxNetworkDeposit'', 0), (''POLMaxPoolMovement'', 100),
    (''POLTargetSynthPerPoolDepth'', 0), (''POLBuffer'', 0),
    (''RagnarokProcessNumOfLPPerIteration'', 200), (''SynthYieldBasisPoints'', 5000),
    (''SynthYieldCycle'', 0), (''MinimumL1OutboundFeeUSD'', 1000000),
    (''MinimumPoolLiquidityFee'', 0), (''ChurnMigrateRounds'', 5), (''AllowWideBlame'', 0),
    (''MaxAffiliateFeeBasisPoints'', 10000), (''TargetOutboundFeeSurplusSWITCH'', 10000000000000),
    (''MaxOutboundFeeMultiplierBasisPoints'', 30000),
    (''MinOutboundFeeMultiplierBasisPoints'', 15000), (''EnableUSDFees'', 0),
    (''PreferredAssetOutboundFeeMultiplier'', 100), (''FeeUSDRoundSignificantDigits'', 2),
    (''MigrationVaultSecurityBps'', 0), (''CloutReset'', 720), (''CloutLimit'', 0),
    (''KeygenRetryInterval'', 0), (''SaversStreamingSwapsInterval'', 0),
    (''RescheduleCoalesceBlocks'', 0), (''TradeAccountsEnabled'', 0),
    (''TradeAccountsDepositEnabled'', 1), (''EVMDisableContractWhitelist'', 0),
    (''OperationalVotesMin'', 3), (''L1SlipMinBps'', 0), (''TradeAccountsSlipMinBps'', 0),
    (''SecuredAssetSlipMinBps'', 5), (''SynthSlipMinBps'', 0), (''DerivedSlipMinBps'', 0),
    (''SWITCHPoolEnabled'', 0), (''SWITCHPoolDepositMaturityBlocks'', 1296000),
    (''SWITCHPoolMaxReserveBackstop'', 500000000000000), (''SaversEjectInterval'', 0),
    (''SystemIncomeBurnRateBps'', 1), (''DevFundSystemIncomeBps'', 500),
    (''PendulumAssetsBasisPoints'', 10000), (''PendulumUseEffectiveSecurity'', 0),
    (''PendulumUseVaultAssets'', 0), (''TVLCapBasisPoints'', 0),
    (''MultipleAffiliatesMaxCount'', 5), (''BondSlashBan'', 500000000000),
    (''BankSendEnabled'', 0), (''SWITCHPoolHaltDeposit'', 0), (''SWITCHPoolHaltWithdraw'', 0),
    (''MinSWITCHForSWCYStakeDistribution'', 210000000000),
    (''MinSWCYForSWCYStakeDistribution'', 100000), (''SWCYStakeSystemIncomeBps'', 1000),
    (''SWCYClaimingSwapHalt'', 1), (''SWCYStakeDistributionHalt'', 1), (''SWCYStakingHalt'', 1),
    (''SWCYUnstakingHalt'', 1), (''SWCYClaimingHalt'', 1),
    (''StellarMinAccountBalance'', 10000000), (''StellarBaseFee'', 100),
    (''StellarMaxMemoLength'', 28)
  ]"

definition boolValues :: "(string \<times> bool) list" where
  "boolValues = [(''StrictBondLiquidityRatio'', True)]"

definition stringValues :: "(string \<times> string) list" where
  "stringValues = [(''DefaultPoolStatus'', ''Staged''),
     (''DevFundAddress'', ''thor1d8c0wv4y72kmlytegjmgx825xwumt9qt5xe07k'')]"

definition GetInt64Value :: "const_overrides \<Rightarrow> string \<Rightarrow> int" where
  "GetInt64Value b name =
     (case int64Overrides b name of Some v \<Rightarrow> v
      | None \<Rightarrow> (case map_of int64values name of Some v \<Rightarrow> v | None \<Rightarrow> 0))"

definition GetBoolValue :: "const_overrides \<Rightarrow> string \<Rightarrow> bool" where
  "GetBoolValue b name =
     (case boolOverrides b name of Some v \<Rightarrow> v
      | None \<Rightarrow> (case map_of boolValues name of Some v \<Rightarrow> v | None \<Rightarrow> False))"

definition GetStringValue :: "const_overrides \<Rightarrow> string \<Rightarrow> string" where
  "GetStringValue b name =
     (case stringOverrides b name of Some v \<Rightarrow> v
      | None \<Rightarrow> (case map_of stringValues name of Some v \<Rightarrow> v | None \<Rightarrow> ''''))"

definition mainnet_overrides :: const_overrides where
  "mainnet_overrides = \<lparr>int64Overrides = (\<lambda>_. None), boolOverrides = (\<lambda>_. None), stringOverrides = (\<lambda>_. None)\<rparr>"

definition stagenet_overrides :: const_overrides where
  "stagenet_overrides = \<lparr>int64Overrides = map_of [(''ChurnInterval'', 432000), (''OperationalVotesMin'', 1),
       (''MinSWITCHPoolDepth'', 100000000), (''MinimumBondInSWITCH'', 20000000000000), (''PoolCycle'', 720),
       (''EmissionCurve'', 8), (''NumberOfNewNodesPerChurn'', 4), (''MintSynths'', 1), (''BurnSynths'', 1),
       (''MaxSWITCHSupply'', 50000000000000000), (''MultipleAffiliatesMaxCount'', 5)],
     boolOverrides = (\<lambda>_. None),
     stringOverrides = map_of [(''DevFundAddress'', ''sthor1gdq9qejfy33jctztqdrg5v4hvxnytmvjhduacc'')]\<rparr>"

end
