(* ===== verification/Keeper.thy ===== *)
theory Keeper
  imports Stores Pools Addresses Constants
begin

text \<open>
  The keeper: the state the handlers and managers read and write, and its accessors. Modelled are the
  parts of \<^verbatim>\<open>src/x/switchly/keeper/v1\<close> for mimir values and configuration (\<^verbatim>\<open>keeper_mimir.go\<close>,
  \<^verbatim>\<open>keeper_config.go\<close>), halts (\<^verbatim>\<open>keeper_halt.go\<close>), ragnarok (\<^verbatim>\<open>keeper_ragnarok.go\<close>), pools
  (\<^verbatim>\<open>keeper_pool.go\<close>), liquidity providers (\<^verbatim>\<open>keeper_liquidity_provider.go\<close>,
  \<^verbatim>\<open>types/type_liquidity_provider.go\<close>), protocol owned liquidity (\<^verbatim>\<open>keeper_network.go\<close>) and network
  fees (\<^verbatim>\<open>keeper_network_fee.go\<close>).

  The values that come from the SDK (block height, supply of a bank denom, address of a module
  account) and from the build (overridden constants, network) are the fields of the context record.
\<close>

section \<open>Records\<close>

record liquidity_provider =
  lpAsset :: asset
  lpSwitchAddress :: address
  lpAssetAddress :: address
  lpLastAddHeight :: int
  lpLastWithdrawHeight :: int
  lpUnits :: uint
  lpPendingSwitch :: uint
  lpPendingAsset :: uint
  lpPendingTxID :: txid
  lpSwitchDepositValue :: uint
  lpAssetDepositValue :: uint

record protocol_owned_liquidity =
  SwitchDeposited :: uint
  SwitchWithdrawn :: uint

record network_fee =
  nfChain :: chain
  TransactionSize :: nat
  TransactionFeeRate :: nat

record kstore =
  kPools :: "pool kv"
  kLPs :: "liquidity_provider kv"
  kMimirs :: "int kv"
  kRagnarokHeight :: "int kv"
  kRagnarokNth :: "int kv"
  kRagnarokPending :: "int kv"
  kRagnarokPool :: "int kv"
  kPOL :: "protocol_owned_liquidity kv"
  kNetworkFees :: "network_fee kv"
  kPoolLUVI :: "uint kv"

record ctx =
  BlockHeight :: int
  cBuild :: const_overrides
  cNetwork :: ChainNetwork
  cVersion3 :: bool
  cSupply :: "string \<Rightarrow> nat"
  cModuleAddress :: "string \<Rightarrow> string"

section \<open>Mimir values and configuration\<close>

text \<open>\<open>v, _ := get(...)\<close>: a failed read leaves the default.\<close>

definition kv_get_or :: "'v kv \<Rightarrow> string \<Rightarrow> 'v \<Rightarrow> 'v" where
  "kv_get_or m k dflt = (case kv_get m k dflt of Inl _ \<Rightarrow> dflt | Inr v \<Rightarrow> v)"

definition GetMimir :: "kstore \<Rightarrow> string \<Rightarrow> int res" where
  "GetMimir s key = kv_get (kMimirs s) (kv_key key) (- 1)"

definition SetMimir :: "kstore \<Rightarrow> string \<Rightarrow> int \<Rightarrow> kstore" where
  "SetMimir s key v = s\<lparr>kMimirs := kv_set (kMimirs s) (kv_key key) v\<rparr>"

definition DeleteMimir :: "kstore \<Rightarrow> string \<Rightarrow> kstore" where
  "DeleteMimir s key = s\<lparr>kMimirs := kv_del (kMimirs s) (kv_key key)\<rparr>"

definition GetConfigInt64 :: "ctx \<Rightarrow> kstore \<Rightarrow> string \<Rightarrow> int" where
  "GetConfigInt64 c s key =
     (case GetMimir s key of Inl _ \<Rightarrow> GetInt64Value (cBuild c) key
      | Inr v \<Rightarrow> if v < 0 then GetInt64Value (cBuild c) key else v)"

fun str_contains :: "string \<Rightarrow> string \<Rightarrow> bool" where
  "str_contains sub [] = (sub = [])"
| "str_contains sub (x # xs) = (has_prefix (x # xs) sub \<or> str_contains sub xs)"

definition IsOperationalMimir :: "string \<Rightarrow> bool" where
  "IsOperationalMimir key =
     (if list_ex (equal_fold key) [''MintSynths'', ''TradeAccountsEnabled'', ''SwitchPoolEnabled'',
          ''EVMDisableContractWhitelist'', ''MaxOutboundAttempts''] then True
      else if list_ex (equal_fold key) [''NodePauseChainBlocks'', ''PauseLoans'', ''PauseOnSlashThreshold'']
        then False
      else list_ex (\<lambda>p. str_contains p (to_upper key)) [''HALT'', ''PAUSE'', ''STOPSOLVENCYCHECK''])"

section \<open>Ragnarok\<close>

definition GetRagnarokBlockHeight :: "kstore \<Rightarrow> int res" where
  "GetRagnarokBlockHeight s = kv_get (kRagnarokHeight s) (kv_key '''') 0"

definition SetRagnarokBlockHeight :: "kstore \<Rightarrow> int \<Rightarrow> kstore" where
  "SetRagnarokBlockHeight s h = s\<lparr>kRagnarokHeight := kv_set (kRagnarokHeight s) (kv_key '''') h\<rparr>"

definition RagnarokInProgress :: "kstore \<Rightarrow> bool" where
  "RagnarokInProgress s = (case GetRagnarokBlockHeight s of Inl _ \<Rightarrow> True | Inr h \<Rightarrow> h > 0)"

definition GetRagnarokNth :: "kstore \<Rightarrow> int res" where
  "GetRagnarokNth s = kv_get (kRagnarokNth s) (kv_key '''') 0"

definition SetRagnarokNth :: "kstore \<Rightarrow> int \<Rightarrow> kstore" where
  "SetRagnarokNth s n = s\<lparr>kRagnarokNth := kv_set (kRagnarokNth s) (kv_key '''') n\<rparr>"

definition GetRagnarokPending :: "kstore \<Rightarrow> int res" where
  "GetRagnarokPending s = kv_get (kRagnarokPending s) (kv_key '''') 0"

definition SetRagnarokPending :: "kstore \<Rightarrow> int \<Rightarrow> kstore" where
  "SetRagnarokPending s p = s\<lparr>kRagnarokPending := kv_set (kRagnarokPending s) (kv_key '''') p\<rparr>"

definition GetPoolRagnarokStart :: "kstore \<Rightarrow> asset \<Rightarrow> int res" where
  "GetPoolRagnarokStart s a = kv_get (kRagnarokPool s) (kv_key (Asset_String a)) 0"

definition SetPoolRagnarokStart :: "ctx \<Rightarrow> kstore \<Rightarrow> asset \<Rightarrow> kstore" where
  "SetPoolRagnarokStart c s a =
     s\<lparr>kRagnarokPool := kv_set (kRagnarokPool s) (kv_key (Asset_String a)) (BlockHeight c)\<rparr>"

definition DeletePoolRagnarokStart :: "kstore \<Rightarrow> asset \<Rightarrow> kstore" where
  "DeletePoolRagnarokStart s a = s\<lparr>kRagnarokPool := kv_del (kRagnarokPool s) (kv_key (Asset_String a))\<rparr>"

text \<open>The gas assets that \<open>IsRagnarok\<close> adds: one per gas asset of the given assets.\<close>

definition add_gas_asset :: "asset \<Rightarrow> asset list \<times> string list \<Rightarrow> asset list \<times> string list" where
  "add_gas_asset a = (\<lambda>(added, seen).
     let g = GetGasAsset (GetChain a) in
     if \<not> Asset_Equals a g \<and> MimirString g \<notin> set seen
     then (added @ [g], MimirString g # seen) else (added, seen))"

definition IsRagnarok :: "kstore \<Rightarrow> asset list \<Rightarrow> bool" where
  "IsRagnarok s assets =
     list_ex (\<lambda>a. case GetMimir s (''RAGNAROK-'' @ MimirString a) of Inl _ \<Rightarrow> False | Inr v \<Rightarrow> v > 0)
       (assets @ fst (fold add_gas_asset assets ([], [])))"

section \<open>Halts\<close>

text \<open>A halt or pause value is a height: it is in force from the next block on.\<close>

definition height_passed :: "ctx \<Rightarrow> kstore \<Rightarrow> string \<Rightarrow> bool" where
  "height_passed c s key = (case GetMimir s key of Inl _ \<Rightarrow> False | Inr v \<Rightarrow> v > 0 \<and> v < BlockHeight c)"

definition IsGlobalTradingHalted :: "ctx \<Rightarrow> kstore \<Rightarrow> bool" where
  "IsGlobalTradingHalted c s =
     (case GetMimir s ''HaltTrading'' of Inl _ \<Rightarrow> False
      | Inr v \<Rightarrow> (v > 0 \<and> v < BlockHeight c) \<or> RagnarokInProgress s)"

definition IsChainHalted :: "ctx \<Rightarrow> kstore \<Rightarrow> chain \<Rightarrow> bool" where
  "IsChainHalted c s ch =
     (if height_passed c s ''HaltChainGlobal'' then True
      else if (case GetMimir s ''NodePauseChainGlobal'' of Inl _ \<Rightarrow> False | Inr v \<Rightarrow> v > BlockHeight c) then True
      else if height_passed c s (''Halt'' @ ch @ ''Chain'') then True
      else height_passed c s (''SolvencyHalt'' @ ch @ ''Chain''))"

definition IsChainTradingHalted :: "ctx \<Rightarrow> kstore \<Rightarrow> chain \<Rightarrow> bool" where
  "IsChainTradingHalted c s ch =
     (if height_passed c s (''Halt'' @ ch @ ''Trading'') then True else IsChainHalted c s ch)"

definition IsLPPaused :: "ctx \<Rightarrow> kstore \<Rightarrow> chain \<Rightarrow> bool" where
  "IsLPPaused c s ch =
     (if height_passed c s ''PauseLP'' then True else height_passed c s (''PauseLP'' @ ch))"

definition IsPoolDepositPaused :: "kstore \<Rightarrow> asset \<Rightarrow> bool" where
  "IsPoolDepositPaused s a =
     (case GetMimir s (''PauseLPDeposit-'' @ MimirString a) of Inl _ \<Rightarrow> False | Inr v \<Rightarrow> v > 0)"

definition IsSWCYTradingHalted :: "ctx \<Rightarrow> kstore \<Rightarrow> bool" where
  "IsSWCYTradingHalted c s =
     (if height_passed c s ''HaltSWCYTrading'' then True
      else IsGlobalTradingHalted c s \<or> IsChainHalted c s SWITCHLYChain)"

text \<open>The messages \<open>IsTradingHalt\<close> looks into; indexing the first coin of a swap without coins panics.\<close>

datatype trade_msg = TradeSwap coins asset | TradeAddLiquidity asset | TradeOther

definition IsTradingHalt :: "ctx \<Rightarrow> kstore \<Rightarrow> trade_msg \<Rightarrow> bool res" where
  "IsTradingHalt c s msg =
     (case msg of
        TradeSwap [] _ \<Rightarrow> Inl (Panic ''index out of range'')
      | TradeSwap (coin # _) target \<Rightarrow>
          let source = cAsset coin;
              checkAssets = (if aSynth source \<and> Asset_Equals target (GetLayer1Asset source)
                             then [] else [source, target])
          in if IsRagnarok s checkAssets then Inr True
             else let sc = aChain (GetLayer1Asset source); tc = aChain (GetLayer1Asset target) in
               if IsSWCY source then Inr (IsSWCYTradingHalted c s \<or> IsChainTradingHalted c s tc)
               else if IsSWCY target then Inr (IsSWCYTradingHalted c s \<or> IsChainTradingHalted c s sc)
               else Inr (IsChainTradingHalted c s sc \<or> IsChainTradingHalted c s tc \<or> IsGlobalTradingHalted c s)
      | TradeAddLiquidity a \<Rightarrow>
          if IsRagnarok s [a] then Inr True
          else if IsSWCY a then Inr (IsSWCYTradingHalted c s)
          else Inr (IsChainTradingHalted c s (aChain a) \<or> IsGlobalTradingHalted c s)
      | TradeOther \<Rightarrow> if IsRagnarok s [] then Inr True else Inr (IsGlobalTradingHalted c s))"

section \<open>Pools, network fees and protocol owned liquidity\<close>

definition GetPool :: "kstore \<Rightarrow> asset \<Rightarrow> pool res" where
  "GetPool s a = kv_get (kPools s) (kv_key (Asset_String a)) NewPool"

definition SetPool :: "kstore \<Rightarrow> pool \<Rightarrow> kstore res" where
  "SetPool s p =
     (if Asset_IsEmpty (pAsset p) then Inl (Err ''cannot save a pool with an empty asset'')
      else Inr (s\<lparr>kPools := kv_set (kPools s) (kv_key (Asset_String (pAsset p))) p\<rparr>))"

definition PoolExist :: "kstore \<Rightarrow> asset \<Rightarrow> bool" where
  "PoolExist s a \<longleftrightarrow> kPools s (kv_key (Asset_String a)) \<noteq> None"

definition RemovePool :: "kstore \<Rightarrow> asset \<Rightarrow> kstore" where
  "RemovePool s a = s\<lparr>kPools := kv_del (kPools s) (kv_key (Asset_String a))\<rparr>"

definition GetPoolLUVI :: "kstore \<Rightarrow> asset \<Rightarrow> uint res" where
  "GetPoolLUVI s a = kv_get (kPoolLUVI s) (kv_key (Asset_String a)) 0"

definition SetPoolLUVI :: "kstore \<Rightarrow> asset \<Rightarrow> uint \<Rightarrow> kstore" where
  "SetPoolLUVI s a l = s\<lparr>kPoolLUVI := kv_set (kPoolLUVI s) (kv_key (Asset_String a)) l\<rparr>"

definition NewProtocolOwnedLiquidity :: protocol_owned_liquidity where
  "NewProtocolOwnedLiquidity = \<lparr>SwitchDeposited = 0, SwitchWithdrawn = 0\<rparr>"

definition CurrentDeposit :: "protocol_owned_liquidity \<Rightarrow> int" where
  "CurrentDeposit pol = int (SwitchDeposited pol) - int (SwitchWithdrawn pol)"

definition PnL :: "protocol_owned_liquidity \<Rightarrow> uint \<Rightarrow> int" where
  "PnL pol v = int (SwitchWithdrawn pol) - int (SwitchDeposited pol) + int v"

definition GetPOL :: "kstore \<Rightarrow> protocol_owned_liquidity res" where
  "GetPOL s = kv_get (kPOL s) (kv_key '''') NewProtocolOwnedLiquidity"

definition SetPOL :: "kstore \<Rightarrow> protocol_owned_liquidity \<Rightarrow> kstore" where
  "SetPOL s pol = s\<lparr>kPOL := kv_set (kPOL s) (kv_key '''') pol\<rparr>"

definition NewNetworkFee :: "chain \<Rightarrow> nat \<Rightarrow> nat \<Rightarrow> network_fee" where
  "NewNetworkFee c sz rate = \<lparr>nfChain = c, TransactionSize = sz, TransactionFeeRate = rate\<rparr>"

definition NetworkFee_Valid :: "network_fee \<Rightarrow> unit res" where
  "NetworkFee_Valid m =
     (if Chain_IsEmpty (nfChain m) then Inl (Err ''chain can't be empty'')
      else if TransactionSize m = 0 then Inl (Err ''transaction size can't be zero or negative'')
      else if TransactionFeeRate m = 0 then Inl (Err ''transaction fee rate can't be zero'')
      else Inr ())"

definition GetNetworkFee :: "kstore \<Rightarrow> chain \<Rightarrow> network_fee res" where
  "GetNetworkFee s c = kv_get (kNetworkFees s) (kv_key (Chain_String c)) (NewNetworkFee c 0 0)"

definition SaveNetworkFee :: "kstore \<Rightarrow> chain \<Rightarrow> network_fee \<Rightarrow> kstore res" where
  "SaveNetworkFee s c nf = res_map (\<lambda>_. s\<lparr>kNetworkFees := kv_set (kNetworkFees s) (kv_key (Chain_String c)) nf\<rparr>)
     (NetworkFee_Valid nf)"

section \<open>Liquidity providers\<close>

definition LiquidityProvider_Valid :: "liquidity_provider \<Rightarrow> unit res" where
  "LiquidityProvider_Valid m =
     (if lpLastAddHeight m = 0 then Inl (Err ''last add liquidity height cannot be empty'')
      else if Address_IsEmpty (lpAssetAddress m) \<and> Address_IsEmpty (lpSwitchAddress m)
        then Inl (Err ''asset address and switch address cannot be empty'')
      else Inr ())"

definition LiquidityProvider_GetAddress :: "liquidity_provider \<Rightarrow> address" where
  "LiquidityProvider_GetAddress lp =
     (if \<not> Address_IsEmpty (lpSwitchAddress lp) then lpSwitchAddress lp else lpAssetAddress lp)"

definition LiquidityProvider_Key :: "liquidity_provider \<Rightarrow> string" where
  "LiquidityProvider_Key lp = Asset_String (lpAsset lp) @ ''/'' @ LiquidityProvider_GetAddress lp"

text \<open>Both redeem values go through one quotient of unbounded integers, checked at the end.\<close>

definition redeem_share :: "liquidity_provider \<Rightarrow> pool \<Rightarrow> uint \<Rightarrow> uint \<Rightarrow> uint res" where
  "redeem_share lp p synthSupply depth =
     (if \<not> Asset_Equals (lpAsset lp) (pAsset p) then Inl (Err ''LP and Pool assets do not match'')
      else res_bind (CalcUnits p synthSupply) (\<lambda>(u, p').
        if u = 0 then Inr 0 else uint_chk (lpUnits lp * depth div u)))"

definition GetSwitchRedeemValue :: "liquidity_provider \<Rightarrow> pool \<Rightarrow> uint \<Rightarrow> uint res" where
  "GetSwitchRedeemValue lp p synthSupply = redeem_share lp p synthSupply (BalanceSwitch p)"

definition GetAssetRedeemValue :: "liquidity_provider \<Rightarrow> pool \<Rightarrow> uint \<Rightarrow> uint res" where
  "GetAssetRedeemValue lp p synthSupply = redeem_share lp p synthSupply (BalanceAsset p)"

definition luvi_of :: "liquidity_provider \<Rightarrow> uint \<Rightarrow> uint \<Rightarrow> uint res" where
  "luvi_of lp a b =
     res_bind (uint_mul a (10 ^ 8)) (\<lambda>a'. res_bind (uint_mul b (10 ^ 8)) (\<lambda>b'.
       if lpUnits lp = 0 then Inr 0 else uint_chk (isqrt (a' * b') div lpUnits lp)))"

definition GetLuviDepositValue :: "liquidity_provider \<Rightarrow> pool \<Rightarrow> uint res" where
  "GetLuviDepositValue lp p =
     (if \<not> Asset_Equals (lpAsset lp) (pAsset p) then Inl (Err ''LP and Pool assets do not match'')
      else luvi_of lp (lpSwitchDepositValue lp) (lpAssetDepositValue lp))"

definition GetLuviRedeemValue :: "liquidity_provider \<Rightarrow> uint \<Rightarrow> uint \<Rightarrow> uint res" where
  "GetLuviRedeemValue lp switchRedeemValue assetRedeemValue = luvi_of lp switchRedeemValue assetRedeemValue"

definition GetSaversAssetRedeemValue :: "liquidity_provider \<Rightarrow> pool \<Rightarrow> uint res" where
  "GetSaversAssetRedeemValue lp p =
     (if LPUnits p = 0 then Inr 0 else uint_chk (lpUnits lp * BalanceAsset p div LPUnits p))"

definition new_lp :: "addr_lib \<Rightarrow> asset \<Rightarrow> address \<Rightarrow> liquidity_provider" where
  "new_lp A a addr =
     (let onSwitch = IsChain A addr SWITCHLYChain in
      \<lparr>lpAsset = a, lpSwitchAddress = (if onSwitch then addr else ''''),
       lpAssetAddress = (if onSwitch then '''' else addr), lpLastAddHeight = 0, lpLastWithdrawHeight = 0,
       lpUnits = 0, lpPendingSwitch = 0, lpPendingAsset = 0, lpPendingTxID = '''',
       lpSwitchDepositValue = 0, lpAssetDepositValue = 0\<rparr>)"

definition GetLiquidityProvider :: "addr_lib \<Rightarrow> kstore \<Rightarrow> asset \<Rightarrow> address \<Rightarrow> liquidity_provider res" where
  "GetLiquidityProvider A s a addr =
     (let record = new_lp A a addr in kv_get (kLPs s) (kv_key (LiquidityProvider_Key record)) record)"

definition SetLiquidityProvider :: "kstore \<Rightarrow> liquidity_provider \<Rightarrow> kstore" where
  "SetLiquidityProvider s lp = s\<lparr>kLPs := kv_set (kLPs s) (kv_key (LiquidityProvider_Key lp)) lp\<rparr>"

definition RemoveLiquidityProvider :: "kstore \<Rightarrow> liquidity_provider \<Rightarrow> kstore" where
  "RemoveLiquidityProvider s lp = s\<lparr>kLPs := kv_del (kLPs s) (kv_key (LiquidityProvider_Key lp))\<rparr>"

text \<open>The supply of a denom comes from the bank; an amount beyond 64 bits panics.\<close>

definition GetTotalSupply :: "ctx \<Rightarrow> kstore \<Rightarrow> asset \<Rightarrow> uint res" where
  "GetTotalSupply c s a =
     (if kv_get_or (kRagnarokPool s) (kv_key (Asset_String (GetLayer1Asset a))) 0 > 0 then Inr 0
      else let n = cSupply c (Asset_Native a) in
        if n < 2 ^ 64 then Inr n else Inl (Panic ''Uint64() out of bounds''))"

section \<open>The record stores\<close>

interpretation lps: erasable_store kLPs SetLiquidityProvider "\<lambda>lp. kv_key (LiquidityProvider_Key lp)"
    RemoveLiquidityProvider
  by unfold_locales (simp_all add: SetLiquidityProvider_def RemoveLiquidityProvider_def kv_set_def kv_del_def)

lemma lp_frames [simp]:
  "kPools (SetLiquidityProvider s lp) = kPools s" "kPools (RemoveLiquidityProvider s lp) = kPools s"
  "kPools (SetPOL s pol) = kPools s" "kLPs (SetPOL s pol) = kLPs s"
  by (simp_all add: SetLiquidityProvider_def RemoveLiquidityProvider_def SetPOL_def)

lemma SetPool_Inr [res_simps]:
  "SetPool s p = Inr s' \<longleftrightarrow> \<not> Asset_IsEmpty (pAsset p) \<and> s' = s\<lparr>kPools := (kPools s)(asset_slot (pAsset p) \<mapsto> Stored p)\<rparr>"
  by (auto simp: SetPool_def kv_set_def asset_slot_def)

lemma pool_read_back: "SetPool s p = Inr s' \<Longrightarrow> GetPool s' (pAsset p) = Inr p"
  by (auto simp: res_simps GetPool_def kv_get_def asset_slot_def)

lemma mimir_read_back:
  "GetMimir (SetMimir s k v) k' = (if kv_key k' = kv_key k then Inr v else GetMimir s k')"
  by (simp add: GetMimir_def SetMimir_def kv_get_def kv_set_def)

section \<open>A context and an empty store for concrete runs\<close>

definition demo_ctx :: ctx where
  "demo_ctx = \<lparr>BlockHeight = 10, cBuild = mainnet_overrides\<lparr>int64Overrides := (\<lambda>_. Some 0)\<rparr>, cNetwork = MainNet,
     cVersion3 = True, cSupply = (\<lambda>_. 0), cModuleAddress = (\<lambda>m. ''switch1reserve'')\<rparr>"

definition empty_kstore :: kstore where
  "empty_kstore = \<lparr>kPools = Map.empty, kLPs = Map.empty, kMimirs = Map.empty, kRagnarokHeight = Map.empty,
     kRagnarokNth = Map.empty, kRagnarokPending = Map.empty, kRagnarokPool = Map.empty, kPOL = Map.empty,
     kNetworkFees = Map.empty, kPoolLUVI = Map.empty\<rparr>"

end
