(* ===== verification/Gas.thy ===== *)
theory Gas
  imports Keeper
begin

text \<open>
  Gas limits and rates of the outbound chains: \<^verbatim>\<open>src/x/switchly/manager_gas_current.go\<close>. The network
  fee of a chain is the one the keeper stores; sizes and rates are 64-bit numbers whose product wraps.
\<close>

section \<open>Operations\<close>

definition u64 :: "nat \<Rightarrow> nat" where
  "u64 n = n mod 2 ^ 64"

definition GetMaxGas :: "kstore \<Rightarrow> chain \<Rightarrow> coin res" where
  "GetMaxGas s ch =
     res_bind (GetNetworkFee s ch) (\<lambda>nf.
     res_bind
       (if TransactionSize nf = 0 \<or> TransactionFeeRate nf = 0
        then Inr (if ch = StellarChain then 1000000 else 1)
        else res_bind (uint_mul (u64 (TransactionSize nf * TransactionFeeRate nf)) 3) (\<lambda>n. uint_quo n 2))
       (\<lambda>amount. let precision = GetGasAssetDecimal ch in
          res_map (\<lambda>n. (NewCoin (GetGasAsset ch) n)\<lparr>cDecimals := precision\<rparr>) (RoundToDecimal amount precision)))"

definition CalcOutboundFeeMultiplier :: "dec_lib \<Rightarrow> uint \<Rightarrow> uint \<Rightarrow> uint \<Rightarrow> uint \<Rightarrow> uint \<Rightarrow> uint" where
  "CalcOutboundFeeMultiplier D targetSurplus gasSpent gasWithheld maxMultiplier minMultiplier =
     (if targetSurplus = 0 then maxMultiplier
      else if minMultiplier > maxMultiplier then 30000
      else let surplus = SafeSub gasWithheld gasSpent;
               reduced = GetSafeShare D surplus targetSurplus (SafeSub maxMultiplier minMultiplier)
           in SafeSub maxMultiplier reduced)"

definition getSWITCHInAssetValue :: "dec_lib \<Rightarrow> kstore \<Rightarrow> uint \<Rightarrow> asset \<Rightarrow> uint res" where
  "getSWITCHInAssetValue D s transactionFee a =
     (let a' = (if aSynth a \<or> aTrade a \<or> aSecured a then GetLayer1Asset a else a) in
      case GetPool s a' of Inl _ \<Rightarrow> Inr transactionFee
      | Inr p \<Rightarrow> if BalanceAsset p = 0 \<or> BalanceSwitch p = 0 then Inr transactionFee
          else SWITCHValueInAsset D p transactionFee)"

text \<open>The rate for signing is one and a half times the observed rate, at the chain's precision.\<close>

definition GetGasRate :: "kstore \<Rightarrow> uint \<Rightarrow> chain \<Rightarrow> uint res" where
  "GetGasRate s outboundTxFee ch =
     (if Chain_Equals ch SWITCHLYChain then Inr outboundTxFee
      else case GetNetworkFee s ch of Inl _ \<Rightarrow> Inr outboundTxFee
        | Inr nf \<Rightarrow> (case NetworkFee_Valid nf of Inl _ \<Rightarrow> Inr outboundTxFee
            | Inr _ \<Rightarrow> RoundToDecimal (u64 (TransactionFeeRate nf * 3) div 2) (GetGasAssetDecimal ch)))"

section \<open>Lemmas\<close>

text \<open>The multiplier stays between its bounds, and reaches the lower one at the target surplus.\<close>

lemma fee_multiplier_bounds:
  assumes "dec_laws D" and "minM \<le> maxM" and "0 < target"
  shows "minM \<le> CalcOutboundFeeMultiplier D target spent withheld maxM minM
    \<and> CalcOutboundFeeMultiplier D target spent withheld maxM minM \<le> maxM"
  using dec_laws.safe_share_le [OF assms(1), of "withheld - spent" target "maxM - minM"] assms
  by (simp add: CalcOutboundFeeMultiplier_def Let_def)

lemma fee_multiplier_at_target:
  assumes "dec_laws D" and "minM \<le> maxM" and "0 < target" and "spent + target \<le> withheld"
    and "target < 10 ^ 58" and "maxM < 10 ^ 58"
  shows "CalcOutboundFeeMultiplier D target spent withheld maxM minM = minM"
proof -
  have "maxM - minM < 10 ^ 58" using assms(6) by simp
  then have "GetSafeShare D (withheld - spent) target (maxM - minM) = maxM - minM"
    using assms by (intro dec_laws.safe_share_whole [OF assms(1,3)] dec_in_range) auto
  with assms(2,3) show ?thesis by (simp add: CalcOutboundFeeMultiplier_def Let_def)
qed

end
