(* ===== verification/Liquidity.thy ===== *)
theory Liquidity
  imports Gas Swapper
begin

text \<open>
  Adding and withdrawing liquidity: \<^verbatim>\<open>src/x/switchly/handler_add_liquidity.go\<close> (the unit formulas,
  \<open>validateAddLiquidityMessage\<close> and \<open>addLiquidity\<close>), \<^verbatim>\<open>withdraw.go\<close> (the whole file) and the messages
  of \<^verbatim>\<open>types/msg_add_liquidity.go\<close> and \<^verbatim>\<open>types/msg_withdraw_liquidity.go\<close>.

  An operation takes the context and the store and returns the store; an error returns none, because
  the caller discards the cached context. Events, logging and telemetry are not modelled.
\<close>

section \<open>Messages\<close>

record msg_add_liquidity =
  malTx :: tx
  malAsset :: asset
  malAssetAmount :: uint
  malSwitchAmount :: uint
  malSwitchAddress :: address
  malAssetAddress :: address
  malAffiliateAddress :: address
  malAffiliateBasisPoints :: uint
  malSigner :: acc

definition MaxAffiliateFeeBasisPoints :: nat where
  "MaxAffiliateFeeBasisPoints = 1000"

definition MsgAddLiquidity_ValidateBasic :: "msg_add_liquidity \<Rightarrow> unit res" where
  "MsgAddLiquidity_ValidateBasic m =
     (if malSigner m = [] then Inl (Err ''invalid address'')
      else if Asset_IsEmpty (malAsset m) then Inl (Err ''add liquidity asset cannot be empty'')
      else res_bind (Tx_Valid (malTx m)) (\<lambda>_.
        if IsSwitch (malAsset m) then Inl (Err ''asset cannot be switch'')
        else if length (tCoins (malTx m)) = 2 \<and> (malAssetAmount m = 0 \<or> malSwitchAmount m = 0)
          then Inl (Err ''did not find both coins'')
        else if length (tCoins (malTx m)) > 2
          then Inl (Err ''not expecting more than two coins in adding liquidity'')
        else if Address_IsEmpty (malSwitchAddress m) \<and> Address_IsEmpty (malAssetAddress m)
          then Inl (Err ''switch address and asset address cannot be empty'')
        else if Address_IsEmpty (malAffiliateAddress m) \<and> malAffiliateBasisPoints m \<noteq> 0
          then Inl (Err ''affiliate address is empty while affiliate basis points is non-zero'')
        else if malAffiliateBasisPoints m \<noteq> 0 \<and> malAffiliateBasisPoints m > MaxAffiliateFeeBasisPoints
          then Inl (Err ''affiliate fee basis points can't be more than 1000'')
        else Inr ()))"

definition MaxWithdrawBasisPoints :: nat where
  "MaxWithdrawBasisPoints = 10000"

record msg_withdraw_liquidity =
  mwlTx :: tx
  mwlWithdrawAddress :: address
  mwlBasisPoints :: uint
  mwlAsset :: asset
  mwlWithdrawalAsset :: asset
  mwlSigner :: acc

definition MsgWithdrawLiquidity_ValidateBasic :: "msg_withdraw_liquidity \<Rightarrow> unit res" where
  "MsgWithdrawLiquidity_ValidateBasic m =
     (if mwlSigner m = [] then Inl (Err ''invalid address'')
      else if TxID_IsEmpty (tID (mwlTx m)) then Inl (Err ''tx id cannot be empty'')
      else if Asset_IsEmpty (mwlAsset m) then Inl (Err ''pool asset cannot be empty'')
      else if IsSwitch (mwlAsset m) then Inl (Err ''asset cannot be switch'')
      else if Address_IsEmpty (mwlWithdrawAddress m) then Inl (Err ''address cannot be empty'')
      else if mwlBasisPoints m = 0 then Inl (Err ''basis points can't be zero'')
      else if mwlBasisPoints m > MaxWithdrawBasisPoints
        then Inl (Err ''basis points is larger than maximum withdraw basis points'')
      else if \<not> Asset_IsEmpty (mwlWithdrawalAsset m) \<and> \<not> IsSwitch (mwlWithdrawalAsset m)
          \<and> \<not> Asset_Equals (mwlWithdrawalAsset m) (mwlAsset m)
        then Inl (Err ''withdrawal asset must be empty, switch, or pool asset'')
      else Inr ())"

section \<open>Units for added liquidity\<close>

text \<open>
  \<open>units = P (r A + a R + 2 r a) / (r A + a R + 2 R A)\<close>, in the decimals of the library, rounded down
  to an integer at the end. The result is the pair of new total and new units.
\<close>

definition new_units_dec :: "dec_lib \<Rightarrow> uint \<Rightarrow> uint \<Rightarrow> uint \<Rightarrow> uint \<Rightarrow> uint \<Rightarrow> (dec \<times> dec) res" where
  "new_units_dec D old R A r a =
     res_bind (dec_res (dec_of_uint D old)) (\<lambda>P'.
     res_bind (dec_res (dec_of_uint D R)) (\<lambda>R'.
     res_bind (dec_res (dec_of_uint D A)) (\<lambda>A'.
     res_bind (dec_res (dec_of_uint D r)) (\<lambda>r'.
     res_bind (dec_res (dec_of_uint D a)) (\<lambda>a'.
     res_bind (dec_res (dec_mul D r' A')) (\<lambda>rA.
     res_bind (dec_res (dec_mul D a' R')) (\<lambda>aR.
     res_bind (dec_res (dec_add D rA aR)) (\<lambda>cross.
     res_bind (dec_res (dec_mul D (2 * dec_one) r')) (\<lambda>r2.
     res_bind (dec_res (dec_mul D r2 a')) (\<lambda>ra2.
     res_bind (dec_res (dec_add D cross ra2)) (\<lambda>n.
     res_bind (dec_res (dec_mul D P' n)) (\<lambda>numerator.
     res_bind (dec_res (dec_mul D (2 * dec_one) A')) (\<lambda>A2.
     res_bind (dec_res (dec_mul D A2 R')) (\<lambda>AR2.
     res_bind (dec_res (dec_add D cross AR2)) (\<lambda>denominator.
       if denominator = 0 then Inl (Err ''denominator of new pool units calculation is zero'')
       else res_bind (dec_res (dec_quo D numerator denominator)) (\<lambda>liquidityUnits.
            res_map (\<lambda>newPoolUnit. (newPoolUnit, liquidityUnits))
              (dec_res (dec_add D P' liquidityUnits))))))))))))))))))"

definition trunc_uint :: "dec_lib \<Rightarrow> dec \<Rightarrow> uint res" where
  "trunc_uint D d = res_bind (dec_res (dec_trunc D d)) uint_of_int"

definition calculatePoolUnits :: "dec_lib \<Rightarrow> uint \<Rightarrow> uint \<Rightarrow> uint \<Rightarrow> uint \<Rightarrow> uint \<Rightarrow> (uint \<times> uint) res" where
  "calculatePoolUnits D oldPoolUnits poolSWITCH poolAsset addSWITCH addAsset =
     res_bind (uint_add addSWITCH poolSWITCH) (\<lambda>t.
       if t = 0 then Inl (Err ''total SWITCH in the pool is zero'')
       else res_bind (uint_add addAsset poolAsset) (\<lambda>t'.
         if t' = 0 then Inl (Err ''total asset in the pool is zero'')
         else if poolSWITCH = 0 \<or> poolAsset = 0 \<or> oldPoolUnits = 0 then
           res_bind
             (if addSWITCH = 0
              then (if poolAsset \<noteq> 0 then res_bind (uint_mul addAsset poolSWITCH) (\<lambda>m. uint_quo m poolAsset)
                    else Inr addAsset)
              else Inr addSWITCH)
             (\<lambda>sUnits. res_map (\<lambda>n. (n, sUnits)) (uint_add oldPoolUnits sUnits))
         else
           res_bind (new_units_dec D oldPoolUnits poolSWITCH poolAsset addSWITCH addAsset) (\<lambda>(n, l).
           res_bind (trunc_uint D n) (\<lambda>pUnits.
           res_map (\<lambda>sUnits. (pUnits, sUnits)) (trunc_uint D l)))))"

definition calculateVaultUnits :: "dec_lib \<Rightarrow> uint \<Rightarrow> uint \<Rightarrow> uint \<Rightarrow> (uint \<times> uint) res" where
  "calculateVaultUnits D oldPoolUnits poolAmt addAmt =
     (if oldPoolUnits = 0 \<or> poolAmt = 0 then Inr (addAmt, addAmt)
      else if addAmt = 0 then Inr (oldPoolUnits, 0)
      else let lpU = GetUncappedShare D addAmt poolAmt oldPoolUnits in
        res_map (\<lambda>n. (n, lpU)) (uint_add oldPoolUnits lpU))"

section \<open>Adding liquidity\<close>

definition validateAddLiquidityMessage :: "kstore \<Rightarrow> asset \<Rightarrow> txid \<Rightarrow> address \<Rightarrow> address \<Rightarrow> unit res" where
  "validateAddLiquidityMessage s a requestTxHash switchAddr assetAddr =
     (if Asset_IsEmpty a then Inl (Err ''asset is empty'')
      else if TxID_IsEmpty requestTxHash then Inl (Err ''request tx hash is empty'')
      else if Address_IsEmpty switchAddr \<and> Address_IsEmpty assetAddr
        then Inl (Err ''switch address and asset address is empty'')
      else if \<not> PoolExist s a then Inl (Err ''pool doesn't exist'')
      else res_bind (GetPool s a) (\<lambda>p.
        if pStatus p = PoolStatus_Staged \<and> (Address_IsEmpty switchAddr \<or> Address_IsEmpty assetAddr)
        then Inl (Err ''cannot add single sided liquidity while a pool is staged'')
        else Inr ()))"

text \<open>The addresses of a position without units are set, and checked, by its first deposit.\<close>

definition claim_addresses ::
  "asset \<Rightarrow> address \<Rightarrow> address \<Rightarrow> liquidity_provider \<Rightarrow> liquidity_provider res" where
  "claim_addresses a switchAddr assetAddr su =
     (if lpUnits su \<noteq> 0 then Inr su
      else
        let su1 = (if TxID_IsEmpty (lpPendingTxID su)
                   then su\<lparr>lpSwitchAddress := (if Address_IsEmpty (lpSwitchAddress su) then switchAddr else lpSwitchAddress su),
                           lpAssetAddress := (if Address_IsEmpty (lpAssetAddress su) then assetAddr else lpAssetAddress su)\<rparr>
                   else su)
        in if aSynth a then Inr (su1\<lparr>lpAssetAddress := assetAddr, lpSwitchAddress := ''''\<rparr>)
           else if \<not> Address_Equals switchAddr (lpSwitchAddress su1) then Inl (Err ''memo paired address must be non-empty and together with origin address match the liquidity provider record'')
           else if \<not> Address_Equals assetAddr (lpAssetAddress su1) then Inl (Err ''memo paired address must be non-empty and together with origin address match the liquidity provider record'')
           else Inr su1)"

definition check_asset_address :: "addr_lib \<Rightarrow> asset \<Rightarrow> address \<Rightarrow> liquidity_provider \<Rightarrow> unit res" where
  "check_asset_address A a assetAddr su =
     (if aSynth a then
        guard_err (Address_IsEmpty (lpAssetAddress su)
            \<or> \<not> IsChain A (lpAssetAddress su) (GetChain (GetLayer1Asset a)))
          ''memo paired address must be non-empty and together with origin address match the liquidity provider record''
      else guard_err (\<not> Address_IsEmpty assetAddr \<and> \<not> Address_Equals (lpAssetAddress su) assetAddr) ''memo paired address must be non-empty and together with origin address match the liquidity provider record'')"

text \<open>A failure to save the pool is only logged while liquidity is pending.\<close>

definition save_pending :: "kstore \<Rightarrow> liquidity_provider \<Rightarrow> pool \<Rightarrow> kstore" where
  "save_pending s su p =
     (let s1 = SetLiquidityProvider s su in case SetPool s1 p of Inl _ \<Rightarrow> s1 | Inr s2 \<Rightarrow> s2)"

definition deposit_values ::
  "dec_lib \<Rightarrow> pool \<Rightarrow> uint \<Rightarrow> liquidity_provider \<Rightarrow> liquidity_provider res" where
  "deposit_values D p liquidityUnits su =
     (if pStatus p \<noteq> PoolStatus_Available then Inr su
      else res_bind (GetPoolUnits p) (\<lambda>tot.
        if lpAssetDepositValue su = 0 \<and> lpSwitchDepositValue su = 0
        then Inr (su\<lparr>lpSwitchDepositValue := GetSafeShare D (lpUnits su) tot (BalanceSwitch p),
                     lpAssetDepositValue := GetSafeShare D (lpUnits su) tot (BalanceAsset p)\<rparr>)
        else res_bind (uint_add (lpSwitchDepositValue su) (GetSafeShare D liquidityUnits tot (BalanceSwitch p))) (\<lambda>sv.
             res_map (\<lambda>av. su\<lparr>lpSwitchDepositValue := sv, lpAssetDepositValue := av\<rparr>)
               (uint_add (lpAssetDepositValue su) (GetSafeShare D liquidityUnits tot (BalanceAsset p))))))"

text \<open>If the position is the protocol's own, the SWITCH it added is recorded.\<close>

definition GetModuleAddress :: "addr_lib \<Rightarrow> ctx \<Rightarrow> string \<Rightarrow> address res" where
  "GetModuleAddress A c m = NewAddress A (cNetwork c) (cModuleAddress c m)"

definition track_pol_deposit :: "addr_lib \<Rightarrow> ctx \<Rightarrow> kstore \<Rightarrow> liquidity_provider \<Rightarrow> uint \<Rightarrow> kstore res" where
  "track_pol_deposit A c s su amount =
     res_bind (GetModuleAddress A c ''reserve'') (\<lambda>polAddress.
       if \<not> Address_Equals polAddress (lpSwitchAddress su) then Inr s
       else res_bind (GetPOL s) (\<lambda>pol.
            res_map (\<lambda>d. SetPOL s (pol\<lparr>SwitchDeposited := d\<rparr>)) (uint_add (SwitchDeposited pol) amount)))"

definition commit_liquidity ::
  "dec_lib \<Rightarrow> addr_lib \<Rightarrow> ctx \<Rightarrow> kstore \<Rightarrow> asset \<Rightarrow> uint \<Rightarrow> pool \<Rightarrow> liquidity_provider \<Rightarrow> uint \<Rightarrow> uint \<Rightarrow> kstore res" where
  "commit_liquidity D A c s a synthSupply p0 su0 pendingSwitchAmt0 pendingAssetAmt =
     (let p = p0\<lparr>PendingInboundSwitch := SafeSub (PendingInboundSwitch p0) (lpPendingSwitch su0),
                 PendingInboundAsset := SafeSub (PendingInboundAsset p0) (lpPendingAsset su0)\<rparr>;
          su = su0\<lparr>lpPendingAsset := 0, lpPendingSwitch := 0, lpPendingTxID := ''''\<rparr>;
          pendingSwitchAmt = (if aSynth a then 0 else pendingSwitchAmt0)
      in res_bind (GetPoolUnits p) (\<lambda>oldPoolUnits.
         res_bind
           (if aSynth a then calculateVaultUnits D oldPoolUnits (BalanceAsset p) pendingAssetAmt
            else calculatePoolUnits D oldPoolUnits (BalanceSwitch p) (BalanceAsset p) pendingSwitchAmt pendingAssetAmt)
           (\<lambda>(newPoolUnits, liquidityUnits).
         res_bind (uint_add (BalanceSwitch p) pendingSwitchAmt) (\<lambda>poolSWITCH.
         res_bind (uint_add (BalanceAsset p) pendingAssetAmt) (\<lambda>poolAsset.
         res_bind (uint_add (LPUnits p) liquidityUnits) (\<lambda>lpu.
           if (poolSWITCH = 0 \<and> \<not> aSynth a) \<or> poolAsset = 0
           then Inl (Err ''pool cannot have zero switch or asset balance'')
           else
         res_bind (CalcUnits (p\<lparr>LPUnits := lpu, BalanceSwitch := poolSWITCH, BalanceAsset := poolAsset\<rparr>) synthSupply) (\<lambda>(_, p').
         res_bind (SetPool s p') (\<lambda>s1.
         res_bind (uint_add (lpUnits su) liquidityUnits) (\<lambda>u.
         res_bind (deposit_values D p' liquidityUnits (su\<lparr>lpUnits := u\<rparr>)) (\<lambda>su'.
           track_pol_deposit A c (SetLiquidityProvider s1 su') su' pendingSwitchAmt))))))))))"

text \<open>One side alone waits for the other as a pending amount; otherwise everything is committed.\<close>

definition stage_or_commit ::
  "dec_lib \<Rightarrow> addr_lib \<Rightarrow> ctx \<Rightarrow> kstore \<Rightarrow> asset \<Rightarrow> uint \<Rightarrow> pool \<Rightarrow> liquidity_provider \<Rightarrow> uint \<Rightarrow> uint \<Rightarrow> txid
     \<Rightarrow> bool \<Rightarrow> kstore res" where
  "stage_or_commit D A c s a synthSupply p su addSwitchAmount addAssetAmount requestTxHash stage =
     res_bind (uint_add (lpPendingSwitch su) addSwitchAmount) (\<lambda>pendingSwitchAmt.
     res_bind (uint_add (lpPendingAsset su) addAssetAmount) (\<lambda>pendingAssetAmt.
       if stage \<and> pendingAssetAmt = 0 then
         res_map (\<lambda>pis. save_pending s (su\<lparr>lpPendingSwitch := pendingSwitchAmt, lpPendingTxID := requestTxHash\<rparr>)
             (p\<lparr>PendingInboundSwitch := pis\<rparr>))
           (uint_add (PendingInboundSwitch p) addSwitchAmount)
       else if stage \<and> pendingSwitchAmt = 0 then
         res_map (\<lambda>pia. save_pending s (su\<lparr>lpPendingAsset := pendingAssetAmt, lpPendingTxID := requestTxHash\<rparr>)
             (p\<lparr>PendingInboundAsset := pia\<rparr>))
           (uint_add (PendingInboundAsset p) addAssetAmount)
       else commit_liquidity D A c s a synthSupply p su pendingSwitchAmt pendingAssetAmt))"

definition addLiquidity ::
  "dec_lib \<Rightarrow> addr_lib \<Rightarrow> ctx \<Rightarrow> kstore \<Rightarrow> asset \<Rightarrow> uint \<Rightarrow> uint \<Rightarrow> address \<Rightarrow> address \<Rightarrow> txid \<Rightarrow> bool \<Rightarrow> kstore res" where
  "addLiquidity D A c s a addSwitchAmount addAssetAmount switchAddr assetAddr requestTxHash stage =
     res_bind (validateAddLiquidityMessage s a requestTxHash switchAddr assetAddr) (\<lambda>_.
     res_bind (GetPool s a) (\<lambda>p0.
     res_bind (GetTotalSupply c s (GetSyntheticAsset (pAsset p0))) (\<lambda>synthSupply.
     res_bind (CalcUnits p0 synthSupply) (\<lambda>(_, p).
       let fetchAddr = (if Address_IsEmpty switchAddr then assetAddr else switchAddr) in
     res_bind (GetLiquidityProvider A s a fetchAddr) (\<lambda>su0.
     res_bind (claim_addresses a switchAddr assetAddr (su0\<lparr>lpLastAddHeight := BlockHeight c\<rparr>)) (\<lambda>su.
     res_bind (check_asset_address A a assetAddr su) (\<lambda>_.
       stage_or_commit D A c s a synthSupply p su addSwitchAmount addAssetAmount requestTxHash stage)))))))"

section \<open>The add liquidity handler\<close>

definition needsSwap :: "msg_add_liquidity \<Rightarrow> bool" where
  "needsSwap msg = (case tCoins (malTx msg) of
       [coin] \<Rightarrow> \<not> Coin_IsSwitch coin \<and> \<not> Asset_Equals (malAsset msg) (cAsset coin) | _ \<Rightarrow> False)"

text \<open>A pool that does not exist yet is created by the first deposit.\<close>

definition open_pool :: "ctx \<Rightarrow> kstore \<Rightarrow> asset \<Rightarrow> (pool \<times> kstore) res" where
  "open_pool c s a =
     res_bind (GetPool s a) (\<lambda>p.
       if Pool_IsEmpty p then
         let defaultPoolStatus = (if \<not> Asset_Equals a (GetGasAsset (GetChain a)) \<and> \<not> aSynth a
                                  then GetStringValue (cBuild c) ''DefaultPoolStatus'' else ''Available'');
             p' = p\<lparr>pAsset := a, pStatus := GetPoolStatus defaultPoolStatus\<rparr>
         in res_map (\<lambda>s'. (p', s')) (SetPool s p')
       else Inr (p, s))"

definition set_decimals :: "kstore \<Rightarrow> msg_add_liquidity \<Rightarrow> pool \<Rightarrow> kstore res" where
  "set_decimals s msg p =
     (let coin = GetCoin (tCoins (malTx msg)) (pAsset p) in
      if pDecimals p = 0 \<and> \<not> Coin_IsEmpty coin \<and> cDecimals coin > 0
      then SetPool s (p\<lparr>pDecimals := cDecimals coin\<rparr>) else Inr s)"

definition is_staged :: "msg_add_liquidity \<Rightarrow> bool" where
  "is_staged msg \<longleftrightarrow> \<not> aSynth (malAsset msg) \<and> \<not> IsBlank (tID (malTx msg))
     \<and> (\<not> Address_IsEmpty (malAssetAddress msg) \<and> malAssetAmount msg = 0
        \<or> \<not> Address_IsEmpty (malSwitchAddress msg) \<and> malSwitchAmount msg = 0)"

text \<open>\<open>handle\<close> for a message that needs no swap first: the deposit, and the affiliate's part of it.\<close>

definition AddLiquidity_handle :: "dec_lib \<Rightarrow> addr_lib \<Rightarrow> ctx \<Rightarrow> kstore \<Rightarrow> msg_add_liquidity \<Rightarrow> kstore res" where
  "AddLiquidity_handle D A c s msg =
     res_bind (open_pool c s (malAsset msg)) (\<lambda>(p, s1).
     res_bind (set_decimals s1 msg p) (\<lambda>s2.
       if malAffiliateBasisPoints msg = 0 then
         addLiquidity D A c s2 (malAsset msg) (malSwitchAmount msg) (malAssetAmount msg) (malSwitchAddress msg)
           (malAssetAddress msg) (tID (malTx msg)) (is_staged msg)
       else
         let affiliateSWITCH = GetSafeShare D (malAffiliateBasisPoints msg) 10000 (malSwitchAmount msg);
             affiliateAsset = GetSafeShare D (malAffiliateBasisPoints msg) 10000 (malAssetAmount msg);
             onSwitch = IsChain A (malAffiliateAddress msg) SWITCHLYChain
         in res_bind (addLiquidity D A c s2 (malAsset msg) (SafeSub (malSwitchAmount msg) affiliateSWITCH)
              (SafeSub (malAssetAmount msg) affiliateAsset) (malSwitchAddress msg) (malAssetAddress msg)
              (tID (malTx msg)) (is_staged msg)) (\<lambda>s3.
            addLiquidity D A c s3 (malAsset msg) affiliateSWITCH affiliateAsset
              (if onSwitch then malAffiliateAddress msg else '''') (if onSwitch then '''' else malAffiliateAddress msg)
              (tID (malTx msg)) False)))"

section \<open>Withdrawing liquidity\<close>

definition validateWithdraw :: "kstore \<Rightarrow> msg_withdraw_liquidity \<Rightarrow> unit res" where
  "validateWithdraw s msg =
     (if Address_IsEmpty (mwlWithdrawAddress msg) then Inl (Err ''empty withdraw address'')
      else if TxID_IsEmpty (tID (mwlTx msg)) then Inl (Err ''request tx hash is empty'')
      else if Asset_IsEmpty (mwlAsset msg) then Inl (Err ''empty asset'')
      else if \<not> 0 < mwlBasisPoints msg \<or> MaxWithdrawBasisPoints < mwlBasisPoints msg
        then Inl (Err ''withdraw basis points is invalid'')
      else if \<not> PoolExist s (mwlAsset msg) then Inl (Err ''pool doesn't exist'')
      else Inr ())"

definition assetToWithdraw :: "msg_withdraw_liquidity \<Rightarrow> liquidity_provider \<Rightarrow> int \<Rightarrow> asset" where
  "assetToWithdraw msg lp pauseAsym =
     (if Address_IsEmpty (lpSwitchAddress lp) then mwlAsset msg
      else if Address_IsEmpty (lpAssetAddress lp) then SwitchNative
      else if pauseAsym > 0 then EmptyAsset
      else mwlWithdrawalAsset msg)"

definition getMinSlipBps :: "ctx \<Rightarrow> kstore \<Rightarrow> asset \<Rightarrow> uint" where
  "getMinSlipBps c s a =
     SafeUintFromInt64 (GetConfigInt64 c s
       (if aSynth a then ''SynthSlipMinBps'' else if aTrade a then ''TradeAccountsSlipMinBps''
        else if IsDerivedAsset a then ''DerivedSlipMinBps'' else if aSecured a then ''SecuredAssetSlipMinBps''
        else ''L1SlipMinBps''))"

text \<open>The half of an asymmetric withdrawal that is swapped to the other side: the amount paid on that side.\<close>

definition half_swap :: "dec_lib \<Rightarrow> uint \<Rightarrow> uint \<Rightarrow> uint \<Rightarrow> uint \<Rightarrow> uint \<Rightarrow> bool \<Rightarrow> uint res" where
  "half_swap D X x Y yAdd minSlipBps waiveFee =
     res_bind (CalcSwapSlip D X x) (\<lambda>swapSlipBps.
     res_bind (GetSwapCalc D X x Y swapSlipBps minSlipBps) (\<lambda>(y, liqFee, _).
     res_bind (uint_add y yAdd) (\<lambda>out.
       if waiveFee then uint_add out liqFee else Inr out)))"

definition calculateWithdraw ::
  "dec_lib \<Rightarrow> addr_lib \<Rightarrow> ctx \<Rightarrow> kstore \<Rightarrow> asset \<Rightarrow> uint \<Rightarrow> uint \<Rightarrow> uint \<Rightarrow> uint \<Rightarrow> uint \<Rightarrow> asset \<Rightarrow> address
     \<Rightarrow> (uint \<times> uint \<times> uint) res" where
  "calculateWithdraw D A c s poolAsset poolUnits poolSWITCHDepth poolAssetDepth lpUnits' withdrawBasisPoints
      withdrawalAsset withdrawAddress =
     (if \<not> cVersion3 c then Inl (Err ''bad version'')
      else if poolUnits = 0 then Inl (Err ''poolUnits can't be zero'')
      else if poolSWITCHDepth = 0 then Inl (Err ''pool switch balance can't be zero'')
      else if poolAssetDepth = 0 then Inl (Err ''pool asset balance can't be zero'')
      else if lpUnits' = 0 then Inl (Err ''liquidity provider unit can't be zero'')
      else if withdrawBasisPoints > MaxWithdrawBasisPoints then Inl (Err ''withdraw basis point is not valid'')
      else
        let unitsToClaim = GetSafeShare D withdrawBasisPoints 10000 lpUnits';
            unitAfter = SafeSub lpUnits' unitsToClaim;
            withdrawSWITCH = GetSafeShare D unitsToClaim poolUnits poolSWITCHDepth;
            withdrawAsset = GetSafeShare D unitsToClaim poolUnits poolAssetDepth;
            remainingAsset = SafeSub poolAssetDepth withdrawAsset;
            remainingSWITCH = SafeSub poolSWITCHDepth withdrawSWITCH;
            minSlipBps = getMinSlipBps c s poolAsset
        in if Asset_IsEmpty withdrawalAsset then Inr (withdrawSWITCH, withdrawAsset, unitAfter)
           else if IsSwitch withdrawalAsset then
             res_bind (GetModuleAddress A c ''reserve'') (\<lambda>polAddress.
             res_map (\<lambda>out. (out, 0, unitAfter))
               (half_swap D remainingAsset withdrawAsset remainingSWITCH withdrawSWITCH minSlipBps
                  (Address_Equals withdrawAddress polAddress)))
           else
             res_map (\<lambda>out. (0, out, unitAfter))
               (half_swap D remainingSWITCH withdrawSWITCH remainingAsset withdrawAsset minSlipBps False))"

definition calculateVaultWithdraw :: "dec_lib \<Rightarrow> uint \<Rightarrow> uint \<Rightarrow> uint \<Rightarrow> uint \<Rightarrow> uint \<times> uint \<times> uint" where
  "calculateVaultWithdraw D vaultUnits assetAmt lpUnits' withdrawBasisPoints =
     (if vaultUnits = 0 \<or> lpUnits' = 0 \<or> assetAmt = 0 \<or> withdrawBasisPoints = 0 then (0, 0, 0)
      else let unitsToClaim = GetSafeShare D withdrawBasisPoints MaxWithdrawBasisPoints lpUnits' in
        (0, GetSafeShare D unitsToClaim vaultUnits assetAmt, SafeSub lpUnits' unitsToClaim))"

text \<open>Without units only pending amounts can be withdrawn: the position is removed and they are paid.\<close>

definition withdraw_pending :: "kstore \<Rightarrow> pool \<Rightarrow> liquidity_provider \<Rightarrow> ((uint \<times> uint \<times> uint \<times> uint) \<times> kstore) res" where
  "withdraw_pending s p lp =
     (if lpPendingSwitch lp \<noteq> 0 \<or> lpPendingAsset lp \<noteq> 0 then
        let s1 = RemoveLiquidityProvider s lp;
            p' = p\<lparr>PendingInboundSwitch := SafeSub (PendingInboundSwitch p) (lpPendingSwitch lp),
                   PendingInboundAsset := SafeSub (PendingInboundAsset p) (lpPendingAsset lp)\<rparr>;
            s2 = (case SetPool s1 p' of Inl _ \<Rightarrow> s1 | Inr s2 \<Rightarrow> s2)
        in res_map (\<lambda>a. ((lpPendingSwitch lp, a, lpUnits lp, 0), s2)) (RoundToDecimal (lpPendingAsset lp) (pDecimals p))
      else Inl (Err ''nothing to withdraw''))"

definition withdraw_amounts ::
  "dec_lib \<Rightarrow> addr_lib \<Rightarrow> ctx \<Rightarrow> kstore \<Rightarrow> msg_withdraw_liquidity \<Rightarrow> pool \<Rightarrow> liquidity_provider \<Rightarrow> uint
     \<Rightarrow> (uint \<times> uint \<times> uint) res" where
  "withdraw_amounts D A c s msg p lp tot =
     (let pauseAsym = kv_get_or (kMimirs s) (kv_key (''PauseAsymWithdrawal-'' @ GetChain (pAsset p))) (- 1);
          toWithdraw = assetToWithdraw msg lp pauseAsym
      in if aSynth (pAsset p)
         then Inr (calculateVaultWithdraw D tot (BalanceAsset p) (lpUnits lp) (mwlBasisPoints msg))
         else (case calculateWithdraw D A c s (pAsset p) tot (BalanceSwitch p) (BalanceAsset p) (lpUnits lp)
                 (mwlBasisPoints msg) toWithdraw (mwlWithdrawAddress msg) of
             Inl (Panic e) \<Rightarrow> Inl (Panic e)
           | Inl (Err _) \<Rightarrow> Inl (Err ''fail to withdraw'')
           | Inr (ws, wa, ua) \<Rightarrow>
               if (ws = BalanceSwitch p \<and> wa \<noteq> BalanceAsset p) \<or> (ws \<noteq> BalanceSwitch p \<and> wa = BalanceAsset p)
               then Inl (Err ''fail to withdraw'') else Inr (ws, wa, ua)))"

text \<open>The last provider of a pool of a gas asset pays the gas of the outbound.\<close>

definition withdraw_gas :: "kstore \<Rightarrow> pool \<Rightarrow> uint \<Rightarrow> uint \<Rightarrow> uint \<Rightarrow> uint \<Rightarrow> (uint \<times> uint) res" where
  "withdraw_gas s p tot units unitAfter withDrawAsset =
     res_bind (uint_add (SafeSub tot units) unitAfter) (\<lambda>left.
       if left \<noteq> 0 then Inr (0, withDrawAsset)
       else (case GetMaxGas s (GetChain (pAsset p)) of
           Inl (Panic e) \<Rightarrow> Inl (Panic e)
         | Inl (Err _) \<Rightarrow> Inl (Err ''fail to withdraw'')
         | Inr maxGas \<Rightarrow>
             if Asset_Equals (GetGasAsset (GetChain (pAsset p))) (pAsset p)
             then let gasAsset = (if cAmount maxGas > withDrawAsset then withDrawAsset else cAmount maxGas)
                  in Inr (gasAsset, SafeSub withDrawAsset gasAsset)
             else Inr (0, withDrawAsset)))"

definition withdrawn_lp ::
  "dec_lib \<Rightarrow> ctx \<Rightarrow> msg_withdraw_liquidity \<Rightarrow> pool \<Rightarrow> uint \<Rightarrow> uint \<Rightarrow> liquidity_provider \<Rightarrow> liquidity_provider res" where
  "withdrawn_lp D c msg p tot unitAfter lp =
     res_map (\<lambda>lp1. lp1\<lparr>lpLastWithdrawHeight := BlockHeight c,
         lpSwitchDepositValue := SafeSub (lpSwitchDepositValue lp1)
           (GetSafeShare D (mwlBasisPoints msg) MaxWithdrawBasisPoints (lpSwitchDepositValue lp1)),
         lpAssetDepositValue := SafeSub (lpAssetDepositValue lp1)
           (GetSafeShare D (mwlBasisPoints msg) MaxWithdrawBasisPoints (lpAssetDepositValue lp1)),
         lpUnits := unitAfter\<rparr>)
       (if pStatus p = PoolStatus_Available \<and> lpSwitchDepositValue lp = 0 \<and> lpAssetDepositValue lp = 0
        then res_bind (uint_add (lpSwitchDepositValue lp) (GetSafeShare D (lpUnits lp) tot (BalanceSwitch p))) (\<lambda>sv.
             res_map (\<lambda>av. lp\<lparr>lpSwitchDepositValue := sv, lpAssetDepositValue := av\<rparr>)
               (uint_add (lpAssetDepositValue lp) (GetSafeShare D (lpUnits lp) tot (BalanceAsset p))))
        else Inr lp)"

definition save_withdrawn :: "kstore \<Rightarrow> liquidity_provider \<Rightarrow> kstore res" where
  "save_withdrawn s lp =
     (if RagnarokInProgress s then Inr (SetLiquidityProvider s lp)
      else res_bind (uint_add (lpUnits lp) (lpPendingAsset lp)) (\<lambda>x. res_map (\<lambda>t.
        if t \<noteq> 0 then SetLiquidityProvider s lp else RemoveLiquidityProvider s lp)
          (uint_add x (lpPendingSwitch lp))))"

text \<open>The pool after the payment; a pool with an empty side goes back to staged.\<close>

definition pool_after_withdraw :: "pool \<Rightarrow> uint \<Rightarrow> uint \<Rightarrow> uint \<Rightarrow> pool" where
  "pool_after_withdraw p claimed withdrawSWITCH withDrawAsset =
     (let p1 = p\<lparr>LPUnits := SafeSub (LPUnits p) claimed,
                 BalanceSwitch := SafeSub (BalanceSwitch p) withdrawSWITCH,
                 BalanceAsset := SafeSub (BalanceAsset p) withDrawAsset\<rparr>
      in if (BalanceAsset p1 = 0 \<or> BalanceSwitch p1 = 0) \<and> \<not> aSynth (pAsset p1)
         then p1\<lparr>pStatus := PoolStatus_Staged\<rparr> else p1)"

definition withdraw_units ::
  "dec_lib \<Rightarrow> addr_lib \<Rightarrow> ctx \<Rightarrow> kstore \<Rightarrow> msg_withdraw_liquidity \<Rightarrow> uint \<Rightarrow> pool \<Rightarrow> liquidity_provider
     \<Rightarrow> ((uint \<times> uint \<times> uint \<times> uint) \<times> kstore) res" where
  "withdraw_units D A c s msg tot p lp =
     res_bind (withdraw_amounts D A c s msg p lp tot) (\<lambda>(withdrawSWITCH, wa0, unitAfter).
     res_bind (RoundToDecimal wa0 (pDecimals p)) (\<lambda>wa1.
     res_bind (withdraw_gas s p tot (lpUnits lp) unitAfter wa1) (\<lambda>(gasAsset, withDrawAsset).
     res_bind (withdrawn_lp D c msg p tot unitAfter lp) (\<lambda>lp'.
     res_bind (guard_err (lpUnits lp \<le> unitAfter) ''sanity check: LP units cannot increase during a withdrawal'') (\<lambda>_.
     res_bind (SetPool s (pool_after_withdraw p (SafeSub (lpUnits lp) unitAfter) withdrawSWITCH withDrawAsset)) (\<lambda>s1.
     res_map (\<lambda>s2. ((withdrawSWITCH, withDrawAsset, SafeSub (lpUnits lp) unitAfter, gasAsset), s2))
       (save_withdrawn s1 lp')))))))"

definition withdraw ::
  "dec_lib \<Rightarrow> addr_lib \<Rightarrow> ctx \<Rightarrow> kstore \<Rightarrow> msg_withdraw_liquidity \<Rightarrow> ((uint \<times> uint \<times> uint \<times> uint) \<times> kstore) res" where
  "withdraw D A c s msg =
     (if \<not> cVersion3 c then Inl (Err ''invalid version'') else
      res_bind (validateWithdraw s msg) (\<lambda>_.
      res_bind (GetPool s (mwlAsset msg)) (\<lambda>p0.
      res_bind (GetTotalSupply c s (GetSyntheticAsset (pAsset p0))) (\<lambda>synthSupply.
      res_bind (CalcUnits p0 synthSupply) (\<lambda>(tot, p).
      res_bind (GetLiquidityProvider A s (mwlAsset msg) (mwlWithdrawAddress msg)) (\<lambda>lp.
        if lpUnits lp = 0 then withdraw_pending s p lp
        else if BlockHeight c < i64 (lpLastAddHeight lp + GetConfigInt64 c s ''LiquidityLockUpBlocks'')
          then Inl (Err ''last add within lockup blocks'')
        else withdraw_units D A c s msg tot p lp))))))"

section \<open>The accounts of a pool and its providers\<close>

text \<open>
  What a pool owes is kept twice: as totals in the pool record and as amounts in the records of its
  providers. The two agree for units and for both pending amounts. A provider's key is the asset and
  an address without slash, so that keys of different assets differ.
\<close>

definition addr_plain :: "address \<Rightarrow> bool" where
  "addr_plain a \<longleftrightarrow> CHR ''/'' \<notin> set a"

definition lp_in :: "string \<Rightarrow> (liquidity_provider \<Rightarrow> nat) \<Rightarrow> liquidity_provider \<Rightarrow> nat" where
  "lp_in ak f lp = (if asset_slot (lpAsset lp) = ak then f lp else 0)"

definition balanced :: "(pool \<Rightarrow> nat) \<Rightarrow> (liquidity_provider \<Rightarrow> nat) \<Rightarrow> kstore \<Rightarrow> bool" where
  "balanced pf lf s \<longleftrightarrow> (\<forall>ak. slot_val pf (kPools s ak) = kv_total (lp_in ak lf) (kLPs s))"

definition lps_ok :: "liquidity_provider kv \<Rightarrow> bool" where
  "lps_ok m \<longleftrightarrow> finite (dom m) \<and> (\<forall>k sl. m k = Some sl \<longrightarrow>
     (\<exists>lp. sl = Stored lp \<and> k = kv_key (LiquidityProvider_Key lp) \<and> addr_plain (LiquidityProvider_GetAddress lp)))"

definition pools_ok :: "pool kv \<Rightarrow> bool" where
  "pools_ok m \<longleftrightarrow> (\<forall>k sl. m k = Some sl \<longrightarrow>
     (\<exists>p. sl = Stored p \<and> k = asset_slot (pAsset p) \<and> \<not> Asset_IsEmpty (pAsset p)))"

definition lp_inv :: "kstore \<Rightarrow> bool" where
  "lp_inv s \<longleftrightarrow> lps_ok (kLPs s) \<and> pools_ok (kPools s) \<and> balanced LPUnits lpUnits s
     \<and> balanced PendingInboundSwitch lpPendingSwitch s \<and> balanced PendingInboundAsset lpPendingAsset s"

lemma lp_key_split:
  assumes "addr_plain (LiquidityProvider_GetAddress lp)"
  shows "split2 (CHR ''/'') (rev (kv_key (LiquidityProvider_Key lp)))
    = (rev (to_upper (LiquidityProvider_GetAddress lp)), Some (rev (asset_slot (lpAsset lp))))"
proof -
  have "CHR ''/'' \<notin> set (rev (to_upper (LiquidityProvider_GetAddress lp)))"
    using assms by (simp add: addr_plain_def slash_upper)
  moreover have "rev (kv_key (LiquidityProvider_Key lp))
      = rev (to_upper (LiquidityProvider_GetAddress lp)) @ CHR ''/'' # rev (asset_slot (lpAsset lp))"
    using upper_slash [of "CHR ''/''"] by (simp add: kv_key_def LiquidityProvider_Key_def asset_slot_def)
  ultimately show ?thesis by (metis split2_append)
qed

lemma lp_key_eq_iff:
  assumes "addr_plain (LiquidityProvider_GetAddress lp)" and "addr_plain (LiquidityProvider_GetAddress lp')"
  shows "kv_key (LiquidityProvider_Key lp) = kv_key (LiquidityProvider_Key lp')
    \<longleftrightarrow> asset_slot (lpAsset lp) = asset_slot (lpAsset lp')
      \<and> to_upper (LiquidityProvider_GetAddress lp) = to_upper (LiquidityProvider_GetAddress lp')"
proof
  assume "kv_key (LiquidityProvider_Key lp) = kv_key (LiquidityProvider_Key lp')"
  with lp_key_split [OF assms(1)] lp_key_split [OF assms(2)]
  show "asset_slot (lpAsset lp) = asset_slot (lpAsset lp')
      \<and> to_upper (LiquidityProvider_GetAddress lp) = to_upper (LiquidityProvider_GetAddress lp')" by simp
next
  assume "asset_slot (lpAsset lp) = asset_slot (lpAsset lp')
      \<and> to_upper (LiquidityProvider_GetAddress lp) = to_upper (LiquidityProvider_GetAddress lp')"
  then show "kv_key (LiquidityProvider_Key lp) = kv_key (LiquidityProvider_Key lp')"
    by (simp add: kv_key_def LiquidityProvider_Key_def asset_slot_def)
qed

text \<open>What a successful read returns: the record of the slot, or one without units.\<close>

lemma new_lp_facts:
  "lpAsset (new_lp A a addr) = a" "lpUnits (new_lp A a addr) = 0" "lpPendingSwitch (new_lp A a addr) = 0"
  "lpPendingAsset (new_lp A a addr) = 0" "lpPendingTxID (new_lp A a addr) = ''''"
  "\<not> Address_IsEmpty addr \<Longrightarrow> LiquidityProvider_GetAddress (new_lp A a addr) = addr"
  by (simp_all add: new_lp_def Let_def LiquidityProvider_GetAddress_def Address_IsEmpty_def is_blank_def)

lemma GetPool_Inr:
  assumes "pools_ok (kPools s)" and "PoolExist s a" and "GetPool s a = Inr p"
  shows "kPools s (asset_slot a) = Some (Stored p)" and "asset_slot (pAsset p) = asset_slot a"
    and "\<not> Asset_IsEmpty (pAsset p)"
proof -
  from assms(2) obtain sl where sl: "kPools s (asset_slot a) = Some sl"
    by (auto simp: PoolExist_def asset_slot_def)
  with assms(1) obtain q where q: "sl = Stored q" "asset_slot a = asset_slot (pAsset q)" "\<not> Asset_IsEmpty (pAsset q)"
    unfolding pools_ok_def by blast
  with sl assms(3) have "p = q" by (simp add: GetPool_def kv_get_def asset_slot_def)
  with q sl show "kPools s (asset_slot a) = Some (Stored p)" and "asset_slot (pAsset p) = asset_slot a"
    and "\<not> Asset_IsEmpty (pAsset p)" by simp_all
qed

lemma GetLiquidityProvider_Inr:
  assumes "lps_ok (kLPs s)" and "GetLiquidityProvider A s a addr = Inr lp" and "\<not> Address_IsEmpty addr"
    and "addr_plain addr"
  shows "asset_slot (lpAsset lp) = asset_slot a" and "to_upper (LiquidityProvider_GetAddress lp) = to_upper addr"
    and "addr_plain (LiquidityProvider_GetAddress lp)"
    and "f (new_lp A a addr) = 0 \<Longrightarrow>
      slot_val (lp_in ak f) (kLPs s (kv_key (LiquidityProvider_Key lp))) = lp_in ak f lp"
proof -
  let ?n = "new_lp A a addr" and ?k = "kv_key (LiquidityProvider_Key (new_lp A a addr))"
  note n = new_lp_facts(6) [OF assms(3), of A a]
  consider "kLPs s ?k = None" "lp = ?n"
    | "kLPs s ?k = Some (Stored lp)" "?k = kv_key (LiquidityProvider_Key lp)"
      "addr_plain (LiquidityProvider_GetAddress lp)"
  proof (cases "kLPs s ?k")
    case None
    with assms(2) have "lp = ?n" by (simp add: GetLiquidityProvider_def Let_def kv_get_def)
    with None show thesis by (rule that(1))
  next
    case (Some sl)
    with assms(1) obtain q where q: "sl = Stored q" "?k = kv_key (LiquidityProvider_Key q)"
      "addr_plain (LiquidityProvider_GetAddress q)" unfolding lps_ok_def by blast
    with Some assms(2) have "lp = q" by (simp add: GetLiquidityProvider_def Let_def kv_get_def)
    with Some q show thesis by (intro that(2)) simp_all
  qed
  then have "asset_slot (lpAsset lp) = asset_slot a \<and> to_upper (LiquidityProvider_GetAddress lp) = to_upper addr
    \<and> addr_plain (LiquidityProvider_GetAddress lp)
    \<and> (f ?n = 0 \<longrightarrow> slot_val (lp_in ak f) (kLPs s (kv_key (LiquidityProvider_Key lp))) = lp_in ak f lp)"
  proof cases
    case 1
    with assms(4) n show ?thesis by (simp add: new_lp_facts lp_in_def)
  next
    case 2
    moreover from 2 assms(4) n have "asset_slot (lpAsset ?n) = asset_slot (lpAsset lp)
        \<and> to_upper (LiquidityProvider_GetAddress ?n) = to_upper (LiquidityProvider_GetAddress lp)"
      using lp_key_eq_iff [of ?n lp] by simp
    ultimately show ?thesis using n by (simp add: new_lp_facts)
  qed
  then show "asset_slot (lpAsset lp) = asset_slot a" and "to_upper (LiquidityProvider_GetAddress lp) = to_upper addr"
    and "addr_plain (LiquidityProvider_GetAddress lp)"
    and "f ?n = 0 \<Longrightarrow> slot_val (lp_in ak f) (kLPs s (kv_key (LiquidityProvider_Key lp))) = lp_in ak f lp"
    by simp_all
qed

text \<open>
  Writing a pool and one of its providers back keeps a total when the two change by the same amount;
  removing the provider keeps it when the pool gives up the provider's amount.
\<close>

lemma balanced_step:
  assumes bal: "balanced pf lf s" and pool: "kPools s (asset_slot a) = Some (Stored p)"
    and new: "\<And>ak. kv_total (lp_in ak lf) m + lp_in ak lf lp = kv_total (lp_in ak lf) (kLPs s) + lp_in ak lf lp'"
    and slot: "asset_slot (lpAsset lp) = asset_slot a" "asset_slot (lpAsset lp') = asset_slot a"
    and "pf p' + lf lp = pf p + lf lp'" and kp: "kPools s' = (kPools s)(asset_slot a \<mapsto> Stored p')"
    and kl: "kLPs s' = m"
  shows "balanced pf lf s'"
proof -
  have "slot_val pf (kPools s' ak) = kv_total (lp_in ak lf) m" for ak
  proof (cases "ak = asset_slot a")
    case True
    moreover have "pf p = kv_total (lp_in (asset_slot a) lf) (kLPs s)"
      using bal pool unfolding balanced_def by (metis slot_val_simps(2))
    ultimately show ?thesis using new [of "asset_slot a"] slot assms(6) by (simp add: kp lp_in_def)
  next
    case False
    then show ?thesis using new [of ak] slot bal by (simp add: kp lp_in_def balanced_def)
  qed
  then show ?thesis by (simp add: balanced_def kl)
qed

lemma lp_inv_put:
  assumes inv: "lp_inv s" and pool: "PoolExist s a" "GetPool s a = Inr p"
    and lp: "GetLiquidityProvider A s a addr = Inr lp" "\<not> Address_IsEmpty addr" "addr_plain addr"
    and p': "pAsset p' = pAsset p"
    and lp': "kv_key (LiquidityProvider_Key lp') = kv_key (LiquidityProvider_Key lp)"
      "lpAsset lp' = lpAsset lp" "addr_plain (LiquidityProvider_GetAddress lp')"
    and units: "LPUnits p' + lpUnits lp = LPUnits p + lpUnits lp'"
      "PendingInboundSwitch p' + lpPendingSwitch lp = PendingInboundSwitch p + lpPendingSwitch lp'"
      "PendingInboundAsset p' + lpPendingAsset lp = PendingInboundAsset p + lpPendingAsset lp'"
    and kp: "kPools s' = (kPools s)(asset_slot (pAsset p') \<mapsto> Stored p')"
    and kl: "kLPs s' = kLPs (SetLiquidityProvider s lp')"
  shows "lp_inv s'"
proof -
  from inv have ok: "lps_ok (kLPs s)" "pools_ok (kPools s)" by (simp_all add: lp_inv_def)
  note p = GetPool_Inr [OF ok(2) pool] and l = GetLiquidityProvider_Inr [OF ok(1) lp]
  have fin: "finite (dom (kLPs s))" using ok(1) by (simp add: lps_ok_def)
  have tot: "kv_total (lp_in ak f) (kLPs s') + lp_in ak f lp = kv_total (lp_in ak f) (kLPs s) + lp_in ak f lp'"
    if "f (new_lp A a addr) = 0" for f ak
    using lps.total_put [OF fin, of "lp_in ak f" lp'] l(4) [where f = f and ak = ak, OF that] by (simp add: kl lp'(1))
  note step = balanced_step [where s = s and m = "kLPs s'" and s' = s' and p' = p', OF _ p(1) tot l(1)]
  have slot': "asset_slot (lpAsset lp') = asset_slot a" by (simp add: lp'(2) l(1))
  have kp': "kPools s' = (kPools s)(asset_slot a \<mapsto> Stored p')" by (simp add: kp p' p(2))
  have "balanced LPUnits lpUnits s'" "balanced PendingInboundSwitch lpPendingSwitch s'"
    "balanced PendingInboundAsset lpPendingAsset s'"
    using inv units slot' kp' by (auto simp: lp_inv_def new_lp_facts intro!: step)
  moreover have "lps_ok (kLPs s')"
    using ok(1) lp'(3) unfolding lps_ok_def kl lps.slot_put by auto
  moreover have "pools_ok (kPools s')" using ok(2) p p' unfolding pools_ok_def kp by auto
  ultimately show ?thesis by (simp add: lp_inv_def)
qed

lemma lp_inv_erase:
  assumes inv: "lp_inv s" and pool: "PoolExist s a" "GetPool s a = Inr p"
    and lp: "GetLiquidityProvider A s a addr = Inr lp" "\<not> Address_IsEmpty addr" "addr_plain addr"
    and p': "pAsset p' = pAsset p"
    and lp': "kv_key (LiquidityProvider_Key lp') = kv_key (LiquidityProvider_Key lp)"
    and units: "LPUnits p' + lpUnits lp = LPUnits p"
      "PendingInboundSwitch p' + lpPendingSwitch lp = PendingInboundSwitch p"
      "PendingInboundAsset p' + lpPendingAsset lp = PendingInboundAsset p"
    and kp: "kPools s' = (kPools s)(asset_slot (pAsset p') \<mapsto> Stored p')"
    and kl: "kLPs s' = kLPs (RemoveLiquidityProvider s lp')"
  shows "lp_inv s'"
proof -
  from inv have ok: "lps_ok (kLPs s)" "pools_ok (kPools s)" by (simp_all add: lp_inv_def)
  note p = GetPool_Inr [OF ok(2) pool] and l = GetLiquidityProvider_Inr [OF ok(1) lp]
  have fin: "finite (dom (kLPs s))" using ok(1) by (simp add: lps_ok_def)
  let ?z = "lp\<lparr>lpUnits := 0, lpPendingSwitch := 0, lpPendingAsset := 0\<rparr>"
  have tot: "kv_total (lp_in ak f) (kLPs s') + lp_in ak f lp = kv_total (lp_in ak f) (kLPs s) + lp_in ak f ?z"
    if "f (new_lp A a addr) = 0" "f ?z = 0" for f ak
    using lps.total_erase [OF fin, of "lp_in ak f" lp'] l(4) [where f = f and ak = ak, OF that(1)] that(2)
    by (simp add: kl lp'(1) lp_in_def)
  note step = balanced_step [where s = s and m = "kLPs s'" and s' = s' and p' = p' and lp' = ?z, OF _ p(1) tot l(1)]
  have kp': "kPools s' = (kPools s)(asset_slot a \<mapsto> Stored p')" by (simp add: kp p' p(2))
  have "balanced LPUnits lpUnits s'" "balanced PendingInboundSwitch lpPendingSwitch s'"
    "balanced PendingInboundAsset lpPendingAsset s'"
    using inv units l(1) kp' by (auto simp: lp_inv_def new_lp_facts intro!: step)
  moreover have "lps_ok (kLPs s')"
    using ok(1) unfolding lps_ok_def kl lps.slot_erase by auto
  moreover have "pools_ok (kPools s')" using ok(2) p p' unfolding pools_ok_def kp by auto
  ultimately show ?thesis by (simp add: lp_inv_def)
qed

text \<open>One provider's amount is part of the pool's total.\<close>

lemma lp_part_of_pool:
  assumes inv: "lp_inv s" and pool: "PoolExist s a" "GetPool s a = Inr p"
    and lp: "GetLiquidityProvider A s a addr = Inr lp" "\<not> Address_IsEmpty addr" "addr_plain addr"
  shows "lpUnits lp \<le> LPUnits p" and "lpPendingSwitch lp \<le> PendingInboundSwitch p"
    and "lpPendingAsset lp \<le> PendingInboundAsset p"
proof -
  from inv have ok: "lps_ok (kLPs s)" "pools_ok (kPools s)" by (simp_all add: lp_inv_def)
  note p = GetPool_Inr [OF ok(2) pool] and l = GetLiquidityProvider_Inr [OF ok(1) lp]
  have fin: "finite (dom (kLPs s))" using ok(1) by (simp add: lps_ok_def)
  have le: "f lp \<le> pf p" if "balanced pf f s" "f (new_lp A a addr) = 0" for f pf
  proof -
    have "f lp = slot_val (lp_in (asset_slot a) f) (kLPs s (kv_key (LiquidityProvider_Key lp)))"
      using l(4) [where f = f, OF that(2)] l(1) by (simp add: lp_in_def)
    also have "\<dots> \<le> kv_total (lp_in (asset_slot a) f) (kLPs s)" by (rule slot_le_total [OF fin])
    also have "\<dots> = pf p" using that(1) p(1) unfolding balanced_def by (metis slot_val_simps(2))
    finally show ?thesis .
  qed
  show "lpUnits lp \<le> LPUnits p" and "lpPendingSwitch lp \<le> PendingInboundSwitch p"
    and "lpPendingAsset lp \<le> PendingInboundAsset p"
    using inv by (auto simp: lp_inv_def new_lp_facts intro!: le)
qed

section \<open>The operations keep the accounts\<close>

lemma is_space_upper: "is_space (char_upper c) = is_space c"
  using of_char_upper [of c] by (auto simp: is_space_def Let_def)

lemma fold_blank: "to_upper x = to_upper y \<Longrightarrow> Address_IsEmpty x = Address_IsEmpty y"
proof -
  have "is_blank (to_upper z) = is_blank z" for z
    by (induction z) (simp_all add: is_blank_def is_space_upper)
  then show "to_upper x = to_upper y \<Longrightarrow> ?thesis" by (metis Address_IsEmpty_def)
qed

lemma fold_plain: "to_upper x = to_upper y \<Longrightarrow> addr_plain x = addr_plain y"
  unfolding addr_plain_def by (metis slash_upper)

lemma claim_addresses_Inr:
  "claim_addresses a sw as su = Inr su' \<Longrightarrow>
    su' = su\<lparr>lpSwitchAddress := lpSwitchAddress su', lpAssetAddress := lpAssetAddress su'\<rparr>"
  by (auto simp: claim_addresses_def Let_def split: if_splits)

lemma claim_addresses_key:
  assumes "claim_addresses a sw as su = Inr su'" and "aSynth a \<longrightarrow> Address_IsEmpty sw \<or> Address_IsEmpty as"
    and chk: "check_asset_address A a as su' = Inr ()"
    and f: "f = (if Address_IsEmpty sw then as else sw)" and "to_upper (LiquidityProvider_GetAddress su) = to_upper f"
  shows "to_upper (LiquidityProvider_GetAddress su') = to_upper f"
proof (cases "lpUnits su = 0")
  case True
  show ?thesis
  proof (cases "aSynth a")
    case True
    then have "lpSwitchAddress su' = ''''" "lpAssetAddress su' = as"
      using assms(1) \<open>lpUnits su = 0\<close> by (auto simp: claim_addresses_def Let_def split: if_splits)
    moreover from this have "\<not> Address_IsEmpty as"
      using chk True by (auto simp: check_asset_address_def res_simps)
    ultimately show ?thesis using True assms(2) f
      by (simp add: LiquidityProvider_GetAddress_def Address_IsEmpty_def is_blank_def)
  next
    case False
    then have "Address_Equals sw (lpSwitchAddress su')" "Address_Equals as (lpAssetAddress su')"
      using assms(1) \<open>lpUnits su = 0\<close> by (auto simp: claim_addresses_def Let_def split: if_splits)
    then have "to_upper sw = to_upper (lpSwitchAddress su')" "to_upper as = to_upper (lpAssetAddress su')"
      by (simp_all add: Address_Equals_def equal_fold_def)
    with fold_blank [of sw "lpSwitchAddress su'"] f show ?thesis
      by (simp add: LiquidityProvider_GetAddress_def)
  qed
next
  case False
  then show ?thesis using assms by (simp add: claim_addresses_def)
qed

lemma deposit_values_Inr:
  "deposit_values D p n su = Inr su' \<Longrightarrow>
    su' = su\<lparr>lpSwitchDepositValue := lpSwitchDepositValue su', lpAssetDepositValue := lpAssetDepositValue su'\<rparr>"
  by (auto simp: deposit_values_def res_simps split: if_splits)

lemma track_pol_Inr:
  "track_pol_deposit A c s su n = Inr s' \<Longrightarrow> kPools s' = kPools s \<and> kLPs s' = kLPs s"
  by (auto simp: track_pol_deposit_def res_simps split: if_splits)

text \<open>What a committed deposit writes.\<close>

lemma commit_liquidity_Inr:
  assumes "commit_liquidity D A c s a synthSupply p su ps pa = Inr s'"
  obtains u p' x y su' where "pAsset p' = pAsset p" and "LPUnits p' = LPUnits p + u"
    and "PendingInboundSwitch p' = PendingInboundSwitch p - lpPendingSwitch su"
    and "PendingInboundAsset p' = PendingInboundAsset p - lpPendingAsset su"
    and "BalanceSwitch p' = BalanceSwitch p + (if aSynth a then 0 else ps)"
    and "BalanceAsset p' = BalanceAsset p + pa"
    and "su' = su\<lparr>lpPendingAsset := 0, lpPendingSwitch := 0, lpPendingTxID := '''', lpUnits := lpUnits su + u,
          lpSwitchDepositValue := x, lpAssetDepositValue := y\<rparr>"
    and "kPools s' = (kPools s)(asset_slot (pAsset p') \<mapsto> Stored p')"
    and "kLPs s' = kLPs (SetLiquidityProvider s su')"
proof -
  let ?su = "su\<lparr>lpPendingAsset := 0, lpPendingSwitch := 0, lpPendingTxID := ''''\<rparr>"
  let ?q = "\<lambda>u. p\<lparr>PendingInboundSwitch := PendingInboundSwitch p - lpPendingSwitch su,
      PendingInboundAsset := PendingInboundAsset p - lpPendingAsset su, LPUnits := LPUnits p + u,
      BalanceSwitch := BalanceSwitch p + (if aSynth a then 0 else ps), BalanceAsset := BalanceAsset p + pa\<rparr>"
  from assms obtain u p' su' tot where c: "CalcUnits (?q u) synthSupply = Inr (tot, p')"
    and ne: "\<not> Asset_IsEmpty (pAsset p')"
    and d: "deposit_values D p' u (?su\<lparr>lpUnits := lpUnits su + u\<rparr>) = Inr su'"
    and t: "track_pol_deposit A c
        (SetLiquidityProvider (s\<lparr>kPools := (kPools s)(asset_slot (pAsset p') \<mapsto> Stored p')\<rparr>) su') su'
        (if aSynth a then 0 else ps) = Inr s'"
    by (cases "aSynth a") (auto simp: commit_liquidity_def Let_def res_simps uint_simps split: if_splits prod.splits)
  define q where "q = ?q u"
  then have q: "pAsset q = pAsset p" "LPUnits q = LPUnits p + u"
      "PendingInboundSwitch q = PendingInboundSwitch p - lpPendingSwitch su"
      "PendingInboundAsset q = PendingInboundAsset p - lpPendingAsset su"
      "BalanceSwitch q = BalanceSwitch p + (if aSynth a then 0 else ps)" "BalanceAsset q = BalanceAsset p + pa"
    by simp_all
  from c have c: "CalcUnits q synthSupply = Inr (tot, p')" by (simp only: q_def)
  from CalcUnits_Inr [OF c] have p': "p' = q\<lparr>SynthUnits := SynthUnits p'\<rparr>" by blast
  have fields: "pAsset p' = pAsset q" "LPUnits p' = LPUnits q" "PendingInboundSwitch p' = PendingInboundSwitch q"
    "PendingInboundAsset p' = PendingInboundAsset q" "BalanceSwitch p' = BalanceSwitch q" "BalanceAsset p' = BalanceAsset q"
    by (subst p', simp)+
  from deposit_values_Inr [OF d] obtain x y
    where su': "su' = ?su\<lparr>lpUnits := lpUnits su + u, lpSwitchDepositValue := x, lpAssetDepositValue := y\<rparr>" by blast
  from track_pol_Inr [OF t] have "kPools s' = (kPools s)(asset_slot (pAsset p') \<mapsto> Stored p')"
    "kLPs s' = kLPs (SetLiquidityProvider s su')" by (simp_all add: SetLiquidityProvider_def)
  with q fields su' show thesis by (intro that [of p' u su' y x]) simp_all
qed

lemma lp_key_cong:
  assumes "lpAsset lp = lpAsset lp'" and "lpSwitchAddress lp = lpSwitchAddress lp'" and "lpAssetAddress lp = lpAssetAddress lp'"
  shows "LiquidityProvider_GetAddress lp = LiquidityProvider_GetAddress lp'"
    and "LiquidityProvider_Key lp = LiquidityProvider_Key lp'"
  using assms by (simp_all add: LiquidityProvider_GetAddress_def LiquidityProvider_Key_def)

lemma save_pending_Inr:
  assumes "\<not> Asset_IsEmpty (pAsset p)"
  shows "kPools (save_pending s su p) = (kPools s)(asset_slot (pAsset p) \<mapsto> Stored p)"
    and "kLPs (save_pending s su p) = kLPs (SetLiquidityProvider s su)"
  using assms by (auto simp: save_pending_def Let_def SetPool_def kv_set_def asset_slot_def split: sum.splits)

lemma stage_or_commit_cases:
  assumes "stage_or_commit D A c s a ssup p su addS addA h stage = Inr s'"
  obtains "s' = save_pending s (su\<lparr>lpPendingSwitch := lpPendingSwitch su + addS, lpPendingTxID := h\<rparr>)
      (p\<lparr>PendingInboundSwitch := PendingInboundSwitch p + addS\<rparr>)"
  | "s' = save_pending s (su\<lparr>lpPendingAsset := lpPendingAsset su + addA, lpPendingTxID := h\<rparr>)
      (p\<lparr>PendingInboundAsset := PendingInboundAsset p + addA\<rparr>)"
  | "commit_liquidity D A c s a ssup p su (lpPendingSwitch su + addS) (lpPendingAsset su + addA) = Inr s'"
  using assms unfolding stage_or_commit_def
  by (auto simp only: res_simps uint_simps split: if_splits)

lemma add_keeps_inv:
  assumes inv: "lp_inv s" and run: "addLiquidity D A c s a addS addA sw as h stage = Inr s'"
    and plain: "addr_plain sw" "addr_plain as" and synth: "aSynth a \<longrightarrow> Address_IsEmpty sw \<or> Address_IsEmpty as"
  shows "lp_inv s'"
proof -
  define f where "f = (if Address_IsEmpty sw then as else sw)"
  from run obtain p0 ssup tot p su0 su
    where v: "validateAddLiquidityMessage s a h sw as = Inr ()" and p0: "GetPool s a = Inr p0"
      and cu: "CalcUnits p0 ssup = Inr (tot, p)" and su0: "GetLiquidityProvider A s a f = Inr su0"
      and cl: "claim_addresses a sw as (su0\<lparr>lpLastAddHeight := BlockHeight c\<rparr>) = Inr su"
      and chk: "check_asset_address A a as su = Inr ()"
      and sc: "stage_or_commit D A c s a ssup p su addS addA h stage = Inr s'"
    unfolding addLiquidity_def f_def Let_def by (auto simp: res_simps split: prod.splits)
  from v have ex: "PoolExist s a" and ne: "\<not> (Address_IsEmpty sw \<and> Address_IsEmpty as)"
    by (auto simp: validateAddLiquidityMessage_def split: if_splits)
  from ne have f: "\<not> Address_IsEmpty f" "addr_plain f" using plain by (auto simp: f_def)
  have ok: "lps_ok (kLPs s)" "pools_ok (kPools s)" using inv by (simp_all add: lp_inv_def)
  note pool = GetPool_Inr [OF ok(2) ex p0] and l = GetLiquidityProvider_Inr [OF ok(1) su0 f]
  have p: "pAsset p = pAsset p0" "LPUnits p = LPUnits p0" "PendingInboundSwitch p = PendingInboundSwitch p0"
    "PendingInboundAsset p = PendingInboundAsset p0"
    using CalcUnits_Inr [OF cu] by (metis pool.select_convs pool.update_convs(8) pool.surjective)+
  have su: "lpAsset su = lpAsset su0" "lpUnits su = lpUnits su0" "lpPendingSwitch su = lpPendingSwitch su0"
    "lpPendingAsset su = lpPendingAsset su0"
    by (subst claim_addresses_Inr [OF cl], simp)+
  have up: "to_upper (LiquidityProvider_GetAddress su) = to_upper f"
    using lp_key_cong(1) [of "su0\<lparr>lpLastAddHeight := BlockHeight c\<rparr>" su0] l(2)
    by (intro claim_addresses_key [OF cl synth chk f_def]) simp
  have plain': "addr_plain (LiquidityProvider_GetAddress su)" using fold_plain [OF up] f by simp
  have key: "kv_key (LiquidityProvider_Key su) = kv_key (LiquidityProvider_Key su0)"
    using lp_key_eq_iff [OF plain' l(3)] su(1) up l(2) by simp
  have put: "lp_inv s'"
    if "pAsset p' = pAsset p" "lpAsset su' = lpAsset su" "lpSwitchAddress su' = lpSwitchAddress su"
      "lpAssetAddress su' = lpAssetAddress su" "LPUnits p' + lpUnits su = LPUnits p + lpUnits su'"
      "PendingInboundSwitch p' + lpPendingSwitch su = PendingInboundSwitch p + lpPendingSwitch su'"
      "PendingInboundAsset p' + lpPendingAsset su = PendingInboundAsset p + lpPendingAsset su'"
      "kPools s' = (kPools s)(asset_slot (pAsset p') \<mapsto> Stored p')" "kLPs s' = kLPs (SetLiquidityProvider s su')"
    for p' su'
  proof (rule lp_inv_put [OF inv ex p0 su0 f _ _ _ _ _ _ _ that(8,9)])
    note k = lp_key_cong [OF that(2-4)]
    show "pAsset p' = pAsset p0" "lpAsset su' = lpAsset su0" using that p su by simp_all
    show "kv_key (LiquidityProvider_Key su') = kv_key (LiquidityProvider_Key su0)" using k(2) key by simp
    show "addr_plain (LiquidityProvider_GetAddress su')" using k(1) plain' by simp
  qed (use that p su in simp_all)
  from sc show ?thesis
  proof (rule stage_or_commit_cases)
    assume "s' = save_pending s (su\<lparr>lpPendingSwitch := lpPendingSwitch su + addS, lpPendingTxID := h\<rparr>)
      (p\<lparr>PendingInboundSwitch := PendingInboundSwitch p + addS\<rparr>)"
    with save_pending_Inr pool(3) p(1) show ?thesis
      by (intro put [of "p\<lparr>PendingInboundSwitch := PendingInboundSwitch p + addS\<rparr>"
            "su\<lparr>lpPendingSwitch := lpPendingSwitch su + addS, lpPendingTxID := h\<rparr>"]) simp_all
  next
    assume "s' = save_pending s (su\<lparr>lpPendingAsset := lpPendingAsset su + addA, lpPendingTxID := h\<rparr>)
      (p\<lparr>PendingInboundAsset := PendingInboundAsset p + addA\<rparr>)"
    with save_pending_Inr pool(3) p(1) show ?thesis
      by (intro put [of "p\<lparr>PendingInboundAsset := PendingInboundAsset p + addA\<rparr>"
            "su\<lparr>lpPendingAsset := lpPendingAsset su + addA, lpPendingTxID := h\<rparr>"]) simp_all
  next
    assume "commit_liquidity D A c s a ssup p su (lpPendingSwitch su + addS) (lpPendingAsset su + addA) = Inr s'"
    then show ?thesis
    proof (rule commit_liquidity_Inr)
      fix u p' x y su'
      assume "pAsset p' = pAsset p" "LPUnits p' = LPUnits p + u"
        "PendingInboundSwitch p' = PendingInboundSwitch p - lpPendingSwitch su"
        "PendingInboundAsset p' = PendingInboundAsset p - lpPendingAsset su"
        "su' = su\<lparr>lpPendingAsset := 0, lpPendingSwitch := 0, lpPendingTxID := '''', lpUnits := lpUnits su + u,
          lpSwitchDepositValue := x, lpAssetDepositValue := y\<rparr>"
        "kPools s' = (kPools s)(asset_slot (pAsset p') \<mapsto> Stored p')" "kLPs s' = kLPs (SetLiquidityProvider s su')"
      moreover have "lpPendingSwitch su \<le> PendingInboundSwitch p" "lpPendingAsset su \<le> PendingInboundAsset p"
        using lp_part_of_pool [OF inv ex p0 su0 f] su p by simp_all
      ultimately show ?thesis by (intro put [of p' su']) simp_all
    qed
  qed
qed

section \<open>Withdrawals take from the pool exactly what they pay\<close>

lemma RoundToDecimal_le: "RoundToDecimal n d = Inr m \<Longrightarrow> m \<le> n"
  by (auto simp: RoundToDecimal_def Let_def res_simps uint_simps split: if_splits)

lemma half_swap_le:
  assumes "dec_laws D" and "half_swap D X x Y yAdd minBps waive = Inr out"
  shows "out \<le> Y + yAdd"
proof -
  from assms(2) obtain slip y fee bps where y: "GetSwapCalc D X x Y slip minBps = Inr (y, fee, bps)"
    and out: "out \<le> y + fee + yAdd"
    by (auto simp: half_swap_def res_simps uint_simps split: if_splits prod.splits)
  have "y + fee \<le> x * Y div (x + X)" using GetSwapCalc_out [OF assms(1) y] by blast
  also have "\<dots> \<le> (x + X) * Y div (x + X)" by (intro div_le_mono) simp
  also have "\<dots> \<le> Y" by (cases "x + X = 0") auto
  finally show ?thesis using out by simp
qed

text \<open>No withdrawal, symmetric or to one side, pays more than the pool has, and claimed units are left to
  the provider or burned, never made.\<close>

lemma calculateWithdraw_bounds:
  assumes D: "dec_laws D" and "calculateWithdraw D A c s pa tot R As u bps wa addr = Inr (ws, w, ua)"
  shows "ws \<le> R \<and> w \<le> As \<and> ua \<le> u"
proof -
  note le = dec_laws.safe_share_le [OF D]
  let ?q = "GetSafeShare D bps 10000 u"
  have R: "GetSafeShare D ?q tot R \<le> R" and As: "GetSafeShare D ?q tot As \<le> As" by (rule le)+
  consider "ws = GetSafeShare D ?q tot R" "w = GetSafeShare D ?q tot As" "ua = u - ?q"
    | X x m wv where "half_swap D X x (R - GetSafeShare D ?q tot R) (GetSafeShare D ?q tot R) m wv = Inr ws" "w = 0" "ua = u - ?q"
    | X x m wv where "half_swap D X x (As - GetSafeShare D ?q tot As) (GetSafeShare D ?q tot As) m wv = Inr w" "ws = 0" "ua = u - ?q"
    using assms(2) unfolding calculateWithdraw_def Let_def by (auto simp: res_simps split: if_splits)
  then show ?thesis
  proof cases
    case 1
    with R As show ?thesis by simp
  next
    case 2
    with half_swap_le [OF D 2(1)] R show ?thesis by simp
  next
    case 3
    with half_swap_le [OF D 3(1)] As show ?thesis by simp
  qed
qed

lemma withdraw_amounts_bounds:
  assumes D: "dec_laws D" and "withdraw_amounts D A c s msg p lp tot = Inr (ws, w, ua)"
  shows "ws \<le> BalanceSwitch p \<and> w \<le> BalanceAsset p \<and> ua \<le> lpUnits lp"
proof (cases "aSynth (pAsset p)")
  case True
  with assms(2) show ?thesis
    by (auto simp: withdraw_amounts_def calculateVaultWithdraw_def Let_def dec_laws.safe_share_le [OF D] split: if_splits)
next
  case False
  with assms(2) obtain wa where "calculateWithdraw D A c s (pAsset p) tot (BalanceSwitch p) (BalanceAsset p)
      (lpUnits lp) (mwlBasisPoints msg) wa (mwlWithdrawAddress msg) = Inr (ws, w, ua)"
    by (auto simp: withdraw_amounts_def Let_def split: sum.splits go_error.splits if_splits prod.splits)
  with calculateWithdraw_bounds [OF D] show ?thesis by blast
qed

lemma withdraw_gas_le: "withdraw_gas s p tot u ua w = Inr (g, w') \<Longrightarrow> w' + g = w"
  by (auto simp: withdraw_gas_def Let_def res_simps uint_simps split: if_splits sum.splits go_error.splits)

lemma withdrawn_lp_Inr:
  "withdrawn_lp D c msg p tot ua lp = Inr lp' \<Longrightarrow>
    lpAsset lp' = lpAsset lp \<and> lpSwitchAddress lp' = lpSwitchAddress lp \<and> lpAssetAddress lp' = lpAssetAddress lp
    \<and> lpUnits lp' = ua \<and> lpPendingSwitch lp' = lpPendingSwitch lp \<and> lpPendingAsset lp' = lpPendingAsset lp"
  by (auto simp: withdrawn_lp_def res_simps split: if_splits)

lemma pool_after_withdraw_facts:
  "pAsset (pool_after_withdraw p u x y) = pAsset p" "LPUnits (pool_after_withdraw p u x y) = LPUnits p - u"
  "BalanceSwitch (pool_after_withdraw p u x y) = BalanceSwitch p - x"
  "BalanceAsset (pool_after_withdraw p u x y) = BalanceAsset p - y"
  "PendingInboundSwitch (pool_after_withdraw p u x y) = PendingInboundSwitch p"
  "PendingInboundAsset (pool_after_withdraw p u x y) = PendingInboundAsset p"
  by (simp_all add: pool_after_withdraw_def Let_def)

text \<open>The effect of a withdrawal of units on the store.\<close>

lemma withdraw_units_Inr:
  assumes D: "dec_laws D" and "withdraw_units D A c s msg tot p lp = Inr ((ws, w, u, g), s')"
  obtains lp' where "ws \<le> BalanceSwitch p" and "w + g \<le> BalanceAsset p" and "0 < u" and "u \<le> lpUnits lp"
    and "lpAsset lp' = lpAsset lp" and "lpSwitchAddress lp' = lpSwitchAddress lp" and "lpAssetAddress lp' = lpAssetAddress lp"
    and "lpUnits lp' = lpUnits lp - u" and "lpPendingSwitch lp' = lpPendingSwitch lp" and "lpPendingAsset lp' = lpPendingAsset lp"
    and "kPools s' = (kPools s)(asset_slot (pAsset p) \<mapsto> Stored (pool_after_withdraw p u ws w))"
    and "kLPs s' = kLPs (SetLiquidityProvider s lp')
      \<or> lpUnits lp' = 0 \<and> lpPendingSwitch lp' = 0 \<and> lpPendingAsset lp' = 0 \<and> kLPs s' = kLPs (RemoveLiquidityProvider s lp')"
proof -
  from assms(2) obtain w0 ua w1 lp' s1 where am: "withdraw_amounts D A c s msg p lp tot = Inr (ws, w0, ua)"
    and r: "RoundToDecimal w0 (pDecimals p) = Inr w1" and gas: "withdraw_gas s p tot (lpUnits lp) ua w1 = Inr (g, w)"
    and l: "withdrawn_lp D c msg p tot ua lp = Inr lp'" and ua: "ua < lpUnits lp" and u: "u = lpUnits lp - ua"
    and s1: "s1 = s\<lparr>kPools := (kPools s)(asset_slot (pAsset p) \<mapsto> Stored (pool_after_withdraw p u ws w))\<rparr>"
    and sv: "save_withdrawn s1 lp' = Inr s'"
    unfolding withdraw_units_def by (auto simp: res_simps pool_after_withdraw_facts split: prod.splits)
  have bounds: "ws \<le> BalanceSwitch p" "w0 \<le> BalanceAsset p" using withdraw_amounts_bounds [OF D am] by simp_all
  have "w + g \<le> BalanceAsset p" using withdraw_gas_le [OF gas] RoundToDecimal_le [OF r] bounds by simp
  moreover have "kPools s' = kPools s1"
    and "kLPs s' = kLPs (SetLiquidityProvider s lp')
      \<or> lpUnits lp' = 0 \<and> lpPendingSwitch lp' = 0 \<and> lpPendingAsset lp' = 0 \<and> kLPs s' = kLPs (RemoveLiquidityProvider s lp')"
    using sv unfolding s1
    by (auto simp: save_withdrawn_def res_simps uint_simps SetLiquidityProvider_def RemoveLiquidityProvider_def
        split: if_splits)
  ultimately show thesis using withdrawn_lp_Inr [OF l] bounds(1) ua u by (intro that [of lp']) (simp_all add: s1)
qed

lemma withdraw_effect:
  assumes D: "dec_laws D" and inv: "lp_inv s" and run: "withdraw D A c s msg = Inr ((ws, w, u, g), s')"
    and plain: "addr_plain (mwlWithdrawAddress msg)"
  shows "lp_inv s' \<and> (\<exists>p p'. GetPool s (mwlAsset msg) = Inr p \<and> GetPool s' (mwlAsset msg) = Inr p'
    \<and> LPUnits p' + u = LPUnits p
    \<and> (if u = 0
       then BalanceSwitch p' = BalanceSwitch p \<and> BalanceAsset p' = BalanceAsset p
         \<and> PendingInboundSwitch p' + ws = PendingInboundSwitch p \<and> PendingInboundAsset p' + w \<le> PendingInboundAsset p
       else BalanceSwitch p' + ws = BalanceSwitch p \<and> BalanceAsset p' + w = BalanceAsset p
         \<and> PendingInboundSwitch p' = PendingInboundSwitch p \<and> PendingInboundAsset p' = PendingInboundAsset p))"
proof -
  let ?a = "mwlAsset msg" and ?f = "mwlWithdrawAddress msg"
  from run obtain p0 ssup tot p lp where v: "validateWithdraw s msg = Inr ()" and p0: "GetPool s ?a = Inr p0"
      and cu: "CalcUnits p0 ssup = Inr (tot, p)" and lp: "GetLiquidityProvider A s ?a ?f = Inr lp"
      and rest: "lpUnits lp = 0 \<and> withdraw_pending s p lp = Inr ((ws, w, u, g), s')
        \<or> withdraw_units D A c s msg tot p lp = Inr ((ws, w, u, g), s')"
    unfolding withdraw_def by (auto simp: res_simps split: prod.splits if_splits)
  from v have ex: "PoolExist s ?a" and f: "\<not> Address_IsEmpty ?f"
    by (auto simp: validateWithdraw_def split: if_splits)
  have ok: "lps_ok (kLPs s)" "pools_ok (kPools s)" using inv by (simp_all add: lp_inv_def)
  note pool = GetPool_Inr [OF ok(2) ex p0]
  have p: "pAsset p = pAsset p0" "LPUnits p = LPUnits p0" "PendingInboundSwitch p = PendingInboundSwitch p0"
    "PendingInboundAsset p = PendingInboundAsset p0" "BalanceSwitch p = BalanceSwitch p0" "BalanceAsset p = BalanceAsset p0"
    using CalcUnits_Inr [OF cu] by (metis pool.select_convs pool.update_convs(8) pool.surjective)+
  note part = lp_part_of_pool [OF inv ex p0 lp f plain]
  have read: "GetPool s' ?a = Inr p'" if "kPools s' = (kPools s)(asset_slot (pAsset p0) \<mapsto> Stored p')" for p'
    using that pool(2) by (simp add: GetPool_def kv_get_def asset_slot_def)
  from rest show ?thesis
  proof (elim disjE conjE)
    assume u0: "lpUnits lp = 0" and wp: "withdraw_pending s p lp = Inr ((ws, w, u, g), s')"
    define p' where "p' = p\<lparr>PendingInboundSwitch := PendingInboundSwitch p - lpPendingSwitch lp,
                   PendingInboundAsset := PendingInboundAsset p - lpPendingAsset lp\<rparr>"
    have k: "kPools s' = (kPools s)(asset_slot (pAsset p0) \<mapsto> Stored p')" "kLPs s' = kLPs (RemoveLiquidityProvider s lp)"
      and out: "ws = lpPendingSwitch lp" "u = 0" "RoundToDecimal (lpPendingAsset lp) (pDecimals p) = Inr w"
      using wp pool(3) p(1) u0
      by (auto simp: withdraw_pending_def Let_def SetPool_def kv_set_def res_simps p'_def RemoveLiquidityProvider_def
          asset_slot_def split: if_splits)
    have "lp_inv s'"
      by (rule lp_inv_erase [OF inv ex p0 lp f plain, of p' lp]) (use k part p u0 in \<open>simp_all add: p'_def\<close>)
    with read [OF k(1)] p0 out part p RoundToDecimal_le [OF out(3)] show ?thesis by (auto simp: p'_def)
  next
    assume wu: "withdraw_units D A c s msg tot p lp = Inr ((ws, w, u, g), s')"
    show ?thesis
    proof (rule withdraw_units_Inr [OF D wu])
      fix lp'
      let ?p = "pool_after_withdraw p u ws w"
      assume b: "ws \<le> BalanceSwitch p" "w + g \<le> BalanceAsset p" "0 < u" "u \<le> lpUnits lp"
        and l: "lpAsset lp' = lpAsset lp" "lpSwitchAddress lp' = lpSwitchAddress lp" "lpAssetAddress lp' = lpAssetAddress lp"
        "lpUnits lp' = lpUnits lp - u" "lpPendingSwitch lp' = lpPendingSwitch lp" "lpPendingAsset lp' = lpPendingAsset lp"
        and kp: "kPools s' = (kPools s)(asset_slot (pAsset p) \<mapsto> Stored ?p)"
        and kl: "kLPs s' = kLPs (SetLiquidityProvider s lp') \<or> lpUnits lp' = 0 \<and> lpPendingSwitch lp' = 0
          \<and> lpPendingAsset lp' = 0 \<and> kLPs s' = kLPs (RemoveLiquidityProvider s lp')"
      note key = lp_key_cong [OF l(1-3)]
      note plain' = GetLiquidityProvider_Inr(3) [OF ok(1) lp f plain]
      have "u \<le> LPUnits p" using b(4) part(1) p(2) by simp
      have "lp_inv s'" using kl
      proof (elim disjE conjE)
        assume "kLPs s' = kLPs (SetLiquidityProvider s lp')"
        then show ?thesis
          by (intro lp_inv_put [OF inv ex p0 lp f plain, of ?p lp'])
             (use kp part p l b key plain' in \<open>simp_all add: pool_after_withdraw_facts\<close>)
      next
        assume "lpUnits lp' = 0" "lpPendingSwitch lp' = 0" "lpPendingAsset lp' = 0"
          "kLPs s' = kLPs (RemoveLiquidityProvider s lp')"
        then show ?thesis
          by (intro lp_inv_erase [OF inv ex p0 lp f plain, of ?p lp'])
             (use kp part p l b key in \<open>simp_all add: pool_after_withdraw_facts\<close>)
      qed
      moreover have "GetPool s' ?a = Inr ?p" using read kp p(1) by simp
      ultimately show ?thesis using p0 p b \<open>u \<le> LPUnits p\<close> by (auto simp: pool_after_withdraw_facts)
    qed
  qed
qed

section \<open>Histories of a liquidity store\<close>

text \<open>
  The rest of the program (swaps, donations, rewards, gas) changes depths and status of pools, never
  the units and the pending amounts: \<open>other\<close> stands for all of it.
\<close>

definition same_claims :: "pool kv \<Rightarrow> pool kv \<Rightarrow> bool" where
  "same_claims m m' \<longleftrightarrow> (\<forall>k. m' k = m k \<or> (\<exists>p p'. m k = Some (Stored p) \<and> m' k = Some (Stored p')
     \<and> pAsset p' = pAsset p \<and> LPUnits p' = LPUnits p \<and> PendingInboundSwitch p' = PendingInboundSwitch p
     \<and> PendingInboundAsset p' = PendingInboundAsset p))"

text \<open>Addresses that \<open>NewAddress\<close> accepts have no slash; a deposit of a synth names one address.\<close>

definition deposit_ok :: "msg_add_liquidity \<Rightarrow> bool" where
  "deposit_ok msg \<longleftrightarrow> addr_plain (malSwitchAddress msg) \<and> addr_plain (malAssetAddress msg)
     \<and> addr_plain (malAffiliateAddress msg)
     \<and> (aSynth (malAsset msg) \<longrightarrow> Address_IsEmpty (malSwitchAddress msg) \<or> Address_IsEmpty (malAssetAddress msg))"

inductive liq_reach :: "dec_lib \<Rightarrow> addr_lib \<Rightarrow> kstore \<Rightarrow> bool" for D A where
  init: "kPools s = Map.empty \<Longrightarrow> kLPs s = Map.empty \<Longrightarrow> liq_reach D A s"
| add: "liq_reach D A s \<Longrightarrow> deposit_ok msg \<Longrightarrow> AddLiquidity_handle D A c s msg = Inr s' \<Longrightarrow> liq_reach D A s'"
| withdraw: "liq_reach D A s \<Longrightarrow> addr_plain (mwlWithdrawAddress wmsg) \<Longrightarrow> withdraw D A c s wmsg = Inr (r, s')
    \<Longrightarrow> liq_reach D A s'"
| other: "liq_reach D A s \<Longrightarrow> kLPs s' = kLPs s \<Longrightarrow> same_claims (kPools s) (kPools s') \<Longrightarrow> liq_reach D A s'"

lemma same_claims_inv:
  assumes inv: "lp_inv s" and kl: "kLPs s' = kLPs s" and sc: "same_claims (kPools s) (kPools s')"
  shows "lp_inv s'"
proof -
  have "slot_val pf (kPools s' k) = slot_val pf (kPools s k)"
    if "pf \<in> {LPUnits, PendingInboundSwitch, PendingInboundAsset}" for pf k
    using sc [unfolded same_claims_def, rule_format, of k] that by auto
  then have "balanced LPUnits lpUnits s'" "balanced PendingInboundSwitch lpPendingSwitch s'"
    "balanced PendingInboundAsset lpPendingAsset s'"
    using inv by (auto simp: lp_inv_def balanced_def kl)
  moreover have "pools_ok (kPools s')"
    unfolding pools_ok_def
  proof (intro allI impI)
    fix k sl assume k: "kPools s' k = Some sl"
    have ok: "\<And>sl. kPools s k = Some sl \<Longrightarrow> \<exists>p. sl = Stored p \<and> k = asset_slot (pAsset p) \<and> \<not> Asset_IsEmpty (pAsset p)"
      using inv unfolding lp_inv_def pools_ok_def by blast
    from sc [unfolded same_claims_def, rule_format, of k]
    show "\<exists>p. sl = Stored p \<and> k = asset_slot (pAsset p) \<and> \<not> Asset_IsEmpty (pAsset p)"
    proof (elim disjE exE conjE)
      assume "kPools s' k = kPools s k"
      with k ok show ?thesis by simp
    next
      fix p p' assume "kPools s k = Some (Stored p)" "kPools s' k = Some (Stored p')" "pAsset p' = pAsset p"
      with k ok [of "Stored p"] show ?thesis by (intro exI [of _ p']) auto
    qed
  qed
  ultimately show ?thesis using inv by (simp add: lp_inv_def kl)
qed

lemma open_pool_keeps_inv:
  assumes inv: "lp_inv s" and run: "open_pool c s a = Inr (p, s')"
  shows "lp_inv s' \<and> kPools s' (asset_slot a) = Some (Stored p) \<and> asset_slot (pAsset p) = asset_slot a
    \<and> \<not> Asset_IsEmpty (pAsset p)"
proof -
  have ok: "pools_ok (kPools s)" using inv by (simp add: lp_inv_def)
  from run obtain q where q: "GetPool s a = Inr q" by (auto simp: open_pool_def res_simps)
  show ?thesis
  proof (cases "kPools s (asset_slot a)")
    case None
    with q have "q = NewPool" by (simp add: GetPool_def kv_get_def asset_slot_def)
    moreover from this have "Pool_IsEmpty q" by (simp add: NewPool_def Pool_IsEmpty_def) code_simp
    ultimately obtain st where p: "p = NewPool\<lparr>pAsset := a, pStatus := st\<rparr>" and ne: "\<not> Asset_IsEmpty a"
      and s': "s' = s\<lparr>kPools := (kPools s)(asset_slot a \<mapsto> Stored p)\<rparr>"
      using run q by (auto simp: open_pool_def Let_def res_simps)
    have "balanced pf lf s'" if "balanced pf lf s" "pf p = 0" for pf lf
      using that None by (auto simp: balanced_def s')
        (metis slot_val_simps(1))
    moreover have "pools_ok (kPools s')" using ok p ne by (auto simp: pools_ok_def s')
    ultimately show ?thesis using inv p ne by (auto simp: lp_inv_def s' NewPool_def)
  next
    case (Some sl)
    then have ex: "PoolExist s a" by (simp add: PoolExist_def asset_slot_def)
    note g = GetPool_Inr [OF ok ex q]
    with run q inv show ?thesis by (auto simp: open_pool_def res_simps Pool_IsEmpty_def)
  qed
qed

lemma handle_keeps_inv:
  assumes inv: "lp_inv s" and ok: "deposit_ok msg" and run: "AddLiquidity_handle D A c s msg = Inr s'"
  shows "lp_inv s'"
proof -
  let ?a = "malAsset msg" and ?b = "malAffiliateAddress msg"
  from run obtain p s1 s2 where o: "open_pool c s ?a = Inr (p, s1)" and d: "set_decimals s1 msg p = Inr s2"
    unfolding AddLiquidity_handle_def by (auto simp: res_simps)
  from open_pool_keeps_inv [OF inv o]
  have s1: "lp_inv s1" "kPools s1 (asset_slot ?a) = Some (Stored p)" "asset_slot (pAsset p) = asset_slot ?a" by blast+
  have "kLPs s2 = kLPs s1 \<and> same_claims (kPools s1) (kPools s2)"
    using d s1(2,3) by (auto simp: set_decimals_def Let_def res_simps same_claims_def split: if_splits)
  with same_claims_inv [OF s1(1)] have s2: "lp_inv s2" by blast
  have user: "lp_inv s3" if "addLiquidity D A c s2 ?a x y (malSwitchAddress msg) (malAssetAddress msg) z st = Inr s3"
    for x y z st s3
    using add_keeps_inv [OF s2 that] ok by (simp add: deposit_ok_def)
  show ?thesis
  proof (cases "malAffiliateBasisPoints msg = 0")
    case True
    with run o d user show ?thesis by (simp add: AddLiquidity_handle_def)
  next
    case False
    define sw where "sw = (if IsChain A ?b SWITCHLYChain then ?b else [])"
    define as where "as = (if IsChain A ?b SWITCHLYChain then [] else ?b)"
    have "addr_plain sw" "addr_plain as" "Address_IsEmpty sw \<or> Address_IsEmpty as"
      using ok by (auto simp: deposit_ok_def sw_def as_def addr_plain_def Address_IsEmpty_def is_blank_def)
    moreover from False run o d obtain s3 x y x' y' where
      "addLiquidity D A c s2 ?a x y (malSwitchAddress msg) (malAssetAddress msg) (tID (malTx msg)) (is_staged msg) = Inr s3"
      and aff: "addLiquidity D A c s3 ?a x' y' sw as (tID (malTx msg)) False = Inr s'"
      unfolding AddLiquidity_handle_def Let_def sw_def as_def by (auto simp only: res_simps prod.case sum.inject if_False)
    ultimately show ?thesis using add_keeps_inv [OF user aff] by blast
  qed
qed

lemma liq_reach_inv:
  assumes "dec_laws D" and "liq_reach D A s"
  shows "lp_inv s"
  using assms(2)
proof induction
  case (init s)
  then show ?case by (simp add: lp_inv_def lps_ok_def pools_ok_def balanced_def kv_total_def)
next
  case (add s msg c s')
  then show ?case using handle_keeps_inv by blast
next
  case (withdraw s wmsg c r s')
  obtain ws w u g where "r = (ws, w, u, g)" by (cases r) auto
  with withdraw_effect [OF assms(1) withdraw.IH] withdraw.hyps show ?case by blast
next
  case (other s s')
  then show ?case using same_claims_inv by blast
qed

end
