(* ===== verification/Liquidity_Claims.thy ===== *)
theory Liquidity_Claims
  imports Liquidity
begin

text \<open>The conservation properties of the liquidity operations (theory Liquidity), with a deposit and a
  withdrawal evaluated on a concrete store.\<close>

section \<open>Properties\<close>



section \<open>Concrete runs\<close>

definition demo_add :: msg_add_liquidity where
  "demo_add = \<lparr>malTx = NewTx ''T1'' ''bc1a'' ''bc1v'' [] [] '''', malAsset = BTCAsset, malAssetAmount = 40,
     malSwitchAmount = 1000, malSwitchAddress = ''switch1a'', malAssetAddress = ''bc1a'',
     malAffiliateAddress = '''', malAffiliateBasisPoints = 0, malSigner = ''n''\<rparr>"

definition demo_withdraw :: msg_withdraw_liquidity where
  "demo_withdraw = \<lparr>mwlTx = NewTx ''T1'' ''bc1a'' ''bc1v'' [] [] '''', mwlWithdrawAddress = ''switch1a'',
     mwlBasisPoints = 5000, mwlAsset = BTCAsset, mwlWithdrawalAsset = EmptyAsset, mwlSigner = ''n''\<rparr>"

definition demo_lp :: liquidity_provider where
  "demo_lp = (new_lp plain_addrs BTCAsset ''switch1a'')\<lparr>lpAssetAddress := ''bc1a'', lpLastAddHeight := 10,
     lpUnits := 1000, lpSwitchDepositValue := 1000, lpAssetDepositValue := 40\<rparr>"

definition demo_added :: kstore where
  "demo_added = empty_kstore\<lparr>
     kPools := [''BTC.BTC'' \<mapsto> Stored (NewPool\<lparr>BalanceSwitch := 1000, BalanceAsset := 40, pAsset := BTCAsset, LPUnits := 1000\<rparr>)],
     kLPs := [kv_key ''BTC.BTC/switch1a'' \<mapsto> Stored demo_lp]\<rparr>"

text \<open>Facts about the names of the example, evaluated once.\<close>

lemma demo_names:
  "Asset_String BTCAsset = ''BTC.BTC''" "kv_key ''BTC.BTC'' = ''BTC.BTC''" "\<not> Asset_IsEmpty BTCAsset"
  "Asset_IsEmpty EmptyAsset" "GetGasAsset (GetChain BTCAsset) = BTCAsset" "\<not> aSynth BTCAsset"
  "IsChain plain_addrs ''switch1a'' SWITCHLYChain" "\<not> Address_IsEmpty ''switch1a''" "\<not> Address_IsEmpty ''bc1a''"
  "\<not> TxID_IsEmpty ''T1''" "TxID_IsEmpty ''''" "Address_IsEmpty ''''" "\<not> IsBlank ''T1''"
  "GetCoin [] BTCAsset = NoCoin" "Coin_IsEmpty NoCoin" "GetPoolStatus ''Available'' = PoolStatus_Available"
  "NewAddress plain_addrs MainNet ''switch1reserve'' = Inr ''switch1reserve''"
  "\<not> Address_Equals ''switch1reserve'' ''switch1a''" "addr_plain ''switch1a''" "addr_plain ''bc1a''" "addr_plain ''''"
  "Address_Equals a a" "Asset_Equals BTCAsset BTCAsset"
  by (code_simp | simp add: Address_Equals_def)+

lemmas liquidity_eval = demo_names kv_get_def kv_set_def kv_get_or_def guard_err_def uint_eval legacy_eval Let_def
  GetPool_def SetPool_def PoolExist_def GetTotalSupply_def CalcUnits_def GetPoolUnits_def GetLiquidityProvider_def
  SetLiquidityProvider_def LiquidityProvider_Key_def LiquidityProvider_GetAddress_def new_lp_def Pool_IsEmpty_def
  NewPool_def NewTx_def GetSafeShare_def GetUncappedShare_def uncapped_share_body_def empty_kstore_def demo_ctx_def

lemmas add_eval = liquidity_eval AddLiquidity_handle_def open_pool_def set_decimals_def is_staged_def addLiquidity_def
  validateAddLiquidityMessage_def claim_addresses_def check_asset_address_def stage_or_commit_def
  commit_liquidity_def calculatePoolUnits_def calculateVaultUnits_def deposit_values_def track_pol_deposit_def
  GetModuleAddress_def

lemma demo_run_add: "AddLiquidity_handle legacy_dec plain_addrs demo_ctx empty_kstore demo_add = Inr demo_added"
  by (simp add: add_eval demo_add_def demo_added_def demo_lp_def)

lemma demo_reach: "liq_reach legacy_dec plain_addrs demo_added"
proof (rule liq_reach.add [OF liq_reach.init _ demo_run_add])
  show "deposit_ok demo_add" by (simp add: deposit_ok_def demo_add_def demo_names)
qed (simp_all add: empty_kstore_def)

text \<open>The withdrawal of half of the position, step by step.\<close>

definition demo_btc_pool :: pool where
  "demo_btc_pool = NewPool\<lparr>BalanceSwitch := 1000, BalanceAsset := 40, pAsset := BTCAsset, LPUnits := 1000\<rparr>"

lemma demo_shares:
  "GetSafeShare legacy_dec 5000 10000 1000 = 500" "GetSafeShare legacy_dec 500 1000 1000 = 500"
  "GetSafeShare legacy_dec 500 1000 40 = 20" "GetSafeShare legacy_dec 5000 10000 40 = 20"
  by (simp_all add: liquidity_eval)

lemma demo_reads:
  "GetPool demo_added BTCAsset = Inr demo_btc_pool" "PoolExist demo_added BTCAsset"
  "GetLiquidityProvider plain_addrs demo_added BTCAsset ''switch1a'' = Inr demo_lp"
  "GetConfigInt64 demo_ctx demo_added k = 0" "kMimirs demo_added k = None" "\<not> RagnarokInProgress demo_added"
  "GetTotalSupply demo_ctx demo_added a = Inr 0"
  by (simp_all add: liquidity_eval demo_added_def demo_btc_pool_def demo_lp_def GetConfigInt64_def GetMimir_def
    RagnarokInProgress_def GetRagnarokBlockHeight_def GetInt64Value_def)

lemma demo_fields:
  "lpUnits demo_lp = 1000" "lpLastAddHeight demo_lp = 10" "LPUnits demo_btc_pool = 1000" "pAsset demo_btc_pool = BTCAsset"
  "BalanceSwitch demo_btc_pool = 1000" "BalanceAsset demo_btc_pool = 40" "pDecimals demo_btc_pool = 0" "SynthUnits demo_btc_pool = 0"
  "lpPendingAsset demo_lp = 0" "lpPendingSwitch demo_lp = 0" "lpSwitchDepositValue demo_lp = 1000"
  "lpAssetDepositValue demo_lp = 40" "lpSwitchAddress demo_lp = ''switch1a''" "lpAssetAddress demo_lp = ''bc1a''"
  "cVersion3 demo_ctx" "pAsset (pool_after_withdraw p x y z) = pAsset p" "BlockHeight demo_ctx = 10"
  "demo_btc_pool\<lparr>SynthUnits := 0\<rparr> = demo_btc_pool"
  by (simp_all add: demo_lp_def demo_btc_pool_def new_lp_def NewPool_def demo_names demo_ctx_def pool_after_withdraw_def Let_def)

lemmas withdraw_eval = demo_fields demo_names demo_reads demo_shares demo_withdraw_def kv_get_or_def kv_get_def
  Let_def uint_eval guard_err_def withdraw_amounts_def assetToWithdraw_def calculateWithdraw_def
  MaxWithdrawBasisPoints_def RoundToDecimal_def withdraw_gas_def withdrawn_lp_def save_withdrawn_def SetPool_def

lemma demo_withdraw_units:
  "\<exists>s'. withdraw_units legacy_dec plain_addrs demo_ctx demo_added demo_withdraw 1000 demo_btc_pool demo_lp
    = Inr ((500, 20, 500, 0), s')"
  by (simp add: withdraw_units_def withdraw_eval)

lemma demo_run_withdraw:
  "\<exists>s'. withdraw legacy_dec plain_addrs demo_ctx demo_added demo_withdraw = Inr ((500, 20, 500, 0), s')"
proof -
  have "validateWithdraw demo_added demo_withdraw = Inr ()"
    by (simp add: validateWithdraw_def demo_withdraw_def demo_names demo_reads NewTx_def MaxWithdrawBasisPoints_def)
  moreover have "CalcUnits demo_btc_pool 0 = Inr (1000, demo_btc_pool)"
    by (simp add: CalcUnits_def GetPoolUnits_def demo_fields demo_names uint_eval)
  ultimately show ?thesis
    using demo_withdraw_units by (simp add: withdraw_def demo_fields demo_reads demo_withdraw_def i64_def)
qed



text \<open>A deposit into a savers vault that names both addresses: the position is looked up by the SWITCH
  address, does not exist, and is saved under the asset address, over the record found there.\<close>

definition demo_saver :: "address \<Rightarrow> uint \<Rightarrow> msg_add_liquidity" where
  "demo_saver switchAddr amt = \<lparr>malTx = NewTx ''T1'' ''switch1a'' ''switch1v'' [] [] '''', malAsset = BTCAsset\<lparr>aSynth := True\<rparr>,
     malAssetAmount = amt, malSwitchAmount = 0, malSwitchAddress = switchAddr, malAssetAddress = ''bc1v'',
     malAffiliateAddress = '''', malAffiliateBasisPoints = 0, malSigner = ''n''\<rparr>"

definition demo_vault :: "uint \<Rightarrow> uint \<Rightarrow> kstore" where
  "demo_vault tot units = empty_kstore\<lparr>
     kPools := [''BTC/BTC'' \<mapsto> Stored (NewPool\<lparr>BalanceAsset := tot, pAsset := BTCAsset\<lparr>aSynth := True\<rparr>, LPUnits := tot\<rparr>)],
     kLPs := [kv_key ''BTC/BTC/bc1v'' \<mapsto> Stored ((new_lp plain_addrs (BTCAsset\<lparr>aSynth := True\<rparr>) ''bc1v'')\<lparr>
       lpAssetAddress := ''bc1v'', lpLastAddHeight := 10, lpUnits := units, lpAssetDepositValue := units\<rparr>)]\<rparr>"

lemma saver_names:
  "Asset_String (BTCAsset\<lparr>aSynth := True\<rparr>) = ''BTC/BTC''" "kv_key ''BTC/BTC'' = ''BTC/BTC''"
  "\<not> Asset_IsEmpty (BTCAsset\<lparr>aSynth := True\<rparr>)" "IsChain plain_addrs ''bc1v'' (GetChain (GetLayer1Asset (BTCAsset\<lparr>aSynth := True\<rparr>)))"
  "\<not> IsChain plain_addrs ''bc1v'' SWITCHLYChain" "\<not> Address_IsEmpty ''bc1v''"
  "GetCoin [] (BTCAsset\<lparr>aSynth := True\<rparr>) = NoCoin"
  "kv_key ''BTC/BTC/switch1a'' \<noteq> kv_key ''BTC/BTC/bc1v''" "addr_plain ''bc1v''" 
  "\<not> Address_Equals ''switch1reserve'' ''''"
  by code_simp+

lemma saver_first: "AddLiquidity_handle legacy_dec plain_addrs demo_ctx empty_kstore (demo_saver '''' 100) = Inr (demo_vault 100 100)"
  by (simp add: add_eval demo_saver_def demo_vault_def saver_names)

lemma saver_second: "AddLiquidity_handle legacy_dec plain_addrs demo_ctx (demo_vault 100 100) (demo_saver ''switch1a'' 10)
  = Inr (demo_vault 110 10)"
  by (simp add: add_eval demo_saver_def demo_vault_def saver_names)


end
