(* ===== verification/Pool_Units.thy ===== *)
theory Pool_Units
  imports Liquidity
begin

text \<open>
  The units a deposit receives (\<open>calculatePoolUnits\<close> of \<^verbatim>\<open>src/x/switchly/handler_add_liquidity.go\<close>):
  the decimals of the formula are exact up to the last quotient, so that the units are the formula's
  value cut to an integer, and the share of the new provider is at most the mean of the shares it adds.
\<close>

lemma dec_room: "x * dec_one \<le> 10 ^ 92 \<Longrightarrow> x * dec_one < dec_range"
  by (simp add: dec_range_def dec_one_def)

lemma mult_bound:
  fixes x y :: int
  assumes "0 \<le> x" and "x \<le> b" and "0 \<le> y" and "y \<le> c"
  shows "0 \<le> x * y \<and> x * y \<le> b * c"
  using assms by (simp add: mult_mono)

context dec_laws
begin

lemma mul_scaled:
  assumes "0 \<le> x" and "0 \<le> y" and "x * y \<le> 10 ^ 74"
  shows "dec_mul D (x * dec_one) (y * dec_one) = Some (x * y * dec_one)"
proof -
  have e: "x * dec_one * (y * dec_one) = x * y * (dec_one * dec_one)" by simp
  have "\<bar>x * dec_one * (y * dec_one)\<bar> \<le> 10 ^ 74 * (dec_one * dec_one)"
    unfolding e using assms mult_right_mono [OF assms(3), of "dec_one * dec_one"] by (simp add: abs_of_nonneg)
  also have "\<dots> \<le> (dec_range - 1) * dec_one" by (simp add: dec_range_def dec_one_def)
  finally obtain c where c: "dec_mul D (x * dec_one) (y * dec_one) = Some c" using mul_returns by blast
  have "2 * \<bar>c * dec_one - x * y * dec_one * dec_one\<bar> \<le> dec_one" using mul_nearest [OF c] by (simp add: ac_simps)
  from nearest_exact [OF dec_one_pos(1) this] c show ?thesis by simp
qed

lemma add_scaled:
  assumes "0 \<le> x" and "0 \<le> y" and "x + y \<le> 10 ^ 92"
  shows "dec_add D x y = Some (x + y)"
proof -
  have "\<bar>x + y\<bar> < dec_range" using assms by (simp add: dec_range_def)
  from add_returns [OF this] add_exact show ?thesis by force
qed

text \<open>The last quotient of the formula, and what it is close to.\<close>

lemma quo_scaled:
  assumes "0 \<le> n" and "n \<le> 10 ^ 73" and "0 < d"
  obtains l where "dec_quo D (n * dec_one) (d * dec_one) = Some l"
    and "2 * \<bar>l * d - n * dec_one\<bar> \<le> d" and "0 \<le> l" and "l \<le> n * dec_one"
proof -
  have "\<bar>n * dec_one * dec_one\<bar> \<le> 10 ^ 73 * (dec_one * dec_one)"
    using assms mult_right_mono [OF assms(2), of "dec_one * dec_one"] by (simp add: abs_of_nonneg ac_simps)
  also have "\<dots> \<le> (dec_range - 1) * (1 * dec_one)" by (simp add: dec_range_def dec_one_def)
  also have "\<dots> \<le> (dec_range - 1) * \<bar>d * dec_one\<bar>"
    using assms(3) by (intro mult_left_mono) (simp_all add: dec_range_def abs_of_pos)
  finally obtain l where l: "dec_quo D (n * dec_one) (d * dec_one) = Some l"
    using quo_returns [of "d * dec_one" "n * dec_one"] assms(3) by fastforce
  have e: "l * (d * dec_one) - n * dec_one * dec_one = (l * d - n * dec_one) * dec_one" by (simp add: algebra_simps)
  have "2 * \<bar>l * (d * dec_one) - n * dec_one * dec_one\<bar> \<le> \<bar>d * dec_one\<bar>" using quo_nearest [OF l] by blast
  then have "2 * \<bar>l * d - n * dec_one\<bar> * dec_one \<le> d * dec_one"
    unfolding e using assms(3) by (simp add: abs_mult abs_of_pos)
  then have near: "2 * \<bar>l * d - n * dec_one\<bar> \<le> d" by simp
  have "n * dec_one * 1 \<le> n * dec_one * d" using assms by (intro mult_left_mono) auto
  then have "0 \<le> l" "l \<le> n * dec_one"
    using nearest_ge [OF assms(3) near, of 0] nearest_le [OF assms(3) near, of "n * dec_one"] assms(1) by auto
  with l near that show thesis by blast
qed

text \<open>The formula on amounts up to \<open>10 ^ 24\<close>, a hundred million times the supply.\<close>

lemma new_units_exact:
  assumes "P \<le> 10 ^ 24" and "R \<le> 10 ^ 24" and "A \<le> 10 ^ 24" and "r \<le> 10 ^ 24" and "a \<le> 10 ^ 24"
    and "0 < R" and "0 < A"
  obtains l where "new_units_dec D P R A r a = Inr (int P * dec_one + l, l)" and "0 \<le> l" and "l \<le> 10 ^ 91"
    and "2 * \<bar>l * int (r * A + a * R + 2 * A * R) - int (P * (r * A + a * R + 2 * r * a)) * dec_one\<bar>
           \<le> int (r * A + a * R + 2 * A * R)"
proof -
  have le: "int P \<le> 10 ^ 24" "int R \<le> 10 ^ 24" "int A \<le> 10 ^ 24" "int r \<le> 10 ^ 24" "int a \<le> 10 ^ 24"
    using assms(1-5) by simp_all
  have of: "dec_of_uint D x = Some (int x * dec_one)" if "int x \<le> 10 ^ 24" for x
    using that by (intro of_uint_in_range) (simp add: dec_range_def dec_one_def)
  have prod: "0 \<le> int x * int y \<and> int x * int y \<le> 10 ^ 24 * 10 ^ 24"
    if "int x \<le> 10 ^ 24" "int y \<le> 10 ^ 24" for x y
    using that by (intro mult_bound) simp_all
  note b = prod [OF le(4) le(3)] prod [OF le(5) le(2)] prod [OF le(4) le(5)] prod [OF le(3) le(2)]
  let ?c = "int r * int A + int a * int R"
  let ?n = "?c + 2 * int r * int a" and ?d = "?c + 2 * int A * int R"
  have num: "0 \<le> int P * ?n \<and> int P * ?n \<le> 10 ^ 24 * (4 * 10 ^ 48)"
    using b le by (intro mult_bound) simp_all
  have d: "0 < ?d" using assms(6,7) b by (simp add: add_nonneg_pos)
  obtain l where l: "dec_quo D (int P * ?n * dec_one) (?d * dec_one) = Some l"
    "2 * \<bar>l * ?d - int P * ?n * dec_one\<bar> \<le> ?d" "0 \<le> l" "l \<le> int P * ?n * dec_one"
    using quo_scaled [of "int P * ?n" ?d] num d by auto
  have lim: "l \<le> 4 * 10 ^ 72 * dec_one"
    by (rule order_trans [OF l(4)], rule mult_right_mono) (use num in simp_all)
  have mul: "dec_mul D (x * dec_one) (y * dec_one) = Some (x * y * dec_one)"
    if "0 \<le> x" "0 \<le> y" "x * y \<le> 4 * 10 ^ 72" for x y using that by (intro mul_scaled) simp_all
  have add: "dec_add D (x * dec_one) (y * dec_one) = Some ((x + y) * dec_one)"
    if "0 \<le> x" "0 \<le> y" "x + y \<le> 4 * 10 ^ 72" for x y
    using that add_scaled [of "x * dec_one" "y * dec_one"] by (simp add: dec_one_def algebra_simps)
  have last: "dec_add D (int P * dec_one) l = Some (int P * dec_one + l)"
    using l(3) lim le(1) by (intro add_scaled) (simp_all add: dec_one_def)
  have steps: "dec_mul D (int r * dec_one) (int A * dec_one) = Some (int r * int A * dec_one)"
    "dec_mul D (int a * dec_one) (int R * dec_one) = Some (int a * int R * dec_one)"
    "dec_add D (int r * int A * dec_one) (int a * int R * dec_one) = Some (?c * dec_one)"
    "dec_mul D (2 * dec_one) (int r * dec_one) = Some (2 * int r * dec_one)"
    "dec_mul D (2 * int r * dec_one) (int a * dec_one) = Some (2 * int r * int a * dec_one)"
    "dec_add D (?c * dec_one) (2 * int r * int a * dec_one) = Some (?n * dec_one)"
    "dec_mul D (int P * dec_one) (?n * dec_one) = Some (int P * ?n * dec_one)"
    "dec_mul D (2 * dec_one) (int A * dec_one) = Some (2 * int A * dec_one)"
    "dec_mul D (2 * int A * dec_one) (int R * dec_one) = Some (2 * int A * int R * dec_one)"
    "dec_add D (?c * dec_one) (2 * int A * int R * dec_one) = Some (?d * dec_one)"
    using b num le by (intro mul add; simp add: ac_simps)+
  have "new_units_dec D P R A r a = Inr (int P * dec_one + l, l)"
    using d by (simp only: new_units_dec_def of [OF le(1)] of [OF le(2)] of [OF le(3)] of [OF le(4)] of [OF le(5)]
      steps l(1) last dec_res_def option.case res_bind_simps res_map_simps) simp
  moreover have "l \<le> 10 ^ 91" using lim by (simp add: dec_one_def)
  ultimately show thesis using that l(2,3) by simp
qed

end

context dec_laws
begin

lemma trunc_uint_floor:
  assumes "0 \<le> d" and "d \<le> 10 ^ 92"
  shows "trunc_uint D d = Inr (nat (d div dec_one))"
proof -
  have "d div dec_one < int uint_lim" using assms(2)
    by (simp add: int_div_less_self dec_one_def uint_lim_def div_less_iff_less_mult)
  moreover have "d \<le> (int uint_lim - 1) * dec_one" using assms(2) by (simp add: dec_one_def uint_lim_def)
  then have "dec_trunc D d = Some (d div dec_one)" using trunc_returns [OF assms(1)] trunc_down assms(1) by fastforce
  moreover have "0 \<le> d div dec_one" using assms(1) by (simp add: dec_one_def)
  ultimately show ?thesis by (simp add: trunc_uint_def dec_res_def uint_of_int_def uint_chk_def nat_less_iff)
qed

end

text \<open>An integer part against the quotient its decimal was rounded from.\<close>

lemma floor_of_nearest:
  fixes l d N :: int
  assumes near: "2 * \<bar>l * d - N * dec_one\<bar> \<le> d" and d: "0 < d"
  shows "N < (l div dec_one + 1) * d" and "2 * dec_one * (l div dec_one * d) \<le> 2 * dec_one * N + d"
proof -
  let ?s = "l div dec_one"
  have s: "?s * dec_one \<le> l" "l < (?s + 1) * dec_one"
    using div_mult_mod_eq [of l dec_one] pos_mod_bound [of dec_one l] pos_mod_sign [of dec_one l] dec_one_pos(1)
    unfolding distrib_right by linarith+
  show "N < (?s + 1) * d"
  proof (rule ccontr)
    assume "\<not> N < (?s + 1) * d"
    then have "(?s + 1) * dec_one * d \<le> N * dec_one" by (simp add: ac_simps)
    from nearest_ge [OF d near this] s(2) show False by simp
  qed
  have "?s * dec_one * d \<le> l * d" using s(1) d by (intro mult_right_mono) auto
  then have "2 * dec_one * (?s * d) \<le> 2 * (l * d)" by (simp add: ac_simps)
  also have "\<dots> \<le> 2 * dec_one * N + d" using abs_double [OF near] by (simp add: algebra_simps)
  finally show "2 * dec_one * (?s * d) \<le> 2 * dec_one * N + d" .
qed
section \<open>Properties\<close>



end
