(* ===== verification/Decimal_Text.thy ===== *)
theory Decimal_Text
  imports Numerics
begin

text \<open>
  Decimal text: what \<open>%d\<close> of \<open>fmt\<close> prints for an unsigned number and what \<open>strconv.Atoi\<close>,
  \<open>ParseInt\<close> and \<open>ParseUint\<close> accept in base 10. Keys of the store and memos carry such text.
\<close>

definition digit_char :: "nat \<Rightarrow> char" where
  "digit_char d = char_of (48 + d)"

definition digit_val :: "char \<Rightarrow> nat option" where
  "digit_val c = (if char_in c 48 57 then Some (of_char c - 48) else None)"

fun nat_str :: "nat \<Rightarrow> string" where
  "nat_str n = (if n < 10 then [digit_char n] else nat_str (n div 10) @ [digit_char (n mod 10)])"

declare nat_str.simps [simp del]

fun digits_val :: "nat \<Rightarrow> string \<Rightarrow> nat option" where
  "digits_val acc [] = Some acc"
| "digits_val acc (c # cs) = (case digit_val c of None \<Rightarrow> None | Some d \<Rightarrow> digits_val (10 * acc + d) cs)"

text \<open>\<open>ParseUint(s, 10, 64)\<close>: at least one digit, no sign, in range.\<close>

definition parse_uint64 :: "string \<Rightarrow> nat option" where
  "parse_uint64 s = (if s = [] then None
     else case digits_val 0 s of None \<Rightarrow> None | Some n \<Rightarrow> if n < 2 ^ 64 then Some n else None)"

text \<open>\<open>ParseInt(s, 10, 64)\<close> and \<open>Atoi\<close>: an optional sign before the digits.\<close>

definition parse_int64 :: "string \<Rightarrow> int option" where
  "parse_int64 s =
     (case s of
        [] \<Rightarrow> None
      | c # cs \<Rightarrow>
          let neg = (c = CHR ''-''); body = (if c = CHR ''-'' \<or> c = CHR ''+'' then cs else s) in
          if body = [] then None
          else case digits_val 0 body of
              None \<Rightarrow> None
            | Some n \<Rightarrow> if neg then (if n \<le> 2 ^ 63 then Some (- int n) else None)
                         else (if n < 2 ^ 63 then Some (int n) else None))"

section \<open>Printing and parsing\<close>

lemma digit_val_char [simp]: "d < 10 \<Longrightarrow> digit_val (digit_char d) = Some d"
  by (simp add: digit_val_def digit_char_def char_in_def)

lemma digit_char_range: "d < 10 \<Longrightarrow> char_in (digit_char d) 48 57"
  by (simp add: digit_char_def char_in_def)

lemma digits_val_append:
  "digits_val acc (xs @ ys) = (case digits_val acc xs of None \<Rightarrow> None | Some n \<Rightarrow> digits_val n ys)"
  by (induction xs arbitrary: acc) (auto split: option.splits)

lemma digits_nat_str [simp]: "digits_val 0 (nat_str n) = Some n"
proof (induction n rule: nat_str.induct)
  case (1 n)
  then show ?case by (subst nat_str.simps) (simp add: digits_val_append)
qed

lemma nat_str_digits: "c \<in> set (nat_str n) \<Longrightarrow> char_in c 48 57"
proof (induction n arbitrary: c rule: nat_str.induct)
  case (1 n)
  then show ?case
    by (subst (asm) nat_str.simps) (auto simp: digit_char_range split: if_splits)
qed

lemma nat_str_ne [simp]: "nat_str n \<noteq> []"
  by (subst nat_str.simps) simp

lemma nat_str_no:
  assumes "\<not> char_in c 48 57"
  shows "c \<notin> set (nat_str n)"
  using nat_str_digits assms by blast

lemma parse_uint64_nat_str: "n < 2 ^ 64 \<Longrightarrow> parse_uint64 (nat_str n) = Some n"
  by (simp add: parse_uint64_def)

lemma parse_int64_nat_str:
  assumes "n < 2 ^ 63"
  shows "parse_int64 (nat_str n) = Some (int n)"
proof -
  obtain c cs where s: "nat_str n = c # cs" by (cases "nat_str n") auto
  then have "char_in c 48 57" using nat_str_digits [of c n] by simp
  then have "c \<noteq> CHR ''-''" "c \<noteq> CHR ''+''" by (auto simp: char_in_def)
  moreover have "digits_val 0 (c # cs) = Some n" using digits_nat_str [of n] s by simp
  ultimately show ?thesis using assms by (simp add: parse_int64_def s Let_def)
qed

lemma upper_digit: "char_in c 48 57 \<Longrightarrow> char_upper c = c"
  by (simp add: char_upper_def char_in_def Let_def)

lemma to_upper_nat_str [simp]: "to_upper (nat_str n) = nat_str n"
  using nat_str_digits [of _ n] by (simp add: to_upper_def upper_digit map_idI)

end
