(* ===== verification/Streaming_Swaps.thy ===== *)
theory Streaming_Swaps
  imports Liquidity Decimal_Text
begin

text \<open>
  Streaming swaps: \<^verbatim>\<open>src/x/switchly/types/type_streaming_swap.go\<close>, \<^verbatim>\<open>types/msg_swap.go\<close>, the keepers
  \<^verbatim>\<open>keeper_streaming_swap.go\<close> and \<^verbatim>\<open>keeper_swap_queue.go\<close>, \<open>getMaxSwapQuantity\<close> of \<^verbatim>\<open>helpers.go\<close>, the
  part of the swap handler (\<^verbatim>\<open>handler_swap.go\<close>) that sizes and books a sub-swap, and the body of the
  loop of \<open>EndBlock\<close> in \<^verbatim>\<open>manager_swap_queue_current.go\<close>.

  Counts, quantities and intervals are 64-bit words. The queue is kept in the order of its keys, the
  order in which the store iterates.
\<close>

section \<open>The streaming swap\<close>

record streaming_swap =
  ssTxID :: txid
  ssInterval :: "64 word"
  ssQuantity :: "64 word"
  ssCount :: "64 word"
  ssLastHeight :: int
  ssTradeTarget :: uint
  ssDeposit :: uint
  ssIn :: uint
  ssOut :: uint
  ssFailedSwaps :: "64 word list"
  ssFailedSwapReasons :: "string list"

definition NewStreamingSwap :: "txid \<Rightarrow> 64 word \<Rightarrow> 64 word \<Rightarrow> uint \<Rightarrow> uint \<Rightarrow> streaming_swap" where
  "NewStreamingSwap hash quan interval target deposit =
     \<lparr>ssTxID = hash, ssInterval = interval, ssQuantity = quan, ssCount = 0, ssLastHeight = 0, ssTradeTarget = target,
      ssDeposit = deposit, ssIn = 0, ssOut = 0, ssFailedSwaps = [], ssFailedSwapReasons = []\<rparr>"

definition StreamingSwap_Valid :: "streaming_swap \<Rightarrow> unit res" where
  "StreamingSwap_Valid m =
     (if ssQuantity m < 1 then Inl (Err ''quantity cannot be less than 1'')
      else if ssInterval m < 1 then Inl (Err ''interval cannot be less than 1'')
      else if ssDeposit m = 0 then Inl (Err ''deposit amount cannot be zero'')
      else Inr ())"

definition DefaultSwapSize :: "streaming_swap \<Rightarrow> uint" where
  "DefaultSwapSize m = (if ssQuantity m = 0 then 0 else ssDeposit m div unat (ssQuantity m))"

definition IsDone :: "streaming_swap \<Rightarrow> bool" where
  "IsDone m \<longleftrightarrow> ssCount m \<ge> ssQuantity m"

definition IsLastSwap :: "streaming_swap \<Rightarrow> bool" where
  "IsLastSwap m \<longleftrightarrow> ssCount m + 1 \<ge> ssQuantity m"

definition NextSize :: "dec_lib \<Rightarrow> streaming_swap \<Rightarrow> (uint \<times> uint) res" where
  "NextSize D m =
     (let size0 = DefaultSwapSize m in
      res_map (\<lambda>next.
        let swapSize = (if ssDeposit m < next \<or> IsLastSwap m then SafeSub (ssDeposit m) (ssIn m) else size0);
            remainingIn = SafeSub (ssDeposit m) (ssIn m);
            remainingOut = SafeSub (ssTradeTarget m) (ssOut m)
        in (swapSize, GetSafeShare D swapSize remainingIn remainingOut))
      (uint_add (ssIn m) size0))"

section \<open>The swap message\<close>

datatype swap_type = MarketSwap | LimitSwap

record msg_swap =
  swTx :: tx
  swTargetAsset :: asset
  swDestination :: address
  swTradeTarget :: uint
  swAffiliateAddress :: address
  swAffiliateBasisPoints :: uint
  swSigner :: acc
  swAggregator :: string
  swAggregatorTargetAddress :: string
  swAggregatorTargetLimit :: "uint option"
  swSwapType :: swap_type
  swStreamQuantity :: "64 word"
  swStreamInterval :: "64 word"

definition IsStreaming :: "msg_swap \<Rightarrow> bool" where
  "IsStreaming m \<longleftrightarrow> swStreamInterval m > 0"

definition first_coin :: "msg_swap \<Rightarrow> coin res" where
  "first_coin m = (case tCoins (swTx m) of [] \<Rightarrow> Inl (Panic ''index out of range'') | c # _ \<Rightarrow> Inr c)"

definition MsgSwap_GetStreamingSwap :: "msg_swap \<Rightarrow> streaming_swap res" where
  "MsgSwap_GetStreamingSwap m =
     res_map (\<lambda>c. NewStreamingSwap (tID (swTx m)) (swStreamQuantity m) (swStreamInterval m) (swTradeTarget m) (cAmount c))
       (first_coin m)"

definition GetTotalAffiliateFee :: "dec_lib \<Rightarrow> msg_swap \<Rightarrow> uint res" where
  "GetTotalAffiliateFee D m =
     res_map (\<lambda>c. GetSafeShare D (swAffiliateBasisPoints m) 10000 (cAmount c)) (first_coin m)"

definition MsgSwap_ValidateBasic :: "addr_lib \<Rightarrow> msg_swap \<Rightarrow> unit res" where
  "MsgSwap_ValidateBasic A m =
     (if swSigner m = [] then Inl (Err ''invalid address'')
      else res_bind (Tx_Valid (swTx m)) (\<lambda>_.
        if Asset_IsEmpty (swTargetAsset m) then Inl (Err ''swap Target cannot be empty'')
        else if length (tCoins (swTx m)) > 1 then Inl (Err ''not expecting multiple coins in a swap'')
        else if Coins_IsEmpty (tCoins (swTx m)) then Inl (Err ''swap coin cannot be empty'')
        else if (\<exists>c \<in> set (tCoins (swTx m)). Asset_Equals (cAsset c) (swTargetAsset m))
          then Inl (Err ''swap Source and Target cannot be the same.'')
        else if Address_IsEmpty (swDestination m) then Inl (Err ''swap Destination cannot be empty'')
        else if Address_IsEmpty (swAffiliateAddress m) \<and> swAffiliateBasisPoints m \<noteq> 0
          then Inl (Err ''swap affiliate address is empty while affiliate basis points is non-zero'')
        else if swAffiliateBasisPoints m \<noteq> 0 \<and> swAffiliateBasisPoints m > MaxAffiliateFeeBasisPoints
          then Inl (Err ''affiliate fee basis points can't be more than 1000'')
        else if \<not> IsNoop (swDestination m) \<and> \<not> IsChain A (swDestination m) (GetChain (swTargetAsset m))
          then Inl (Err ''swap destination address is not the same chain as the target asset'')
        else if \<not> Address_IsEmpty (swAffiliateAddress m) \<and> \<not> IsChain A (swAffiliateAddress m) SWITCHLYChain
          then Inl (Err ''swap affiliate address must be a SWITCHLY address'')
        else if swAggregator m \<noteq> [] \<and> swAggregatorTargetAddress m = []
          then Inl (Err ''aggregator target asset address is empty'')
        else if swAggregatorTargetAddress m \<noteq> [] \<and> swAggregator m = [] then Inl (Err ''aggregator is empty'')
        else Inr ()))"

section \<open>The stores of the swap queue\<close>

record swap_store =
  sqKeeper :: kstore
  sqQueue :: "(string \<times> msg_swap slot) list"
  sqStreams :: "streaming_swap kv"

definition swap_key :: "txid \<Rightarrow> nat \<Rightarrow> string" where
  "swap_key i n = kv_key (i @ CHR ''-'' # nat_str n)"

definition SetSwapQueueItem :: "swap_store \<Rightarrow> msg_swap \<Rightarrow> nat \<Rightarrow> swap_store" where
  "SetSwapQueueItem s msg i = s\<lparr>sqQueue := queue_put (swap_key (tID (swTx msg)) i) (Stored msg) (sqQueue s)\<rparr>"

definition GetSwapQueueItem :: "swap_store \<Rightarrow> txid \<Rightarrow> nat \<Rightarrow> msg_swap res" where
  "GetSwapQueueItem s txID i =
     (case map_of (sqQueue s) (swap_key txID i) of
        None \<Rightarrow> Inl (Err ''not found'')
      | Some (Stored m) \<Rightarrow> Inr m
      | Some Corrupt \<Rightarrow> Inl (Err ''KVStore Error: Unmarshal''))"

definition HasSwapQueueItem :: "swap_store \<Rightarrow> txid \<Rightarrow> nat \<Rightarrow> bool" where
  "HasSwapQueueItem s txID i \<longleftrightarrow> map_of (sqQueue s) (swap_key txID i) \<noteq> None"

definition RemoveSwapQueueItem :: "swap_store \<Rightarrow> txid \<Rightarrow> nat \<Rightarrow> swap_store" where
  "RemoveSwapQueueItem s txID i = s\<lparr>sqQueue := filter (\<lambda>kv. fst kv \<noteq> swap_key txID i) (sqQueue s)\<rparr>"

definition GetStreamingSwap :: "swap_store \<Rightarrow> txid \<Rightarrow> streaming_swap res" where
  "GetStreamingSwap s hash = kv_get (sqStreams s) (kv_key hash) (NewStreamingSwap hash 0 0 0 0)"

definition StreamingSwapExists :: "swap_store \<Rightarrow> txid \<Rightarrow> bool" where
  "StreamingSwapExists s hash \<longleftrightarrow> sqStreams s (kv_key hash) \<noteq> None"

definition SetStreamingSwap :: "swap_store \<Rightarrow> streaming_swap \<Rightarrow> swap_store" where
  "SetStreamingSwap s swp = s\<lparr>sqStreams := kv_set (sqStreams s) (kv_key (ssTxID swp)) swp\<rparr>"

definition RemoveStreamingSwap :: "swap_store \<Rightarrow> txid \<Rightarrow> swap_store" where
  "RemoveStreamingSwap s hash = s\<lparr>sqStreams := kv_del (sqStreams s) (kv_key hash)\<rparr>"

section \<open>How many sub-swaps\<close>

text \<open>The smallest swap of a leg: the amount whose slip is the floor of the asset, zero if there is no floor.\<close>

definition leg_min_swap :: "dec_lib \<Rightarrow> ctx \<Rightarrow> kstore \<Rightarrow> asset \<Rightarrow> uint \<Rightarrow> (uint \<times> pool) res" where
  "leg_min_swap D c s a minSwapSize =
     res_map (\<lambda>p.
       let minSlip = getMinSlipBps c s a;
           m = GetSafeShare D minSlip MaxBasisPts (BalanceSwitch p)
       in (if minSlip = 0 then minSwapSize
           else if minSwapSize = 0 \<or> m < minSwapSize then m else minSwapSize, p))
     (GetPool s (GetLayer1Asset a))"

definition uint_u64 :: "uint \<Rightarrow> 64 word res" where
  "uint_u64 n = (if n < 2 ^ 64 then Inr (of_nat n) else Inl (Panic ''Uint64() out of bounds''))"

text \<open>A swap with a derived asset is cut further by the depth of its anchors, \<open>anchorDepth\<close>.\<close>

definition derived_dbps :: "dec_lib \<Rightarrow> kstore \<Rightarrow> (asset \<Rightarrow> uint) \<Rightarrow> asset \<Rightarrow> uint \<Rightarrow> uint" where
  "derived_dbps D s anchorDepth a dbps =
     (if \<not> IsDerivedAsset a then dbps
      else let d = (case GetPool s a of Inl _ \<Rightarrow> 0 | Inr dpool \<Rightarrow> BalanceSwitch dpool);
               newDbps = GetUncappedShare D d (anchorDepth a) MaxBasisPts
           in if dbps = 0 \<or> newDbps < dbps then newDbps else dbps)"

definition cut_derived :: "dec_lib \<Rightarrow> kstore \<Rightarrow> (asset \<Rightarrow> uint) \<Rightarrow> asset \<Rightarrow> asset \<Rightarrow> uint \<Rightarrow> uint" where
  "cut_derived D s anchorDepth source target maxQuantity =
     (let dbps = derived_dbps D s anchorDepth target (derived_dbps D s anchorDepth source 0);
          diff = SafeSub MaxBasisPts dbps
      in if dbps \<noteq> 0 \<and> diff \<noteq> 0 \<and> maxQuantity > MaxBasisPts div diff then MaxBasisPts div diff else maxQuantity)"

definition limit_quantity ::
  "dec_lib \<Rightarrow> ctx \<Rightarrow> kstore \<Rightarrow> (asset \<Rightarrow> uint) \<Rightarrow> asset \<Rightarrow> asset \<Rightarrow> streaming_swap \<Rightarrow> uint \<Rightarrow> 64 word res" where
  "limit_quantity D c s anchorDepth source target swp maxSwapQuantity =
     (let maxLength = GetConfigInt64 c s
            (if IsNative source \<and> IsNative target then ''StreamingSwapMaxLengthNative'' else ''StreamingSwapMaxLength'');
          inMaxLength = (word_of_int maxLength :: 64 word) div ssInterval swp
      in if maxSwapQuantity > unat inMaxLength then Inr inMaxLength
         else if maxSwapQuantity = 0 then Inr 1
         else uint_u64 (cut_derived D s anchorDepth source target maxSwapQuantity))"

definition getMaxSwapQuantity ::
  "dec_lib \<Rightarrow> ctx \<Rightarrow> kstore \<Rightarrow> (asset \<Rightarrow> uint) \<Rightarrow> asset \<Rightarrow> asset \<Rightarrow> streaming_swap \<Rightarrow> 64 word res" where
  "getMaxSwapQuantity D c s anchorDepth source target swp =
     (if \<not> cVersion3 c then Inl (Err ''bad version'')
      else if ssInterval swp = 0 then Inr 0
      else
        res_bind (if IsSwitch source then Inr (0, NewPool) else leg_min_swap D c s source 0) (\<lambda>(m1, sourcePool).
        res_bind (if IsSwitch target then Inr m1 else res_map fst (leg_min_swap D c s target m1)) (\<lambda>m2.
        res_bind (if IsSwitch source then Inr m2 else SWITCHValueInAsset D sourcePool m2) (\<lambda>minSwapSize.
          if minSwapSize = 0 then Inr 1
          else limit_quantity D c s anchorDepth source target swp (ssDeposit swp div minSwapSize)))))"

section \<open>A sub-swap in the swap handler\<close>

text \<open>
  The first sub-swap fixes interval and quantity. \<open>stream_prepare\<close> returns the store, the streaming
  swap and the size and target of the sub-swap.
\<close>

definition first_limits ::
  "dec_lib \<Rightarrow> ctx \<Rightarrow> kstore \<Rightarrow> (asset \<Rightarrow> uint) \<Rightarrow> asset \<Rightarrow> asset \<Rightarrow> streaming_swap \<Rightarrow> streaming_swap res" where
  "first_limits D c s anchorDepth source target swp =
     (if ssCount swp \<noteq> 0 then Inr swp
      else let maxLength = word_of_int (GetConfigInt64 c s ''StreamingSwapMaxLength'');
               swp1 = (if maxLength < ssInterval swp then swp\<lparr>ssInterval := maxLength\<rparr> else swp)
           in res_map (\<lambda>q. if ssQuantity swp1 = 0 \<or> ssQuantity swp1 > q then swp1\<lparr>ssQuantity := q\<rparr> else swp1)
                (getMaxSwapQuantity D c s anchorDepth source target swp1))"

definition stream_of :: "swap_store \<Rightarrow> msg_swap \<Rightarrow> streaming_swap res" where
  "stream_of s msg =
     res_bind (MsgSwap_GetStreamingSwap msg) (\<lambda>swp.
       if StreamingSwapExists s (tID (swTx msg)) then GetStreamingSwap s (tID (swTx msg)) else Inr swp)"

definition stream_prepare ::
  "dec_lib \<Rightarrow> ctx \<Rightarrow> (asset \<Rightarrow> uint) \<Rightarrow> swap_store \<Rightarrow> msg_swap \<Rightarrow> (swap_store \<times> streaming_swap \<times> uint \<times> uint) res" where
  "stream_prepare D c anchorDepth s msg =
     res_bind (first_coin msg) (\<lambda>coin.
     res_bind (stream_of s msg) (\<lambda>swp0.
     res_bind (first_limits D c (sqKeeper s) anchorDepth (cAsset coin) (swTargetAsset msg) swp0) (\<lambda>swp.
     res_map (\<lambda>(size, target). (SetStreamingSwap s swp, swp, size, target)) (NextSize D swp))))"

definition stream_book :: "swap_store \<Rightarrow> streaming_swap \<Rightarrow> uint \<Rightarrow> uint \<Rightarrow> swap_store res" where
  "stream_book s swp amount emit =
     res_bind (uint_add (ssIn swp) amount) (\<lambda>i.
     res_map (\<lambda>out. SetStreamingSwap s (swp\<lparr>ssIn := i, ssOut := out\<rparr>)) (uint_add (ssOut swp) emit))"

text \<open>
  The handler on one queue item. \<open>sub_swap\<close> stands for the swapper and the handlers that follow the
  swap: the amount it emits and the keeper's store after it, or an error, which discards every change.
\<close>

definition swap_handle ::
  "dec_lib \<Rightarrow> ctx \<Rightarrow> (asset \<Rightarrow> uint) \<Rightarrow> (kstore \<Rightarrow> msg_swap \<Rightarrow> uint \<Rightarrow> uint \<Rightarrow> (uint \<times> kstore) res) \<Rightarrow> swap_store \<Rightarrow> msg_swap
     \<Rightarrow> swap_store res" where
  "swap_handle D c anchorDepth sub_swap s msg =
     (if IsStreaming msg then
        res_bind (stream_prepare D c anchorDepth s msg) (\<lambda>(s1, swp, size, target).
        res_bind (sub_swap (sqKeeper s1) msg size target) (\<lambda>(emit, k). stream_book (s1\<lparr>sqKeeper := k\<rparr>) swp size emit))
      else
        res_bind (first_coin msg) (\<lambda>coin.
        res_map (\<lambda>(emit, k). s\<lparr>sqKeeper := k\<rparr>) (sub_swap (sqKeeper s) msg (cAmount coin) (swTradeTarget msg))))"

section \<open>One item at the end of a block\<close>

datatype swap_action =
    RefundTx tx
  | AddOutbound chain txid address coin string string "uint option"
  | CleanupPreferredAsset string uint

text \<open>
  What the loop uses of other components: the depth of the anchors, the swapper, the address of the
  affiliate collector, whether a memo is parsed as an add liquidity memo, and the aggregators.
\<close>

record swap_env =
  seAnchorDepth :: "asset \<Rightarrow> uint"
  seSubSwap :: "kstore \<Rightarrow> msg_swap \<Rightarrow> uint \<Rightarrow> uint \<Rightarrow> (uint \<times> kstore) res"
  seAffiliateCollector :: address
  seIsAddMemo :: "string \<Rightarrow> bool res"
  seDexAggregator :: "chain \<Rightarrow> string \<Rightarrow> string res"

definition PreferredAssetSwapMemoPrefix :: string where
  "PreferredAssetSwapMemoPrefix = ''SWITCHLY-PREFERRED-ASSET''"

definition set_first_amount :: "uint \<Rightarrow> msg_swap \<Rightarrow> msg_swap" where
  "set_first_amount a msg = msg\<lparr>swTx := (swTx msg)\<lparr>tCoins :=
     (case tCoins (swTx msg) of [] \<Rightarrow> [] | c # cs \<Rightarrow> c\<lparr>cAmount := a\<rparr> # cs)\<rparr>\<rparr>"

text \<open>A failed swap: whether it is refunded in full, and the store and refund then.\<close>

definition swap_failed ::
  "swap_env \<Rightarrow> swap_store \<Rightarrow> msg_swap \<Rightarrow> nat \<Rightarrow> (bool \<times> swap_store \<times> swap_action list) res" where
  "swap_failed E s msg i =
     (let hash = tID (swTx msg) in
      if IsStreaming msg then
        res_map (\<lambda>swp.
          if ssIn swp = 0 \<and> ssOut swp = 0
          then (True, RemoveSwapQueueItem (RemoveStreamingSwap s hash) hash i, [RefundTx (swTx (set_first_amount (ssDeposit swp) msg))])
          else (False, s, []))
        (stream_of s msg)
      else if has_prefix (tMemo (swTx msg)) PreferredAssetSwapMemoPrefix
          \<and> Address_Equals (tFromAddress (swTx msg)) (seAffiliateCollector E)
        then res_map (\<lambda>c. (False, s, [CleanupPreferredAsset (tMemo (swTx msg)) (cAmount c)])) (first_coin msg)
      else Inr (True, s, [RefundTx (swTx msg)]))"

text \<open>
  A finished streaming swap leaves the queue; what was swapped is sent out and what was not is
  refunded. An error of the memo or of the aggregator ends the block's work, after the removal.
\<close>

definition stream_outbound ::
  "swap_env \<Rightarrow> msg_swap \<Rightarrow> streaming_swap \<Rightarrow> swap_action list res" where
  "stream_outbound E msg swp =
     res_bind (seIsAddMemo E (tMemo (swTx msg))) (\<lambda>isSaversAdd.
       if ssOut swp = 0 \<or> isSaversAdd then Inr []
       else res_map (\<lambda>dexAgg. [AddOutbound (GetChain (swTargetAsset msg)) (tID (swTx msg)) (swDestination msg)
              (NewCoin (swTargetAsset msg) (ssOut swp)) dexAgg (swAggregatorTargetAddress msg) (swAggregatorTargetLimit msg)])
            (if swAggregator msg \<noteq> [] then seDexAggregator E (GetChain (swTargetAsset msg)) (swAggregator msg) else Inr []))"

definition stream_remainder :: "msg_swap \<Rightarrow> streaming_swap \<Rightarrow> swap_action list res" where
  "stream_remainder msg swp =
     (if ssDeposit swp > ssIn swp
      then res_map (\<lambda>c. [RefundTx ((swTx msg)\<lparr>tCoins := [NewCoin (cAsset c) (SafeSub (ssDeposit swp) (ssIn swp))]\<rparr>)]) (first_coin msg)
      else Inr [])"

definition stream_settle ::
  "swap_env \<Rightarrow> swap_store \<Rightarrow> msg_swap \<Rightarrow> nat \<Rightarrow> streaming_swap \<Rightarrow> (swap_store \<times> swap_action list \<times> bool) res" where
  "stream_settle E s msg i swp =
     (let s' = RemoveStreamingSwap (RemoveSwapQueueItem s (tID (swTx msg)) i) (tID (swTx msg)) in
      case stream_outbound E msg swp of
        Inl (Panic e) \<Rightarrow> Inl (Panic e)
      | Inl (Err e) \<Rightarrow> Inr (s', [], True)
      | Inr out \<Rightarrow> res_map (\<lambda>rest. (s', out @ rest, False)) (stream_remainder msg swp))"

text \<open>After the attempt the count of a streaming swap goes up, whether it succeeded or not.\<close>

definition stream_counted :: "ctx \<Rightarrow> string option \<Rightarrow> streaming_swap \<Rightarrow> streaming_swap" where
  "stream_counted c failure swp =
     (let n = ssCount swp + 1;
          swp1 = swp\<lparr>ssCount := n, ssLastHeight := BlockHeight c\<rparr>
      in case failure of None \<Rightarrow> swp1
         | Some e \<Rightarrow> swp1\<lparr>ssFailedSwaps := ssFailedSwaps swp @ [n], ssFailedSwapReasons := ssFailedSwapReasons swp @ [e]\<rparr>)"

definition stream_after ::
  "ctx \<Rightarrow> swap_env \<Rightarrow> swap_store \<Rightarrow> msg_swap \<Rightarrow> nat \<Rightarrow> string option \<Rightarrow> bool \<Rightarrow> (swap_store \<times> swap_action list \<times> bool) res" where
  "stream_after c E s msg i failure triggerRefund =
     (case GetStreamingSwap s (tID (swTx msg)) of
        Inl (Panic e) \<Rightarrow> Inl (Panic e)
      | Inl (Err e) \<Rightarrow> Inr (s, [], True)
      | Inr swp0 \<Rightarrow>
          let swp = stream_counted c failure swp0;
              s1 = (if triggerRefund then s else SetStreamingSwap s swp)
          in if is_ok (StreamingSwap_Valid swp) \<and> IsDone swp then stream_settle E s1 msg i swp
             else Inr (s1, [], False))"

definition swap_end_item ::
  "dec_lib \<Rightarrow> ctx \<Rightarrow> swap_env \<Rightarrow> swap_store \<Rightarrow> msg_swap \<Rightarrow> nat \<Rightarrow> (swap_store \<times> swap_action list \<times> bool) res" where
  "swap_end_item D c E s msg i =
     (case swap_handle D c (seAnchorDepth E) (seSubSwap E) s msg of
        Inl (Panic e) \<Rightarrow> Inl (Panic e)
      | Inl (Err e) \<Rightarrow>
          (case swap_failed E s msg i of
             Inl (Panic e') \<Rightarrow> Inl (Panic e')
           | Inl (Err e') \<Rightarrow> Inr (s, [], True)
           | Inr (triggerRefund, s1, acts) \<Rightarrow>
               if IsStreaming msg
               then res_map (\<lambda>(s2, acts', stop). (s2, acts @ acts', stop)) (stream_after c E s1 msg i (Some e) triggerRefund)
               else Inr (RemoveSwapQueueItem s1 (tID (swTx msg)) i, acts, False))
      | Inr s1 \<Rightarrow>
          if IsStreaming msg then stream_after c E s1 msg i None False
          else Inr (RemoveSwapQueueItem s1 (tID (swTx msg)) i, [], False))"

section \<open>Sizes and limits\<close>

lemma next_size_fits:
  assumes "NextSize D m = Inr (size', target)" and "ssIn m \<le> ssDeposit m"
  shows "ssIn m + size' \<le> ssDeposit m" and "IsLastSwap m \<Longrightarrow> ssIn m + size' = ssDeposit m"
  using assms by (auto simp: NextSize_def Let_def res_simps uint_simps split: if_splits)

text \<open>The limits of a well-configured network: a positive longest stream, and no shorter one for native swaps.\<close>

definition limits_ok :: "ctx \<Rightarrow> kstore \<Rightarrow> bool" where
  "limits_ok c s \<longleftrightarrow> 0 < GetConfigInt64 c s ''StreamingSwapMaxLength''
     \<and> GetConfigInt64 c s ''StreamingSwapMaxLength'' \<le> GetConfigInt64 c s ''StreamingSwapMaxLengthNative''
     \<and> GetConfigInt64 c s ''StreamingSwapMaxLengthNative'' < 2 ^ 63"

lemma unat_config:
  assumes "0 \<le> x" and "x < 2 ^ 63"
  shows "unat (word_of_int x :: 64 word) = nat x"
proof -
  have "uint (word_of_int x :: 64 word) = x" using assms by (simp add: take_bit_int_eq_self uint_word_of_int)
  then show ?thesis by (simp flip: nat_uint_eq)
qed

lemma cut_derived_pos:
  assumes "0 < m"
  shows "0 < cut_derived D s anchorDepth a b m"
proof -
  have "0 < 10000 div d" if "0 < d" "d \<le> 10000" for d :: nat using that by (simp add: div_greater_zero_iff)
  then show ?thesis using assms by (simp add: cut_derived_def Let_def MaxBasisPts_def)
qed

lemma limit_quantity_pos:
  assumes "limit_quantity D c s anchorDepth a b swp m = Inr q"
    and len: "0 < ssInterval swp" "unat (ssInterval swp) \<le> nat (GetConfigInt64 c s ''StreamingSwapMaxLength'')"
    and lim: "limits_ok c s"
  shows "0 < q"
proof -
  let ?m = "GetConfigInt64 c s (if IsNative a \<and> IsNative b then ''StreamingSwapMaxLengthNative'' else ''StreamingSwapMaxLength'')"
  have m: "0 \<le> ?m" "?m < 2 ^ 63" "nat (GetConfigInt64 c s ''StreamingSwapMaxLength'') \<le> nat ?m"
    using lim by (auto simp: limits_ok_def)
  let ?w = "(word_of_int ?m :: 64 word) div ssInterval swp"
  have "unat (ssInterval swp) \<le> unat (word_of_int ?m :: 64 word)" "0 < unat (ssInterval swp)"
    using m len unat_config [OF m(1,2)] by (auto simp: unat_gt_0 word_gt_0)
  then have "0 < unat ?w" by (simp add: unat_div div_greater_zero_iff)
  then have w: "0 < ?w" by (simp add: word_gt_0 unat_gt_0)
  have "0 < (of_nat n :: 64 word)" if "0 < n" "n < 2 ^ 64" for n
  proof -
    have "unat (of_nat n :: 64 word) = n" using that(2) by (simp add: unat_of_nat take_bit_nat_eq_self)
    with that(1) show ?thesis by (metis unat_gt_0 word_gt_0)
  qed
  then show ?thesis using assms(1) w cut_derived_pos [of m D s anchorDepth a b]
    by (auto simp: limit_quantity_def Let_def uint_u64_def split: if_splits)
qed

lemma first_limits_valid:
  assumes "first_limits D c s anchorDepth a b swp = Inr swp'" and "limits_ok c s" and "ssCount swp = 0"
    and "0 < ssInterval swp"
  shows "\<exists>q l. swp' = swp\<lparr>ssInterval := l, ssQuantity := q\<rparr> \<and> 0 < l \<and> 0 < q
    \<and> (ssQuantity swp \<noteq> 0 \<longrightarrow> q \<le> ssQuantity swp)"
proof -
  let ?L = "word_of_int (GetConfigInt64 c s ''StreamingSwapMaxLength'') :: 64 word"
  let ?s1 = "if ?L < ssInterval swp then swp\<lparr>ssInterval := ?L\<rparr> else swp"
  have L: "unat ?L = nat (GetConfigInt64 c s ''StreamingSwapMaxLength'')"
    using assms(2) by (intro unat_config) (auto simp: limits_ok_def)
  then have "0 < unat ?L" using assms(2) by (simp add: limits_ok_def)
  then have "0 < ?L" by (simp add: word_gt_0 unat_gt_0)
  then have s1: "0 < ssInterval ?s1" "unat (ssInterval ?s1) \<le> nat (GetConfigInt64 c s ''StreamingSwapMaxLength'')"
    using assms(4) L by (auto simp: not_less word_le_nat_alt)
  obtain q where q: "getMaxSwapQuantity D c s anchorDepth a b ?s1 = Inr q"
    and swp': "swp' = (if ssQuantity ?s1 = 0 \<or> ssQuantity ?s1 > q then ?s1\<lparr>ssQuantity := q\<rparr> else ?s1)"
    using assms(1,3) by (auto simp: first_limits_def Let_def res_simps)
  have "0 < q"
    using q s1 limit_quantity_pos [OF _ s1 assms(2)]
    by (auto simp: getMaxSwapQuantity_def res_simps split: if_splits)
  moreover have "swp' = swp\<lparr>ssInterval := ssInterval ?s1, ssQuantity := ssQuantity swp'\<rparr>" using swp' by auto
  moreover have "0 < ssQuantity swp'" using swp' \<open>0 < q\<close> by (auto simp: word_gt_0)
  moreover have "ssQuantity swp \<noteq> 0 \<longrightarrow> ssQuantity swp' \<le> ssQuantity swp" using swp' by auto
  ultimately show ?thesis using s1(1) by blast
qed

section \<open>The life of a streaming swap\<close>

text \<open>What the actions of a run refund and send.\<close>

definition refund_total :: "swap_action list \<Rightarrow> uint" where
  "refund_total acts = sum_list (map (\<lambda>a. case a of RefundTx t \<Rightarrow> sum_list (map cAmount (tCoins t)) | _ \<Rightarrow> 0) acts)"

definition sent_total :: "swap_action list \<Rightarrow> uint" where
  "sent_total acts = sum_list (map (\<lambda>a. case a of AddOutbound _ _ _ c _ _ _ \<Rightarrow> cAmount c | _ \<Rightarrow> 0) acts)"

text \<open>What one attempt swaps in and out; nothing if it fails.\<close>

definition attempt_amounts :: "dec_lib \<Rightarrow> ctx \<Rightarrow> swap_env \<Rightarrow> swap_store \<Rightarrow> msg_swap \<Rightarrow> uint \<times> uint" where
  "attempt_amounts D c E s msg =
     (case stream_prepare D c (seAnchorDepth E) s msg of
        Inl _ \<Rightarrow> (0, 0)
      | Inr (s1, swp, size', target) \<Rightarrow>
          (case seSubSwap E (sqKeeper s1) msg size' target of Inl _ \<Rightarrow> (0, 0) | Inr (emit, _) \<Rightarrow> (size', emit)))"

text \<open>The stored stream after \<open>n\<close> attempts that swapped \<open>w\<close> for \<open>e\<close>.\<close>

definition stream_holds :: "msg_swap \<Rightarrow> uint \<Rightarrow> nat \<Rightarrow> uint \<Rightarrow> uint \<Rightarrow> streaming_swap \<Rightarrow> bool" where
  "stream_holds msg dep n w e swp \<longleftrightarrow> ssTxID swp = tID (swTx msg) \<and> ssDeposit swp = dep \<and> ssIn swp = w \<and> ssOut swp = e
     \<and> w \<le> dep \<and> unat (ssCount swp) = n \<and> n < unat (ssQuantity swp) \<and> 0 < ssInterval swp
     \<and> (swStreamQuantity msg \<noteq> 0 \<longrightarrow> ssQuantity swp \<le> swStreamQuantity msg)"

definition stream_state :: "msg_swap \<Rightarrow> uint \<Rightarrow> nat \<Rightarrow> uint \<Rightarrow> uint \<Rightarrow> swap_store \<Rightarrow> bool" where
  "stream_state msg dep n w e s \<longleftrightarrow>
     (case sqStreams s (kv_key (tID (swTx msg))) of
        None \<Rightarrow> n = 0 \<and> w = 0 \<and> e = 0
      | Some Corrupt \<Rightarrow> False
      | Some (Stored swp) \<Rightarrow> 0 < n \<and> stream_holds msg dep n w e swp)"

definition stream_settled :: "msg_swap \<Rightarrow> nat \<Rightarrow> uint \<Rightarrow> bool \<Rightarrow> uint \<Rightarrow> uint \<Rightarrow> swap_store \<Rightarrow> swap_action list \<Rightarrow> bool" where
  "stream_settled msg i dep sv w e s acts \<longleftrightarrow> \<not> HasSwapQueueItem s (tID (swTx msg)) i
     \<and> w + refund_total acts = dep \<and> sent_total acts = (if sv then 0 else e)"

lemma has_item_frames [simp]:
  "HasSwapQueueItem (SetStreamingSwap s swp) h i = HasSwapQueueItem s h i"
  "HasSwapQueueItem (RemoveStreamingSwap s h') h i = HasSwapQueueItem s h i"
  "\<not> HasSwapQueueItem (RemoveSwapQueueItem s h i) h i"
  "sqStreams (RemoveSwapQueueItem s h i) = sqStreams s"
  by (auto simp: HasSwapQueueItem_def SetStreamingSwap_def RemoveStreamingSwap_def RemoveSwapQueueItem_def map_of_eq_None_iff)

lemma streams_set [simp]: "sqStreams (SetStreamingSwap s swp) = (sqStreams s)(kv_key (ssTxID swp) \<mapsto> Stored swp)"
  by (simp add: SetStreamingSwap_def kv_set_def)

lemma totals_simps [simp]:
  "refund_total [] = 0" "sent_total [] = 0"
  "refund_total (xs @ ys) = refund_total xs + refund_total ys" "sent_total (xs @ ys) = sent_total xs + sent_total ys"
  by (simp_all add: refund_total_def sent_total_def)

lemma stream_counted_fields [simp]:
  "ssTxID (stream_counted c f swp) = ssTxID swp" "ssDeposit (stream_counted c f swp) = ssDeposit swp"
  "ssIn (stream_counted c f swp) = ssIn swp" "ssOut (stream_counted c f swp) = ssOut swp"
  "ssCount (stream_counted c f swp) = ssCount swp + 1" "ssQuantity (stream_counted c f swp) = ssQuantity swp"
  "ssInterval (stream_counted c f swp) = ssInterval swp"
  by (simp_all add: stream_counted_def Let_def split: option.splits)

lemma count_up:
  assumes "stream_holds msg dep n w e swp"
  shows "unat (ssCount swp + 1) = Suc n"
proof -
  have "Suc (unat (ssCount swp)) \<le> unat (ssQuantity swp)" using assms by (simp add: stream_holds_def)
  moreover have "unat (ssQuantity swp) < 2 ^ 64" using unsigned_less [of "ssQuantity swp"] by simp
  ultimately have "unat (ssCount swp) + 1 < 2 ^ 64" by simp
  then have "unat (ssCount swp + 1) = unat (ssCount swp) + 1" using unat_add_lem [of "ssCount swp" 1] by simp
  then show ?thesis using assms by (simp add: stream_holds_def)
qed

text \<open>After the count: the stream goes on, or it is settled.\<close>

lemma stream_after_cases:
  assumes holds: "stream_holds msg dep n w e swp" and at: "sqStreams s (kv_key (tID (swTx msg))) = Some (Stored swp)"
    and coin: "tCoins (swTx msg) = [coin]" and dep: "0 < dep" and queued: "HasSwapQueueItem s (tID (swTx msg)) i"
    and memo: "seIsAddMemo E (tMemo (swTx msg)) = Inr sv"
    and run: "stream_after c E s msg i f False = Inr (s', acts, False)"
  shows "(HasSwapQueueItem s' (tID (swTx msg)) i \<and> acts = [] \<and> stream_state msg dep (Suc n) w e s')
    \<or> stream_settled msg i dep sv w e s' acts"
proof -
  let ?t = "stream_counted c f swp"
  note up = count_up [OF holds]
  have get: "GetStreamingSwap s (tID (swTx msg)) = Inr swp" using at by (simp add: GetStreamingSwap_def kv_get_def)
  have valid: "is_ok (StreamingSwap_Valid ?t)"
    using holds dep by (auto simp: stream_holds_def StreamingSwap_Valid_def word_gt_0 word_less_1)
  show ?thesis
  proof (cases "IsDone ?t")
    case False
    then have "Suc n < unat (ssQuantity swp)" using up by (simp add: IsDone_def word_less_nat_alt not_le)
    with False run get valid have "s' = SetStreamingSwap s ?t" "acts = []"
      by (simp_all add: stream_after_def Let_def)
    moreover have "stream_holds msg dep (Suc n) w e ?t"
      using holds up \<open>Suc n < unat (ssQuantity swp)\<close> by (simp add: stream_holds_def)
    ultimately show ?thesis using queued holds by (simp add: stream_state_def stream_holds_def)
  next
    case True
    with run get valid have "stream_settle E (SetStreamingSwap s ?t) msg i ?t = Inr (s', acts, False)"
      by (simp add: stream_after_def Let_def)
    then obtain out rest where o: "stream_outbound E msg ?t = Inr out" and r: "stream_remainder msg ?t = Inr rest"
      and s': "\<not> HasSwapQueueItem s' (tID (swTx msg)) i" and acts: "acts = out @ rest"
      by (auto simp: stream_settle_def Let_def res_simps split: sum.splits go_error.splits)
    have "refund_total out = 0 \<and> sent_total out = (if sv then 0 else e)"
      using o memo holds
      by (auto simp: stream_outbound_def res_simps stream_holds_def refund_total_def sent_total_def NewCoin_def split: if_splits)
    moreover have "refund_total rest = dep - w \<and> sent_total rest = 0"
      using r holds coin
      by (auto simp: stream_remainder_def res_simps stream_holds_def refund_total_def sent_total_def first_coin_def NewCoin_def split: if_splits)
    ultimately show ?thesis using s' acts holds by (simp add: stream_settled_def stream_holds_def)
  qed
qed

lemma stream_of_cases:
  assumes st: "stream_state msg dep n w e s" and coin: "tCoins (swTx msg) = [coin]" "cAmount coin = dep"
    and run: "stream_of s msg = Inr swp"
  obtains (fresh) "sqStreams s (kv_key (tID (swTx msg))) = None" "n = 0" "w = 0" "e = 0"
      "swp = NewStreamingSwap (tID (swTx msg)) (swStreamQuantity msg) (swStreamInterval msg) (swTradeTarget msg) dep"
    | (running) "sqStreams s (kv_key (tID (swTx msg))) = Some (Stored swp)" "0 < n" "stream_holds msg dep n w e swp"
proof (cases "sqStreams s (kv_key (tID (swTx msg)))")
  case None
  with st coin run that(1) show thesis
    by (simp add: stream_state_def stream_of_def StreamingSwapExists_def MsgSwap_GetStreamingSwap_def first_coin_def)
next
  case (Some sl)
  with st obtain swp' where "sl = Stored swp'" "0 < n" "stream_holds msg dep n w e swp'"
    by (cases sl) (auto simp: stream_state_def)
  with Some coin run that(2) show thesis
    by (simp add: stream_of_def StreamingSwapExists_def MsgSwap_GetStreamingSwap_def first_coin_def GetStreamingSwap_def kv_get_def)
qed

lemma stream_prepared:
  assumes st: "stream_state msg dep n w e s" and coin: "tCoins (swTx msg) = [coin]" "cAmount coin = dep"
    and live: "IsStreaming msg" and lim: "limits_ok c (sqKeeper s)"
    and run: "stream_prepare D c ad s msg = Inr (s1, swp, size', target)"
  shows "s1 = SetStreamingSwap s swp \<and> stream_holds msg dep n w e swp \<and> w + size' \<le> dep"
proof -
  let ?h = "tID (swTx msg)"
  obtain swp0 where s0: "stream_of s msg = Inr swp0"
    and fl: "first_limits D c (sqKeeper s) ad (cAsset coin) (swTargetAsset msg) swp0 = Inr swp"
    and nx: "NextSize D swp = Inr (size', target)" and s1: "s1 = SetStreamingSwap s swp"
    using run coin by (auto simp: stream_prepare_def res_simps first_coin_def)
  from st coin s0 have "stream_holds msg dep n w e swp"
  proof (cases rule: stream_of_cases)
    case fresh
    with first_limits_valid [OF fl lim] live obtain q l where
      "swp = swp0\<lparr>ssInterval := l, ssQuantity := q\<rparr>" "0 < l" "0 < q" "ssQuantity swp0 \<noteq> 0 \<longrightarrow> q \<le> ssQuantity swp0"
      by (auto simp: NewStreamingSwap_def IsStreaming_def)
    then show ?thesis using fresh by (simp add: stream_holds_def NewStreamingSwap_def unat_gt_0 word_gt_0)
  next
    case running
    then have "ssCount swp0 \<noteq> 0" by (auto simp: stream_holds_def)
    with fl running show ?thesis by (simp add: first_limits_def)
  qed
  then show ?thesis using s1 next_size_fits(1) [OF nx] by (simp add: stream_holds_def)
qed

lemma uint_add_not_Err: "uint_add a b \<noteq> Inl (Err x)"
  by (simp add: uint_add_def uint_chk_def)

lemma book_cases:
  "stream_book s swp a e = Inr s' \<Longrightarrow> s' = SetStreamingSwap s (swp\<lparr>ssIn := ssIn swp + a, ssOut := ssOut swp + e\<rparr>)"
  "stream_book s swp a e \<noteq> Inl (Err x)"
  using uint_add_not_Err by (auto simp: stream_book_def res_bind_def res_map_def uint_simps split: sum.splits)

lemma stream_refunded_invalid: "StreamingSwap_Valid (stream_counted c f (NewStreamingSwap h 0 0 0 0)) = Inl (Err ''quantity cannot be less than 1'')"
  by (simp add: StreamingSwap_Valid_def NewStreamingSwap_def)

text \<open>One attempt of a queued streaming swap.\<close>

lemma stream_attempt:
  assumes st: "stream_state msg dep n w e s" and coin: "tCoins (swTx msg) = [coin]" "cAmount coin = dep"
    and live: "IsStreaming msg" and dep: "0 < dep" and lim: "limits_ok c (sqKeeper s)"
    and queued: "HasSwapQueueItem s (tID (swTx msg)) i"
    and memo: "seIsAddMemo E (tMemo (swTx msg)) = Inr sv"
    and run: "swap_end_item D c E s msg i = Inr (s', acts, False)"
    and amounts: "attempt_amounts D c E s msg = (dw, de)"
  shows "(HasSwapQueueItem s' (tID (swTx msg)) i \<and> acts = [] \<and> stream_state msg dep (Suc n) (w + dw) (e + de) s')
    \<or> stream_settled msg i dep sv (w + dw) (e + de) s' acts"
proof (cases "swap_handle D c (seAnchorDepth E) (seSubSwap E) s msg")
  case (Inr s1)
  with live obtain s0 swp size' target emit k where
    p: "stream_prepare D c (seAnchorDepth E) s msg = Inr (s0, swp, size', target)"
    and sub: "seSubSwap E (sqKeeper s0) msg size' target = Inr (emit, k)"
    and book: "stream_book (s0\<lparr>sqKeeper := k\<rparr>) swp size' emit = Inr s1"
    by (auto simp: swap_handle_def res_simps)
  let ?swp = "swp\<lparr>ssIn := ssIn swp + size', ssOut := ssOut swp + emit\<rparr>"
  have pr: "s0 = SetStreamingSwap s swp" "stream_holds msg dep n w e swp" "w + size' \<le> dep"
    using stream_prepared [OF st coin live lim p] by blast+
  have d: "dw = size'" "de = emit" using amounts p sub by (simp_all add: attempt_amounts_def)
  have s1: "s1 = SetStreamingSwap (s0\<lparr>sqKeeper := k\<rparr>) ?swp" using book_cases(1) [OF book] .
  have "stream_holds msg dep n (w + dw) (e + de) ?swp" using pr(2,3) d by (simp add: stream_holds_def)
  moreover have "sqStreams s1 (kv_key (tID (swTx msg))) = Some (Stored ?swp)"
    using pr(2) by (simp add: s1 stream_holds_def SetStreamingSwap_def kv_set_def)
  moreover have "HasSwapQueueItem s1 (tID (swTx msg)) i"
    using queued by (simp add: s1 pr(1) HasSwapQueueItem_def SetStreamingSwap_def)
  moreover have "stream_after c E s1 msg i None False = Inr (s', acts, False)"
    using run Inr live by (simp add: swap_end_item_def)
  ultimately show ?thesis using stream_after_cases coin(1) dep memo by blast
next
  case (Inl err)
  with run obtain x where err: "err = Err x" by (cases err) (auto simp: swap_end_item_def)
  have z: "dw = 0" "de = 0"
    using Inl live amounts book_cases(2) err
    by (auto simp: swap_handle_def attempt_amounts_def res_bind_def split: sum.splits prod.splits)
  from run Inl err live obtain t s1 acts1 acts2 where
    f: "swap_failed E s msg i = Inr (t, s1, acts1)" and acts: "acts = acts1 @ acts2"
    and aft: "stream_after c E s1 msg i (Some x) t = Inr (s', acts2, False)"
    by (auto simp: swap_end_item_def res_simps split: sum.splits go_error.splits)
  obtain swp where so: "stream_of s msg = Inr swp"
    using f live by (auto simp: swap_failed_def Let_def res_simps)
  have swp: "ssDeposit swp = dep \<and> ssIn swp = w \<and> ssOut swp = e"
    using st coin so by (cases rule: stream_of_cases) (simp_all add: NewStreamingSwap_def stream_holds_def)
  show ?thesis
  proof (cases "w = 0 \<and> e = 0")
    case True
    with f so swp live have t: t and s1: "s1 = RemoveSwapQueueItem (RemoveStreamingSwap s (tID (swTx msg))) (tID (swTx msg)) i"
      and a1: "acts1 = [RefundTx (swTx (set_first_amount dep msg))]"
      by (simp_all add: swap_failed_def Let_def)
    have "s' = s1 \<and> acts2 = []"
      using aft t by (simp add: stream_after_def s1 GetStreamingSwap_def kv_get_def kv_del_def RemoveStreamingSwap_def
        stream_refunded_invalid Let_def)
    moreover have "refund_total acts1 = dep" "sent_total acts1 = 0"
      using a1 coin by (simp_all add: refund_total_def sent_total_def set_first_amount_def)
    ultimately show ?thesis using True z s1 acts by (simp add: stream_settled_def)
  next
    case False
    with f so swp live have t: "\<not> t" "s1 = s" "acts1 = []" by (auto simp: swap_failed_def Let_def)
    from False st obtain swp' where "sqStreams s (kv_key (tID (swTx msg))) = Some (Stored swp')" "stream_holds msg dep n w e swp'"
      by (auto simp: stream_state_def split: option.splits slot.splits)
    then show ?thesis
      using stream_after_cases [of msg dep n w e swp' s coin i E sv c "Some x" s' acts2] aft t acts z coin dep queued memo by simp
  qed
qed

text \<open>
  The life of one queued streaming swap. \<open>n\<close> attempts have swapped \<open>w\<close> for \<open>e\<close>; \<open>acts\<close> are the
  refunds and outbounds so far; between attempts anything may change but its stream and its place in
  the queue.
\<close>

inductive stream_path ::
  "dec_lib \<Rightarrow> msg_swap \<Rightarrow> nat \<Rightarrow> bool \<Rightarrow> nat \<Rightarrow> uint \<Rightarrow> uint \<Rightarrow> swap_store \<Rightarrow> swap_action list \<Rightarrow> bool" for D msg i sv where
  start: "sqStreams s (kv_key (tID (swTx msg))) = None \<Longrightarrow> HasSwapQueueItem s (tID (swTx msg)) i
    \<Longrightarrow> stream_path D msg i sv 0 0 0 s []"
| attempt: "stream_path D msg i sv n w e s acts \<Longrightarrow> HasSwapQueueItem s (tID (swTx msg)) i \<Longrightarrow> limits_ok c (sqKeeper s)
    \<Longrightarrow> seIsAddMemo E (tMemo (swTx msg)) = Inr sv \<Longrightarrow> swap_end_item D c E s msg i = Inr (s', acts', False)
    \<Longrightarrow> attempt_amounts D c E s msg = (dw, de) \<Longrightarrow> stream_path D msg i sv (Suc n) (w + dw) (e + de) s' (acts @ acts')"
| other: "stream_path D msg i sv n w e s acts
    \<Longrightarrow> sqStreams s' (kv_key (tID (swTx msg))) = sqStreams s (kv_key (tID (swTx msg)))
    \<Longrightarrow> HasSwapQueueItem s' (tID (swTx msg)) i = HasSwapQueueItem s (tID (swTx msg)) i
    \<Longrightarrow> stream_path D msg i sv n w e s' acts"

lemma stream_path_inv:
  assumes "stream_path D msg i sv n w e s acts" and "IsStreaming msg" and "tCoins (swTx msg) = [coin]" and "0 < cAmount coin"
  shows "if HasSwapQueueItem s (tID (swTx msg)) i then acts = [] \<and> stream_state msg (cAmount coin) n w e s
    else stream_settled msg i (cAmount coin) sv w e s acts"
  using assms(1)
proof induction
  case (start s)
  then show ?case by (simp add: stream_state_def)
next
  case (attempt n w e s acts c E s' acts' dw de)
  then have "acts = []" "stream_state msg (cAmount coin) n w e s" by simp_all
  with stream_attempt [OF _ assms(3) refl assms(2,4) attempt.hyps(3,2,4,5,6)] show ?case
    by (auto simp: stream_settled_def)
next
  case (other n w e s acts s')
  then show ?case by (simp add: stream_state_def stream_settled_def split: if_splits)
qed

section \<open>Properties\<close>


section \<open>A concrete run\<close>

definition stream_ctx :: "int \<Rightarrow> ctx" where
  "stream_ctx h = \<lparr>BlockHeight = h, cBuild = mainnet_overrides\<lparr>int64Overrides := (\<lambda>_. Some 100)\<rparr>, cNetwork = MainNet,
     cVersion3 = True, cSupply = (\<lambda>_. 0), cModuleAddress = (\<lambda>m. ''switch1reserve'')\<rparr>"

definition stream_keeper :: kstore where
  "stream_keeper = \<lparr>kPools = [''BTC.BTC'' \<mapsto> Stored (NewPool\<lparr>BalanceSwitch := 1000, BalanceAsset := 40, pAsset := BTCAsset, LPUnits := 1000\<rparr>)],
     kLPs = Map.empty, kMimirs = Map.empty, kRagnarokHeight = Map.empty, kRagnarokNth = Map.empty, kRagnarokPending = Map.empty,
     kRagnarokPool = Map.empty, kPOL = Map.empty, kNetworkFees = Map.empty, kPoolLUVI = Map.empty\<rparr>"

definition stream_msg :: msg_swap where
  "stream_msg = \<lparr>swTx = NewTx ''T1'' ''switch1a'' ''switch1v'' [NewCoin SwitchNative 50] [] ''=:BTC.BTC:bc1a'', swTargetAsset = BTCAsset,
     swDestination = ''bc1a'', swTradeTarget = 0, swAffiliateAddress = '''', swAffiliateBasisPoints = 0, swSigner = ''n'',
     swAggregator = '''', swAggregatorTargetAddress = '''', swAggregatorTargetLimit = None, swSwapType = MarketSwap,
     swStreamQuantity = 2, swStreamInterval = 3\<rparr>"

definition stream_env :: "uint res \<Rightarrow> swap_env" where
  "stream_env r = \<lparr>seAnchorDepth = (\<lambda>_. 0), seSubSwap = (\<lambda>k m x t. res_map (\<lambda>e. (e, k)) r), seAffiliateCollector = ''switch1aff'',
     seIsAddMemo = (\<lambda>_. Inr False), seDexAggregator = (\<lambda>_ _. Inr [])\<rparr>"

definition stream_store :: "nat option \<Rightarrow> swap_store" where
  "stream_store st = \<lparr>sqKeeper = stream_keeper, sqQueue = [(swap_key ''T1'' 0, Stored stream_msg)],
     sqStreams = (case st of None \<Rightarrow> Map.empty | Some out \<Rightarrow> [kv_key ''T1'' \<mapsto> Stored ((NewStreamingSwap ''T1'' 2 3 0 50)\<lparr>
       ssCount := 1, ssLastHeight := 10, ssIn := 25, ssOut := out\<rparr>)])\<rparr>"

lemma stream_names:
  "Asset_String BTCAsset = ''BTC.BTC''" "kv_key ''BTC.BTC'' = ''BTC.BTC''" "\<not> Asset_IsEmpty BTCAsset" "\<not> IsSwitch BTCAsset" "IsSwitch SwitchNative"
  "\<not> IsNative BTCAsset" "GetLayer1Asset BTCAsset = BTCAsset" "\<not> aSynth BTCAsset" "\<not> aTrade BTCAsset" "\<not> aSecured BTCAsset" 
  "\<not> IsDerivedAsset BTCAsset" "\<not> IsDerivedAsset SwitchNative" 
  by code_simp+

lemma stream_config:
  "GetConfigInt64 (stream_ctx h) stream_keeper k = 100" "cVersion3 (stream_ctx h)" "BlockHeight (stream_ctx h) = h"
  by (simp_all add: GetConfigInt64_def GetMimir_def stream_keeper_def stream_ctx_def GetInt64Value_def kv_get_def)

lemma stream_pool: "GetPool stream_keeper BTCAsset = Inr (NewPool\<lparr>BalanceSwitch := 1000, BalanceAsset := 40, pAsset := BTCAsset, LPUnits := 1000\<rparr>)"
  by (simp add: GetPool_def stream_keeper_def stream_names kv_get_def)

lemma stream_share: "GetSafeShare legacy_dec 100 10000 1000 = 10" "GetSafeShare legacy_dec x y 0 = 0"
  by (simp_all add: GetSafeShare_def GetUncappedShare_def uncapped_share_body_def legacy_eval uint_eval )

lemma stream_words: "\<not> (2 :: 64 word) \<le> 1"
  by (simp add: word_le_nat_alt)

lemmas stream_eval = stream_words swap_end_item_def swap_handle_def stream_prepare_def stream_of_def first_limits_def getMaxSwapQuantity_def
  leg_min_swap_def limit_quantity_def cut_derived_def derived_dbps_def stream_config stream_pool stream_names getMinSlipBps_def
  SafeUintFromInt64_def stream_share stream_env_def stream_store_def stream_msg_def first_coin_def MsgSwap_GetStreamingSwap_def
  NewTx_def NewCoin_def NewStreamingSwap_def StreamingSwapExists_def GetStreamingSwap_def SetStreamingSwap_def IsStreaming_def
  NextSize_def DefaultSwapSize_def IsLastSwap_def IsDone_def Let_def uint_eval uint_u64_def stream_book_def stream_after_def
  stream_counted_def StreamingSwap_Valid_def kv_get_def kv_set_def MaxBasisPts_def NewPool_def HasSwapQueueItem_def

lemma stream_first:
  "swap_end_item legacy_dec (stream_ctx 10) (stream_env (Inr 1)) (stream_store None) stream_msg 0 = Inr (stream_store (Some 1), [], False)"
  by (simp add: stream_eval)

lemma stream_second:
  "\<exists>s' acts. swap_end_item legacy_dec (stream_ctx 13) (stream_env (Inl (Err ''slip''))) (stream_store (Some 1)) stream_msg 0
      = Inr (s', acts, False) \<and> \<not> HasSwapQueueItem s' ''T1'' 0 \<and> refund_total acts = 25 \<and> sent_total acts = 1"
  by (simp add: stream_eval swap_failed_def stream_settle_def stream_outbound_def stream_remainder_def RemoveStreamingSwap_def
    RemoveSwapQueueItem_def kv_del_def refund_total_def sent_total_def)

lemma stream_amounts:
  "attempt_amounts legacy_dec (stream_ctx 10) (stream_env (Inr 1)) (stream_store None) stream_msg = (25, 1)"
  "attempt_amounts legacy_dec (stream_ctx 13) (stream_env (Inl (Err ''slip''))) (stream_store (Some 1)) stream_msg = (0, 0)"
  by (simp_all add: attempt_amounts_def stream_eval)



end
