(* ===== verification/Swap_Queue.thy ===== *)
theory Swap_Queue
  imports Streaming_Swaps
begin

text \<open>
  The swap queue: \<^verbatim>\<open>src/x/switchly/manager_swap_queue.go\<close> (scores, order, trade pairs) and
  \<^verbatim>\<open>manager_swap_queue_current.go\<close> (which swaps a block takes, in which order, and the loop over them).
\<close>

section \<open>Items and their order\<close>

record swap_item =
  siIndex :: nat
  siMsg :: msg_swap
  siFee :: uint
  siSlip :: uint

definition same_item :: "txid \<Rightarrow> nat \<Rightarrow> swap_item \<Rightarrow> bool" where
  "same_item h n x \<longleftrightarrow> TxID_Equals (tID (swTx (siMsg x))) h \<and> n = siIndex x"

definition HasItem :: "swap_item list \<Rightarrow> txid \<Rightarrow> bool" where
  "HasItem items hash \<longleftrightarrow> (\<exists>x \<in> set items. TxID_Equals (tID (swTx (siMsg x))) hash)"

record swap_score =
  scMsg :: msg_swap
  scScore :: nat
  scIndex :: nat

text \<open>
  \<open>byFee\<close> and \<open>bySlip\<close> are the same slice as \<open>items\<close>, so that both sorts reorder one array: when the
  scores are filled in it is ordered by slip, and by fee only among equal slips.
\<close>

definition sorted_slice :: "swap_item list \<Rightarrow> swap_item list" where
  "sorted_slice items = sort_by (\<lambda>x y. siSlip x > siSlip y) (sort_by (\<lambda>x y. siFee x > siFee y) items)"

definition score_is :: "swap_item \<Rightarrow> swap_score \<Rightarrow> bool" where
  "score_is x sc \<longleftrightarrow> TxID_Equals (tID (swTx (scMsg sc))) (tID (swTx (siMsg x))) \<and> scIndex sc = siIndex x"

definition swap_scores :: "swap_item list \<Rightarrow> swap_score list" where
  "swap_scores arr =
     fold (\<lambda>(i, x). update_first (score_is x) (\<lambda>sc. sc\<lparr>scScore := scScore sc + i\<rparr>)) (enumerate 0 arr)
       (map (\<lambda>(i, x). \<lparr>scMsg = siMsg x, scScore = i, scIndex = siIndex x\<rparr>) (enumerate 0 arr))"

text \<open>An entry that no item matches stays the zero value of the item.\<close>

definition Sort :: "swap_item \<Rightarrow> swap_item list \<Rightarrow> swap_item list" where
  "Sort zero items =
     (let arr = sorted_slice items;
          byID = sort_by (\<lambda>a b. str_less (tID (swTx (scMsg a))) (tID (swTx (scMsg b)))) (swap_scores arr);
          byScore = sort_by (\<lambda>a b. scScore a < scScore b) byID
      in map (\<lambda>sc. case find (same_item (tID (swTx (scMsg sc))) (scIndex sc)) arr of Some x \<Rightarrow> x | None \<Rightarrow> zero) byScore)"

section \<open>Trade pairs\<close>

record trade_pair =
  tpSource :: asset
  tpTarget :: asset

definition genTradePair :: "asset \<Rightarrow> asset \<Rightarrow> trade_pair" where
  "genTradePair s t = \<lparr>tpSource = s, tpTarget = t\<rparr>"

definition TradePair_String :: "trade_pair \<Rightarrow> string" where
  "TradePair_String p = Asset_String (tpSource p) @ ''>'' @ Asset_String (tpTarget p)"

definition HasSWITCH :: "trade_pair \<Rightarrow> bool" where
  "HasSWITCH p \<longleftrightarrow> IsSwitch (tpSource p) \<or> IsSwitch (tpTarget p)"

definition TradePair_Equals :: "trade_pair \<Rightarrow> trade_pair \<Rightarrow> bool" where
  "TradePair_Equals p q \<longleftrightarrow> Asset_Equals (tpSource p) (tpSource q) \<and> Asset_Equals (tpTarget p) (tpTarget q)"

definition reverse_of :: "trade_pair \<Rightarrow> trade_pair \<Rightarrow> bool" where
  "reverse_of trade p =
     (if IsSwitch (tpSource trade) then Asset_Equals (tpSource p) (tpTarget trade)
      else if IsSwitch (tpTarget trade) then Asset_Equals (tpTarget p) (tpSource trade)
      else Asset_Equals (tpSource p) (tpTarget trade) \<or> Asset_Equals (tpTarget p) (tpSource trade))"

definition findMatchingTrades :: "trade_pair list \<Rightarrow> trade_pair \<Rightarrow> trade_pair list \<Rightarrow> trade_pair list" where
  "findMatchingTrades p trade pairs =
     fold (\<lambda>q acc. if reverse_of trade q \<and> \<not> (\<exists>p2 \<in> set acc. TradePair_Equals p2 q) then acc @ [q] else acc) pairs p"

section \<open>Which swaps a block takes\<close>

definition queue_index :: "string \<Rightarrow> nat option" where
  "queue_index key = map_option nat (parse_int64 (rev (fst (split2 (CHR ''-'') (rev key)))))"

text \<open>A streaming swap is due at multiples of its interval; the first attempt is due at once.\<close>

definition stream_due :: "ctx \<Rightarrow> swap_store \<Rightarrow> msg_swap \<Rightarrow> bool res" where
  "stream_due c s msg =
     (if GetConfigInt64 c (sqKeeper s) ''StreamingSwapPause'' > 0 then Inr False
      else (case stream_of s msg of
          Inl (Panic e) \<Rightarrow> Inl (Panic e)
        | Inl (Err e) \<Rightarrow> Inr False
        | Inr swp \<Rightarrow>
            if ssLastHeight swp > 0 then
              if ssLastHeight swp \<ge> BlockHeight c then Inr False
              else if sint (ssInterval swp) = 0 then Inl (Panic ''integer divide by zero'')
              else if \<not> sint (ssInterval swp) dvd i64 (BlockHeight c - ssLastHeight swp) then Inr False
              else res_map Not (IsTradingHalt c (sqKeeper s) (TradeSwap (tCoins (swTx msg)) (swTargetAsset msg)))
            else Inr True))"

definition fetch_item :: "ctx \<Rightarrow> swap_store \<Rightarrow> string \<times> msg_swap slot \<Rightarrow> swap_item list res" where
  "fetch_item c s kv =
     (case snd kv of
        Corrupt \<Rightarrow> Inr []
      | Stored msg \<Rightarrow>
          (case queue_index (fst kv) of
             None \<Rightarrow> Inr []
           | Some i \<Rightarrow>
               res_map (\<lambda>due. if due then [\<lparr>siIndex = i, siMsg = msg, siFee = 0, siSlip = 0\<rparr>] else [])
                 (if IsStreaming msg then stream_due c s msg else Inr True)))"

definition FetchQueue :: "ctx \<Rightarrow> swap_store \<Rightarrow> swap_item list res" where
  "FetchQueue c s = res_fold (\<lambda>kv acc. res_map (\<lambda>xs. acc @ xs) (fetch_item c s kv)) (sqQueue s) []"

definition getTodoNum :: "int \<Rightarrow> int \<Rightarrow> int \<Rightarrow> int" where
  "getTodoNum queueLen minSwapsPerBlock maxSwapsPerBlock =
     (let todo = (if minSwapsPerBlock \<ge> queueLen then queueLen else go_quot queueLen 2)
      in if maxSwapsPerBlock < todo then maxSwapsPerBlock else todo)"

section \<open>Scores\<close>

definition getLiquidityFeeAndSlip :: "dec_lib \<Rightarrow> pool \<Rightarrow> asset \<Rightarrow> uint \<Rightarrow> swap_item \<Rightarrow> int \<Rightarrow> swap_item res" where
  "getLiquidityFeeAndSlip D p sourceAsset x item virtualDepthMult =
     (let sw = IsSwitch sourceAsset;
          mult = unat (word_of_int virtualDepthMult :: 64 word);
          X = GetUncappedShare D mult 10000 (if sw then BalanceSwitch p else BalanceAsset p);
          Y = GetUncappedShare D mult 10000 (if sw then BalanceAsset p else BalanceSwitch p)
      in res_bind (CalcLiquidityFee X x Y) (\<lambda>fee0.
         let fee = (if sw then AssetValueInSWITCH D p fee0 else fee0) in
         res_bind (CalcSwapSlip D X x) (\<lambda>slip.
         res_bind (uint_add (siFee item) fee) (\<lambda>f.
         res_map (\<lambda>sl. item\<lparr>siFee := f, siSlip := sl\<rparr>) (uint_add (siSlip item) slip)))))"

text \<open>The pool of a leg: none for SWITCH, and none if it cannot be read.\<close>

definition leg_pool :: "kstore \<Rightarrow> asset \<Rightarrow> pool" where
  "leg_pool s a = (if IsSwitch a then NewPool else case GetPool s (GetLayer1Asset a) of Inl _ \<Rightarrow> NewPool | Inr p \<Rightarrow> p)"

definition no_depth :: "pool \<Rightarrow> bool" where
  "no_depth p \<longleftrightarrow> Pool_IsEmpty p \<or> BalanceSwitch p = 0 \<or> BalanceAsset p = 0"

definition score_msg :: "dec_lib \<Rightarrow> kstore \<Rightarrow> int \<Rightarrow> swap_item \<Rightarrow> swap_item res" where
  "score_msg D s synthMult item =
     res_bind (first_coin (siMsg item)) (\<lambda>coin.
       let source = cAsset coin; target = swTargetAsset (siMsg item);
           nonSwitch = (if IsSwitch source then target else source);
           p = leg_pool s nonSwitch;
           mult = (\<lambda>a. if aSynth a then synthMult else 10000)
       in if no_depth p \<or> (\<not> IsAvailable p \<and> \<not> aSynth source) then Inr item
          else res_bind (getLiquidityFeeAndSlip D p source (cAmount coin) item (mult nonSwitch)) (\<lambda>item1.
            if IsSwitch source \<or> IsSwitch target then Inr item1
            else let p2 = leg_pool s target in
              if no_depth p2 \<or> \<not> IsAvailable p2 then Inr item1
              else getLiquidityFeeAndSlip D p2 SwitchNative (AssetValueInSWITCH D p (cAmount coin)) item1 (mult target)))"

definition scoreMsgs :: "dec_lib \<Rightarrow> kstore \<Rightarrow> int \<Rightarrow> swap_item list \<Rightarrow> swap_item list res" where
  "scoreMsgs D s synthMult items = res_fold (\<lambda>x acc. res_map (\<lambda>y. acc @ [y]) (score_msg D s synthMult x)) items []"

section \<open>The end of a block\<close>

fun run_picks ::
  "dec_lib \<Rightarrow> ctx \<Rightarrow> swap_env \<Rightarrow> swap_item list \<Rightarrow> swap_store \<Rightarrow> (swap_store \<times> swap_action list \<times> bool) res" where
  "run_picks D c E [] s = Inr (s, [], False)"
| "run_picks D c E (x # xs) s =
     res_bind (swap_end_item D c E s (siMsg x) (siIndex x)) (\<lambda>(s1, acts, stop).
       if stop then Inr (s1, acts, True)
       else res_map (\<lambda>(s2, acts', stop'). (s2, acts @ acts', stop')) (run_picks D c E xs s1))"

definition SwapQueue_EndBlock ::
  "dec_lib \<Rightarrow> ctx \<Rightarrow> swap_env \<Rightarrow> swap_item \<Rightarrow> swap_store \<Rightarrow> (swap_store \<times> swap_action list \<times> bool) res" where
  "SwapQueue_EndBlock D c E zero s =
     (let minSwaps = GetConfigInt64 c (sqKeeper s) ''MinSwapsPerBlock'';
          maxSwaps = GetConfigInt64 c (sqKeeper s) ''MaxSwapsPerBlock'';
          synthMult = (case GetMimir (sqKeeper s) ''VirtualMultSynthsBasisPoints'' of
              Inl _ \<Rightarrow> GetInt64Value (cBuild c) ''VirtualMultSynthsBasisPoints''
            | Inr v \<Rightarrow> if v < 1 then GetInt64Value (cBuild c) ''VirtualMultSynthsBasisPoints'' else v)
      in res_bind (FetchQueue c s) (\<lambda>items.
         res_bind (scoreMsgs D (sqKeeper s) synthMult items) (\<lambda>scored.
         let swaps = Sort zero scored in
           run_picks D c E (take (nat (getTodoNum (int (length swaps)) minSwaps maxSwaps)) swaps) s)))"

section \<open>The order of the queue\<close>

definition item_key :: "swap_item \<Rightarrow> string \<times> nat" where
  "item_key x = (to_upper (tID (swTx (siMsg x))), siIndex x)"

definition score_key :: "swap_score \<Rightarrow> string \<times> nat" where
  "score_key sc = (to_upper (tID (swTx (scMsg sc))), scIndex sc)"

definition score_at :: "nat \<times> swap_item \<Rightarrow> swap_score" where
  "score_at = (\<lambda>(i, x). \<lparr>scMsg = siMsg x, scScore = i, scIndex = siIndex x\<rparr>)"

lemma score_is_key: "score_is x sc \<longleftrightarrow> score_key sc = item_key x"
  by (auto simp: score_is_def score_key_def item_key_def TxID_Equals_def equal_fold_def)

lemma same_item_key: "same_item (tID (swTx (scMsg sc))) (scIndex sc) x \<longleftrightarrow> item_key x = score_key sc"
  by (auto simp: same_item_def score_key_def item_key_def TxID_Equals_def equal_fold_def)

lemma score_at_key [simp]: "score_key (score_at (i, x)) = item_key x" "score_key (sc\<lparr>scScore := n\<rparr>) = score_key sc"
  "scScore (score_at (i, x)) = i"
  by (simp_all add: score_at_def score_key_def item_key_def)

lemma update_first_append:
  "(\<forall>y \<in> set ys. \<not> p y) \<Longrightarrow> p z \<Longrightarrow> update_first p f (ys @ z # zs) = ys @ f z # zs"
  by (induction ys) auto

text \<open>The second pass adds to each entry the position it was filled in with.\<close>

lemma add_scores:
  assumes "distinct (map item_key xs)" and "\<forall>y \<in> set ys. score_key y \<notin> item_key ` set xs"
  shows "fold (\<lambda>(i, x). update_first (score_is x) (\<lambda>sc. sc\<lparr>scScore := scScore sc + i\<rparr>)) (enumerate n xs)
      (ys @ map score_at (enumerate n xs))
    = ys @ map (\<lambda>(i, x). (score_at (i, x))\<lparr>scScore := i + i\<rparr>) (enumerate n xs)"
  using assms
proof (induction xs arbitrary: n ys)
  case (Cons x xs)
  let ?z = "(score_at (n, x))\<lparr>scScore := n + n\<rparr>"
  have "update_first (score_is x) (\<lambda>sc. sc\<lparr>scScore := scScore sc + n\<rparr>) (ys @ score_at (n, x) # map score_at (enumerate (Suc n) xs))
      = (ys @ [?z]) @ map score_at (enumerate (Suc n) xs)"
    using Cons.prems by (subst update_first_append) (auto simp: score_is_key)
  moreover have "\<forall>y \<in> set (ys @ [?z]). score_key y \<notin> item_key ` set xs" using Cons.prems by auto
  ultimately show ?case using Cons.IH [of "ys @ [?z]" "Suc n"] Cons.prems by simp
qed simp

lemma swap_scores_eq:
  assumes "distinct (map item_key arr)"
  shows "swap_scores arr = map (\<lambda>(i, x). (score_at (i, x))\<lparr>scScore := i + i\<rparr>) (enumerate 0 arr)"
  using add_scores [OF assms, of "[]" 0] by (simp add: swap_scores_def score_at_def)

text \<open>Sorting by distinct keys undoes any permutation.\<close>

lemma sort_by_unique:
  fixes k :: "'a \<Rightarrow> nat"
  assumes "mset ys = mset xs" and "sorted_wrt (\<lambda>a b. k a < k b) xs"
  shows "sort_by (\<lambda>a b. k a < k b) ys = xs"
proof -
  let ?s = "sort_by (\<lambda>a b. k a < k b) ys"
  have m: "mset ?s = mset xs" using assms(1) by simp
  have "sorted_wrt (\<lambda>a b. \<not> k b < k a) ?s" by (rule sorted_sort_by [OF weak_order_key(1)])
  then have "sorted (map k ?s)" by (simp add: sorted_map not_less)
  moreover have "sorted (map k xs)" using assms(2) by (auto simp: sorted_map elim: sorted_wrt_mono_rel [rotated])
  moreover have "mset (map k ?s) = mset (map k xs)" using m by (metis mset_map)
  ultimately have "map k ?s = map k xs" by (metis properties_for_sort)
  moreover have "distinct (map k xs)" using assms(2) by (metis (no_types) sorted_wrt_map strict_sorted_iff)
  then have "inj_on k (set ?s \<union> set xs)" using m by (metis distinct_map set_mset_mset sup.idem)
  ultimately show ?thesis by (rule map_inj_on)
qed

lemma find_by_key:
  assumes "distinct (map f xs)" and "x \<in> set xs"
  shows "find (\<lambda>y. f y = f x) xs = Some x"
  using assms by (induction xs) (auto simp: image_iff dest: sym)

lemma Sort_eq:
  assumes "distinct (map item_key items)"
  shows "Sort zero items = sorted_slice items"
proof -
  let ?arr = "sorted_slice items" and ?up = "\<lambda>(i, x). (score_at (i, x))\<lparr>scScore := i + i\<rparr>"
  have "mset ?arr = mset items" by (simp add: sorted_slice_def)
  then have d: "distinct (map item_key ?arr)" using assms by (metis mset_map mset_eq_imp_distinct_iff)
  let ?sc = "map ?up (enumerate 0 ?arr)"
  have "sorted_wrt (\<lambda>a b. scScore a < scScore b) ?sc"
    by (auto simp: sorted_wrt_iff_nth_less nth_enumerate_eq)
  then have sc: "sort_by (\<lambda>a b. scScore a < scScore b)
      (sort_by (\<lambda>a b. str_less (tID (swTx (scMsg a))) (tID (swTx (scMsg b)))) (swap_scores ?arr)) = ?sc"
    by (intro sort_by_unique) (simp_all add: swap_scores_eq [OF d])
  have "(case find (same_item (tID (swTx (scMsg (?up p)))) (scIndex (?up p))) ?arr of Some x \<Rightarrow> x | None \<Rightarrow> zero) = snd p"
    if "p \<in> set (enumerate 0 ?arr)" for p
  proof -
    have "snd p \<in> set ?arr" using that by (metis map_snd_enumerate list.set_map image_eqI)
    moreover have "same_item (tID (swTx (scMsg (?up p)))) (scIndex (?up p)) = (\<lambda>y. item_key y = item_key (snd p))"
      by (rule ext, subst same_item_key) (simp split: prod.split)
    ultimately show ?thesis using find_by_key [OF d] by simp
  qed
  then have "map (\<lambda>sc. case find (same_item (tID (swTx (scMsg sc))) (scIndex sc)) ?arr of Some x \<Rightarrow> x | None \<Rightarrow> zero) ?sc
      = map snd (enumerate 0 ?arr)" by (simp only: map_map o_def cong: map_cong)
  then show ?thesis using sc by (simp add: Sort_def Let_def)
qed

text \<open>A stable sort keeps an order the list had, among equal keys.\<close>

lemma insert_by_lex:
  fixes k :: "'a \<Rightarrow> nat"
  assumes "sorted_wrt (\<lambda>a b. k b < k a \<or> (k a = k b \<and> Q a b)) ys" and "\<forall>y \<in> set ys. Q x y"
  shows "sorted_wrt (\<lambda>a b. k b < k a \<or> (k a = k b \<and> Q a b)) (insert_by (\<lambda>a b. k a > k b) x ys)"
  using assms
proof (induction ys)
  case (Cons y ys)
  show ?case
  proof (cases "k y > k x")
    case False
    have "k z < k x \<or> (k x = k z \<and> Q x z)" if "z \<in> set (y # ys)" for z
    proof -
      have "k z \<le> k y" using Cons.prems(1) that by auto
      with False Cons.prems(2) that show ?thesis by auto
    qed
    with False Cons.prems(1) show ?thesis by simp
  qed (use Cons in auto)
qed simp

lemma sort_by_lex:
  fixes k :: "'a \<Rightarrow> nat"
  assumes "sorted_wrt Q xs"
  shows "sorted_wrt (\<lambda>a b. k b < k a \<or> (k a = k b \<and> Q a b)) (sort_by (\<lambda>a b. k a > k b) xs)"
  using assms by (induction xs) (auto intro: insert_by_lex)

section \<open>Keys of the queue\<close>

lemma swap_key_parts: "swap_key h i = to_upper h @ CHR ''-'' # nat_str i"
  by (simp add: swap_key_def kv_key_def char_upper_def)

lemma swap_key_split: "split2 (CHR ''-'') (rev (swap_key h i)) = (rev (nat_str i), Some (rev (to_upper h)))"
proof -
  have "CHR ''-'' \<notin> set (rev (nat_str i))" using nat_str_no [of "CHR ''-''" i] by (simp add: char_in_def)
  then show ?thesis by (simp add: swap_key_parts split2_append)
qed

lemma queue_index_key: "i < 2 ^ 63 \<Longrightarrow> queue_index (swap_key h i) = Some i"
  by (simp add: queue_index_def swap_key_split parse_int64_nat_str)

lemma swap_key_eq_iff: "swap_key h i = swap_key h' j \<longleftrightarrow> to_upper h = to_upper h' \<and> i = j"
proof
  assume "swap_key h i = swap_key h' j"
  then have "nat_str i = nat_str j" "to_upper h = to_upper h'"
    using swap_key_split [of h i] swap_key_split [of h' j] by simp_all
  then show "to_upper h = to_upper h' \<and> i = j" by (metis digits_nat_str option.inject)
qed (auto simp: swap_key_parts)

text \<open>The queue is what its items give, one after the other.\<close>

lemma fetch_fold:
  assumes "res_fold (\<lambda>kv acc. res_map (\<lambda>xs. acc @ xs) (fetch_item c s kv)) q acc = Inr items"
    and "kv \<in> set q"
  shows "\<exists>xs. fetch_item c s kv = Inr xs \<and> set xs \<subseteq> set items"
  using assms
proof (induction q arbitrary: acc)
  case (Cons y q)
  obtain xs where y: "fetch_item c s y = Inr xs"
    and rest: "res_fold (\<lambda>kv acc. res_map (\<lambda>xs. acc @ xs) (fetch_item c s kv)) q (acc @ xs) = Inr items"
    using Cons.prems(1) by (auto simp: res_simps)
  have keep: "set acc' \<subseteq> set items"
    if "res_fold (\<lambda>kv acc. res_map (\<lambda>xs. acc @ xs) (fetch_item c s kv)) q' acc' = Inr items" for q' acc'
    using that by (induction q' arbitrary: acc') (fastforce simp: res_simps)+
  show ?case
  proof (cases "kv = y")
    case True
    then show ?thesis using y keep [OF rest] by auto
  next
    case False
    then show ?thesis using Cons.IH [OF rest] Cons.prems(2) by auto
  qed
qed simp

section \<open>Properties\<close>

text \<open>C23. The queue is worked through in the order of the slips, largest first, and among equal slips in the
  order of the liquidity fees, whatever the transaction ids are: the two rankings that the code adds up
  are one, because both slices share one array, so that no two scores are ever equal.\<close>

theorem swap_sort_order:
  assumes "distinct (map item_key items)"
  shows "mset (Sort zero items) = mset items
    \<and> sorted_wrt (\<lambda>x y. siSlip y < siSlip x \<or> (siSlip x = siSlip y \<and> siFee y \<le> siFee x)) (Sort zero items)
    \<and> distinct (map scScore (swap_scores (sorted_slice items)))"
proof -
  let ?arr = "sorted_slice items"
  have fees: "sorted_wrt (\<lambda>x y. siFee y \<le> siFee x) (sort_by (\<lambda>x y. siFee x > siFee y) items)"
    using sorted_sort_by [OF weak_order_key(2), of siFee items] by (simp add: not_less)
  have "mset ?arr = mset items" by (simp add: sorted_slice_def)
  moreover from this have "distinct (map item_key ?arr)" using assms by (metis mset_map mset_eq_imp_distinct_iff)
  then have "map scScore (swap_scores ?arr) = map (\<lambda>i. i + i) [0 ..< length ?arr]"
    by (intro nth_equalityI) (simp_all add: swap_scores_eq nth_enumerate_eq)
  then have "distinct (map scScore (swap_scores ?arr))" by (simp add: distinct_map inj_on_def)
  ultimately show ?thesis
    using sort_by_lex [OF fees, of siSlip] by (simp add: Sort_eq [OF assms] sorted_slice_def)
qed

definition demo_item :: "nat \<Rightarrow> uint \<Rightarrow> uint \<Rightarrow> swap_item" where
  "demo_item i fee slip = \<lparr>siIndex = i, siMsg = stream_msg, siFee = fee, siSlip = slip\<rparr>"

theorem swap_sort_order_witness:
  "mset (Sort (demo_item 0 0 0) [demo_item 0 5 1, demo_item 1 0 2]) = {#demo_item 0 5 1, demo_item 1 0 2#}
    \<and> distinct (map scScore (swap_scores (sorted_slice [demo_item 0 5 1, demo_item 1 0 2])))
    \<and> Sort (demo_item 0 0 0) [demo_item 0 5 1, demo_item 1 0 2] = [demo_item 1 0 2, demo_item 0 5 1]"
proof -
  have d: "distinct (map item_key [demo_item 0 5 1, demo_item 1 0 2])" by (simp add: item_key_def demo_item_def)
  have "Sort (demo_item 0 0 0) [demo_item 0 5 1, demo_item 1 0 2] = [demo_item 1 0 2, demo_item 0 5 1]"
    by (simp only: Sort_eq [OF d]) (simp add: sorted_slice_def demo_item_def)
  with swap_sort_order [OF d, of "demo_item 0 0 0"] show ?thesis by simp
qed

definition zero_ctx :: "int \<Rightarrow> ctx" where
  "zero_ctx h = (stream_ctx h)\<lparr>cBuild := mainnet_overrides\<lparr>int64Overrides := (\<lambda>_. Some 0)\<rparr>\<rparr>"

lemma zero_config:
  "GetConfigInt64 (zero_ctx h) stream_keeper k = 0" "cVersion3 (zero_ctx h)" "BlockHeight (zero_ctx h) = h"
  by (simp_all add: GetConfigInt64_def GetMimir_def stream_keeper_def zero_ctx_def stream_ctx_def GetInt64Value_def kv_get_def)

definition zero_store :: swap_store where
  "zero_store = (stream_store None)\<lparr>sqStreams := [kv_key ''T1'' \<mapsto> Stored ((NewStreamingSwap ''T1'' 0 0 0 50)\<lparr>ssCount := 1,
     ssLastHeight := 10, ssIn := 50, ssOut := 1\<rparr>)]\<rparr>"


lemma first_coin_not_Err [simp]: "res_map f (first_coin m) \<noteq> Inl (Err x)"
  by (simp add: first_coin_def res_map_def split: list.splits)

text \<open>A swap that does not stream is fetched by the next block after it was queued, with its index, and is
  attempted once: whatever its outcome it then leaves the queue, and if it failed its whole transaction
  is refunded, unless it is a preferred asset swap of the affiliate collector, which is cleaned up.\<close>

theorem plain_swap_once:
  assumes "\<not> IsStreaming msg" and "i < 2 ^ 63" and "FetchQueue c (SetSwapQueueItem s msg i) = Inr items"
    and "swap_end_item D c E s' msg i = Inr (s'', acts, stop)"
  shows "\<lparr>siIndex = i, siMsg = msg, siFee = 0, siSlip = 0\<rparr> \<in> set items
    \<and> \<not> HasSwapQueueItem s'' (tID (swTx msg)) i \<and> \<not> stop
    \<and> (if is_ok (swap_handle D c (seAnchorDepth E) (seSubSwap E) s' msg) then acts = []
       else acts = [RefundTx (swTx msg)] \<or> (\<exists>a. acts = [CleanupPreferredAsset (tMemo (swTx msg)) a]
         \<and> Address_Equals (tFromAddress (swTx msg)) (seAffiliateCollector E)))"
proof -
  have "\<exists>xs. fetch_item c (SetSwapQueueItem s msg i) (swap_key (tID (swTx msg)) i, Stored msg) = Inr xs \<and> set xs \<subseteq> set items"
    using assms(3) set_queue_put unfolding FetchQueue_def by (intro fetch_fold) (simp_all add: SetSwapQueueItem_def)
  then have "\<lparr>siIndex = i, siMsg = msg, siFee = 0, siSlip = 0\<rparr> \<in> set items"
    using assms(1,2) by (auto simp: fetch_item_def queue_index_key)
  moreover have "\<not> HasSwapQueueItem s'' (tID (swTx msg)) i \<and> \<not> stop"
    using assms(1,4) by (auto simp: swap_end_item_def swap_failed_def res_simps split: sum.splits go_error.splits if_splits)
  moreover have "if is_ok (swap_handle D c (seAnchorDepth E) (seSubSwap E) s' msg) then acts = []
       else acts = [RefundTx (swTx msg)] \<or> (\<exists>a. acts = [CleanupPreferredAsset (tMemo (swTx msg)) a]
         \<and> Address_Equals (tFromAddress (swTx msg)) (seAffiliateCollector E))"
    using assms(1,4)
    by (auto simp: swap_end_item_def swap_failed_def Let_def res_simps is_ok_def split: sum.splits go_error.splits if_splits)
  ultimately show ?thesis by blast
qed

definition plain_msg :: msg_swap where
  "plain_msg = stream_msg\<lparr>swStreamInterval := 0\<rparr>"

theorem plain_swap_once_witness:
  "\<exists>s''. swap_end_item legacy_dec (stream_ctx 10) (stream_env (Inl (Err ''slip''))) (stream_store None) plain_msg 0
      = Inr (s'', [RefundTx (swTx plain_msg)], False) \<and> \<not> HasSwapQueueItem s'' (tID (swTx plain_msg)) 0"
proof -
  have i: "\<not> IsStreaming plain_msg" by (simp add: IsStreaming_def plain_msg_def)
  have f: "FetchQueue (stream_ctx 10) (SetSwapQueueItem ((stream_store None)\<lparr>sqQueue := []\<rparr>) plain_msg 0)
      = Inr [\<lparr>siIndex = 0, siMsg = plain_msg, siFee = 0, siSlip = 0\<rparr>]"
    using i by (simp add: FetchQueue_def SetSwapQueueItem_def fetch_item_def queue_index_key)
  have "\<not> has_prefix (tMemo (swTx plain_msg)) PreferredAssetSwapMemoPrefix"
    by (simp add: plain_msg_def stream_msg_def NewTx_def PreferredAssetSwapMemoPrefix_def has_prefix_def)
  moreover have c: "first_coin plain_msg = Inr (NewCoin SwitchNative 50)"
    by (simp add: plain_msg_def stream_msg_def NewTx_def first_coin_def)
  ultimately have e: "swap_end_item legacy_dec (stream_ctx 10) (stream_env (Inl (Err ''slip''))) (stream_store None) plain_msg 0
      = Inr (RemoveSwapQueueItem (stream_store None) (tID (swTx plain_msg)) 0, [RefundTx (swTx plain_msg)], False)"
    using i by (simp add: swap_end_item_def swap_handle_def swap_failed_def stream_env_def Let_def c)
  from plain_swap_once [OF i _ f e] e show ?thesis by auto
qed

end
