(* ===== verification/Bank.thy ===== *)
theory Bank
  imports Coins
begin

text \<open>
  The bank module of the SDK is a parameter of the model: \<open>bank_lib\<close> holds the functions the keeper
  calls and \<open>bank_laws\<close> what the documentation of the module promises. The transfers of
  \<^verbatim>\<open>src/x/switchly/keeper/v1/keeper.go\<close> are functions on the bank's state; the components lift them to
  their own states. \<open>plain_bank\<close> is a bank that keeps the laws.
\<close>

section \<open>The bank\<close>

record 'b bank_lib =
  bank_balance :: "'b \<Rightarrow> acc \<Rightarrow> string \<Rightarrow> nat"
  bank_supply :: "'b \<Rightarrow> string \<Rightarrow> nat"
  bank_module :: "string \<Rightarrow> acc"
  bank_send :: "'b \<Rightarrow> acc \<Rightarrow> acc \<Rightarrow> string \<Rightarrow> nat \<Rightarrow> 'b res"
  bank_mint :: "'b \<Rightarrow> string \<Rightarrow> string \<Rightarrow> nat \<Rightarrow> 'b res"
  bank_burn :: "'b \<Rightarrow> string \<Rightarrow> string \<Rightarrow> nat \<Rightarrow> 'b res"

section \<open>Transfers\<close>

definition GetBalanceOfModule :: "'b bank_lib \<Rightarrow> 'b \<Rightarrow> string \<Rightarrow> string \<Rightarrow> uint" where
  "GetBalanceOfModule B b m denom = bank_balance B b (bank_module B m) denom"

definition GetSWITCHBalanceOfModule :: "'b bank_lib \<Rightarrow> 'b \<Rightarrow> string \<Rightarrow> uint" where
  "GetSWITCHBalanceOfModule B b m = GetBalanceOfModule B b m (Asset_Native SwitchNative)"

definition SendFromModuleToModule :: "'b bank_lib \<Rightarrow> 'b \<Rightarrow> string \<Rightarrow> string \<Rightarrow> coin \<Rightarrow> 'b res" where
  "SendFromModuleToModule B b from to c =
     bank_send B b (bank_module B from) (bank_module B to) (Asset_Native (cAsset c)) (cAmount c)"

definition SendFromAccountToModule :: "'b bank_lib \<Rightarrow> 'b \<Rightarrow> acc \<Rightarrow> string \<Rightarrow> coin \<Rightarrow> 'b res" where
  "SendFromAccountToModule B b from to c = bank_send B b from (bank_module B to) (Asset_Native (cAsset c)) (cAmount c)"

definition SendFromModuleToAccount :: "'b bank_lib \<Rightarrow> 'b \<Rightarrow> string \<Rightarrow> acc \<Rightarrow> coin \<Rightarrow> 'b res" where
  "SendFromModuleToAccount B b from to c = bank_send B b (bank_module B from) to (Asset_Native (cAsset c)) (cAmount c)"

definition BurnFromModule :: "'b bank_lib \<Rightarrow> 'b \<Rightarrow> string \<Rightarrow> coin \<Rightarrow> 'b res" where
  "BurnFromModule B b m c = res_bind (Coin_Native c) (\<lambda>(d, n). bank_burn B b m d n)"

lemmas transfer_defs = SendFromModuleToModule_def SendFromAccountToModule_def SendFromModuleToAccount_def
  GetSWITCHBalanceOfModule_def GetBalanceOfModule_def

section \<open>The laws\<close>

text \<open>
  A transfer that succeeds moves the amount, which the sender had; minting and burning also change the
  supply; other denominations are left alone.
\<close>

locale bank_laws =
  fixes B :: "'b bank_lib"
  assumes send_moves: "bank_send B b from to d n = Inr b' \<Longrightarrow> n \<le> bank_balance B b from d
      \<and> (\<forall>a. bank_balance B b' a d + (if a = from then n else 0) = bank_balance B b a d + (if a = to then n else 0))"
    and send_denom: "bank_send B b from to d n = Inr b' \<Longrightarrow> e \<noteq> d \<Longrightarrow> bank_balance B b' a e = bank_balance B b a e"
    and send_supply: "bank_send B b from to d n = Inr b' \<Longrightarrow> bank_supply B b' = bank_supply B b"
    and mint_adds: "bank_mint B b m d n = Inr b' \<Longrightarrow>
      bank_balance B b' = (\<lambda>a e. bank_balance B b a e + (if a = bank_module B m \<and> e = d then n else 0))
        \<and> bank_supply B b' = (bank_supply B b)(d := bank_supply B b d + n)"
    and burn_takes: "bank_burn B b m d n = Inr b' \<Longrightarrow> n \<le> bank_balance B b (bank_module B m) d \<and> n \<le> bank_supply B b d
        \<and> bank_balance B b' = (\<lambda>a e. bank_balance B b a e - (if a = bank_module B m \<and> e = d then n else 0))
        \<and> bank_supply B b' = (bank_supply B b)(d := bank_supply B b d - n)"
begin

text \<open>The balance an account is left with.\<close>

lemma balance_after_send:
  assumes "bank_send B b from to d n = Inr b'"
  shows "bank_balance B b' a d = bank_balance B b a d + (if a = to then n else 0) - (if a = from then n else 0)"
  using send_moves [OF assms] by (metis add_diff_cancel_right')

lemma balance_not_sender:
  assumes "bank_send B b from to d n = Inr b'" and "a \<noteq> from"
  shows "bank_balance B b a d \<le> bank_balance B b' a d"
  using balance_after_send [OF assms(1)] assms(2) by simp

lemma balance_of_sender:
  assumes "bank_send B b from to d n = Inr b'"
  shows "n \<le> bank_balance B b from d" and "bank_balance B b from d \<le> bank_balance B b' from d + n"
  using send_moves [OF assms] balance_after_send [OF assms, of "from"] by auto

lemma balance_of_receiver:
  assumes "bank_send B b from to d n = Inr b'" and "to \<noteq> from"
  shows "bank_balance B b' to d = bank_balance B b to d + n"
  using balance_after_send [OF assms(1)] assms(2) by simp

end

section \<open>A bank\<close>

text \<open>Balances and supplies as functions; the module accounts are named after their modules.\<close>

type_synonym plain_bank = "(acc \<Rightarrow> string \<Rightarrow> nat) \<times> (string \<Rightarrow> nat)"

definition bank_put :: "(acc \<Rightarrow> string \<Rightarrow> nat) \<Rightarrow> acc \<Rightarrow> string \<Rightarrow> nat \<Rightarrow> acc \<Rightarrow> string \<Rightarrow> nat" where
  "bank_put f a d n = f(a := (f a)(d := n))"

lemma bank_put_apply [simp]: "bank_put f a d n x e = (if x = a \<and> e = d then n else f x e)"
  by (simp add: bank_put_def)

definition plain_bank :: "plain_bank bank_lib" where
  "plain_bank =
     \<lparr>bank_balance = fst, bank_supply = snd, bank_module = (\<lambda>m. ''module/'' @ m),
      bank_send = (\<lambda>(f, t) from to d n. if f from d < n then Inl (Err ''insufficient funds'')
         else let g = bank_put f from d (f from d - n) in Inr (bank_put g to d (g to d + n), t)),
      bank_mint = (\<lambda>(f, t) m d n. Inr (bank_put f (''module/'' @ m) d (f (''module/'' @ m) d + n), t(d := t d + n))),
      bank_burn = (\<lambda>(f, t) m d n. if f (''module/'' @ m) d < n \<or> t d < n then Inl (Err ''insufficient funds'')
         else Inr (bank_put f (''module/'' @ m) d (f (''module/'' @ m) d - n), t(d := t d - n)))\<rparr>"

interpretation plain_bank: bank_laws plain_bank
proof
qed (auto simp: plain_bank_def Let_def fun_eq_iff split: if_splits prod.splits)

end
