(* ===== verification/Secured_Assets.thy ===== *)
theory Secured_Assets
  imports Keeper Share_Ledger Bank
begin

text \<open>
  Secured assets: \<^verbatim>\<open>src/x/switchly/manager_secured_asset_current.go\<close>, the record and its storage
  (\<^verbatim>\<open>types/type_secured_asset.go\<close>, \<^verbatim>\<open>keeper/v1/keeper_secured_asset.go\<close>), minting
  (\<^verbatim>\<open>keeper/v1/keeper.go\<close>), the messages of \<^verbatim>\<open>types/msg_secured_asset.go\<close> and the handlers
  \<^verbatim>\<open>handler_secured_asset_deposit.go\<close> and \<^verbatim>\<open>handler_secured_asset_withdraw.go\<close>.

  The shares are coins of the bank module of the SDK (theory \<open>Bank\<close>).
\<close>

section \<open>State and minting\<close>

record secured_asset =
  saAsset :: asset
  saDepth :: uint

definition NewSecuredAsset :: "asset \<Rightarrow> secured_asset" where
  "NewSecuredAsset a = \<lparr>saAsset = a, saDepth = 0\<rparr>"

definition SecuredAsset_Key :: "secured_asset \<Rightarrow> string" where
  "SecuredAsset_Key p = Asset_String (saAsset p)"

record 'b secured_state =
  sdKeeper :: kstore
  sdAssets :: "secured_asset kv"
  sdBank :: 'b

definition GetSecuredAssetRecord :: "'b secured_state \<Rightarrow> asset \<Rightarrow> secured_asset res" where
  "GetSecuredAssetRecord s a = kv_get (sdAssets s) (kv_key (SecuredAsset_Key (NewSecuredAsset a))) (NewSecuredAsset a)"

definition SetSecuredAsset :: "'b secured_state \<Rightarrow> secured_asset \<Rightarrow> 'b secured_state" where
  "SetSecuredAsset s p = s\<lparr>sdAssets := kv_set (sdAssets s) (kv_key (SecuredAsset_Key p)) p\<rparr>"

text \<open>The supply of shares; it reads as zero once the pool of the layer 1 asset is in ragnarok.\<close>

definition share_supply :: "'b bank_lib \<Rightarrow> 'b secured_state \<Rightarrow> asset \<Rightarrow> uint res" where
  "share_supply B s a =
     (if kv_get_or (kRagnarokPool (sdKeeper s)) (kv_key (Asset_String (GetLayer1Asset a))) 0 > 0 then Inr 0
      else let n = bank_supply B (sdBank s) (Asset_Native a) in
        if n < 2 ^ 64 then Inr n else Inl (Panic ''Uint64() out of bounds''))"

definition with_bank :: "'b secured_state \<Rightarrow> 'b res \<Rightarrow> 'b secured_state res" where
  "with_bank s r = res_map (\<lambda>b. s\<lparr>sdBank := b\<rparr>) r"

text \<open>Minting SWITCH beyond the cap borrows from the reserve, and a supply above the cap halts everything.\<close>

definition cap_mint :: "'b bank_lib \<Rightarrow> 'b secured_state \<Rightarrow> string \<Rightarrow> coin \<Rightarrow> ('b secured_state \<times> coin) res" where
  "cap_mint B s m c =
     (let maxAmt = kv_get_or (kMimirs (sdKeeper s)) (kv_key ''MaxSWITCHSupply'') (- 1) in
      if Coin_IsSwitch c \<and> maxAmt > 0 then
        res_bind (share_supply B s SwitchNative) (\<lambda>current.
          let available = SafeSub (nat maxAmt) current in
          if available < cAmount c then
            let borrow = SafeSub (cAmount c) available in
            res_map (\<lambda>s1. (s1, c\<lparr>cAmount := SafeSub (cAmount c) borrow\<rparr>))
              (with_bank s (SendFromModuleToModule B (sdBank s) ''reserve'' m (NewCoin SwitchNative borrow)))
          else Inr (s, c))
      else Inr (s, c))"

definition supply_halt :: "'b bank_lib \<Rightarrow> 'b secured_state \<Rightarrow> 'b secured_state" where
  "supply_halt B s =
     (let maxAmt = kv_get_or (kMimirs (sdKeeper s)) (kv_key ''MaxSWITCHSupply'') (- 1) in
      if maxAmt > 0 \<and> int (bank_supply B (sdBank s) (Asset_Native SwitchNative)) > maxAmt
      then s\<lparr>sdKeeper := SetMimir (SetMimir (SetMimir (SetMimir (sdKeeper s) ''HaltTrading'' 1) ''HaltChainGlobal'' 1)
             ''PauseLP'' 1) ''HaltSwitchlyProtocol'' 1\<rparr>
      else s)"

definition MintToModule :: "'b bank_lib \<Rightarrow> 'b secured_state \<Rightarrow> string \<Rightarrow> coin \<Rightarrow> 'b secured_state res" where
  "MintToModule B s m c0 =
     res_bind (cap_mint B s m c0) (\<lambda>(s1, c).
       if cAmount c = 0 then Inr s1
       else res_bind (Coin_Native c) (\<lambda>(d, n).
            res_map (\<lambda>b. supply_halt B (s1\<lparr>sdBank := b\<rparr>)) (bank_mint B (sdBank s1) m d n)))"

definition MintAndSendToAccount :: "'b bank_lib \<Rightarrow> 'b secured_state \<Rightarrow> acc \<Rightarrow> coin \<Rightarrow> 'b secured_state res" where
  "MintAndSendToAccount B s to c =
     res_bind (MintToModule B s ''switchly'' c) (\<lambda>s1. with_bank s1 (SendFromModuleToAccount B (sdBank s1) ''switchly'' to c))"

section \<open>The manager\<close>

definition Secured_CheckHalt :: "ctx \<Rightarrow> 'b secured_state \<Rightarrow> unit res" where
  "Secured_CheckHalt c s =
     res_bind (GetMimir (sdKeeper s) ''HaltSecuredGlobal'') (\<lambda>m.
       guard_err (m > 0 \<and> m \<le> BlockHeight c) ''secured assets are disabled'')"

definition GetSecuredAssetStatus :: "'b bank_lib \<Rightarrow> 'b secured_state \<Rightarrow> asset \<Rightarrow> (secured_asset \<times> uint) res" where
  "GetSecuredAssetStatus B s a =
     res_bind (GetSecuredAssetRecord s (GetSecuredAsset a)) (\<lambda>p.
     res_map (\<lambda>n. (p, n)) (share_supply B s (GetSecuredAsset a)))"

definition Secured_BalanceOf :: "dec_lib \<Rightarrow> 'b bank_lib \<Rightarrow> 'b secured_state \<Rightarrow> asset \<Rightarrow> acc \<Rightarrow> uint res" where
  "Secured_BalanceOf D B s a0 addr =
     (let a = GetSecuredAsset a0 in
      case GetSecuredAssetRecord s a of Inl _ \<Rightarrow> Inr 0
      | Inr p \<Rightarrow> res_map (\<lambda>n. GetSafeShare D (bank_balance B (sdBank s) addr (Asset_Native a)) n (saDepth p)) (share_supply B s a))"

definition calcMintAmt :: "dec_lib \<Rightarrow> uint \<Rightarrow> uint \<Rightarrow> uint \<Rightarrow> uint" where
  "calcMintAmt D oldUnits depth add =
     (if oldUnits = 0 \<or> depth = 0 then add else if add = 0 then 0 else GetUncappedShare D add depth oldUnits)"

definition Secured_Deposit ::
  "dec_lib \<Rightarrow> 'b bank_lib \<Rightarrow> ctx \<Rightarrow> 'b secured_state \<Rightarrow> asset \<Rightarrow> uint \<Rightarrow> acc \<Rightarrow> (bank_coin \<times> 'b secured_state) res" where
  "Secured_Deposit D B c s a0 amount owner =
     res_bind (Secured_CheckHalt c s) (\<lambda>_.
       if IsNative a0 then Inl (Err ''native assets cannot be deposited'')
       else let a = GetSecuredAsset a0 in
         res_bind (GetSecuredAssetStatus B s a) (\<lambda>(p, n).
           let coin = NewCoin a (calcMintAmt D n (saDepth p) amount) in
         res_bind (MintAndSendToAccount B s owner coin) (\<lambda>s1.
         res_bind (uint_add (saDepth p) amount) (\<lambda>d.
         res_map (\<lambda>cc. (cc, SetSecuredAsset s1 (p\<lparr>saDepth := d\<rparr>))) (Coin_Native coin)))))"

definition Secured_Withdraw ::
  "dec_lib \<Rightarrow> 'b bank_lib \<Rightarrow> ctx \<Rightarrow> 'b secured_state \<Rightarrow> asset \<Rightarrow> uint \<Rightarrow> acc \<Rightarrow> (coin \<times> 'b secured_state) res" where
  "Secured_Withdraw D B c s a amount owner =
     res_bind (Secured_CheckHalt c s) (\<lambda>_.
       if \<not> aSecured a then Inl (Err ''only secured assets can be withdrawn'')
       else res_bind (GetSecuredAssetStatus B s a) (\<lambda>(p, n).
         let shareBalance = bank_balance B (sdBank s) owner (Asset_Native a);
             assetAvailable = GetSafeShare D shareBalance n (saDepth p);
             burnAmt = GetSafeShare D amount assetAvailable shareBalance;
             coin = NewCoin a burnAmt
         in res_bind (with_bank s (SendFromAccountToModule B (sdBank s) owner ''switchly'' coin)) (\<lambda>s1.
            let tokensToClaim = GetSafeShare D burnAmt shareBalance assetAvailable in
            res_map (\<lambda>s2. (NewCoin (GetLayer1Asset a) tokensToClaim,
                SetSecuredAsset s2 (p\<lparr>saDepth := SafeSub (saDepth p) tokensToClaim\<rparr>)))
              (with_bank s1 (BurnFromModule B (sdBank s1) ''switchly'' coin)))))"

section \<open>Messages and handlers\<close>

record msg_secured_deposit =
  msdTx :: tx
  msdAsset :: asset
  msdAmount :: uint
  msdAddress :: acc
  msdSigner :: acc

definition MsgSecuredAssetDeposit_ValidateBasic :: "msg_secured_deposit \<Rightarrow> unit res" where
  "MsgSecuredAssetDeposit_ValidateBasic m =
     (if Asset_IsEmpty (msdAsset m) then Inl (Err ''asset cannot be empty'')
      else if IsNative (msdAsset m) then Inl (Err ''native assets cannot be deposited'')
      else if msdAmount m = 0 then Inl (Err ''amount cannot be zero'')
      else if msdAddress m = [] then Inl (Err ''invalid address'')
      else if msdSigner m = [] then Inl (Err ''invalid address'')
      else if TxID_IsEmpty (tID (msdTx m)) then Inl (Err ''txID cannot be empty'')
      else Inr ())"

record msg_secured_withdraw =
  mswAsset :: asset
  mswAmount :: uint
  mswAssetAddress :: address
  mswSigner :: acc
  mswTx :: tx

definition MsgSecuredAssetWithdraw_ValidateBasic :: "addr_lib \<Rightarrow> msg_secured_withdraw \<Rightarrow> unit res" where
  "MsgSecuredAssetWithdraw_ValidateBasic A m =
     (if Asset_IsEmpty (mswAsset m) then Inl (Err ''asset cannot be empty'')
      else if \<not> aSecured (mswAsset m) then Inl (Err ''asset must be a secured asset'')
      else if mswAmount m = 0 then Inl (Err ''amount cannot be zero'')
      else if Address_IsEmpty (mswAssetAddress m) then Inl (Err ''asset address cannot be empty'')
      else if \<not> IsChain A (mswAssetAddress m) (GetChain (GetLayer1Asset (mswAsset m)))
        then Inl (Err ''asset address does not match asset chain'')
      else if mswSigner m = [] then Inl (Err ''invalid address'')
      else if TxID_IsEmpty (tID (mswTx m)) then Inl (Err ''txID cannot be empty'')
      else Inr ())"

definition secured_halted :: "ctx \<Rightarrow> 'b secured_state \<Rightarrow> string \<Rightarrow> unit res" where
  "secured_halted c s key =
     res_bind (GetMimir (sdKeeper s) key) (\<lambda>m. guard_err (m > 0 \<and> m \<le> BlockHeight c) ''secured assets are disabled'')"

text \<open>\<open>atCap\<close> is whether the deposit would exceed the cap on the value locked.\<close>

definition SecuredAssetDeposit_validate ::
  "ctx \<Rightarrow> (coin \<Rightarrow> bool) \<Rightarrow> 'b secured_state \<Rightarrow> msg_secured_deposit \<Rightarrow> unit res" where
  "SecuredAssetDeposit_validate c atCap s m =
     (if \<not> cVersion3 c then Inl (Err ''bad version'')
      else res_bind (secured_halted c s (''HaltSecuredDeposit-'' @ aChain (msdAsset m))) (\<lambda>_.
           case GetPool (sdKeeper s) (msdAsset m) of
             Inl (Panic e) \<Rightarrow> Inl (Panic e)
           | Inl (Err e) \<Rightarrow> Inl (Err ''error loading pool'')
           | Inr p \<Rightarrow>
               if \<not> IsAvailable p \<or> Pool_IsEmpty p then Inl (Err ''pool unavailable'')
               else if atCap (NewCoin (msdAsset m) (msdAmount m)) then Inl (Err ''secured deposits more than bond'')
               else MsgSecuredAssetDeposit_ValidateBasic m))"

definition SecuredAssetDeposit_handle ::
  "dec_lib \<Rightarrow> 'b bank_lib \<Rightarrow> ctx \<Rightarrow> 'b secured_state \<Rightarrow> msg_secured_deposit \<Rightarrow> 'b secured_state res" where
  "SecuredAssetDeposit_handle D B c s m =
     (if \<not> cVersion3 c then Inl (Err ''bad version'')
      else res_map snd (Secured_Deposit D B c s (msdAsset m) (msdAmount m) (msdAddress m)))"

definition SecuredAssetWithdraw_validate ::
  "addr_lib \<Rightarrow> ctx \<Rightarrow> 'b secured_state \<Rightarrow> msg_secured_withdraw \<Rightarrow> unit res" where
  "SecuredAssetWithdraw_validate A c s m =
     (if \<not> cVersion3 c then Inl (Err ''bad version'')
      else res_bind (secured_halted c s (''HaltSecuredWithdraw-'' @ aChain (mswAsset m))) (\<lambda>_.
           MsgSecuredAssetWithdraw_ValidateBasic A m))"

text \<open>The outbound the withdrawal asks for; scheduling it is the outbound store's part.\<close>

definition SecuredAssetWithdraw_handle ::
  "dec_lib \<Rightarrow> 'b bank_lib \<Rightarrow> ctx \<Rightarrow> 'b secured_state \<Rightarrow> msg_secured_withdraw
     \<Rightarrow> ((chain \<times> txid \<times> address \<times> coin) \<times> 'b secured_state) res" where
  "SecuredAssetWithdraw_handle D B c s m =
     (if \<not> cVersion3 c then Inl (Err ''bad version'')
      else res_map (\<lambda>(coin, s'). ((GetChain (cAsset coin), tID (mswTx m), mswAssetAddress m, coin), s'))
        (Secured_Withdraw D B c s (mswAsset m) (mswAmount m) (mswSigner m)))"

section \<open>Secured assets refine the share ledger\<close>

definition secured_view :: "'b bank_lib \<Rightarrow> asset \<Rightarrow> 'b secured_state \<Rightarrow> ledger" where
  "secured_view B a0 s = (let a = GetSecuredAsset a0 in
     \<lparr>ldShares = (\<lambda>o'. bank_balance B (sdBank s) o' (Asset_Native a)), ldTotal = bank_supply B (sdBank s) (Asset_Native a),
      ldDepth = slot_val saDepth (sdAssets s (asset_slot a))\<rparr>)"

definition secured_inv :: "'b bank_lib \<Rightarrow> asset \<Rightarrow> 'b secured_state \<Rightarrow> bool" where
  "secured_inv B a s \<longleftrightarrow> bank_laws B
     \<and> (\<forall>k sl. sdAssets s k = Some sl \<longrightarrow> (\<exists>p. sl = Stored p \<and> k = kv_key (SecuredAsset_Key p)))
     \<and> \<not> kv_get_or (kRagnarokPool (sdKeeper s)) (kv_key (Asset_String (GetLayer1Asset (GetSecuredAsset a)))) 0 > 0"

lemma secured_idem [simp]: "GetSecuredAsset (GetSecuredAsset a) = GetSecuredAsset a" "aSecured (GetSecuredAsset a)"
  by (simp_all add: GetSecuredAsset_def)

lemma secured_not_switch [simp]: "\<not> IsSwitch (GetSecuredAsset a)"
  by (simp add: IsSwitch_def Asset_Equals_def GetSecuredAsset_def SwitchNative_def mk_asset_def)

lemma secured_status:
  assumes "secured_inv B a s" and "GetSecuredAssetStatus B s (GetSecuredAsset a) = Inr (p, n)"
  shows "n = ldTotal (secured_view B a s)" and "saDepth p = ldDepth (secured_view B a s)"
    and "kv_key (SecuredAsset_Key p) = asset_slot (GetSecuredAsset a)"
proof -
  have r: "GetSecuredAssetRecord s (GetSecuredAsset a) = Inr p" and n: "share_supply B s (GetSecuredAsset a) = Inr n"
    using assms(2) by (auto simp: GetSecuredAssetStatus_def res_simps)
  show "n = ldTotal (secured_view B a s)"
    using n assms(1) by (auto simp: share_supply_def secured_inv_def secured_view_def Let_def split: if_splits)
  let ?k = "asset_slot (GetSecuredAsset a)"
  have k: "kv_key (SecuredAsset_Key (NewSecuredAsset (GetSecuredAsset a))) = ?k"
    by (simp add: asset_slot_def SecuredAsset_Key_def NewSecuredAsset_def)
  have "saDepth p = slot_val saDepth (sdAssets s ?k) \<and> kv_key (SecuredAsset_Key p) = ?k"
  proof (cases "sdAssets s ?k")
    case None
    then show ?thesis using r k by (auto simp: GetSecuredAssetRecord_def kv_get_def NewSecuredAsset_def SecuredAsset_Key_def asset_slot_def)
  next
    case (Some sl)
    then obtain q where "sl = Stored q" "?k = kv_key (SecuredAsset_Key q)" using assms(1) by (auto simp: secured_inv_def)
    then show ?thesis using Some r k by (simp add: GetSecuredAssetRecord_def kv_get_def)
  qed
  then show "saDepth p = ldDepth (secured_view B a s)" "kv_key (SecuredAsset_Key p) = ?k" by (simp_all add: secured_view_def Let_def)
qed

text \<open>What minting to an owner and burning from one do to the bank.\<close>

lemma mint_and_send:
  assumes laws: "bank_laws B" and run: "MintAndSendToAccount B s owner (NewCoin (GetSecuredAsset a) n) = Inr s'"
  shows "sdAssets s' = sdAssets s" and "kRagnarokPool (sdKeeper s') = kRagnarokPool (sdKeeper s)"
    and "bank_balance B (sdBank s') x (Asset_Native (GetSecuredAsset a))
      = bank_balance B (sdBank s) x (Asset_Native (GetSecuredAsset a)) + (if x = owner then n else 0)"
    and "bank_supply B (sdBank s') (Asset_Native (GetSecuredAsset a)) = bank_supply B (sdBank s) (Asset_Native (GetSecuredAsset a)) + n"
proof -
  let ?d = "Asset_Native (GetSecuredAsset a)" and ?m = "bank_module B ''switchly''"
  obtain s1 b where m: "MintToModule B s ''switchly'' (NewCoin (GetSecuredAsset a) n) = Inr s1"
    and snd: "bank_send B (sdBank s1) ?m owner ?d n = Inr b" and s': "s' = s1\<lparr>sdBank := b\<rparr>"
    using run by (auto simp: MintAndSendToAccount_def with_bank_def SendFromModuleToAccount_def res_simps NewCoin_def)
  have s1: "sdAssets s1 = sdAssets s \<and> kRagnarokPool (sdKeeper s1) = kRagnarokPool (sdKeeper s)
      \<and> (\<forall>x. bank_balance B (sdBank s1) x ?d = bank_balance B (sdBank s) x ?d + (if x = ?m then n else 0))
      \<and> bank_supply B (sdBank s1) ?d = bank_supply B (sdBank s) ?d + n"
  proof (cases "n = 0")
    case True
    with m show ?thesis by (simp add: MintToModule_def cap_mint_def Coin_IsSwitch_def NewCoin_def Let_def)
  next
    case False
    with m obtain b' where b': "bank_mint B (sdBank s) ''switchly'' ?d n = Inr b'" and "s1 = supply_halt B (s\<lparr>sdBank := b'\<rparr>)"
      by (auto simp: MintToModule_def cap_mint_def Coin_IsSwitch_def NewCoin_def Let_def Coin_Native_def res_simps split: if_splits)
    then show ?thesis using bank_laws.mint_adds [OF laws b']
      by (simp add: supply_halt_def Let_def SetMimir_def)
  qed
  show "sdAssets s' = sdAssets s" "kRagnarokPool (sdKeeper s') = kRagnarokPool (sdKeeper s)"
    "bank_supply B (sdBank s') ?d = bank_supply B (sdBank s) ?d + n"
    using s1 bank_laws.send_supply [OF laws snd] by (simp_all add: s')
  show "bank_balance B (sdBank s') x ?d = bank_balance B (sdBank s) x ?d + (if x = owner then n else 0)"
    using s1 bank_laws.send_moves [OF laws snd] by (simp add: s')
qed

lemma send_and_burn:
  assumes laws: "bank_laws B" and snd: "with_bank s (SendFromAccountToModule B (sdBank s) owner ''switchly'' (NewCoin a n)) = Inr s1"
    and brn: "with_bank s1 (BurnFromModule B (sdBank s1) ''switchly'' (NewCoin a n)) = Inr s'"
  shows "sdAssets s' = sdAssets s" and "sdKeeper s' = sdKeeper s"
    and "bank_balance B (sdBank s') x (Asset_Native a) = bank_balance B (sdBank s) x (Asset_Native a) - (if x = owner then n else 0)"
    and "bank_supply B (sdBank s') (Asset_Native a) = bank_supply B (sdBank s) (Asset_Native a) - n"
proof -
  let ?d = "Asset_Native a" and ?m = "bank_module B ''switchly''"
  obtain b where b: "bank_send B (sdBank s) owner ?m ?d n = Inr b" and s1: "s1 = s\<lparr>sdBank := b\<rparr>"
    using snd by (auto simp: with_bank_def SendFromAccountToModule_def res_simps NewCoin_def)
  obtain b' where b': "bank_burn B b ''switchly'' ?d n = Inr b'" and s': "s' = s\<lparr>sdBank := b'\<rparr>"
    using brn by (auto simp: with_bank_def BurnFromModule_def res_simps NewCoin_def Coin_Native_def s1 split: if_splits)
  note mv = bank_laws.send_moves [OF laws b] and bt = bank_laws.burn_takes [OF laws b']
  show "sdAssets s' = sdAssets s" "sdKeeper s' = sdKeeper s" by (simp_all add: s')
  show "bank_supply B (sdBank s') ?d = bank_supply B (sdBank s) ?d - n"
    using bt bank_laws.send_supply [OF laws b] by (simp add: s')
  have "bank_balance B b x ?d + (if x = owner then n else 0) = bank_balance B (sdBank s) x ?d + (if x = ?m then n else 0)"
    using mv by blast
  moreover have "bank_balance B b' x ?d = bank_balance B b x ?d - (if x = ?m then n else 0)" using bt by simp
  ultimately show "bank_balance B (sdBank s') x ?d = bank_balance B (sdBank s) x ?d - (if x = owner then n else 0)"
    using mv bt by (auto simp: s' split: if_splits)
qed

lemma secured_set_view:
  assumes "kv_key (SecuredAsset_Key p) = asset_slot (GetSecuredAsset a)"
  shows "sdAssets (SetSecuredAsset s (p\<lparr>saDepth := d\<rparr>)) = (sdAssets s)(asset_slot (GetSecuredAsset a) \<mapsto> Stored (p\<lparr>saDepth := d\<rparr>))"
    and "kv_key (SecuredAsset_Key (p\<lparr>saDepth := d\<rparr>)) = asset_slot (GetSecuredAsset a)"
  using assms by (simp_all add: SetSecuredAsset_def kv_set_def SecuredAsset_Key_def)

lemma secured_set_frames [simp]: "sdBank (SetSecuredAsset s p) = sdBank s" "sdKeeper (SetSecuredAsset s p) = sdKeeper s"
  by (simp_all add: SetSecuredAsset_def)

lemma secured_inv_set:
  assumes "secured_inv B a s" and "sdAssets s1 = sdAssets s" and "kRagnarokPool (sdKeeper s1) = kRagnarokPool (sdKeeper s)"
    and "kv_key (SecuredAsset_Key p) = asset_slot (GetSecuredAsset a)"
  shows "secured_inv B a (SetSecuredAsset s1 (p\<lparr>saDepth := d\<rparr>))"
  using assms(1-3) unfolding secured_inv_def secured_set_view(1) [OF assms(4)] secured_set_frames
  by (auto simp: secured_set_view(2) [OF assms(4)])

lemma secured_view_set:
  assumes "kv_key (SecuredAsset_Key p) = asset_slot (GetSecuredAsset a)"
    and "\<And>x. bank_balance B (sdBank s) x (Asset_Native (GetSecuredAsset a)) = f x"
    and "bank_supply B (sdBank s) (Asset_Native (GetSecuredAsset a)) = t"
  shows "secured_view B a (SetSecuredAsset s (p\<lparr>saDepth := d\<rparr>)) = \<lparr>ldShares = f, ldTotal = t, ldDepth = d\<rparr>"
  using assms(2,3) by (simp add: secured_view_def Let_def secured_set_view(1) [OF assms(1)])

lemma secured_view_parts:
  "bank_balance B (sdBank s) x (Asset_Native (GetSecuredAsset a)) = ldShares (secured_view B a s) x"
  "bank_supply B (sdBank s) (Asset_Native (GetSecuredAsset a)) = ldTotal (secured_view B a s)"
  by (simp_all add: secured_view_def Let_def)

interpretation secured_pot: share_ledger D "\<lambda>s. dec_laws D \<and> secured_inv B a s" "secured_view B a" "\<lambda>o'. o'" "\<lambda>o'. True"
  "\<lambda>s owner n. res_map snd (Secured_Deposit D B c s a n owner)"
  "\<lambda>s owner n. res_map (\<lambda>(coin, s'). (cAmount coin, s')) (Secured_Withdraw D B c s (GetSecuredAsset a) n owner)"
proof (rule share_ledger.intro)
  show "dec_laws D" if "dec_laws D \<and> secured_inv B a s" for s :: "'a secured_state" using that by blast
next
  fix s :: "'a secured_state" and o' n s'
  assume inv: "dec_laws D \<and> secured_inv B a s" and "res_map snd (Secured_Deposit D B c s a n o') = Inr s'"
  then obtain p t s1 d where st: "GetSecuredAssetStatus B s (GetSecuredAsset a) = Inr (p, t)"
    and mint: "MintAndSendToAccount B s o' (NewCoin (GetSecuredAsset a) (calcMintAmt D t (saDepth p) n)) = Inr s1"
    and s': "s' = SetSecuredAsset s1 (p\<lparr>saDepth := saDepth p + n\<rparr>)"
    by (auto simp: Secured_Deposit_def Let_def res_simps uint_simps split: if_splits)
  note r = secured_status [OF conjunct2 [OF inv] st]
  have laws: "bank_laws B" using inv by (simp add: secured_inv_def)
  have u: "calcMintAmt D t (saDepth p) n = ledger_mint D (secured_view B a s) n"
    by (simp add: calcMintAmt_def ledger_mint_def r(1,2))
  note m = mint_and_send [OF laws mint [unfolded u]]
  have "secured_inv B a s'" unfolding s' using inv m(1,2) r(3) by (intro secured_inv_set) simp_all
  moreover have "secured_view B a s' = ledger_deposit D (secured_view B a s) o' n"
    unfolding s' secured_view_set [OF r(3) m(3,4)] ledger_deposit_def r(2) by (simp add: secured_view_parts fun_eq_iff)
  ultimately show "(dec_laws D \<and> secured_inv B a s') \<and> secured_view B a s' = ledger_deposit D (secured_view B a s) o' n"
    using inv by blast
next
  fix s :: "'a secured_state" and o' n x s'
  let ?a = "GetSecuredAsset a" and ?l = "secured_view B a s"
  assume inv: "dec_laws D \<and> secured_inv B a s"
    and "res_map (\<lambda>(coin, s'). (cAmount coin, s')) (Secured_Withdraw D B c s (GetSecuredAsset a) n o') = Inr (x, s')"
  then obtain p t s1 s2 u where st: "GetSecuredAssetStatus B s ?a = Inr (p, t)"
    and u: "u = GetSafeShare D n (GetSafeShare D (ldShares ?l o') t (saDepth p)) (ldShares ?l o')"
    and snd: "with_bank s (SendFromAccountToModule B (sdBank s) o' ''switchly'' (NewCoin ?a u)) = Inr s1"
    and brn: "with_bank s1 (BurnFromModule B (sdBank s1) ''switchly'' (NewCoin ?a u)) = Inr s2"
    and x: "x = GetSafeShare D u (ldShares ?l o') (GetSafeShare D (ldShares ?l o') t (saDepth p))"
    and s': "s' = SetSecuredAsset s2 (p\<lparr>saDepth := saDepth p - x\<rparr>)"
    by (auto simp: Secured_Withdraw_def Let_def res_simps NewCoin_def secured_view_def)
  note r = secured_status [OF conjunct2 [OF inv] st]
  have laws: "bank_laws B" using inv by (simp add: secured_inv_def)
  have u': "u = ledger_burn D ?l o' n" by (simp add: u ledger_burn_def ledger_claim_def r(1,2))
  have x': "x = ledger_pay D ?l o' n" by (simp add: x ledger_pay_def ledger_claim_def r(1,2) u')
  note m = send_and_burn [OF laws snd [unfolded u'] brn [unfolded u']]
  have "secured_inv B a s'" unfolding s' using inv m(1,2) r(3) by (intro secured_inv_set) simp_all
  moreover have "secured_view B a s' = ledger_withdraw D ?l o' n"
    unfolding s' secured_view_set [OF r(3) m(3,4)] ledger_withdraw_def r(2) x' by (simp add: secured_view_parts fun_eq_iff)
  ultimately show "(dec_laws D \<and> secured_inv B a s') \<and> x = ledger_pay D ?l o' n \<and> secured_view B a s' = ledger_withdraw D ?l o' n"
    using inv x' by blast
qed

section \<open>Properties\<close>


text \<open>Secured assets stay solvent: after any sequence of deposits and withdrawals by any accounts every
  share has a holder, and the depth is the depth at the start plus what was paid in less what was paid out;
  so no account can ever take out more than the pot holds.\<close>

theorem secured_assets_solvent:
  assumes "dec_laws D" and "secured_inv B a s" and "ledger_ok (secured_view B a s)"
    and "run_shares (\<lambda>s owner n. res_map snd (Secured_Deposit D B c s a n owner))
      (\<lambda>s owner n. res_map (\<lambda>(coin, s'). (cAmount coin, s')) (Secured_Withdraw D B c s (GetSecuredAsset a) n owner))
      ops s = Inr (paid, s')"
  shows "ledger_ok (secured_view B a s')
    \<and> int (ldDepth (secured_view B a s')) = int (ldDepth (secured_view B a s)) + paid"
  using secured_pot.solvent [OF assms(4)] assms(1-3) by (simp add: list_all_iff)

definition secured_start :: "plain_bank secured_state" where
  "secured_start = \<lparr>sdKeeper = empty_kstore, sdAssets = Map.empty, sdBank = (\<lambda>_ _. 0, \<lambda>_. 0)\<rparr>"

lemma secured_start_inv: "secured_inv plain_bank a secured_start" "ledger_ok (secured_view plain_bank a secured_start)"
proof -
  show "secured_inv plain_bank a secured_start"
    by (simp add: secured_inv_def plain_bank.bank_laws_axioms secured_start_def empty_kstore_def kv_get_or_def kv_get_def)
  show "ledger_ok (secured_view plain_bank a secured_start)"
    by (simp add: ledger_ok_def secured_view_def Let_def plain_bank_def secured_start_def)
qed

lemma btc_coin [simp]:
  "IsNative BTCAsset = False"
  "Coin_Native (NewCoin (GetSecuredAsset BTCAsset) n) = Inr (Asset_Native (GetSecuredAsset BTCAsset), n)"
proof -
  show "IsNative BTCAsset = False" by code_simp
  show "Coin_Native (NewCoin (GetSecuredAsset BTCAsset) n) = Inr (Asset_Native (GetSecuredAsset BTCAsset), n)"
    by (simp add: Coin_Native_def Coin_IsNative_def NewCoin_def IsNative_def GetSecuredAsset_def GetChain_def IsSWITCHLYChain_def
        Chain_Equals_def)
qed

lemma coin_fields [simp]: "cAsset (NewCoin a n) = a" "cAmount (NewCoin a n) = n"
  by (simp_all add: NewCoin_def)

lemma secured_shares:
  "GetUncappedShare legacy_dec 50 100 100 = 50" "GetSafeShare legacy_dec 100 150 150 = 100"
  "GetSafeShare legacy_dec 60 100 100 = 60"
  by (simp_all add: GetSafeShare_def GetUncappedShare_def uncapped_share_body_def legacy_eval uint_eval Let_def)

lemmas secured_eval = Secured_Deposit_def Secured_Withdraw_def Secured_CheckHalt_def GetSecuredAssetStatus_def
  GetSecuredAssetRecord_def SetSecuredAsset_def share_supply_def MintAndSendToAccount_def MintToModule_def cap_mint_def
  supply_halt_def with_bank_def SendFromModuleToAccount_def SendFromAccountToModule_def BurnFromModule_def calcMintAmt_def
  SecuredAsset_Key_def NewSecuredAsset_def GetMimir_def kv_get_or_def kv_get_def kv_set_def Coin_IsSwitch_def
  plain_bank_def asset_slot_def empty_kstore_def secured_shares Let_def guard_err_def SafeSub_def

text \<open>The states of a run with a deposit of 100, one of 50 by another account, and a withdrawal of 60.\<close>

definition secured_after :: "nat \<Rightarrow> nat \<Rightarrow> nat \<Rightarrow> plain_bank secured_state" where
  "secured_after x y t = (let d = Asset_Native (GetSecuredAsset BTCAsset) in
     \<lparr>sdKeeper = empty_kstore,
      sdAssets = [asset_slot (GetSecuredAsset BTCAsset) \<mapsto> Stored \<lparr>saAsset = GetSecuredAsset BTCAsset, saDepth = t\<rparr>],
      sdBank = ((\<lambda>h e. if e = d then if h = ''x'' then x else if h = ''y'' then y else 0 else 0), (\<lambda>_. 0)(d := t))\<rparr>)"

lemma secured_run1: "Secured_Deposit legacy_dec plain_bank demo_ctx secured_start BTCAsset 100 ''x''
    = Inr ((Asset_Native (GetSecuredAsset BTCAsset), 100), secured_after 100 0 100)"
  by (simp add: secured_eval secured_start_def uint_eval secured_after_def fun_eq_iff)

lemma secured_run2: "Secured_Deposit legacy_dec plain_bank demo_ctx (secured_after 100 0 100) BTCAsset 50 ''y''
    = Inr ((Asset_Native (GetSecuredAsset BTCAsset), 50), secured_after 100 50 150)"
  by (simp add: secured_eval uint_eval secured_after_def fun_eq_iff)

lemma secured_run3: "Secured_Withdraw legacy_dec plain_bank demo_ctx (secured_after 100 50 150) (GetSecuredAsset BTCAsset) 60 ''x''
    = Inr (NewCoin (GetLayer1Asset (GetSecuredAsset BTCAsset)) 60, secured_after 40 50 90)"
  by (simp add: secured_eval uint_eval secured_after_def fun_eq_iff)

theorem secured_assets_solvent_witness:
  "run_shares (\<lambda>s owner n. res_map snd (Secured_Deposit legacy_dec plain_bank demo_ctx s BTCAsset n owner))
      (\<lambda>s owner n. res_map (\<lambda>(coin, s'). (cAmount coin, s'))
        (Secured_Withdraw legacy_dec plain_bank demo_ctx s (GetSecuredAsset BTCAsset) n owner))
      [ShareDeposit ''x'' 100, ShareDeposit ''y'' 50, ShareWithdraw ''x'' 60] secured_start = Inr (90, secured_after 40 50 90)
    \<and> ledger_ok (secured_view plain_bank BTCAsset (secured_after 40 50 90))"
proof -
  have run: "run_shares (\<lambda>s owner n. res_map snd (Secured_Deposit legacy_dec plain_bank demo_ctx s BTCAsset n owner))
      (\<lambda>s owner n. res_map (\<lambda>(coin, s'). (cAmount coin, s'))
        (Secured_Withdraw legacy_dec plain_bank demo_ctx s (GetSecuredAsset BTCAsset) n owner))
      [ShareDeposit ''x'' 100, ShareDeposit ''y'' 50, ShareWithdraw ''x'' 60] secured_start = Inr (90, secured_after 40 50 90)"
    by (simp add: secured_run1 secured_run2 secured_run3)
  from secured_assets_solvent [OF legacy.dec_laws_axioms secured_start_inv this] run show ?thesis by simp
qed


lemma safe_share_none: "GetSafeShare D x 0 y = 0" "GetSafeShare D 0 x y = 0"
  by (simp_all add: GetSafeShare_def GetUncappedShare_def)

text \<open>C38. While the pool of the layer 1 asset is in ragnarok the supply of shares reads as zero, and a withdrawal
  of a secured asset that succeeds pays nothing and burns nothing, whatever the account holds.\<close>

theorem secured_locked_by_ragnarok:
  assumes "kv_get_or (kRagnarokPool (sdKeeper s)) (kv_key (Asset_String (GetLayer1Asset a))) 0 > 0"
    and "Secured_Withdraw D B c s a n owner = Inr (coin, s')"
  shows "cAmount coin = 0"
proof -
  have "GetSecuredAsset a = a" using assms(2)
    by (cases a) (auto simp: Secured_Withdraw_def GetSecuredAsset_def res_simps split: if_splits)
  with assms(1) have "share_supply B s (GetSecuredAsset a) = Inr 0" by (simp add: share_supply_def)
  with assms(2) show ?thesis
    by (auto simp: Secured_Withdraw_def GetSecuredAssetStatus_def res_simps Let_def safe_share_none NewCoin_def
        split: if_splits)
qed

text \<open>The run above with the pool of BTC in ragnarok since block 5, before the withdrawal.\<close>

definition secured_ragnarok :: "plain_bank secured_state" where
  "secured_ragnarok = (secured_after 100 50 150)\<lparr>sdKeeper := empty_kstore\<lparr>kRagnarokPool :=
     [kv_key (Asset_String (GetLayer1Asset (GetSecuredAsset BTCAsset))) \<mapsto> Stored 5]\<rparr>\<rparr>"

theorem secured_locked_by_ragnarok_witness:
  "\<exists>coin s'. Secured_Withdraw legacy_dec plain_bank demo_ctx secured_ragnarok (GetSecuredAsset BTCAsset) 60 ''x'' = Inr (coin, s')
    \<and> cAmount coin = 0"
proof -
  have "\<exists>coin s'. Secured_Withdraw legacy_dec plain_bank demo_ctx secured_ragnarok (GetSecuredAsset BTCAsset) 60 ''x'' = Inr (coin, s')"
    by (simp add: secured_eval secured_ragnarok_def secured_after_def safe_share_none)
  moreover have "kv_get_or (kRagnarokPool (sdKeeper secured_ragnarok))
      (kv_key (Asset_String (GetLayer1Asset (GetSecuredAsset BTCAsset)))) 0 > 0"
    by (simp add: secured_ragnarok_def kv_get_or_def kv_get_def)
  ultimately show ?thesis using secured_locked_by_ragnarok [of secured_ragnarok "GetSecuredAsset BTCAsset"] by blast
qed

end
