(* ===== verification/Mimirs.thy ===== *)
theory Mimirs
  imports Keeper Voters
begin

text \<open>
  Mimir votes: \<^verbatim>\<open>src/x/switchly/types/type_mimir.go\<close>, the node mimirs of \<^verbatim>\<open>keeper/v1/keeper_mimir.go\<close>,
  \<^verbatim>\<open>types/msg_mimir.go\<close> and \<^verbatim>\<open>handler_mimir.go\<close>, with the accessors of node accounts it uses
  (\<^verbatim>\<open>keeper/v1/keeper_node_account.go\<close>, \<^verbatim>\<open>helpers.go\<close>).

  The code counts votes in a Go map and then ranges over it. The order of that iteration is not
  specified, so it is an argument here: \<open>it\<close> maps the counts to the order in which they are visited.
\<close>

section \<open>Votes\<close>

record node_mimir =
  nmKey :: string
  nmValue :: int
  nmSigner :: acc

definition is_vote :: "string \<Rightarrow> acc \<Rightarrow> node_mimir \<Rightarrow> bool" where
  "is_vote key a m \<longleftrightarrow> nmSigner m = a \<and> equal_fold (nmKey m) key"

definition NodeMimirs_Has :: "node_mimir list \<Rightarrow> string \<Rightarrow> acc \<Rightarrow> bool" where
  "NodeMimirs_Has ms key a \<longleftrightarrow> list_ex (is_vote key a) ms"

definition NodeMimirs_Get :: "node_mimir list \<Rightarrow> string \<Rightarrow> acc \<Rightarrow> int \<times> bool" where
  "NodeMimirs_Get ms key a = (case find (is_vote key a) ms of Some m \<Rightarrow> (nmValue m, True) | None \<Rightarrow> (0, False))"

definition NodeMimirs_Set :: "node_mimir list \<Rightarrow> string \<Rightarrow> int \<Rightarrow> acc \<Rightarrow> node_mimir list" where
  "NodeMimirs_Set ms key v a =
     (if list_ex (is_vote key a) ms then update_first (is_vote key a) (\<lambda>m. m\<lparr>nmValue := v\<rparr>) ms
      else ms @ [\<lparr>nmKey = key, nmValue = v, nmSigner = a\<rparr>])"

definition NodeMimirs_Delete :: "node_mimir list \<Rightarrow> string \<Rightarrow> acc \<Rightarrow> node_mimir list" where
  "NodeMimirs_Delete ms key a = (case find_index (is_vote key a) ms of None \<Rightarrow> ms | Some i \<Rightarrow> remove_at i ms)"

text \<open>The counts of the values, one vote per active signer: the first one in the list.\<close>

fun bump :: "int \<Rightarrow> (int \<times> nat) list \<Rightarrow> (int \<times> nat) list" where
  "bump v [] = [(v, 1)]"
| "bump v ((w, n) # cs) = (if v = w then (w, n + 1) # cs else (w, n) # bump v cs)"

fun tally :: "string \<Rightarrow> acc list \<Rightarrow> node_mimir list \<Rightarrow> acc list \<Rightarrow> (int \<times> nat) list \<Rightarrow> (int \<times> nat) list" where
  "tally key active [] voted cs = cs"
| "tally key active (m # ms) voted cs =
     (if \<not> equal_fold (nmKey m) key \<or> nmSigner m \<in> set voted \<or> nmSigner m \<notin> set active
      then tally key active ms voted cs
      else tally key active ms (nmSigner m # voted) (bump (nmValue m) cs))"

definition vote_counts :: "node_mimir list \<Rightarrow> string \<Rightarrow> acc list \<Rightarrow> (int \<times> nat) list" where
  "vote_counts ms key active = tally key active ms [] []"

type_synonym map_order = "(int \<times> nat) list \<Rightarrow> (int \<times> nat) list"

definition countActive ::
  "map_order \<Rightarrow> node_mimir list \<Rightarrow> string \<Rightarrow> acc list \<Rightarrow> (int \<Rightarrow> int \<Rightarrow> bool) \<Rightarrow> int \<times> bool" where
  "countActive it ms key active maj =
     (case find (\<lambda>(v, n). maj (int n) (int (length active))) (it (vote_counts ms key active)) of
        Some (v, _) \<Rightarrow> (v, True) | None \<Rightarrow> (0, False))"

definition NodeMimirs_HasSuperMajority :: "map_order \<Rightarrow> node_mimir list \<Rightarrow> string \<Rightarrow> acc list \<Rightarrow> int \<times> bool" where
  "NodeMimirs_HasSuperMajority it ms key nas = countActive it ms key nas HasSuperMajority"

definition NodeMimirs_HasSimpleMajority :: "map_order \<Rightarrow> node_mimir list \<Rightarrow> string \<Rightarrow> acc list \<Rightarrow> int \<times> bool" where
  "NodeMimirs_HasSimpleMajority it ms key nas = countActive it ms key nas HasSimpleMajority"

definition most_voted :: "(int \<times> nat) list \<Rightarrow> int \<times> nat" where
  "most_voted cs = fold (\<lambda>(v, n) (b, mx). if n > mx then (v, n) else (b, mx)) cs (- 1, 0)"

definition ValueOfEconomic :: "map_order \<Rightarrow> node_mimir list \<Rightarrow> string \<Rightarrow> acc list \<Rightarrow> int" where
  "ValueOfEconomic it ms key active =
     (let (b, mx) = most_voted (it (vote_counts ms key active))
      in if 3 * mx < 2 * length active then - 1 else b)"

definition most_voted_tie :: "(int \<times> nat) list \<Rightarrow> int \<times> nat \<times> bool" where
  "most_voted_tie cs =
     fold (\<lambda>(v, n) (b, mx, tie). if n > mx then (v, n, tie) else if n = mx then (b, mx, True) else (b, mx, tie)) cs (- 1, 0, False)"

definition ValueOfOperational :: "map_order \<Rightarrow> node_mimir list \<Rightarrow> string \<Rightarrow> int \<Rightarrow> acc list \<Rightarrow> int" where
  "ValueOfOperational it ms key minVotes active =
     (let (b, mx, tie) = most_voted_tie (it (vote_counts ms key active))
      in if tie \<or> int mx < minVotes then - 1 else b)"

section \<open>The stores\<close>

record mimir_state =
  msKeeper :: kstore
  msVotes :: "node_mimir list kv"
  msNodes :: "(string \<times> node_account slot) list"
  msSlashPoints :: "int kv"

definition GetNodeMimirs :: "mimir_state \<Rightarrow> string \<Rightarrow> node_mimir list res" where
  "GetNodeMimirs s key = kv_get (msVotes s) (kv_key (to_upper key)) []"

definition SetNodeMimir :: "mimir_state \<Rightarrow> string \<Rightarrow> int \<Rightarrow> acc \<Rightarrow> mimir_state res" where
  "SetNodeMimir s key0 v a =
     (let key = to_upper key0 in
      res_map (\<lambda>ms.
        let ms1 = NodeMimirs_Set ms key v a;
            ms2 = (if v < 0 then NodeMimirs_Delete ms1 key a else ms1)
        in if ms2 = [] then s\<lparr>msVotes := kv_del (msVotes s) (kv_key key)\<rparr>
           else s\<lparr>msVotes := kv_set (msVotes s) (kv_key key) ms2\<rparr>)
      (GetNodeMimirs s key))"

definition DeleteNodeMimirs :: "mimir_state \<Rightarrow> string \<Rightarrow> mimir_state" where
  "DeleteNodeMimirs s key = s\<lparr>msVotes := kv_del (msVotes s) (kv_key key)\<rparr>"

definition PurgeOperationalNodeMimirs :: "mimir_state \<Rightarrow> mimir_state" where
  "PurgeOperationalNodeMimirs s = s\<lparr>msVotes := (\<lambda>k. if IsOperationalMimir k then None else msVotes s k)\<rparr>"

definition GetNodeAccount :: "ctx \<Rightarrow> mimir_state \<Rightarrow> acc \<Rightarrow> node_account res" where
  "GetNodeAccount c s a = kv_get (map_of (msNodes s)) (kv_key a)
     (NewNodeAccount a NodeStatus_Unknown \<lparr>Secp256k1 = '''', Ed25519 = ''''\<rparr> '''' 0 '''' (BlockHeight c))"

definition ResetNodeAccountSlashPoints :: "mimir_state \<Rightarrow> acc \<Rightarrow> mimir_state" where
  "ResetNodeAccountSlashPoints s a = s\<lparr>msSlashPoints := kv_del (msSlashPoints s) (kv_key a)\<rparr>"

definition SetNodeAccount :: "ctx \<Rightarrow> mimir_state \<Rightarrow> node_account \<Rightarrow> mimir_state" where
  "SetNodeAccount c s na =
     (if NodeAccount_IsEmpty na then s
      else let fresh = (naStatus na = NodeStatus_Active \<and> ActiveBlockHeight na = 0);
               na1 = (if fresh then na\<lparr>ActiveBlockHeight := BlockHeight c\<rparr> else na);
               s1 = (if fresh then ResetNodeAccountSlashPoints s (NodeAddress na) else s)
           in s1\<lparr>msNodes := queue_put (kv_key (NodeAddress na)) (Stored na1) (msNodes s1)\<rparr>)"

fun list_nodes :: "(node_account \<Rightarrow> bool) \<Rightarrow> (string \<times> node_account slot) list \<Rightarrow> node_account list res" where
  "list_nodes p [] = Inr []"
| "list_nodes p ((k, Corrupt) # q) = Inl (Err ''Unmarshal: node account'')"
| "list_nodes p ((k, Stored na) # q) = res_map (\<lambda>nas. if p na then na # nas else nas) (list_nodes p q)"

definition ListValidatorsWithBond :: "mimir_state \<Rightarrow> node_account list res" where
  "ListValidatorsWithBond s = list_nodes (\<lambda>na. naType na = NodeType_TypeValidator \<and> naBond na \<noteq> 0) (msNodes s)"

definition ListValidatorsByStatus :: "mimir_state \<Rightarrow> NodeStatus \<Rightarrow> node_account list res" where
  "ListValidatorsByStatus s status =
     list_nodes (\<lambda>na. naType na = NodeType_TypeValidator \<and> naStatus na = status) (msNodes s)"

definition ListActiveValidators :: "mimir_state \<Rightarrow> node_account list res" where
  "ListActiveValidators s = ListValidatorsByStatus s NodeStatus_Active"

definition TotalActiveValidators :: "mimir_state \<Rightarrow> nat res" where
  "TotalActiveValidators s = res_map length (ListActiveValidators s)"

definition signedByActiveNodeAccount :: "ctx \<Rightarrow> mimir_state \<Rightarrow> acc \<Rightarrow> unit res" where
  "signedByActiveNodeAccount c s signer =
     res_bind (GetNodeAccount c s signer) (\<lambda>na.
       if NodeAccount_IsEmpty na then Inl (Err ''node account is unexpectedly empty'')
       else if naStatus na \<noteq> NodeStatus_Active then Inl (Err ''node account not active'')
       else if naType na \<noteq> NodeType_TypeValidator then Inl (Err ''node account must be a validator'')
       else Inr ())"

definition isSignedByActiveNodeAccounts :: "ctx \<Rightarrow> mimir_state \<Rightarrow> acc list \<Rightarrow> bool" where
  "isSignedByActiveNodeAccounts c s signers \<longleftrightarrow> signers \<noteq> []
     \<and> list_all (\<lambda>signer. signer = cModuleAddress c ''asgard'' \<or> is_ok (signedByActiveNodeAccount c s signer)) signers"

section \<open>The handler\<close>

record msg_mimir =
  mmKey :: string
  mmValue :: int
  mmSigner :: acc

definition MsgMimir_ValidateBasic :: "msg_mimir \<Rightarrow> unit res" where
  "MsgMimir_ValidateBasic m =
     (if mmKey m = '''' then Inl (Err ''key cannot be empty'')
      else if mmSigner m = [] then Inl (Err ''invalid address'') else Inr ())"

definition mimirValidKey :: "string \<Rightarrow> bool" where
  "mimirValidKey k \<longleftrightarrow> k \<noteq> [] \<and> list_all (\<lambda>c. char_in c 97 122 \<or> char_in c 65 90 \<or> char_in c 48 57 \<or> c = CHR ''-'') k"

definition MaxMimirLength :: nat where
  "MaxMimirLength = 128"

definition Mimir_validate :: "ctx \<Rightarrow> mimir_state \<Rightarrow> msg_mimir \<Rightarrow> unit res" where
  "Mimir_validate c s msg =
     (if \<not> cVersion3 c then Inl (Err ''bad version'')
      else res_bind (MsgMimir_ValidateBasic msg) (\<lambda>_.
        if \<not> mimirValidKey (mmKey msg) \<or> length (mmKey msg) > MaxMimirLength then Inl (Err ''invalid mimir key'')
        else if isSignedByActiveNodeAccounts c s [mmSigner msg] then Inr () else Inl (Err ''not authorized'')))"

text \<open>The value the votes give: the most voted one for operational keys, a super majority for the others.\<close>

definition effective_value :: "map_order \<Rightarrow> ctx \<Rightarrow> kstore \<Rightarrow> node_mimir list \<Rightarrow> string \<Rightarrow> acc list \<Rightarrow> int" where
  "effective_value it c k ms key active =
     (if IsOperationalMimir key then ValueOfOperational it ms key (GetConfigInt64 c k ''OperationalVotesMin'') active
      else let (v, has) = NodeMimirs_HasSuperMajority it ms key active in if has then v else - 1)"

definition apply_votes :: "map_order \<Rightarrow> ctx \<Rightarrow> mimir_state \<Rightarrow> msg_mimir \<Rightarrow> int \<Rightarrow> mimir_state res" where
  "apply_votes it c s msg current =
     res_bind (GetNodeMimirs s (mmKey msg)) (\<lambda>ms.
     res_map (\<lambda>nas.
       let v = effective_value it c (msKeeper s) ms (mmKey msg) (GetNodeAddresses nas)
       in if v < 0 \<or> current = v \<or> mmValue msg \<noteq> v then s
          else s\<lparr>msKeeper := SetMimir (msKeeper s) (mmKey msg) v\<rparr>)
       (ListActiveValidators s))"

text \<open>
  \<open>cost\<close> is the native transaction fee and \<open>send\<close> the bank's transfer of it from the bond module to the
  reserve. An error discards the changes.
\<close>

definition Mimir_handle :: "map_order \<Rightarrow> uint \<Rightarrow> (uint \<Rightarrow> unit res) \<Rightarrow> ctx \<Rightarrow> mimir_state \<Rightarrow> msg_mimir \<Rightarrow> mimir_state res" where
  "Mimir_handle it cost send c s msg =
     (if \<not> cVersion3 c then Inl (Err ''bad version'')
      else
        let current = (case GetMimir (msKeeper s) (mmKey msg) of Inl _ \<Rightarrow> - 1 | Inr v \<Rightarrow> v) in
        res_bind (GetNodeAccount c s (mmSigner msg)) (\<lambda>na.
        res_bind (if cost = 0 then Inr () else send cost) (\<lambda>_.
        res_bind (SetNodeMimir (SetNodeAccount c s (na\<lparr>naBond := SafeSub (naBond na) cost\<rparr>)) (mmKey msg) (mmValue msg) (mmSigner msg)) (\<lambda>s1.
          if mmValue msg = current then Inr s1 else apply_votes it c s1 msg current))))"

section \<open>Counting\<close>

text \<open>Every count is of distinct active signers, so that the counts together are at most their number.\<close>

lemma sum_bump: "sum_list (map snd (bump v cs)) = Suc (sum_list (map snd cs))"
  by (induction v cs rule: bump.induct) auto

lemma keys_bump: "set (map fst (bump v cs)) = insert v (set (map fst cs))"
  by (induction v cs rule: bump.induct) auto

lemma distinct_bump: "distinct (map fst cs) \<Longrightarrow> distinct (map fst (bump v cs))"
proof (induction v cs rule: bump.induct)
  case (2 v w n cs)
  then show ?case using keys_bump [of v cs] by auto
qed simp

lemma tally_inv:
  assumes "distinct voted" and "set voted \<subseteq> set active" and "distinct (map fst cs)" and "sum_list (map snd cs) = length voted"
  shows "distinct (map fst (tally key active ms voted cs))
    \<and> sum_list (map snd (tally key active ms voted cs)) \<le> card (set active)"
  using assms
proof (induction key active ms voted cs rule: tally.induct)
  case (1 key active voted cs)
  then show ?case by (metis List.finite_set card_mono distinct_card tally.simps(1))
next
  case (2 key active m ms voted cs)
  then show ?case by (simp add: sum_bump distinct_bump)
qed

lemma vote_counts_inv:
  "distinct (map fst (vote_counts ms key active))"
  "sum_list (map snd (vote_counts ms key active)) \<le> length active"
  using tally_inv [of "[]" active "[]" key ms] card_length [of active]
  by (auto simp: vote_counts_def intro: order_trans)

lemma two_counts_le:
  assumes "distinct (map fst cs)" and "(v, n) \<in> set cs" and "(w, k) \<in> set cs" and "v \<noteq> w"
  shows "n + k \<le> sum_list (map snd (cs :: (int \<times> nat) list))"
  using assms
proof (induction cs)
  case (Cons x cs)
  have le: "j \<le> sum_list (map snd cs)" if "(u, j) \<in> set cs" for u j
    using that member_le_sum_list [of j "map snd cs"] by force
  show ?case
  proof (cases "x = (v, n) \<or> x = (w, k)")
    case True
    with Cons.prems le show ?thesis by auto
  next
    case False
    with Cons.prems have "n + k \<le> sum_list (map snd cs)" by (intro Cons.IH) auto
    then show ?thesis by simp
  qed
qed simp

text \<open>At most one value has a super majority, so that the order of the iteration does not matter.\<close>

lemma find_unique:
  assumes "mset xs = mset ys" and "\<And>a b. a \<in> set xs \<Longrightarrow> b \<in> set xs \<Longrightarrow> p a \<Longrightarrow> p b \<Longrightarrow> a = b"
  shows "find p xs = find p ys"
proof (cases "find p xs")
  case None
  then have "\<not> (\<exists>x. x \<in> set ys \<and> p x)" using assms(1) by (metis find_None_iff mset_eq_setD)
  with None show ?thesis by (metis find_None_iff)
next
  case (Some a)
  then have a: "a \<in> set xs" "p a" by (metis find_Some_iff nth_mem)+
  then have "find p ys \<noteq> None" using assms(1) by (metis find_None_iff mset_eq_setD)
  then obtain b where b: "find p ys = Some b" by auto
  then have "b \<in> set xs" "p b" using assms(1) by (metis find_Some_iff nth_mem mset_eq_setD)+
  with a assms(2) Some b show ?thesis by metis
qed

definition map_iteration :: "map_order \<Rightarrow> bool" where
  "map_iteration it \<longleftrightarrow> (\<forall>cs. mset (it cs) = mset cs)"

lemma super_majority_unique:
  assumes "2 * length active < 2 ^ 63" and "(v, n) \<in> set (vote_counts ms key active)" and "(w, k) \<in> set (vote_counts ms key active)"
    and "HasSuperMajority (int n) (int (length active))" and "HasSuperMajority (int k) (int (length active))"
  shows "(v, n) = (w, k)"
proof (cases "v = w")
  case True
  with vote_counts_inv(1) [of ms key active] assms(2,3) show ?thesis by (metis eq_key_imp_eq_value)
next
  case False
  with two_counts_le [OF vote_counts_inv(1) assms(2,3)] vote_counts_inv(2) [of ms key active]
  have "n + k \<le> length active" by linarith
  moreover have "2 * length active \<le> 3 * n" "2 * length active \<le> 3 * k" "0 < n"
    using assms(1,4,5) super_majority_iff [of "int (length active)" "int n"] super_majority_iff [of "int (length active)" "int k"] by auto
  ultimately show ?thesis by linarith
qed

lemma super_majority_order:
  assumes "map_iteration it" and "map_iteration it'" and "2 * length active < 2 ^ 63"
  shows "NodeMimirs_HasSuperMajority it ms key active = NodeMimirs_HasSuperMajority it' ms key active"
proof -
  let ?cs = "vote_counts ms key active"
  have "find (\<lambda>(v, n). HasSuperMajority (int n) (int (length active))) (it ?cs)
      = find (\<lambda>(v, n). HasSuperMajority (int n) (int (length active))) (it' ?cs)"
  proof (rule find_unique)
    show "mset (it ?cs) = mset (it' ?cs)" using assms(1,2) by (simp add: map_iteration_def)
    have "set (it ?cs) = set ?cs" using assms(1) by (metis map_iteration_def mset_eq_setD)
    then show "a = b" if "a \<in> set (it ?cs)" "b \<in> set (it ?cs)" "case a of (v, n) \<Rightarrow> HasSuperMajority (int n) (int (length active))"
      "case b of (v, n) \<Rightarrow> HasSuperMajority (int n) (int (length active))" for a b
      using that super_majority_unique [OF assms(3)] by (auto split: prod.splits)
  qed
  then show ?thesis by (simp add: NodeMimirs_HasSuperMajority_def countActive_def)
qed

text \<open>The count of a value is the number of active signers whose first vote is for it.\<close>

definition supporters :: "node_mimir list \<Rightarrow> string \<Rightarrow> int \<Rightarrow> acc set \<Rightarrow> acc set" where
  "supporters ms key v as = {a \<in> as. NodeMimirs_Get ms key a = (v, True)}"

definition count_of :: "int \<Rightarrow> (int \<times> nat) list \<Rightarrow> nat" where
  "count_of v cs = (case map_of cs v of None \<Rightarrow> 0 | Some n \<Rightarrow> n)"

lemma count_bump: "count_of v (bump w cs) = count_of v cs + (if v = w then 1 else 0)"
  by (induction w cs rule: bump.induct) (auto simp: count_of_def)

lemma get_Cons:
  "NodeMimirs_Get (m # ms) key a = (if is_vote key a m then (nmValue m, True) else NodeMimirs_Get ms key a)"
  by (simp add: NodeMimirs_Get_def)

lemma count_tally:
  "count_of v (tally key active ms voted cs) = count_of v cs + card (supporters ms key v (set active - set voted))"
proof (induction key active ms voted cs rule: tally.induct)
  case (1 key active voted cs)
  then show ?case by (simp add: supporters_def NodeMimirs_Get_def)
next
  case (2 key active m ms voted cs)
  let ?a = "nmSigner m"
  show ?case
  proof (cases "\<not> equal_fold (nmKey m) key \<or> ?a \<in> set voted \<or> ?a \<notin> set active")
    case True
    then have "supporters (m # ms) key v (set active - set voted) = supporters ms key v (set active - set voted)"
      by (auto simp: supporters_def get_Cons is_vote_def)
    with True 2 show ?thesis by simp
  next
    case False
    let ?r = "supporters ms key v (set active - set (?a # voted))"
    have split: "supporters (m # ms) key v (set active - set voted) = (if nmValue m = v then insert ?a ?r else ?r)"
      using False by (auto simp: supporters_def get_Cons is_vote_def split: if_splits)
    have "?a \<notin> ?r" "finite ?r" by (auto simp: supporters_def)
    with False 2(2) split show ?thesis by (simp add: count_bump)
  qed
qed

lemma count_supporters:
  "(v, n) \<in> set (vote_counts ms key active) \<Longrightarrow> n = card (supporters ms key v (set active))"
  using count_tally [of v key active ms "[]" "[]"] vote_counts_inv(1) [of ms key active]
  by (simp add: vote_counts_def count_of_def)

lemma list_nodes_length: "list_nodes p q = Inr nas \<Longrightarrow> length nas \<le> length q"
  by (induction p q arbitrary: nas rule: list_nodes.induct) (fastforce simp: res_simps)+

lemma length_queue_put: "length (queue_put k v q) \<le> Suc (length q)"
  by (induction k v q rule: queue_put.induct) auto

lemma set_account_nodes: "length (msNodes (SetNodeAccount c s na)) \<le> Suc (length (msNodes s))"
  by (auto simp: SetNodeAccount_def Let_def ResetNodeAccountSlashPoints_def length_queue_put)

lemma set_node_mimir_frames:
  "SetNodeMimir s key v a = Inr s' \<Longrightarrow> msNodes s' = msNodes s \<and> msKeeper s' = msKeeper s"
  by (auto simp: SetNodeMimir_def Let_def res_simps)

lemma account_keeper [simp]: "msKeeper (SetNodeAccount c s na) = msKeeper s"
  by (simp add: SetNodeAccount_def Let_def ResetNodeAccountSlashPoints_def)

lemma res_bind_cong: "(\<And>x. m = Inr x \<Longrightarrow> f x = g x) \<Longrightarrow> res_bind m f = res_bind m g"
  by (cases m) auto

lemma res_map_cong: "(\<And>x. m = Inr x \<Longrightarrow> f x = g x) \<Longrightarrow> res_map f m = res_map g m"
  by (cases m) auto

lemma handle_changes:
  assumes run: "Mimir_handle it cost send c s msg = Inr s'"
    and change: "GetMimir (msKeeper s') (mmKey msg) \<noteq> GetMimir (msKeeper s) (mmKey msg)"
  obtains ms nas where "GetNodeMimirs s' (mmKey msg) = Inr ms" and "ListActiveValidators s' = Inr nas"
    and "mmValue msg = effective_value it c (msKeeper s) ms (mmKey msg) (GetNodeAddresses nas)" and "0 \<le> mmValue msg"
    and "GetMimir (msKeeper s') (mmKey msg) = Inr (mmValue msg)" and "length nas \<le> Suc (length (msNodes s))"
proof -
  define current where "current = (case GetMimir (msKeeper s) (mmKey msg) of Inl _ \<Rightarrow> - 1 | Inr v \<Rightarrow> v)"
  have v: "cVersion3 c = True" using run by (cases "cVersion3 c") (simp_all add: Mimir_handle_def)
  from run obtain na s1 where
    s1: "SetNodeMimir (SetNodeAccount c s (na\<lparr>naBond := SafeSub (naBond na) cost\<rparr>)) (mmKey msg) (mmValue msg) (mmSigner msg) = Inr s1"
    and rest: "(if mmValue msg = current then Inr s1 else apply_votes it c s1 msg current) = Inr s'"
    unfolding Mimir_handle_def current_def Let_def by (simp only: v if_False not_True_eq_False res_bind_Inr) blast
  have fr: "msKeeper s1 = msKeeper s" "length (msNodes s1) \<le> Suc (length (msNodes s))"
    using set_node_mimir_frames [OF s1] set_account_nodes by auto
  have "s' \<noteq> s1" using change fr(1) by auto
  with rest have ap: "apply_votes it c s1 msg current = Inr s'" by (simp split: if_split_asm)
  then obtain ms nas where m: "GetNodeMimirs s1 (mmKey msg) = Inr ms" "ListActiveValidators s1 = Inr nas"
    and s': "s' = (let w = effective_value it c (msKeeper s1) ms (mmKey msg) (GetNodeAddresses nas)
       in if w < 0 \<or> current = w \<or> mmValue msg \<noteq> w then s1 else s1\<lparr>msKeeper := SetMimir (msKeeper s1) (mmKey msg) w\<rparr>)"
    unfolding apply_votes_def by (simp only: res_bind_Inr res_map_Inr) blast
  with \<open>s' \<noteq> s1\<close> fr(1) have v: "mmValue msg = effective_value it c (msKeeper s) ms (mmKey msg) (GetNodeAddresses nas)" "0 \<le> mmValue msg"
      "s' = s1\<lparr>msKeeper := SetMimir (msKeeper s1) (mmKey msg) (mmValue msg)\<rparr>"
    unfolding Let_def by (metis not_le)+
  have "length nas \<le> Suc (length (msNodes s))"
    using list_nodes_length m(2) fr(2) unfolding ListActiveValidators_def ListValidatorsByStatus_def by (meson order_trans)
  then show thesis using m v
    by (intro that) (simp_all add: GetNodeMimirs_def ListActiveValidators_def ListValidatorsByStatus_def GetMimir_def SetMimir_def kv_get_def kv_set_def)
qed

section \<open>Properties\<close>

text \<open>C14. A message changes the value of an economic key only to its own value, and only if at least two
  thirds of the active validators vote for that value (the first vote of each counts).\<close>

theorem mimir_needs_supermajority:
  assumes "Mimir_handle it cost send c s msg = Inr s'" and "map_iteration it" and "length (msNodes s) < 2 ^ 61"
    and "\<not> IsOperationalMimir (mmKey msg)"
    and "GetMimir (msKeeper s') (mmKey msg) \<noteq> GetMimir (msKeeper s) (mmKey msg)"
  shows "\<exists>ms nas. GetNodeMimirs s' (mmKey msg) = Inr ms \<and> ListActiveValidators s' = Inr nas
    \<and> GetMimir (msKeeper s') (mmKey msg) = Inr (mmValue msg)
    \<and> 2 * length nas \<le> 3 * card (supporters ms (mmKey msg) (mmValue msg) (set (GetNodeAddresses nas)))"
proof -
  from assms(1,5) obtain ms nas where h: "GetNodeMimirs s' (mmKey msg) = Inr ms" "ListActiveValidators s' = Inr nas"
    "mmValue msg = effective_value it c (msKeeper s) ms (mmKey msg) (GetNodeAddresses nas)" "0 \<le> mmValue msg"
    "GetMimir (msKeeper s') (mmKey msg) = Inr (mmValue msg)" "length nas \<le> Suc (length (msNodes s))"
    by (rule handle_changes)
  let ?as = "GetNodeAddresses nas"
  have len: "length ?as = length nas" by (simp add: GetNodeAddresses_def)
  from h(3,4) assms(4) obtain n where
    f: "find (\<lambda>(v, n). HasSuperMajority (int n) (int (length ?as))) (it (vote_counts ms (mmKey msg) ?as)) = Some (mmValue msg, n)"
    by (auto simp: effective_value_def NodeMimirs_HasSuperMajority_def countActive_def split: option.splits prod.splits if_splits)
  then have "(mmValue msg, n) \<in> set (it (vote_counts ms (mmKey msg) ?as))" and maj: "HasSuperMajority (int n) (int (length ?as))"
    using find_SomeD [OF f] by simp_all
  then have "n = card (supporters ms (mmKey msg) (mmValue msg) (set ?as))"
    using assms(2) count_supporters by (metis map_iteration_def mset_eq_setD)
  moreover have "2 * length ?as \<le> 3 * n"
    using maj super_majority_iff [of "int (length ?as)" "int n"] h(6) assms(3) len by auto
  ultimately show ?thesis using h(1,2,5) len by auto
qed

text \<open>For an economic key the outcome of a message does not depend on the order in which Go ranges over
  the map of counts, so that all nodes agree.\<close>

theorem mimir_economic_deterministic:
  assumes "map_iteration it" and "map_iteration it'" and "length (msNodes s) < 2 ^ 61" and "\<not> IsOperationalMimir (mmKey msg)"
  shows "Mimir_handle it cost send c s msg = Mimir_handle it' cost send c s msg"
proof -
  have "apply_votes it c s1 msg cur = apply_votes it' c s1 msg cur"
    if s1: "SetNodeMimir (SetNodeAccount c s na) k v a = Inr s1" for na k v a s1 cur
    unfolding apply_votes_def
  proof (intro res_bind_cong res_map_cong)
    fix ms nas
    assume "ListActiveValidators s1 = Inr nas"
    then have "length nas \<le> length (msNodes s1)"
      unfolding ListActiveValidators_def ListValidatorsByStatus_def by (rule list_nodes_length)
    also have "\<dots> \<le> Suc (length (msNodes s))" using set_node_mimir_frames [OF s1] set_account_nodes by simp
    finally have "2 * length (GetNodeAddresses nas) < 2 ^ 63" using assms(3) by (simp add: GetNodeAddresses_def)
    from super_majority_order [OF assms(1,2) this]
    have "effective_value it c (msKeeper s1) ms (mmKey msg) (GetNodeAddresses nas)
        = effective_value it' c (msKeeper s1) ms (mmKey msg) (GetNodeAddresses nas)"
      using assms(4) by (simp add: effective_value_def)
    then show "(let w = effective_value it c (msKeeper s1) ms (mmKey msg) (GetNodeAddresses nas) in if w < 0 \<or> cur = w \<or> mmValue msg \<noteq> w then s1
          else s1\<lparr>msKeeper := SetMimir (msKeeper s1) (mmKey msg) w\<rparr>)
        = (let w = effective_value it' c (msKeeper s1) ms (mmKey msg) (GetNodeAddresses nas) in if w < 0 \<or> cur = w \<or> mmValue msg \<noteq> w then s1
          else s1\<lparr>msKeeper := SetMimir (msKeeper s1) (mmKey msg) w\<rparr>)" by simp
  qed
  then show ?thesis unfolding Mimir_handle_def Let_def by (auto intro!: res_bind_cong)
qed

text \<open>C39. For an operational key it does depend on that order: with one vote each for 1 and 2 and two votes for
  3, visiting 3 first gives 3, visiting it last gives no value, because the tie of the smaller counts is
  not forgotten. Nodes that range over the map differently store different values.\<close>

theorem mimir_operational_order_dependent:
  "\<exists>it it' ms active. map_iteration it \<and> map_iteration it' \<and> IsOperationalMimir ''HaltTrading''
    \<and> mset (it (vote_counts ms ''HaltTrading'' active)) = mset (it' (vote_counts ms ''HaltTrading'' active))
    \<and> ValueOfOperational it ms ''HaltTrading'' 1 active = 3 \<and> ValueOfOperational it' ms ''HaltTrading'' 1 active = - 1"
proof -
  let ?ms = "[\<lparr>nmKey = ''HaltTrading'', nmValue = 1, nmSigner = ''a''\<rparr>, \<lparr>nmKey = ''HaltTrading'', nmValue = 2, nmSigner = ''b''\<rparr>,
    \<lparr>nmKey = ''HaltTrading'', nmValue = 3, nmSigner = ''c''\<rparr>, \<lparr>nmKey = ''HaltTrading'', nmValue = 3, nmSigner = ''d''\<rparr>]"
  let ?as = "[''a'', ''b'', ''c'', ''d'']"
  have "map_iteration rev" "map_iteration (\<lambda>cs. cs)" by (simp_all add: map_iteration_def)
  moreover have "IsOperationalMimir ''HaltTrading''" by code_simp
  moreover have "ValueOfOperational rev ?ms ''HaltTrading'' 1 ?as = 3" "ValueOfOperational (\<lambda>cs. cs) ?ms ''HaltTrading'' 1 ?as = - 1"
    by (simp_all add: ValueOfOperational_def vote_counts_def most_voted_tie_def)
  ultimately show ?thesis by (intro exI [of _ rev] exI [of _ "\<lambda>cs. cs"] exI [of _ ?ms] exI [of _ ?as]) simp
qed

section \<open>A concrete vote\<close>

definition mimir_node :: "acc \<Rightarrow> node_account" where
  "mimir_node a = (NewNodeAccount a NodeStatus_Active \<lparr>Secp256k1 = ''p'', Ed25519 = ''q''\<rparr> ''k'' 100 a 1)\<lparr>ActiveBlockHeight := 1\<rparr>"

definition mimir_demo :: "kstore \<Rightarrow> mimir_state" where
  "mimir_demo k = \<lparr>msKeeper = k, msVotes = [''FEE'' \<mapsto> Stored [\<lparr>nmKey = ''FEE'', nmValue = 5, nmSigner = ''A''\<rparr>]],
     msNodes = [(''A'', Stored (mimir_node ''A'')), (''B'', Stored (mimir_node ''B'')), (''C'', Stored (mimir_node ''C''))],
     msSlashPoints = Map.empty\<rparr>"

definition mimir_ctx :: ctx where
  "mimir_ctx = \<lparr>BlockHeight = 10, cBuild = mainnet_overrides, cNetwork = MainNet, cVersion3 = True, cSupply = (\<lambda>_. 0),
     cModuleAddress = (\<lambda>m. ''switch1reserve'')\<rparr>"

lemma mimir_keys: "kv_key ''FEE'' = ''FEE''" "to_upper ''FEE'' = ''FEE''" "kv_key ''B'' = ''B''" "\<not> IsOperationalMimir ''FEE''"
  "equal_fold ''FEE'' ''FEE''"
  by code_simp+

lemma mimir_run:
  assumes "kMimirs k = Map.empty" and "map_iteration it"
  shows "\<exists>s'. Mimir_handle it 2 (\<lambda>_. Inr ()) mimir_ctx (mimir_demo k) \<lparr>mmKey = ''FEE'', mmValue = 5, mmSigner = ''B''\<rparr> = Inr s'
     \<and> GetMimir (msKeeper s') ''FEE'' = Inr 5 \<and> GetMimir k ''FEE'' = Inr (- 1)"
proof -
  have "mset (it [(5, Suc (Suc 0))]) = {#(5, Suc (Suc 0))#}" using assms(2) by (simp add: map_iteration_def)
  then have it: "it [(5, Suc (Suc 0))] = [(5, Suc (Suc 0))]" by simp
  show ?thesis
    by (simp add: Mimir_handle_def mimir_ctx_def mimir_demo_def GetMimir_def assms(1) kv_get_def kv_set_def mimir_keys GetNodeAccount_def
      mimir_node_def NewNodeAccount_def UpdateStatus_def SetNodeAccount_def NodeAccount_IsEmpty_def SetNodeMimir_def GetNodeMimirs_def Let_def
      NodeMimirs_Set_def is_vote_def apply_votes_def ListActiveValidators_def ListValidatorsByStatus_def effective_value_def
      NodeMimirs_HasSuperMajority_def countActive_def vote_counts_def GetNodeAddresses_def it super_majority_iff SetMimir_def char_upper_def)
qed

definition demo_mimir_keeper :: kstore where
  "demo_mimir_keeper = \<lparr>kPools = Map.empty, kLPs = Map.empty, kMimirs = Map.empty, kRagnarokHeight = Map.empty,
     kRagnarokNth = Map.empty, kRagnarokPending = Map.empty, kRagnarokPool = Map.empty, kPOL = Map.empty,
     kNetworkFees = Map.empty, kPoolLUVI = Map.empty\<rparr>"

lemma iterations: "map_iteration rev" "map_iteration (\<lambda>cs. cs)"
  by (simp_all add: map_iteration_def)

theorem mimir_needs_supermajority_witness:
  "\<exists>s' ms nas. GetMimir (msKeeper s') ''FEE'' = Inr 5 \<and> ListActiveValidators s' = Inr nas
    \<and> 2 * length nas \<le> 3 * card (supporters ms ''FEE'' 5 (set (GetNodeAddresses nas)))"
proof -
  let ?m = "\<lparr>mmKey = ''FEE'', mmValue = 5, mmSigner = ''B''\<rparr>"
  have "kMimirs demo_mimir_keeper = Map.empty" by (simp add: demo_mimir_keeper_def)
  from mimir_run [OF this iterations(1)] obtain s' where
    r: "Mimir_handle rev 2 (\<lambda>_. Inr ()) mimir_ctx (mimir_demo demo_mimir_keeper) ?m = Inr s'"
    and g: "GetMimir (msKeeper s') ''FEE'' = Inr 5" "GetMimir demo_mimir_keeper ''FEE'' = Inr (- 1)" by blast
  have "length (msNodes (mimir_demo demo_mimir_keeper)) < 2 ^ 61" "msKeeper (mimir_demo demo_mimir_keeper) = demo_mimir_keeper"
    by (simp_all add: mimir_demo_def)
  with mimir_needs_supermajority [OF r iterations(1)] g mimir_keys(4) show ?thesis by auto
qed

theorem mimir_economic_deterministic_witness:
  "Mimir_handle rev 2 (\<lambda>_. Inr ()) mimir_ctx (mimir_demo demo_mimir_keeper) \<lparr>mmKey = ''FEE'', mmValue = 5, mmSigner = ''B''\<rparr>
    = Mimir_handle (\<lambda>cs. cs) 2 (\<lambda>_. Inr ()) mimir_ctx (mimir_demo demo_mimir_keeper) \<lparr>mmKey = ''FEE'', mmValue = 5, mmSigner = ''B''\<rparr>"
  by (rule mimir_economic_deterministic [OF iterations]) (simp_all add: mimir_demo_def mimir_keys)

end
