(* ===== verification/Vault_Store.thy ===== *)
theory Vault_Store
  imports Mimirs Vaults
begin

text \<open>
  Stored vaults and outbounds: \<^verbatim>\<open>src/x/switchly/keeper/v1/keeper_vault.go\<close>, \<^verbatim>\<open>keeper/v1/keeper_txout.go\<close>
  and the part of \<^verbatim>\<open>manager_network_current.go\<close> that rotates vaults and cleans up the index of the
  Asgard vaults.

  The address a public key has on a chain (\<^verbatim>\<open>PubKey.GetAddress\<close>, chain libraries) is the argument
  \<open>addr_of\<close>. An outbound block is stored under the decimal text of its height, here the height itself.
\<close>

section \<open>State\<close>

record vault_state =
  vsNode :: mimir_state
  vsVaults :: "(string \<times> vault slot) list"
  vsAsgard :: "string list kv"
  vsTxOuts :: "int \<rightharpoonup> tx_out slot"

abbreviation vsKeeper :: "vault_state \<Rightarrow> kstore" where
  "vsKeeper s \<equiv> msKeeper (vsNode s)"

section \<open>Outbound blocks\<close>

definition GetTxOut :: "vault_state \<Rightarrow> int \<Rightarrow> tx_out res" where
  "GetTxOut s h = (case vsTxOuts s h of None \<Rightarrow> Inr (NewTxOut h) | Some (Stored t) \<Rightarrow> Inr t
     | Some Corrupt \<Rightarrow> Inl (Err ''KVStore Error: Unmarshal''))"

definition SetTxOut :: "vault_state \<Rightarrow> tx_out \<Rightarrow> vault_state" where
  "SetTxOut s t = (if TxOut_IsEmpty t then s else s\<lparr>vsTxOuts := (vsTxOuts s)(toHeight t \<mapsto> Stored t)\<rparr>)"

definition AppendTxOut :: "vault_state \<Rightarrow> int \<Rightarrow> tx_out_item \<Rightarrow> vault_state res" where
  "AppendTxOut s h item = res_map (\<lambda>t. SetTxOut s (t\<lparr>TxArray := TxArray t @ [item]\<rparr>)) (GetTxOut s h)"

definition ClearTxOut :: "vault_state \<Rightarrow> int \<Rightarrow> vault_state" where
  "ClearTxOut s h = s\<lparr>vsTxOuts := (vsTxOuts s)(h := None)\<rparr>"

text \<open>
  The value of items: coins and gas in SWITCH, and the clout spent. The pools the code caches are the ones
  the store holds, so that the cache is left out.
\<close>

definition coin_value :: "dec_lib \<Rightarrow> kstore \<Rightarrow> coin \<Rightarrow> uint \<Rightarrow> uint res" where
  "coin_value D k c acc =
     (if Coin_IsSwitch c then uint_add acc (cAmount c)
      else case GetPool k (GetLayer1Asset (cAsset c)) of Inl _ \<Rightarrow> Inr acc
           | Inr p \<Rightarrow> uint_add acc (AssetValueInSWITCH D p (cAmount c)))"

definition toi_value :: "dec_lib \<Rightarrow> kstore \<Rightarrow> tx_out_item \<Rightarrow> uint \<times> uint \<Rightarrow> (uint \<times> uint) res" where
  "toi_value D k t = (\<lambda>(sv, cv).
     res_bind (res_fold (coin_value D k) (toiCoin t # toiMaxGas t) sv) (\<lambda>sv'.
       case toiCloutSpent t of None \<Rightarrow> Inr (sv', cv) | Some n \<Rightarrow> res_map (\<lambda>cv'. (sv', cv')) (uint_add cv n)))"

definition GetTOIsValue :: "dec_lib \<Rightarrow> kstore \<Rightarrow> tx_out_item list \<Rightarrow> (uint \<times> uint) res" where
  "GetTOIsValue D k ts = res_fold (toi_value D k) ts (0, 0)"

definition GetTxOutValue :: "dec_lib \<Rightarrow> vault_state \<Rightarrow> int \<Rightarrow> (uint \<times> uint) res" where
  "GetTxOutValue D s h = res_bind (GetTxOut s h) (\<lambda>t. GetTOIsValue D (vsKeeper s) (TxArray t))"

text \<open>
  The outstanding items of an asset in the queues. A block that does not decode counts as empty.
\<close>

definition tx_array :: "vault_state \<Rightarrow> int \<Rightarrow> tx_out_item list" where
  "tx_array s h = (case GetTxOut s h of Inl _ \<Rightarrow> [] | Inr t \<Rightarrow> TxArray t)"

fun scan_pending :: "vault_state \<Rightarrow> asset \<Rightarrow> int \<Rightarrow> int list \<Rightarrow> tx_out_item list" where
  "scan_pending s a limit [] = []"
| "scan_pending s a limit (h # hs) =
     (if h > limit \<and> tx_array s h = [] then []
      else filter (\<lambda>t. Asset_Equals (cAsset (toiCoin t)) a \<and> TxID_IsEmpty (toiOutHash t)) (tx_array s h)
        @ scan_pending s a limit hs)"

definition GetPendingOutbounds :: "ctx \<Rightarrow> vault_state \<Rightarrow> asset \<Rightarrow> tx_out_item list" where
  "GetPendingOutbounds c s a =
     (let start = max 1 (i64 (BlockHeight c - GetInt64Value (cBuild c) ''SigningTransactionPeriod''));
          delayMax = GetConfigInt64 c (vsKeeper s) ''TxOutDelayMax'';
          maxOffset = GetConfigInt64 c (vsKeeper s) ''MaxTxOutOffset''
      in scan_pending s a (i64 (BlockHeight c + maxOffset)) [start..i64 (BlockHeight c + delayMax)])"

section \<open>Vaults\<close>

definition ErrVaultNotFound :: go_error where
  "ErrVaultNotFound = Err ''vault not found''"

definition GetVault :: "ctx \<Rightarrow> vault_state \<Rightarrow> pubkey \<Rightarrow> vault res" where
  "GetVault c s pk = (case map_of (vsVaults s) (kv_key pk) of
       None \<Rightarrow> Inl ErrVaultNotFound
     | Some Corrupt \<Rightarrow> Inl (Err ''KVStore Error: Unmarshal'')
     | Some (Stored v) \<Rightarrow> Inr (v\<lparr>vtPubKey := if vtPubKey v = [] then pk else vtPubKey v,
          vtBlockHeight := if vtBlockHeight v = 0 then BlockHeight c else vtBlockHeight v\<rparr>))"

definition VaultExists :: "vault_state \<Rightarrow> pubkey \<Rightarrow> bool" where
  "VaultExists s pk \<longleftrightarrow> map_of (vsVaults s) (kv_key pk) \<noteq> None"

fun NewPubKeys :: "key_lib \<Rightarrow> string list \<Rightarrow> pubkey list res" where
  "NewPubKeys K [] = Inr []"
| "NewPubKeys K (x # xs) = res_bind (NewPubKey K x) (\<lambda>pk. res_map (\<lambda>pks. pk # pks) (NewPubKeys K xs))"

definition getAsgardIndex :: "key_lib \<Rightarrow> vault_state \<Rightarrow> pubkey list res" where
  "getAsgardIndex K s = res_bind (kv_get (vsAsgard s) '''' []) (NewPubKeys K)"

definition addAsgardIndex :: "key_lib \<Rightarrow> vault_state \<Rightarrow> pubkey \<Rightarrow> vault_state res" where
  "addAsgardIndex K s pk =
     res_map (\<lambda>pks. if list_ex (\<lambda>x. x = pk) pks then s else s\<lparr>vsAsgard := kv_set (vsAsgard s) '''' (pks @ [pk])\<rparr>)
       (getAsgardIndex K s)"

definition RemoveFromAsgardIndex :: "key_lib \<Rightarrow> vault_state \<Rightarrow> pubkey \<Rightarrow> vault_state res" where
  "RemoveFromAsgardIndex K s pk =
     res_map (\<lambda>pks. s\<lparr>vsAsgard := kv_set (vsAsgard s) '''' (filter (\<lambda>x. x \<noteq> pk) pks)\<rparr>) (getAsgardIndex K s)"

definition SetVault :: "key_lib \<Rightarrow> vault_state \<Rightarrow> vault \<Rightarrow> vault_state res" where
  "SetVault K s v =
     res_map (\<lambda>s1. s1\<lparr>vsVaults := queue_put (kv_key (vtPubKey v)) (Stored v) (vsVaults s1)\<rparr>)
       (if IsAsgard v then addAsgardIndex K s (vtPubKey v) else Inr s)"

fun any_funds :: "(string \<times> vault slot) list \<Rightarrow> bool res" where
  "any_funds [] = Inr False"
| "any_funds ((k, Corrupt) # q) = Inl (Err ''fail to unmarshal vault'')"
| "any_funds ((k, Stored v) # q) = (if HasFunds v then Inr True else any_funds q)"

definition HasValidVaultPools :: "vault_state \<Rightarrow> bool res" where
  "HasValidVaultPools s = any_funds (vsVaults s)"

fun asgards_of :: "ctx \<Rightarrow> vault_state \<Rightarrow> pubkey list \<Rightarrow> vault list res" where
  "asgards_of c s [] = Inr []"
| "asgards_of c s (pk # pks) =
     res_bind (GetVault c s pk) (\<lambda>v. res_map (\<lambda>vs. if IsAsgard v then v # vs else vs) (asgards_of c s pks))"

definition GetAsgardVaults :: "key_lib \<Rightarrow> ctx \<Rightarrow> vault_state \<Rightarrow> vault list res" where
  "GetAsgardVaults K c s = res_bind (getAsgardIndex K s) (asgards_of c s)"

definition GetAsgardVaultsByStatus :: "key_lib \<Rightarrow> ctx \<Rightarrow> vault_state \<Rightarrow> VaultStatus \<Rightarrow> vault list res" where
  "GetAsgardVaultsByStatus K c s status = res_map (filter (\<lambda>v. vtStatus v = status)) (GetAsgardVaults K c s)"

definition DeleteVault :: "key_lib \<Rightarrow> ctx \<Rightarrow> vault_state \<Rightarrow> pubkey \<Rightarrow> vault_state res" where
  "DeleteVault K c s pk =
     (case GetVault c s pk of
        Inl e \<Rightarrow> if e = ErrVaultNotFound then Inr s else Inl e
      | Inr v \<Rightarrow>
          if HasFunds v then Inl (Err ''unable to delete vault: it still contains funds'')
          else let s1 = (if IsAsgard v then case RemoveFromAsgardIndex K s pk of Inl _ \<Rightarrow> s | Inr s' \<Rightarrow> s' else s)
               in Inr (s1\<lparr>vsVaults := filter (\<lambda>(k, _). k \<noteq> kv_key (vtPubKey v)) (vsVaults s1)\<rparr>))"

section \<open>Security of vaults\<close>

record vault_security =
  vyVault :: vault
  vyTotalBond :: uint
  vyTotalValue :: uint
  vyDiff :: int

definition GetNodeAccountByPubKey :: "key_lib \<Rightarrow> ctx \<Rightarrow> mimir_state \<Rightarrow> pubkey \<Rightarrow> node_account res" where
  "GetNodeAccountByPubKey K c s pk =
     (case pubkey_acc K pk of None \<Rightarrow> Inl (Err ''fail to get address'') | Some a \<Rightarrow> GetNodeAccount c s a)"

definition member_bond :: "key_lib \<Rightarrow> ctx \<Rightarrow> mimir_state \<Rightarrow> pubkey \<Rightarrow> uint \<Rightarrow> uint res" where
  "member_bond K c s pk acc =
     (case GetNodeAccountByPubKey K c s pk of Inl _ \<Rightarrow> Inr acc
      | Inr na \<Rightarrow> if naStatus na = NodeStatus_Active then uint_add acc (naBond na) else Inr acc)"

definition held_value :: "dec_lib \<Rightarrow> kstore \<Rightarrow> coin \<Rightarrow> uint \<Rightarrow> uint res" where
  "held_value D k c acc =
     (if Coin_IsSwitch c then Inr acc
      else case GetPool k (cAsset c) of Inl _ \<Rightarrow> Inr acc | Inr p \<Rightarrow> uint_add acc (AssetValueInSWITCH D p (cAmount c)))"

text \<open>An unsent item leaves the vault that sends it and arrives at the vault whose address it is sent to.\<close>

definition item_value :: "dec_lib \<Rightarrow> kstore \<Rightarrow> coin \<Rightarrow> uint option" where
  "item_value D k c =
     (if Coin_IsSwitch c then Some (cAmount c)
      else case GetPool k (cAsset c) of Inl _ \<Rightarrow> None | Inr p \<Rightarrow> Some (AssetValueInSWITCH D p (cAmount c)))"

definition moved_value ::
  "dec_lib \<Rightarrow> (pubkey \<Rightarrow> chain \<Rightarrow> address option) \<Rightarrow> kstore \<Rightarrow> vault \<Rightarrow> tx_out_item \<Rightarrow> uint \<Rightarrow> uint res" where
  "moved_value D addr_of k v t acc =
     (if \<not> TxID_IsEmpty (toiOutHash t) then Inr acc
      else case addr_of (vtPubKey v) (GetChain (cAsset (toiCoin t))) of
        None \<Rightarrow> Inr acc
      | Some to \<Rightarrow>
          if toiVaultPubKey t = vtPubKey v then
            case item_value D k (toiCoin t) of None \<Rightarrow> Inr acc | Some n \<Rightarrow> Inr (SafeSub acc n)
          else if Address_Equals (toiToAddress t) to then
            case item_value D k (toiCoin t) of None \<Rightarrow> Inr acc | Some n \<Rightarrow> uint_add acc n
          else Inr acc)"

definition security_of ::
  "dec_lib \<Rightarrow> key_lib \<Rightarrow> (pubkey \<Rightarrow> chain \<Rightarrow> address option) \<Rightarrow> ctx \<Rightarrow> vault_state \<Rightarrow> int \<Rightarrow> vault \<Rightarrow> vault_security res" where
  "security_of D K addr_of c s period v =
     res_bind (res_fold (member_bond K c (vsNode s)) (GetMembership K v) 0) (\<lambda>bond.
     res_bind (res_fold (held_value D (vsKeeper s)) (vtCoins v) 0) (\<lambda>held.
     res_map (\<lambda>val. \<lparr>vyVault = v, vyTotalBond = bond, vyTotalValue = val, vyDiff = int bond - int val\<rparr>)
       (res_fold (\<lambda>h. res_fold (moved_value D addr_of (vsKeeper s) v) (tx_array s h))
          [max 1 (i64 (BlockHeight c - period))..BlockHeight c] held)))"

fun securities ::
  "dec_lib \<Rightarrow> key_lib \<Rightarrow> (pubkey \<Rightarrow> chain \<Rightarrow> address option) \<Rightarrow> ctx \<Rightarrow> vault_state \<Rightarrow> int \<Rightarrow> vault list \<Rightarrow> vault_security list res" where
  "securities D K addr_of c s period [] = Inr []"
| "securities D K addr_of c s period (v # vs) =
     res_bind (security_of D K addr_of c s period v) (\<lambda>y. res_map (\<lambda>ys. y # ys) (securities D K addr_of c s period vs))"

definition getSortedVaultSecurity ::
  "dec_lib \<Rightarrow> key_lib \<Rightarrow> (pubkey \<Rightarrow> chain \<Rightarrow> address option) \<Rightarrow> ctx \<Rightarrow> vault_state \<Rightarrow> int \<Rightarrow> vault list \<Rightarrow> vault_security list res" where
  "getSortedVaultSecurity D K addr_of c s period vs =
     res_map (sort_by (\<lambda>x y. vyDiff x < vyDiff y)) (securities D K addr_of c s period vs)"

definition SortBySecurity ::
  "dec_lib \<Rightarrow> key_lib \<Rightarrow> (pubkey \<Rightarrow> chain \<Rightarrow> address option) \<Rightarrow> ctx \<Rightarrow> vault_state \<Rightarrow> int \<Rightarrow> vault list \<Rightarrow> vault list res" where
  "SortBySecurity D K addr_of c s period vs =
     (if length vs \<le> 1 then Inr vs
      else res_map (map vyVault) (getSortedVaultSecurity D K addr_of c s period vs))"

definition GetMostSecure ::
  "dec_lib \<Rightarrow> key_lib \<Rightarrow> (pubkey \<Rightarrow> chain \<Rightarrow> address option) \<Rightarrow> ctx \<Rightarrow> vault_state \<Rightarrow> int \<Rightarrow> vault list \<Rightarrow> vault res" where
  "GetMostSecure D K addr_of c s period vs =
     res_map (\<lambda>ws. if ws = [] then EmptyVault else last ws) (SortBySecurity D K addr_of c s period vs)"

definition GetLeastSecure ::
  "dec_lib \<Rightarrow> key_lib \<Rightarrow> (pubkey \<Rightarrow> chain \<Rightarrow> address option) \<Rightarrow> ctx \<Rightarrow> vault_state \<Rightarrow> int \<Rightarrow> vault list \<Rightarrow> vault res" where
  "GetLeastSecure D K addr_of c s period vs =
     res_map (\<lambda>ws. if ws = [] then EmptyVault else hd ws) (SortBySecurity D K addr_of c s period vs)"

definition GetMostSecureStrict ::
  "dec_lib \<Rightarrow> key_lib \<Rightarrow> (pubkey \<Rightarrow> chain \<Rightarrow> address option) \<Rightarrow> ctx \<Rightarrow> vault_state \<Rightarrow> int \<Rightarrow> vault list \<Rightarrow> vault res" where
  "GetMostSecureStrict D K addr_of c s period vs =
     res_map (\<lambda>ys.
       if vs = [] then EmptyVault
       else let y = last ys; bps = GetConfigInt64 c (vsKeeper s) ''MigrationVaultSecurityBps'' in
         if bps > 0 \<and> vyTotalBond y < GetUncappedShare D (nat bps) 10000 (vyTotalValue y) then EmptyVault else vyVault y)
     (getSortedVaultSecurity D K addr_of c s period vs)"

section \<open>Rotation\<close>

definition cleanup_one :: "key_lib \<Rightarrow> vault \<Rightarrow> vault_state \<Rightarrow> vault_state" where
  "cleanup_one K v s =
     (if vtPubKey v = [] \<or> \<not> IsAsgard v \<or> vtStatus v \<noteq> VaultStatus_InactiveVault then s
      else case RemoveFromAsgardIndex K s (vtPubKey v) of Inl _ \<Rightarrow> s | Inr s' \<Rightarrow> s')"

definition cleanupAsgardIndex :: "key_lib \<Rightarrow> ctx \<Rightarrow> vault_state \<Rightarrow> vault_state res" where
  "cleanupAsgardIndex K c s = res_map (\<lambda>vs. fold (cleanup_one K) vs s) (GetAsgardVaults K c s)"

definition retire_one :: "key_lib \<Rightarrow> ctx \<Rightarrow> vault \<Rightarrow> vault \<Rightarrow> vault_state \<Rightarrow> vault_state res" where
  "retire_one K c v a s =
     (if list_ex (Vault_Contains K v) (GetMembership K a)
      then SetVault K s (Vault_UpdateStatus a VaultStatus_RetiringVault (BlockHeight c)) else Inr s)"

definition add_member_signer :: "key_lib \<Rightarrow> ctx \<Rightarrow> pubkey \<Rightarrow> pubkey \<Rightarrow> vault_state \<Rightarrow> vault_state res" where
  "add_member_signer K c vpk member s =
     res_map (\<lambda>na. s\<lparr>vsNode := SetNodeAccount c (vsNode s) (TryAddSignerPubKey K na vpk)\<rparr>)
       (GetNodeAccountByPubKey K c (vsNode s) member)"

definition RotateVault :: "key_lib \<Rightarrow> ctx \<Rightarrow> vault_state \<Rightarrow> vault \<Rightarrow> vault_state res" where
  "RotateVault K c s v =
     res_bind (GetAsgardVaultsByStatus K c s VaultStatus_ActiveVault) (\<lambda>active.
     res_bind (res_fold (retire_one K c v) active s) (\<lambda>s1.
     res_bind (res_fold (add_member_signer K c (vtPubKey v)) (GetMembership K v) s1) (\<lambda>s2.
     res_map (\<lambda>s3. case cleanupAsgardIndex K c s3 of Inl _ \<Rightarrow> s3 | Inr s4 \<Rightarrow> s4)
       (SetVault K s2 (Vault_UpdateStatus v VaultStatus_ActiveVault (BlockHeight c))))))"

section \<open>The index of the Asgard vaults\<close>

text \<open>
  A vault key is a non-empty public key that decodes, in lower case as bech32 writes it. Keys of the
  store are upper-cased, so that keys that differ in case only would share a slot.
\<close>

definition vault_key :: "key_lib \<Rightarrow> pubkey \<Rightarrow> bool" where
  "vault_key K pk \<longleftrightarrow> pk \<noteq> [] \<and> NewPubKey K pk = Inr pk \<and> to_lower pk = pk"

definition asgard_index :: "vault_state \<Rightarrow> pubkey list" where
  "asgard_index s = (case vsAsgard s '''' of Some (Stored xs) \<Rightarrow> xs | _ \<Rightarrow> [])"

definition vault_at :: "vault_state \<Rightarrow> pubkey \<Rightarrow> vault option" where
  "vault_at s pk = (case map_of (vsVaults s) (kv_key pk) of Some (Stored v) \<Rightarrow> Some v | _ \<Rightarrow> None)"

definition asgard_inv :: "key_lib \<Rightarrow> vault_state \<Rightarrow> bool" where
  "asgard_inv K s \<longleftrightarrow> vsAsgard s '''' \<noteq> Some Corrupt \<and> distinct (asgard_index s)
     \<and> (\<forall>pk \<in> set (asgard_index s). vault_key K pk \<and> (\<exists>v. vault_at s pk = Some v \<and> IsAsgard v \<and> vtPubKey v = pk))"

lemma lower_char: "char_lower c = c \<Longrightarrow> \<not> (65 \<le> (of_char c :: nat) \<and> of_char c \<le> (90 :: nat))"
proof
  assume eq: "char_lower c = c" and up: "65 \<le> (of_char c :: nat) \<and> of_char c \<le> (90 :: nat)"
  then have "char_of ((of_char c :: nat) + 32) = c" by (simp add: char_lower_def Let_def)
  then have "of_char (char_of ((of_char c :: nat) + 32) :: char) = (of_char c :: nat)" by simp
  with up show False by (simp add: of_char_of)
qed

lemma lower_char_inj:
  assumes "char_lower c = c" and "char_lower d = d" and "char_upper c = char_upper d"
  shows "c = d"
proof -
  define m n where "m = (of_char c :: nat)" and "n = (of_char d :: nat)"
  have "(if 97 \<le> m \<and> m \<le> 122 then m - 32 else m) = (if 97 \<le> n \<and> n \<le> 122 then n - 32 else n)"
    using of_char_upper [of c] of_char_upper [of d] unfolding assms(3) m_def [symmetric] n_def [symmetric] by (rule trans [OF sym])
  then have "m = n" using lower_char [OF assms(1)] lower_char [OF assms(2)]
    unfolding m_def [symmetric] n_def [symmetric] by (auto split: if_splits)
  then show ?thesis by (simp add: m_def n_def)
qed

lemma upper_lower_inj: "to_lower x = x \<Longrightarrow> to_lower y = y \<Longrightarrow> to_upper x = to_upper y \<Longrightarrow> x = y"
proof (induction x arbitrary: y)
  case Nil
  then show ?case by (cases y) simp_all
next
  case (Cons a x)
  then show ?case by (cases y) (auto simp: to_lower_def to_upper_def dest: lower_char_inj)
qed

lemma kv_key_inj: "vault_key K x \<Longrightarrow> vault_key K y \<Longrightarrow> kv_key x = kv_key y \<longleftrightarrow> x = y"
  by (auto simp: vault_key_def kv_key_def dest: upper_lower_inj)

lemma NewPubKeys_all: "(\<And>x. x \<in> set xs \<Longrightarrow> NewPubKey K x = Inr x) \<Longrightarrow> NewPubKeys K xs = Inr xs"
  by (induction xs) auto

lemma index_reads: "asgard_inv K s \<Longrightarrow> getAsgardIndex K s = Inr (asgard_index s)"
proof -
  assume inv: "asgard_inv K s"
  then have "kv_get (vsAsgard s) '''' [] = Inr (asgard_index s)"
    by (auto simp: asgard_inv_def kv_get_def asgard_index_def split: option.splits slot.splits)
  with inv show ?thesis
    by (simp add: getAsgardIndex_def asgard_inv_def vault_key_def NewPubKeys_all)
qed

text \<open>The vault that a read returns: the stored one with its key and height filled in.\<close>

definition filled :: "ctx \<Rightarrow> pubkey \<Rightarrow> vault \<Rightarrow> vault" where
  "filled c pk v = v\<lparr>vtPubKey := if vtPubKey v = [] then pk else vtPubKey v,
     vtBlockHeight := if vtBlockHeight v = 0 then BlockHeight c else vtBlockHeight v\<rparr>"

lemma filled_simps [simp]: "vtStatus (filled c pk v) = vtStatus v" "IsAsgard (filled c pk v) = IsAsgard v"
  "GetMembership K (filled c pk v) = GetMembership K v" "vtPubKey v \<noteq> [] \<Longrightarrow> vtPubKey (filled c pk v) = vtPubKey v"
  "HasFunds (filled c pk v) = HasFunds v"
  by (simp_all add: filled_def IsAsgard_def IsType_def GetMembership_def HasFunds_def)

lemma GetVault_Inr: "GetVault c s pk = Inr w \<longleftrightarrow> (\<exists>v. vault_at s pk = Some v \<and> w = filled c pk v)"
  by (auto simp: GetVault_def vault_at_def filled_def split: option.splits slot.splits)

lemma asgards_of_all:
  assumes "\<And>pk. pk \<in> set pks \<Longrightarrow> \<exists>v. vault_at s pk = Some v \<and> IsAsgard v"
  shows "asgards_of c s pks = Inr (map (\<lambda>pk. filled c pk (the (vault_at s pk))) pks)"
  using assms
proof (induction pks)
  case (Cons pk pks)
  obtain v where v: "vault_at s pk = Some v" "IsAsgard v" using Cons.prems by auto
  then have "GetVault c s pk = Inr (filled c pk v)" by (simp add: GetVault_Inr)
  with v Cons show ?case by simp
qed simp

lemma asgard_vaults_read:
  assumes "asgard_inv K s"
  shows "GetAsgardVaults K c s = Inr (map (\<lambda>pk. filled c pk (the (vault_at s pk))) (asgard_index s))"
  using assms asgards_of_all [of "asgard_index s" s c] by (fastforce simp: GetAsgardVaults_def index_reads asgard_inv_def)

text \<open>What the writes do to the index and the vaults.\<close>

lemma vault_at_put: "vault_at (s\<lparr>vsVaults := queue_put (kv_key (vtPubKey v)) (Stored v) q\<rparr>) pk
  = (if kv_key pk = kv_key (vtPubKey v) then Some v else vault_at (s\<lparr>vsVaults := q\<rparr>) pk)"
  by (simp add: vault_at_def map_of_queue_put)

lemma vault_at_frame [simp]:
  "vault_at (s\<lparr>vsAsgard := i\<rparr>) = vault_at s" "vault_at (s\<lparr>vsNode := n\<rparr>) = vault_at s"
  "asgard_index (s\<lparr>vsVaults := q\<rparr>) = asgard_index s" "asgard_index (s\<lparr>vsNode := n\<rparr>) = asgard_index s"
  "asgard_index (s\<lparr>vsAsgard := kv_set i '''' xs\<rparr>) = xs"
  by (simp_all add: vault_at_def asgard_index_def kv_set_def fun_eq_iff)

lemma inv_frame_node: "asgard_inv K (s\<lparr>vsNode := n\<rparr>) = asgard_inv K s"
  by (simp add: asgard_inv_def)

definition with_key :: "pubkey \<Rightarrow> pubkey list \<Rightarrow> pubkey list" where
  "with_key pk pks = (if pk \<in> set pks then pks else pks @ [pk])"

lemma set_asgard_vault:
  assumes inv: "asgard_inv K s" and key: "vault_key K (vtPubKey v)" and asg: "IsAsgard v"
  shows "\<exists>s'. SetVault K s v = Inr s' \<and> asgard_inv K s' \<and> asgard_index s' = with_key (vtPubKey v) (asgard_index s)
    \<and> vsNode s' = vsNode s
    \<and> (\<forall>pk. vault_at s' pk = (if kv_key pk = kv_key (vtPubKey v) then Some v else vault_at s pk))"
proof -
  let ?pk = "vtPubKey v"
  define s1 where "s1 = (if ?pk \<in> set (asgard_index s) then s
    else s\<lparr>vsAsgard := kv_set (vsAsgard s) '''' (asgard_index s @ [?pk])\<rparr>)"
  define s' where "s' = s1\<lparr>vsVaults := queue_put (kv_key ?pk) (Stored v) (vsVaults s1)\<rparr>"
  have run: "SetVault K s v = Inr s'"
    using asg by (simp add: SetVault_def addAsgardIndex_def index_reads [OF inv] list_ex_iff s'_def s1_def)
  have idx: "asgard_index s' = with_key ?pk (asgard_index s)" by (simp add: s'_def s1_def with_key_def)
  have at: "vault_at s' pk = (if kv_key pk = kv_key ?pk then Some v else vault_at s pk)" for pk
    unfolding s'_def vault_at_put by (simp add: s1_def)
  have node: "vsNode s' = vsNode s" by (simp add: s'_def s1_def)
  have "asgard_inv K s'" unfolding asgard_inv_def
  proof (intro conjI ballI)
    show "vsAsgard s' '''' \<noteq> Some Corrupt" using inv by (simp add: s'_def s1_def asgard_inv_def kv_set_def)
    show "distinct (asgard_index s')" using inv by (simp add: idx with_key_def asgard_inv_def)
    fix pk assume "pk \<in> set (asgard_index s')"
    then have pk: "pk = ?pk \<or> pk \<in> set (asgard_index s)" by (auto simp: idx with_key_def split: if_splits)
    then show vk: "vault_key K pk" using inv key by (auto simp: asgard_inv_def)
    show "\<exists>w. vault_at s' pk = Some w \<and> IsAsgard w \<and> vtPubKey w = pk"
      using pk inv asg kv_key_inj [OF vk key] by (auto simp: at asgard_inv_def)
  qed
  with run idx at node show ?thesis by blast
qed

lemma remove_from_index:
  assumes inv: "asgard_inv K s"
  shows "\<exists>s'. RemoveFromAsgardIndex K s pk = Inr s' \<and> asgard_inv K s'
    \<and> asgard_index s' = filter (\<lambda>x. x \<noteq> pk) (asgard_index s) \<and> vault_at s' = vault_at s
    \<and> vsVaults s' = vsVaults s \<and> vsNode s' = vsNode s"
  using inv by (simp add: RemoveFromAsgardIndex_def index_reads asgard_inv_def) (simp add: kv_set_def)

lemma map_of_filter_key: "map_of (filter (\<lambda>(k, _). k \<noteq> x) q) k = (if k = x then None else map_of q k)"
  by (induction q) auto

text \<open>Deleting refuses a vault with funds, and leaves no trace of one without.\<close>

lemma delete_vault:
  assumes inv: "asgard_inv K s" and key: "vault_key K pk" and v: "vault_at s pk = Some v" "vtPubKey v = pk"
    and "\<not> HasFunds v"
  shows "\<exists>s'. DeleteVault K c s pk = Inr s' \<and> asgard_inv K s' \<and> pk \<notin> set (asgard_index s') \<and> \<not> VaultExists s' pk
    \<and> (\<forall>k. kv_key k \<noteq> kv_key pk \<longrightarrow> vault_at s' k = vault_at s k)"
proof -
  obtain s1 where s1: "RemoveFromAsgardIndex K s pk = Inr s1" "asgard_index s1 = filter (\<lambda>x. x \<noteq> pk) (asgard_index s)"
      "vsVaults s1 = vsVaults s" "asgard_inv K s1"
    using remove_from_index [OF inv, of pk] by blast
  have pk: "pk \<noteq> []" using key by (simp add: vault_key_def)
  define u where "u = (if IsAsgard v then s1 else s)"
  define s' where "s' = u\<lparr>vsVaults := filter (\<lambda>(k, _). k \<noteq> kv_key pk) (vsVaults u)\<rparr>"
  have u: "asgard_inv K u" "vsVaults u = vsVaults s" "pk \<notin> set (asgard_index u)" "set (asgard_index u) \<subseteq> set (asgard_index s)"
    using s1 inv v by (auto simp: u_def asgard_inv_def)
  have "GetVault c s pk = Inr (filled c pk v)" using v(1) by (simp add: GetVault_Inr)
  then have run: "DeleteVault K c s pk = Inr s'"
    using assms(5) s1(1) v(2) pk by (simp add: DeleteVault_def s'_def u_def Let_def)
  have look: "map_of (vsVaults s') k = (if k = kv_key pk then None else map_of (vsVaults s) k)" for k
    by (simp add: s'_def u(2) map_of_filter_key)
  have at: "vault_at s' k = (if kv_key k = kv_key pk then None else vault_at s k)" for k
    by (simp add: vault_at_def look)
  have "asgard_inv K s'"
    unfolding asgard_inv_def
  proof (intro conjI ballI)
    show "vsAsgard s' '''' \<noteq> Some Corrupt" "distinct (asgard_index s')" using u(1) by (simp_all add: s'_def asgard_inv_def)
    fix x assume "x \<in> set (asgard_index s')"
    then have x: "x \<in> set (asgard_index u)" by (simp add: s'_def)
    then show vk: "vault_key K x" using u(1) by (simp add: asgard_inv_def)
    have "x \<noteq> pk" using x u(3) by blast
    then show "\<exists>w. vault_at s' x = Some w \<and> IsAsgard w \<and> vtPubKey w = x"
      using x u(4) inv kv_key_inj [OF vk key] by (auto simp: at asgard_inv_def)
  qed
  moreover have "pk \<notin> set (asgard_index s')" using u(3) by (simp add: s'_def)
  ultimately show ?thesis using run by (auto simp: at look VaultExists_def)
qed

lemma delete_keeps_funds:
  "vault_at s pk = Some v \<Longrightarrow> HasFunds v \<Longrightarrow> \<not> is_ok (DeleteVault K c s pk)"
  using GetVault_Inr [of c s pk "filled c pk v"] by (auto simp: DeleteVault_def)

lemma cleanup_index:
  assumes inv: "asgard_inv K s"
  shows "asgard_inv K (fold (cleanup_one K) vs s) \<and> vault_at (fold (cleanup_one K) vs s) = vault_at s
    \<and> asgard_index (fold (cleanup_one K) vs s)
      = filter (\<lambda>pk. \<not> (\<exists>v \<in> set vs. vtPubKey v = pk \<and> pk \<noteq> [] \<and> IsAsgard v \<and> vtStatus v = VaultStatus_InactiveVault)) (asgard_index s)"
  using assms
proof (induction vs arbitrary: s)
  case (Cons v vs)
  let ?s = "cleanup_one K v s"
  obtain s1 where s1: "RemoveFromAsgardIndex K s (vtPubKey v) = Inr s1" "asgard_inv K s1" "vault_at s1 = vault_at s"
      "asgard_index s1 = filter (\<lambda>x. x \<noteq> vtPubKey v) (asgard_index s)"
    using remove_from_index [OF Cons.prems, of "vtPubKey v"] by blast
  then have "asgard_inv K ?s" "vault_at ?s = vault_at s"
    "asgard_index ?s = filter (\<lambda>pk. \<not> (vtPubKey v = pk \<and> pk \<noteq> [] \<and> IsAsgard v \<and> vtStatus v = VaultStatus_InactiveVault)) (asgard_index s)"
    using Cons.prems by (auto simp: cleanup_one_def intro!: filter_cong)
  with Cons.IH [of ?s] show ?case by (auto simp: conj_commute intro!: filter_cong)
qed simp

section \<open>Rotation of vaults\<close>

definition conflicts :: "key_lib \<Rightarrow> vault \<Rightarrow> vault \<Rightarrow> bool" where
  "conflicts K v w \<longleftrightarrow> list_ex (Vault_Contains K v) (GetMembership K w)"

text \<open>Retiring goes over the active vaults without failing; a vault that is active afterwards was so before and does not conflict.\<close>

lemma retire_all:
  assumes "asgard_inv K s"
    and "\<And>a. a \<in> set as \<Longrightarrow> IsAsgard a \<and> vtPubKey a \<in> set (asgard_index s)"
  shows "\<exists>s1. res_fold (retire_one K c v) as s = Inr s1 \<and> asgard_inv K s1 \<and> asgard_index s1 = asgard_index s \<and> vsNode s1 = vsNode s
    \<and> (\<forall>pk w. vault_at s1 pk = Some w \<and> vtStatus w = VaultStatus_ActiveVault \<longrightarrow>
        vault_at s pk = Some w \<and> (\<forall>a \<in> set as. vtPubKey a = pk \<longrightarrow> \<not> conflicts K v a))"
  using assms
proof (induction as arbitrary: s)
  case (Cons a as)
  let ?a = "Vault_UpdateStatus a VaultStatus_RetiringVault (BlockHeight c)"
  have a: "IsAsgard ?a" "vtPubKey ?a = vtPubKey a" "vtStatus ?a = VaultStatus_RetiringVault" "vtPubKey a \<in> set (asgard_index s)"
    using Cons.prems(2) [of a] by (simp_all add: Vault_UpdateStatus_def IsAsgard_def IsType_def)
  have key: "vault_key K (vtPubKey ?a)" using a Cons.prems(1) by (simp add: asgard_inv_def)
  obtain u where u: "retire_one K c v a s = Inr u" "asgard_inv K u" "asgard_index u = asgard_index s" "vsNode u = vsNode s"
    "\<And>pk. vault_at u pk = (if conflicts K v a \<and> kv_key pk = kv_key (vtPubKey a) then Some ?a else vault_at s pk)"
  proof (cases "conflicts K v a")
    case True
    with set_asgard_vault [OF Cons.prems(1) key a(1)] a that show ?thesis
      by (auto simp: retire_one_def conflicts_def with_key_def)
  next
    case False
    with Cons.prems(1) show ?thesis by (intro that [of s]) (auto simp: retire_one_def conflicts_def)
  qed
  have "\<And>b. b \<in> set as \<Longrightarrow> IsAsgard b \<and> vtPubKey b \<in> set (asgard_index u)" using Cons.prems(2) by (simp add: u(3))
  from Cons.IH [OF u(2) this] obtain s1 where s1: "res_fold (retire_one K c v) as u = Inr s1" "asgard_inv K s1"
    "asgard_index s1 = asgard_index u" "vsNode s1 = vsNode u"
    "\<forall>pk w. vault_at s1 pk = Some w \<and> vtStatus w = VaultStatus_ActiveVault \<longrightarrow>
        vault_at u pk = Some w \<and> (\<forall>a \<in> set as. vtPubKey a = pk \<longrightarrow> \<not> conflicts K v a)" by blast
  have "vault_at s pk = Some w \<and> (\<forall>b \<in> set (a # as). vtPubKey b = pk \<longrightarrow> \<not> conflicts K v b)"
    if "vault_at s1 pk = Some w" "vtStatus w = VaultStatus_ActiveVault" for pk w
  proof -
    from s1(5) that have at: "vault_at u pk = Some w" and rest: "\<forall>a \<in> set as. vtPubKey a = pk \<longrightarrow> \<not> conflicts K v a" by auto
    have "\<not> (conflicts K v a \<and> kv_key pk = kv_key (vtPubKey a))"
    proof
      assume "conflicts K v a \<and> kv_key pk = kv_key (vtPubKey a)"
      with at u(5) [of pk] have "w = ?a" by simp
      with that(2) a(3) show False by simp
    qed
    with at rest u(5) [of pk] show ?thesis by (auto split: if_splits)
  qed
  with u(1,3,4) s1(1-4) show ?case by auto
qed simp

text \<open>Nodes that decode, and members that have an address, let the signers be added.\<close>

definition nodes_decode :: "mimir_state \<Rightarrow> bool" where
  "nodes_decode s \<longleftrightarrow> (\<forall>k. map_of (msNodes s) k \<noteq> Some Corrupt)"

lemma nodes_decode_reads: "nodes_decode s \<Longrightarrow> \<exists>na. GetNodeAccount c s a = Inr na"
  by (auto simp: nodes_decode_def GetNodeAccount_def kv_get_def split: option.splits slot.splits)

lemma nodes_decode_set: "nodes_decode s \<Longrightarrow> nodes_decode (SetNodeAccount c s na)"
  by (auto simp: nodes_decode_def SetNodeAccount_def ResetNodeAccountSlashPoints_def Let_def map_of_queue_put)

lemma add_signers_all:
  assumes "nodes_decode (vsNode s)" and "\<forall>m \<in> set ms. pubkey_acc K m \<noteq> None"
  shows "\<exists>n. res_fold (add_member_signer K c pk) ms s = Inr (s\<lparr>vsNode := n\<rparr>) \<and> nodes_decode n"
  using assms
proof (induction ms arbitrary: s)
  case Nil
  then show ?case by (intro exI [of _ "vsNode s"]) simp
next
  case (Cons m ms)
  obtain a na where "pubkey_acc K m = Some a" "GetNodeAccount c (vsNode s) a = Inr na"
    using Cons.prems nodes_decode_reads by fastforce
  then have "add_member_signer K c pk m s = Inr (s\<lparr>vsNode := SetNodeAccount c (vsNode s) (TryAddSignerPubKey K na pk)\<rparr>)"
    by (simp add: add_member_signer_def GetNodeAccountByPubKey_def)
  moreover from Cons.IH [of "s\<lparr>vsNode := SetNodeAccount c (vsNode s) (TryAddSignerPubKey K na pk)\<rparr>"]
  have "\<exists>n. res_fold (add_member_signer K c pk) ms (s\<lparr>vsNode := SetNodeAccount c (vsNode s) (TryAddSignerPubKey K na pk)\<rparr>)
      = Inr (s\<lparr>vsNode := n\<rparr>) \<and> nodes_decode n"
    using Cons.prems nodes_decode_set by simp
  ultimately show ?case by simp
qed

lemma rotate_vault:
  assumes inv: "asgard_inv K s" and key: "vault_key K (vtPubKey v)" and asg: "IsAsgard v"
    and nodes: "nodes_decode (vsNode s)" and mem: "\<forall>m \<in> set (GetMembership K v). pubkey_acc K m \<noteq> None"
  shows "\<exists>s'. RotateVault K c s v = Inr s' \<and> asgard_inv K s' \<and> vtPubKey v \<in> set (asgard_index s')
    \<and> vault_at s' (vtPubKey v) = Some (Vault_UpdateStatus v VaultStatus_ActiveVault (BlockHeight c))
    \<and> (\<forall>pk \<in> set (asgard_index s'). \<forall>w. vault_at s' pk = Some w \<and> vtStatus w = VaultStatus_ActiveVault \<and> pk \<noteq> vtPubKey v
        \<longrightarrow> vault_at s pk = Some w \<and> \<not> conflicts K v w)"
proof -
  let ?v = "Vault_UpdateStatus v VaultStatus_ActiveVault (BlockHeight c)"
  let ?read = "\<lambda>pk. filled c pk (the (vault_at s pk))"
  let ?as = "filter (\<lambda>v. vtStatus v = VaultStatus_ActiveVault) (map ?read (asgard_index s))"
  have rd: "vtPubKey (?read pk) = pk \<and> IsAsgard (?read pk)" if "pk \<in> set (asgard_index s)" for pk
    using inv that by (force simp: asgard_inv_def vault_key_def)
  then have "\<And>a. a \<in> set ?as \<Longrightarrow> IsAsgard a \<and> vtPubKey a \<in> set (asgard_index s)" by auto
  from retire_all [where c = c and v = v, OF inv this]  obtain s1 where s1: "res_fold (retire_one K c v) ?as s = Inr s1" "asgard_inv K s1"
    "asgard_index s1 = asgard_index s" "vsNode s1 = vsNode s"
    "\<forall>pk w. vault_at s1 pk = Some w \<and> vtStatus w = VaultStatus_ActiveVault \<longrightarrow>
        vault_at s pk = Some w \<and> (\<forall>a \<in> set ?as. vtPubKey a = pk \<longrightarrow> \<not> conflicts K v a)" by blast
  obtain n where n: "res_fold (add_member_signer K c (vtPubKey v)) (GetMembership K v) s1 = Inr (s1\<lparr>vsNode := n\<rparr>)"
    using add_signers_all [of s1 "GetMembership K v" K c "vtPubKey v"] nodes mem s1(4) by auto
  have v: "vault_key K (vtPubKey ?v)" "IsAsgard ?v" "vtPubKey ?v = vtPubKey v" "vtStatus ?v = VaultStatus_ActiveVault"
    using key asg by (simp_all add: Vault_UpdateStatus_def IsAsgard_def IsType_def)
  have inv2: "asgard_inv K (s1\<lparr>vsNode := n\<rparr>)" using s1(2) by (simp add: inv_frame_node)
  obtain s3 where s3: "SetVault K (s1\<lparr>vsNode := n\<rparr>) ?v = Inr s3" "asgard_inv K s3"
    "asgard_index s3 = with_key (vtPubKey v) (asgard_index s)"
    "\<And>pk. vault_at s3 pk = (if kv_key pk = kv_key (vtPubKey v) then Some ?v else vault_at s1 pk)"
    using set_asgard_vault [OF inv2 v(1,2)] s1(3) v(3) by auto
  define vs where "vs = map (\<lambda>pk. filled c pk (the (vault_at s3 pk))) (asgard_index s3)"
  define s' where "s' = fold (cleanup_one K) vs s3"
  have run: "RotateVault K c s v = Inr s'"
    using s1(1) n s3(1)
    by (simp add: RotateVault_def GetAsgardVaultsByStatus_def asgard_vaults_read [OF inv] cleanupAsgardIndex_def
        asgard_vaults_read [OF s3(2)] s'_def vs_def)
  note cl = cleanup_index [OF s3(2), of vs, folded s'_def]
  have rd3: "vtPubKey (filled c pk (the (vault_at s3 pk))) = pk" if "pk \<in> set (asgard_index s3)" for pk
    using s3(2) that by (force simp: asgard_inv_def vault_key_def)
  have at: "vault_at s3 (vtPubKey v) = Some ?v" by (simp add: s3(4))
  have "vtPubKey v \<in> set (asgard_index s')"
    using cl rd3 at v(4) by (auto simp: s3(3) vs_def with_key_def)
  moreover have "vault_at s pk = Some w \<and> \<not> conflicts K v w"
    if pk: "pk \<in> set (asgard_index s')" and w: "vault_at s' pk = Some w" "vtStatus w = VaultStatus_ActiveVault" and ne: "pk \<noteq> vtPubKey v" for pk w
  proof -
    have i: "pk \<in> set (asgard_index s)" using pk cl ne by (auto simp: s3(3) with_key_def split: if_splits)
    then have "vault_key K pk" using inv by (simp add: asgard_inv_def)
    then have "vault_at s1 pk = Some w" using w(1) cl s3(4) [of pk] ne kv_key_inj [OF _ key] by simp
    with s1(5) w(2) have sw: "vault_at s pk = Some w" and no: "\<forall>a \<in> set ?as. vtPubKey a = pk \<longrightarrow> \<not> conflicts K v a" by auto
    have "?read pk \<in> set ?as" using i sw w(2) by (auto intro!: image_eqI [of _ _ pk])
    with no rd [OF i] have "\<not> conflicts K v (?read pk)" by blast
    then show ?thesis using sw by (simp add: conflicts_def)
  qed
  ultimately show ?thesis using run cl at by auto
qed

section \<open>Runs of the store\<close>

text \<open>
  The operations on stored vaults, in any order: an Asgard vault is saved, a vault is saved whose key is
  not in the index, a key leaves the index, a vault is deleted, the nodes or the outbounds change.
\<close>

inductive vault_step :: "key_lib \<Rightarrow> vault_state \<Rightarrow> vault_state \<Rightarrow> bool" for K :: key_lib where
  set_asgard: "vault_key K (vtPubKey v) \<Longrightarrow> IsAsgard v \<Longrightarrow> SetVault K s v = Inr s' \<Longrightarrow> vault_step K s s'"
| set_other: "vault_key K (vtPubKey v) \<Longrightarrow> vtPubKey v \<notin> set (asgard_index s) \<Longrightarrow> SetVault K s v = Inr s' \<Longrightarrow> vault_step K s s'"
| leave: "RemoveFromAsgardIndex K s pk = Inr s' \<Longrightarrow> vault_step K s s'"
| delete: "vault_key K pk \<Longrightarrow> DeleteVault K c s pk = Inr s' \<Longrightarrow> vault_step K s s'"
| nodes: "vault_step K s (s\<lparr>vsNode := n\<rparr>)"
| append_txout: "AppendTxOut s h item = Inr s' \<Longrightarrow> vault_step K s s'"
| clear_txout: "vault_step K s (ClearTxOut s h)"

inductive vault_run :: "key_lib \<Rightarrow> vault_state \<Rightarrow> bool" for K :: key_lib where
  start: "vsVaults s = [] \<Longrightarrow> vsAsgard s = (\<lambda>_. None) \<Longrightarrow> vault_run K s"
| step: "vault_run K s \<Longrightarrow> vault_step K s s' \<Longrightarrow> vault_run K s'"

definition vaults_inv :: "key_lib \<Rightarrow> vault_state \<Rightarrow> bool" where
  "vaults_inv K s \<longleftrightarrow> asgard_inv K s
     \<and> (\<forall>k sl. map_of (vsVaults s) k = Some sl \<longrightarrow>
          (\<exists>v. sl = Stored v \<and> vault_key K (vtPubKey v) \<and> k = kv_key (vtPubKey v)))"

lemma stored_under_key:
  assumes "vaults_inv K s" and "vault_key K pk" and "vault_at s pk = Some v"
  shows "vtPubKey v = pk"
proof -
  from assms(3) have "map_of (vsVaults s) (kv_key pk) = Some (Stored v)"
    by (auto simp: vault_at_def split: option.splits slot.splits)
  with assms(1) have "vault_key K (vtPubKey v)" "kv_key pk = kv_key (vtPubKey v)" by (auto simp: vaults_inv_def)
  with assms(2) show ?thesis by (metis kv_key_inj)
qed

lemma vaults_inv_put:
  assumes "vaults_inv K s" and "vault_key K (vtPubKey v)" and "asgard_inv K s'"
    and "vsVaults s' = queue_put (kv_key (vtPubKey v)) (Stored v) (vsVaults s)"
  shows "vaults_inv K s'"
  using assms by (auto simp: vaults_inv_def map_of_queue_put)

lemma SetVault_stores: "SetVault K s v = Inr s' \<Longrightarrow> vsVaults s' = queue_put (kv_key (vtPubKey v)) (Stored v) (vsVaults s)"
  by (auto simp: SetVault_def addAsgardIndex_def res_simps split: if_splits)

lemma set_other_vault:
  assumes "vaults_inv K s" and key: "vault_key K (vtPubKey v)" and "vtPubKey v \<notin> set (asgard_index s)"
    and run: "SetVault K s v = Inr s'"
  shows "vaults_inv K s'"
proof (cases "IsAsgard v")
  case True
  then have "asgard_inv K s'" using set_asgard_vault [OF _ key] assms(1) run by (fastforce simp: vaults_inv_def)
  then show ?thesis by (rule vaults_inv_put [OF assms(1) key _ SetVault_stores [OF run]])
next
  case False
  then have s': "s' = s\<lparr>vsVaults := queue_put (kv_key (vtPubKey v)) (Stored v) (vsVaults s)\<rparr>" using run by (simp add: SetVault_def)
  have "asgard_inv K s'" unfolding asgard_inv_def
  proof (intro conjI ballI)
    show "vsAsgard s' '''' \<noteq> Some Corrupt" "distinct (asgard_index s')"
      using assms(1) by (simp_all add: s' vaults_inv_def asgard_inv_def)
    fix pk assume pk: "pk \<in> set (asgard_index s')"
    then show vk: "vault_key K pk" using assms(1) by (simp add: s' vaults_inv_def asgard_inv_def)
    from pk assms(3) have "pk \<noteq> vtPubKey v" by (auto simp: s')
    then have "vault_at s' pk = vault_at s pk" unfolding s' vault_at_put using kv_key_inj [OF vk key] by simp
    with pk assms(1) show "\<exists>w. vault_at s' pk = Some w \<and> IsAsgard w \<and> vtPubKey w = pk"
      by (simp add: s' vaults_inv_def asgard_inv_def)
  qed
  then show ?thesis by (rule vaults_inv_put [OF assms(1) key _ SetVault_stores [OF run]])
qed

lemma vaults_inv_delete:
  assumes inv: "vaults_inv K s" and key: "vault_key K pk" and run: "DeleteVault K c s pk = Inr s'"
  shows "vaults_inv K s'"
proof (cases "vault_at s pk")
  case None
  then have "map_of (vsVaults s) (kv_key pk) = None"
    using inv by (auto simp: vault_at_def vaults_inv_def split: option.splits slot.splits)
  with run inv show ?thesis by (simp add: DeleteVault_def GetVault_def)
next
  case (Some v)
  have funds: "\<not> HasFunds v" using run delete_keeps_funds [OF Some, of K c] by auto
  have pk: "vtPubKey v = pk" by (rule stored_under_key [OF inv key Some])
  have "asgard_inv K s'" using delete_vault [OF _ key Some pk funds, of c] inv run by (auto simp: vaults_inv_def)
  moreover have "map_of (vsVaults s') k = Some sl \<Longrightarrow> map_of (vsVaults s) k = Some sl" for k sl
  proof -
    have "vsVaults s' = filter (\<lambda>(k, _). k \<noteq> kv_key (vtPubKey (filled c pk v))) (vsVaults s)"
      using run funds Some GetVault_Inr [of c s pk "filled c pk v"]
      by (auto simp: DeleteVault_def Let_def RemoveFromAsgardIndex_def res_simps split: if_splits sum.splits)
    then show "map_of (vsVaults s') k = Some sl \<Longrightarrow> map_of (vsVaults s) k = Some sl"
      by (simp add: map_of_filter_key split: if_splits)
  qed
  ultimately show ?thesis using inv by (auto simp: vaults_inv_def)
qed

lemma vault_step_inv:
  assumes "vault_step K s s'" and "vaults_inv K s"
  shows "vaults_inv K s'"
  using assms(1)
proof cases
  case (set_asgard v)
  then have "asgard_inv K s'" using set_asgard_vault [of K s v] assms(2) by (auto simp: vaults_inv_def)
  then show ?thesis by (rule vaults_inv_put [OF assms(2) set_asgard(1) _ SetVault_stores [OF set_asgard(3)]])
next
  case (set_other v)
  then show ?thesis by (rule set_other_vault [OF assms(2)])
next
  case (leave pk)
  then show ?thesis using remove_from_index [of K s pk] assms(2) by (auto simp: vaults_inv_def)
next
  case (delete pk c)
  then show ?thesis by (rule vaults_inv_delete [OF assms(2)])
next
  case (nodes n)
  with assms(2) show ?thesis by (simp add: vaults_inv_def inv_frame_node)
next
  case (append_txout h item)
  then have "vsVaults s' = vsVaults s \<and> vsAsgard s' = vsAsgard s"
    by (auto simp: AppendTxOut_def SetTxOut_def res_simps)
  with assms(2) show ?thesis by (simp add: vaults_inv_def asgard_inv_def vault_at_def asgard_index_def)
next
  case (clear_txout h)
  with assms(2) show ?thesis by (simp add: ClearTxOut_def vaults_inv_def asgard_inv_def vault_at_def asgard_index_def)
qed

lemma vault_run_inv: "vault_run K s \<Longrightarrow> vaults_inv K s"
proof (induction rule: vault_run.induct)
  case (start s)
  then show ?case by (simp add: vaults_inv_def asgard_inv_def asgard_index_def)
next
  case (step s s')
  then show ?case by (intro vault_step_inv [OF step.hyps(2)])
qed

section \<open>Properties\<close>

lemma asgard_vaults_sound:
  assumes "vault_run K s"
  shows "\<exists>vs. GetAsgardVaults K c s = Inr vs \<and> getAsgardIndex K s = Inr (map vtPubKey vs)
    \<and> distinct (map vtPubKey vs) \<and> (\<forall>v \<in> set vs. IsAsgard v \<and> \<not> Vault_IsEmpty v)"
proof -
  have inv: "asgard_inv K s" using vault_run_inv [OF assms] by (simp add: vaults_inv_def)
  let ?vs = "map (\<lambda>pk. filled c pk (the (vault_at s pk))) (asgard_index s)"
  have rd: "vtPubKey (filled c pk (the (vault_at s pk))) = pk \<and> IsAsgard (filled c pk (the (vault_at s pk))) \<and> pk \<noteq> []"
    if "pk \<in> set (asgard_index s)" for pk
    using inv that by (force simp: asgard_inv_def vault_key_def)
  then have keys: "map vtPubKey ?vs = asgard_index s" by (simp add: map_idI)
  have "distinct (asgard_index s)" using inv by (simp add: asgard_inv_def)
  with asgard_vaults_read [OF inv] index_reads [OF inv] keys rd show ?thesis
    by (intro exI [of _ ?vs]) (auto simp: Vault_IsEmpty_def)
qed

text \<open>C5. The index of the Asgard vaults is well formed after any operations: it reads without an error,
  and so do the vaults under its keys, each of them an Asgard vault stored under its own key.\<close>

theorem asgard_index_sound:
  assumes "vault_run K s"
  shows "\<exists>vs. GetAsgardVaults K c s = Inr vs \<and> getAsgardIndex K s = Inr (map vtPubKey vs)
    \<and> distinct (map vtPubKey vs) \<and> (\<forall>v \<in> set vs. IsAsgard v \<and> \<not> Vault_IsEmpty v)"
  using assms by (rule asgard_vaults_sound)

definition no_vaults :: vault_state where
  "no_vaults = \<lparr>vsNode = \<lparr>msKeeper = empty_kstore, msVotes = Map.empty, msNodes = [], msSlashPoints = Map.empty\<rparr>,
     vsVaults = [], vsAsgard = Map.empty, vsTxOuts = Map.empty\<rparr>"

definition one_vault :: vault_state where
  "one_vault = no_vaults\<lparr>vsVaults := [(''PK'', Stored (demo_vault\<lparr>vtMembership := [''a'']\<rparr>))], vsAsgard := [[] \<mapsto> Stored [''pk'']]\<rparr>"

lemma demo_keys: "vault_key plain_keys ''pk''" "vault_key plain_keys ''qk''" "kv_key ''pk'' = ''PK''"
  by code_simp+

lemma one_vault_run: "vault_run plain_keys one_vault"
proof -
  let ?v = "demo_vault\<lparr>vtMembership := [''a'']\<rparr>"
  have "vtPubKey ?v = ''pk''" and asg: "IsAsgard ?v"
    by (simp_all add: demo_vault_def NewVault_def IsAsgard_def IsType_def)
  moreover from this have "SetVault plain_keys no_vaults ?v = Inr one_vault"
    by (simp add: SetVault_def addAsgardIndex_def getAsgardIndex_def no_vaults_def one_vault_def kv_get_def kv_set_def demo_keys)
  moreover have "vault_run plain_keys no_vaults" by (rule vault_run.start) (simp_all add: no_vaults_def)
  ultimately show ?thesis using demo_keys(1) by (metis vault_run.step vault_step.set_asgard)
qed

theorem asgard_index_sound_witness:
  "\<exists>vs. GetAsgardVaults plain_keys demo_ctx one_vault = Inr vs \<and> map vtPubKey vs = [''pk'']"
proof -
  have "getAsgardIndex plain_keys one_vault = Inr [''pk'']" by code_simp
  with asgard_index_sound [OF one_vault_run, of demo_ctx] show ?thesis by fastforce
qed

text \<open>C7. Rotating in a new vault whose members have addresses always succeeds. Afterwards it is active, and
  no other active vault has a member in common with it.\<close>

theorem vault_rotation:
  assumes "vault_run K s" and "vault_key K (vtPubKey v)" and "IsAsgard v" and "nodes_decode (vsNode s)"
    and "\<forall>m \<in> set (GetMembership K v). pubkey_acc K m \<noteq> None"
  shows "\<exists>s' active. RotateVault K c s v = Inr s' \<and> GetAsgardVaultsByStatus K c s' VaultStatus_ActiveVault = Inr active
    \<and> (\<exists>w \<in> set active. vtPubKey w = vtPubKey v \<and> vtMembership w = vtMembership v)
    \<and> (\<forall>w \<in> set active. vtPubKey w = vtPubKey v \<or> (\<forall>m \<in> set (GetMembership K w). \<not> Vault_Contains K v m))"
proof -
  have inv: "asgard_inv K s" using vault_run_inv [OF assms(1)] by (simp add: vaults_inv_def)
  obtain s' where run: "RotateVault K c s v = Inr s'" and inv': "asgard_inv K s'" and vin: "vtPubKey v \<in> set (asgard_index s')"
    and at: "vault_at s' (vtPubKey v) = Some (Vault_UpdateStatus v VaultStatus_ActiveVault (BlockHeight c))"
    and oth: "\<And>pk w. pk \<in> set (asgard_index s') \<Longrightarrow> vault_at s' pk = Some w \<Longrightarrow> vtStatus w = VaultStatus_ActiveVault
      \<Longrightarrow> pk \<noteq> vtPubKey v \<Longrightarrow> \<not> conflicts K v w"
    using rotate_vault [OF inv assms(2-5), of c] by metis
  define active where "active = filter (\<lambda>v. vtStatus v = VaultStatus_ActiveVault) (map (\<lambda>pk. filled c pk (the (vault_at s' pk))) (asgard_index s'))"
  have "GetAsgardVaultsByStatus K c s' VaultStatus_ActiveVault = Inr active"
    by (simp add: GetAsgardVaultsByStatus_def asgard_vaults_read [OF inv'] active_def)
  moreover have "\<exists>w \<in> set active. vtPubKey w = vtPubKey v \<and> vtMembership w = vtMembership v"
    using vin assms(2) by (intro bexI [of _ "filled c (vtPubKey v) (the (vault_at s' (vtPubKey v)))"])
      (auto simp: active_def at filled_def Vault_UpdateStatus_def vault_key_def intro!: image_eqI [of _ _ "vtPubKey v"])
  moreover have "vtPubKey w = vtPubKey v \<or> (\<forall>m \<in> set (GetMembership K w). \<not> Vault_Contains K v m)" if "w \<in> set active" for w
  proof -
    from that obtain pk where pk: "pk \<in> set (asgard_index s')" and w: "w = filled c pk (the (vault_at s' pk))"
      and act: "vtStatus w = VaultStatus_ActiveVault" by (auto simp: active_def)
    obtain u where u: "vault_at s' pk = Some u" "vtPubKey u = pk" "pk \<noteq> []"
      using inv' pk by (auto simp: asgard_inv_def vault_key_def)
    show ?thesis
    proof (cases "pk = vtPubKey v")
      case True
      then show ?thesis using u by (simp add: w)
    next
      case False
      with oth [OF pk u(1)] act u(1) show ?thesis by (simp add: w conflicts_def list_ex_iff)
    qed
  qed
  ultimately show ?thesis using run by blast
qed

theorem vault_rotation_witness:
  "\<exists>s' active. RotateVault plain_keys demo_ctx one_vault (demo_vault\<lparr>vtPubKey := ''qk'', vtMembership := [''a'', ''b'']\<rparr>) = Inr s'
    \<and> GetAsgardVaultsByStatus plain_keys demo_ctx s' VaultStatus_ActiveVault = Inr active \<and> (\<exists>w \<in> set active. vtPubKey w = ''qk'')"
proof -
  let ?v = "demo_vault\<lparr>vtPubKey := ''qk'', vtMembership := [''a'', ''b'']\<rparr>"
  have "vault_key plain_keys (vtPubKey ?v)" "IsAsgard ?v" "nodes_decode (vsNode one_vault)"
    by (simp_all add: demo_keys demo_vault_def NewVault_def IsAsgard_def IsType_def nodes_decode_def one_vault_def no_vaults_def)
  from vault_rotation [OF one_vault_run this, of demo_ctx] show ?thesis by (auto simp: plain_keys_def)
qed

text \<open>A vault that holds funds cannot be deleted; deleting one without funds removes it from the store and the index.\<close>

theorem delete_vault_safe:
  assumes "vault_run K s" and "vault_key K pk" and "GetVault c s pk = Inr v"
  shows "(HasFunds v \<longrightarrow> (\<exists>e. DeleteVault K c s pk = Inl e))
    \<and> (\<not> HasFunds v \<longrightarrow> (\<exists>s' pks. DeleteVault K c s pk = Inr s' \<and> GetVault c s' pk = Inl ErrVaultNotFound
        \<and> getAsgardIndex K s' = Inr pks \<and> pk \<notin> set pks))"
proof (intro conjI impI)
  obtain u where u: "vault_at s pk = Some u" "v = filled c pk u" using assms(3) by (auto simp: GetVault_Inr)
  show "\<exists>e. DeleteVault K c s pk = Inl e" if "HasFunds v"
    using delete_keeps_funds [OF u(1), of K c] that u(2) by (cases "DeleteVault K c s pk") auto
  show "\<exists>s' pks. DeleteVault K c s pk = Inr s' \<and> GetVault c s' pk = Inl ErrVaultNotFound \<and> getAsgardIndex K s' = Inr pks \<and> pk \<notin> set pks"
    if "\<not> HasFunds v"
  proof -
    have inv: "vaults_inv K s" by (rule vault_run_inv [OF assms(1)])
    then have "asgard_inv K s" by (simp add: vaults_inv_def)
    from delete_vault [OF this assms(2) u(1) stored_under_key [OF inv assms(2) u(1)], of c] that u(2)
    obtain s' where "DeleteVault K c s pk = Inr s'" "asgard_inv K s'" "pk \<notin> set (asgard_index s')" "\<not> VaultExists s' pk" by auto
    then show ?thesis using index_reads by (auto simp: VaultExists_def GetVault_def)
  qed
qed

theorem delete_vault_safe_witness:
  "\<exists>v s'. GetVault demo_ctx one_vault ''pk'' = Inr v \<and> \<not> HasFunds v \<and> DeleteVault plain_keys demo_ctx one_vault ''pk'' = Inr s'"
proof -
  have "vault_at one_vault ''pk'' = Some (demo_vault\<lparr>vtMembership := [''a'']\<rparr>)"
    by (simp add: vault_at_def one_vault_def demo_keys)
  then have g: "GetVault demo_ctx one_vault ''pk'' = Inr (filled demo_ctx ''pk'' (demo_vault\<lparr>vtMembership := [''a'']\<rparr>))"
    by (simp add: GetVault_Inr)
  have "\<not> HasFunds (demo_vault\<lparr>vtMembership := [''a'']\<rparr>)" by (simp add: HasFunds_def demo_vault_def NewVault_def)
  with delete_vault_safe [OF one_vault_run demo_keys(1) g] g show ?thesis by auto
qed

end
