(* ===== verification/Anchors.thy ===== *)
theory Anchors
  imports Keeper Numerics
begin

text \<open>
  Prices and fees in dollars: \<^verbatim>\<open>src/x/switchly/keeper/v1/keeper_anchors.go\<close> and the fees of
  \<^verbatim>\<open>keeper/v1/keeper.go\<close>. The pools in the order of their keys, which the code gets by iterating over the
  store, are the argument \<open>pools\<close> (an error when one does not decode).
\<close>

definition DollarMulti :: nat where
  "DollarMulti = 1000000000"

text \<open>\<open>uint64\<close> of an \<open>int64\<close>.\<close>

definition uint64_of :: "int \<Rightarrow> nat" where
  "uint64_of i = nat (i mod 2 ^ 64)"

definition dots_to_dashes :: "string \<Rightarrow> string" where
  "dots_to_dashes s = map (\<lambda>c. if c = CHR ''.'' then CHR ''-'' else c) s"

definition is_anchor :: "kstore \<Rightarrow> pool \<Rightarrow> bool" where
  "is_anchor k p = (case GetMimir k (dots_to_dashes (''SwitchlyAnchor-'' @ Asset_String (pAsset p))) of
     Inl _ \<Rightarrow> False | Inr v \<Rightarrow> v > 0)"

definition GetAnchors :: "kstore \<Rightarrow> pool list res \<Rightarrow> asset \<Rightarrow> asset list" where
  "GetAnchors k pools a =
     (if Asset_Equals a SWITCHLY
      then case pools of Inl _ \<Rightarrow> [] | Inr ps \<Rightarrow> map pAsset (filter (is_anchor k) ps)
      else [GetLayer1Asset a])"

definition anchor_price :: "dec_lib \<Rightarrow> ctx \<Rightarrow> kstore \<Rightarrow> asset \<Rightarrow> uint list \<Rightarrow> uint list res" where
  "anchor_price D c k a p =
     (if IsGlobalTradingHalted c k \<or> IsChainTradingHalted c k (aChain a) then Inr p
      else case GetPool k a of Inl _ \<Rightarrow> Inr p
        | Inr pl \<Rightarrow> if \<not> IsAvailable pl then Inr p
            else res_map (\<lambda>v. if v = 0 then p else p @ [v]) (SWITCHValueInAsset D pl (DollarMulti * One)))"

definition AnchorMedian :: "dec_lib \<Rightarrow> ctx \<Rightarrow> kstore \<Rightarrow> asset list \<Rightarrow> uint res" where
  "AnchorMedian D c k as = res_bind (res_fold (anchor_price D c k) as []) GetMedianUint"

definition DollarsPerSWITCH :: "dec_lib \<Rightarrow> ctx \<Rightarrow> kstore \<Rightarrow> pool list res \<Rightarrow> uint res" where
  "DollarsPerSWITCH D c k pools =
     (case GetMimir k ''DollarsPerSWITCH'' of
        Inr v \<Rightarrow> if v > 0 then Inr (nat v)
          else res_bind (AnchorMedian D c k (GetAnchors k pools SWITCHLY)) (\<lambda>m. uint_quo m DollarMulti)
      | Inl _ \<Rightarrow> res_bind (AnchorMedian D c k (GetAnchors k pools SWITCHLY)) (\<lambda>m. uint_quo m DollarMulti))"

definition SWITCHPerDollar :: "dec_lib \<Rightarrow> ctx \<Rightarrow> kstore \<Rightarrow> pool list res \<Rightarrow> uint res" where
  "SWITCHPerDollar D c k pools = res_map (\<lambda>price. GetUncappedShare D One price One) (DollarsPerSWITCH D c k pools)"

section \<open>Fees\<close>

definition usdFeesEnabled :: "kstore \<Rightarrow> bool" where
  "usdFeesEnabled k = (case GetMimir k ''EnableUSDFees'' of Inl _ \<Rightarrow> False | Inr v \<Rightarrow> v > 0)"

definition DollarConfigInSWITCH :: "dec_lib \<Rightarrow> ctx \<Rightarrow> kstore \<Rightarrow> pool list res \<Rightarrow> string \<Rightarrow> uint res" where
  "DollarConfigInSWITCH D c k pools name =
     (let usd = SafeUintFromInt64 (GetConfigInt64 c k name) in
      res_bind (DollarsPerSWITCH D c k pools) (\<lambda>price.
        if price = 0 then Inr usd
        else res_bind (uint_mul usd One) (\<lambda>x.
             res_bind (uint_quo x price) (\<lambda>v.
               if v \<ge> 2 ^ 64 then Inl (Panic ''Uint64() out of bounds'')
               else res_map unat (RoundSignificantFigures (of_nat v) (GetConfigInt64 c k ''FeeUSDRoundSignificantDigits''))))))"

definition GetNativeTxFee :: "dec_lib \<Rightarrow> ctx \<Rightarrow> kstore \<Rightarrow> pool list res \<Rightarrow> uint res" where
  "GetNativeTxFee D c k pools =
     (if usdFeesEnabled k then DollarConfigInSWITCH D c k pools ''NativeTransactionFeeUSD''
      else Inr (uint64_of (GetConfigInt64 c k ''NativeTransactionFee'')))"

definition GetSWITCHNameRegisterFee :: "dec_lib \<Rightarrow> ctx \<Rightarrow> kstore \<Rightarrow> pool list res \<Rightarrow> uint res" where
  "GetSWITCHNameRegisterFee D c k pools =
     (if usdFeesEnabled k then DollarConfigInSWITCH D c k pools ''TNSRegisterFeeUSD''
      else Inr (uint64_of (GetInt64Value (cBuild c) ''TNSRegisterFee'')))"

definition GetSWITCHNamePerBlockFee :: "dec_lib \<Rightarrow> ctx \<Rightarrow> kstore \<Rightarrow> pool list res \<Rightarrow> uint res" where
  "GetSWITCHNamePerBlockFee D c k pools =
     (if usdFeesEnabled k then DollarConfigInSWITCH D c k pools ''TNSFeePerBlockUSD''
      else Inr (uint64_of (GetInt64Value (cBuild c) ''TNSFeePerBlock'')))"

text \<open>A fee in dollars is rounded down, to its leading digits: it never exceeds the exact conversion.\<close>

lemma rounded_le: "RoundSignificantFigures n d = Inr m \<Longrightarrow> m \<le> n"
proof -
  assume r: "RoundSignificantFigures n d = Inr m"
  have "n div x * x \<le> n" for x :: "64 word"
    by (simp add: word_le_nat_alt unat_div unat_word_ariths le_trans [OF mod_less_eq_dividend])
  with r show ?thesis by (auto simp: RoundSignificantFigures_def Let_def split: if_splits)
qed

lemma dollar_fee_le:
  assumes "DollarConfigInSWITCH D c k pools name = Inr fee" and "DollarsPerSWITCH D c k pools = Inr price" and "price \<noteq> 0"
  shows "fee * price \<le> SafeUintFromInt64 (GetConfigInt64 c k name) * One"
proof -
  let ?usd = "SafeUintFromInt64 (GetConfigInt64 c k name)"
  obtain w :: "64 word" where w: "RoundSignificantFigures (of_nat (?usd * One div price)) (GetConfigInt64 c k ''FeeUSDRoundSignificantDigits'') = Inr w"
      "fee = unat w" "?usd * One div price < 2 ^ 64"
    using assms by (auto simp: DollarConfigInSWITCH_def Let_def res_simps uint_simps split: if_splits)
  have "unat w \<le> ?usd * One div price"
    using rounded_le [OF w(1)] w(3) by (simp add: word_le_nat_alt unat_of_nat)
  then have "fee * price \<le> ?usd * One div price * price" by (simp add: w(2))
  then show ?thesis by (meson div_times_less_eq_dividend le_trans)
qed

end
