(* ===== verification/Bonding.thy ===== *)
theory Bonding
  imports Vault_Store Bank Anchors
begin

text \<open>
  Bonding: the handlers of bond, unbond and leave messages (\<^verbatim>\<open>src/x/switchly/handler_bond.go\<close>,
  \<^verbatim>\<open>handler_unbond.go\<close>, \<^verbatim>\<open>handler_leave.go\<close>) with their messages (\<^verbatim>\<open>types/msg_bond.go\<close>,
  \<^verbatim>\<open>msg_unbond.go\<close>, \<^verbatim>\<open>msg_leave.go\<close>), \<^verbatim>\<open>refundBond\<close> and \<^verbatim>\<open>passiveBackfill\<close> of \<^verbatim>\<open>helpers.go\<close>, and the slash
  points, jails, bond providers and bond fees of \<^verbatim>\<open>keeper/v1/keeper_node_account.go\<close>.

  Whether the auth module has an account for an address is the argument \<open>hasAcct\<close>. The events are left out.
\<close>

section \<open>State\<close>

record jail =
  jlNodeAddress :: acc
  jlReleaseHeight :: int
  jlReason :: string

record 'b bond_state =
  bsVault :: vault_state
  bsProviders :: "bond_providers kv"
  bsJails :: "jail kv"
  bsBank :: 'b

abbreviation bsNode :: "'b bond_state \<Rightarrow> mimir_state" where
  "bsNode s \<equiv> vsNode (bsVault s)"

abbreviation bsKeeper :: "'b bond_state \<Rightarrow> kstore" where
  "bsKeeper s \<equiv> vsKeeper (bsVault s)"

definition put_nodes :: "'b bond_state \<Rightarrow> mimir_state \<Rightarrow> 'b bond_state" where
  "put_nodes s n = s\<lparr>bsVault := (bsVault s)\<lparr>vsNode := n\<rparr>\<rparr>"

section \<open>Slash points and jails\<close>

definition GetNodeAccountSlashPoints :: "mimir_state \<Rightarrow> acc \<Rightarrow> int res" where
  "GetNodeAccountSlashPoints s a = kv_get (msSlashPoints s) (kv_key a) 0"

definition SetNodeAccountSlashPoints :: "mimir_state \<Rightarrow> acc \<Rightarrow> int \<Rightarrow> mimir_state" where
  "SetNodeAccountSlashPoints s a pts =
     s\<lparr>msSlashPoints := kv_set (msSlashPoints s) (kv_key a) (if pts < 0 then 0 else pts)\<rparr>"

definition IncNodeAccountSlashPoints :: "mimir_state \<Rightarrow> acc \<Rightarrow> int \<Rightarrow> mimir_state res" where
  "IncNodeAccountSlashPoints s a pts =
     res_map (\<lambda>current. SetNodeAccountSlashPoints s a (i64 (current + pts))) (GetNodeAccountSlashPoints s a)"

definition DecNodeAccountSlashPoints :: "mimir_state \<Rightarrow> acc \<Rightarrow> int \<Rightarrow> mimir_state res" where
  "DecNodeAccountSlashPoints s a pts =
     res_map (\<lambda>current. SetNodeAccountSlashPoints s a (i64 (current - pts))) (GetNodeAccountSlashPoints s a)"

definition NewJail :: "acc \<Rightarrow> jail" where
  "NewJail a = \<lparr>jlNodeAddress = a, jlReleaseHeight = 0, jlReason = ''''\<rparr>"

definition IsJailed :: "ctx \<Rightarrow> jail \<Rightarrow> bool" where
  "IsJailed c m \<longleftrightarrow> jlReleaseHeight m > BlockHeight c"

definition GetNodeAccountJail :: "'b bond_state \<Rightarrow> acc \<Rightarrow> jail res" where
  "GetNodeAccountJail s a = kv_get (bsJails s) (kv_key a) (NewJail a)"

definition SetNodeAccountJail :: "'b bond_state \<Rightarrow> acc \<Rightarrow> int \<Rightarrow> string \<Rightarrow> 'b bond_state res" where
  "SetNodeAccountJail s a height reason =
     res_map (\<lambda>j. if jlReleaseHeight j > height then s
         else s\<lparr>bsJails := kv_set (bsJails s) (kv_key a) (j\<lparr>jlReleaseHeight := height, jlReason := reason\<rparr>)\<rparr>)
       (GetNodeAccountJail s a)"

definition ReleaseNodeAccountFromJail :: "ctx \<Rightarrow> 'b bond_state \<Rightarrow> acc \<Rightarrow> 'b bond_state res" where
  "ReleaseNodeAccountFromJail c s a =
     res_map (\<lambda>j. s\<lparr>bsJails := kv_set (bsJails s) (kv_key a) (j\<lparr>jlReleaseHeight := BlockHeight c, jlReason := ''''\<rparr>)\<rparr>)
       (GetNodeAccountJail s a)"

section \<open>Bond providers and fees\<close>

definition GetBondProviders :: "'b bond_state \<Rightarrow> acc \<Rightarrow> bond_providers res" where
  "GetBondProviders s a = kv_get (bsProviders s) (kv_key a) (NewBondProviders a)"

definition SetBondProviders :: "'b bond_state \<Rightarrow> bond_providers \<Rightarrow> 'b bond_state" where
  "SetBondProviders s bp = s\<lparr>bsProviders := kv_set (bsProviders s) (kv_key (bpNodeAddress bp)) bp\<rparr>"

definition BondName :: string where
  "BondName = ''bond''"

definition ReserveName :: string where
  "ReserveName = ''reserve''"

definition DeductNativeTxFeeFromBond ::
  "dec_lib \<Rightarrow> 'b bank_lib \<Rightarrow> ctx \<Rightarrow> pool list res \<Rightarrow> 'b bond_state \<Rightarrow> acc \<Rightarrow> 'b bond_state res" where
  "DeductNativeTxFeeFromBond D B c pools s a =
     res_bind (GetNativeTxFee D c (bsKeeper s) pools) (\<lambda>fee.
       if fee = 0 then Inr s
       else res_bind (GetNodeAccount c (bsNode s) a) (\<lambda>na.
         if naBond na < fee then Inl (Err ''not enound bond for fee'')
         else let s1 = put_nodes s (SetNodeAccount c (bsNode s) (na\<lparr>naBond := SafeSub (naBond na) fee\<rparr>)) in
           res_map (\<lambda>b. s1\<lparr>bsBank := b\<rparr>) (SendFromModuleToModule B (bsBank s1) BondName ReserveName (NewCoin SwitchNative fee))))"

definition passiveBackfill :: "key_lib \<Rightarrow> ctx \<Rightarrow> 'b bond_state \<Rightarrow> node_account \<Rightarrow> bond_providers \<Rightarrow> bond_providers res" where
  "passiveBackfill K c s na bp =
     (if Providers bp \<noteq> [] then Inr bp
      else case acc_from_bech32 K (naBondAddress na) of
        None \<Rightarrow> Inl (Err ''fail to parse bond address'')
      | Some op \<Rightarrow> Inr (bp\<lparr>Providers := [(NewBondProvider op)\<lparr>bpBond := naBond na\<rparr>],
            NodeOperatorFee := uint64_of (GetConfigInt64 c (bsKeeper s) ''NodeOperatorFee'')\<rparr>))"

text \<open>The providers of a node, with the bond of the node distributed over them.\<close>

definition adjusted_providers :: "dec_lib \<Rightarrow> key_lib \<Rightarrow> ctx \<Rightarrow> 'b bond_state \<Rightarrow> node_account \<Rightarrow> bond_providers res" where
  "adjusted_providers D K c s na =
     res_bind (GetBondProviders s (NodeAddress na)) (\<lambda>bp.
     res_bind (passiveBackfill K c s na bp) (\<lambda>bp. BondProviders_Adjust D bp (naBond na)))"

text \<open>\<open>refundBond\<close> changes the node account it is given: the result has the account and the state.\<close>

definition pay_provider ::
  "'b bank_lib \<Rightarrow> 'b \<Rightarrow> acc \<Rightarrow> uint \<Rightarrow> node_account \<Rightarrow> bond_providers \<Rightarrow> ('b \<times> node_account \<times> bond_providers) res" where
  "pay_provider B b acc amt na bp =
     (let p = BondProviders_Get bp acc in
      if BondProvider_IsEmpty p \<or> bpBond p = 0 then Inr (b, na, bp)
      else let amt' = (if amt > bpBond p then bpBond p else amt) in
        res_map (\<lambda>b'. (b', na\<lparr>naBond := SafeSub (naBond na) amt'\<rparr>, BondProviders_Unbond bp amt' (BondAddress p)))
          (SendFromModuleToAccount B b BondName (BondAddress p) (NewCoin SwitchNative amt')))"

definition refundBond ::
  "dec_lib \<Rightarrow> key_lib \<Rightarrow> 'b bank_lib \<Rightarrow> ctx \<Rightarrow> 'b bond_state \<Rightarrow> acc \<Rightarrow> uint \<Rightarrow> node_account \<Rightarrow> (node_account \<times> 'b bond_state) res" where
  "refundBond D K B c s acc amt na =
     (if naStatus na = NodeStatus_Active \<or> naStatus na = NodeStatus_Ready then Inr (na, s)
      else let amt1 = (if amt = 0 \<or> amt > naBond na then naBond na else amt) in
        res_bind (adjusted_providers D K c s na) (\<lambda>bp.
        res_map (\<lambda>(b, na1, bp1).
          let na2 = (if RequestedToLeave na1 then UpdateStatus na1 NodeStatus_Disabled (BlockHeight c) else na1)
          in (na2, SetBondProviders ((put_nodes s (SetNodeAccount c (bsNode s) na2))\<lparr>bsBank := b\<rparr>) bp1))
          (pay_provider B (bsBank s) acc amt1 na bp)))"

section \<open>Bond\<close>

record msg_bond =
  mbTxIn :: tx
  mbNodeAddress :: acc
  mbBond :: uint
  mbBondAddress :: address
  mbBondProviderAddress :: acc
  mbSigner :: acc
  mbOperatorFee :: int

definition MsgBond_ValidateBasic :: "msg_bond \<Rightarrow> unit res" where
  "MsgBond_ValidateBasic m =
     (if mbNodeAddress m = [] then Inl (Err ''node address cannot be empty'')
      else if mbBond m = 0 then Inl (Err ''bond cannot be zero'')
      else if Address_IsEmpty (mbBondAddress m) then Inl (Err ''bond address cannot be empty'')
      else res_bind (Tx_Valid (mbTxIn m)) (\<lambda>_.
        if length (tCoins (mbTxIn m)) > 1 then Inl (Err ''cannot bond more than one coin'')
        else if tCoins (mbTxIn m) = [] then Inl (Err ''must bond with switch'')
        else if \<not> Coin_IsSwitch (hd (tCoins (mbTxIn m))) then Inl (Err ''cannot bond non-native switch asset'')
        else if mbSigner m = [] then Inl (Err ''empty signer address'')
        else if mbOperatorFee m < - 1 \<or> mbOperatorFee m > 10000 then Inl (Err ''operator fee must be 0-10000'')
        else Inr ()))"

definition above_max_bond :: "kstore \<Rightarrow> uint \<Rightarrow> bool" where
  "above_max_bond k bond =
     (case GetMimir k ''MaximumBondInSWITCH'' of Inl _ \<Rightarrow> False | Inr mx \<Rightarrow> mx > 0 \<and> bond > nat mx)"

definition Bond_validate :: "addr_lib \<Rightarrow> key_lib \<Rightarrow> ctx \<Rightarrow> 'b bond_state \<Rightarrow> msg_bond \<Rightarrow> unit res" where
  "Bond_validate A K c s m =
     (if \<not> cVersion3 c then Inl (Err ''bad version'')
      else res_bind (MsgBond_ValidateBasic m) (\<lambda>_.
        res_bind (GetNodeAccount c (bsNode s) (mbNodeAddress m)) (\<lambda>na.
        if naStatus na = NodeStatus_Ready then Inl (Err ''cannot add bond while node is ready status'')
        else if GetConfigInt64 c (bsKeeper s) ''PauseBond'' > 0 then Inl (Err ''bonding has been paused'')
        else res_bind (uint_add (mbBond m) (naBond na)) (\<lambda>bond.
          if above_max_bond (bsKeeper s) bond then Inl (Err ''too much bond'')
          else if \<not> IsChain A (mbBondAddress m) SWITCHLYChain then Inl (Err ''bonding address is NOT a SwitchlyProtocol address'')
          else res_bind (GetBondProviders s (mbNodeAddress m)) (\<lambda>bp.
            if mbOperatorFee m > - 1 \<and> \<not> Address_IsEmpty (naBondAddress na) \<and> \<not> Address_Equals (mbBondAddress m) (naBondAddress na)
              then Inl (Err ''only node operator can set fee'')
            else if Address_Equals (mbBondAddress m) (naBondAddress na) \<or> Address_IsEmpty (naBondAddress na) then Inr ()
            else case acc_from_bech32 K (mbBondAddress m) of
                None \<Rightarrow> Inl (Err ''fail to parse bond address'')
              | Some from \<Rightarrow> if BondProviders_Has bp from then Inr ()
                  else Inl (Err ''bond address is not valid for node account''))))))"

text \<open>The first bond of an address without an account pays it one SWITCH; a failed payment only marks the account.\<close>

definition first_bond ::
  "'b bank_lib \<Rightarrow> (acc \<Rightarrow> bool) \<Rightarrow> 'b \<Rightarrow> node_account \<Rightarrow> msg_bond \<Rightarrow> node_account \<times> uint \<times> 'b" where
  "first_bond B hasAcct b na m =
     (if \<not> hasAcct (mbNodeAddress m) \<and> naBond na \<ge> One then
        let (na1, b1) = (case SendFromModuleToAccount B b BondName (mbNodeAddress m) (NewCoin SwitchNative One) of
              Inl _ \<Rightarrow> (na\<lparr>naStatus := NodeStatus_Unknown\<rparr>, b) | Inr b' \<Rightarrow> (na, b'))
        in (na1\<lparr>naBond := SafeSub (naBond na1) One\<rparr>, SafeSub (mbBond m) One, b1)
      else (na, mbBond m, b))"

definition max_providers :: "ctx \<Rightarrow> kstore \<Rightarrow> int" where
  "max_providers c k = (case GetMimir k ''MaxBondProviders'' of
     Inl _ \<Rightarrow> GetInt64Value (cBuild c) ''MaxBondProviders''
   | Inr v \<Rightarrow> if v < 0 then GetInt64Value (cBuild c) ''MaxBondProviders'' else v)"

definition add_provider :: "ctx \<Rightarrow> kstore \<Rightarrow> node_account \<Rightarrow> msg_bond \<Rightarrow> bond_providers \<Rightarrow> bond_providers res" where
  "add_provider c k na m bp =
     (if Address_Equals (mbBondAddress m) (naBondAddress na) \<and> mbBondProviderAddress m \<noteq> [] then
        if int (length (Providers bp)) \<ge> max_providers c k
        then Inl (Err ''additional bond providers are not allowed, maximum reached'')
        else if BondProviders_Has bp (mbBondProviderAddress m) then Inr bp
        else Inr (bp\<lparr>Providers := Providers bp @ [NewBondProvider (mbBondProviderAddress m)]\<rparr>)
      else Inr bp)"

definition bond_account :: "ctx \<Rightarrow> node_account \<Rightarrow> msg_bond \<Rightarrow> node_account" where
  "bond_account c na m =
     (if naStatus na = NodeStatus_Unknown
      then NewNodeAccount (mbNodeAddress m) NodeStatus_Whitelisted \<lparr>Secp256k1 = '''', Ed25519 = ''''\<rparr> '''' 0 (mbBondAddress m) (BlockHeight c)
      else na)"

definition Bond_handle ::
  "dec_lib \<Rightarrow> key_lib \<Rightarrow> 'b bank_lib \<Rightarrow> (acc \<Rightarrow> bool) \<Rightarrow> ctx \<Rightarrow> 'b bond_state \<Rightarrow> msg_bond \<Rightarrow> 'b bond_state res" where
  "Bond_handle D K B hasAcct c s m =
     (if \<not> cVersion3 c then Inl (Err ''bad version'')
      else res_bind (GetNodeAccount c (bsNode s) (mbNodeAddress m)) (\<lambda>na0.
        let na1 = bond_account c na0 m in
        res_bind (adjusted_providers D K c s na1) (\<lambda>bp.
        res_bind (uint_add (naBond na1) (mbBond m)) (\<lambda>bond.
          let (na2, amt, b) = first_bond B hasAcct (bsBank s) (na1\<lparr>naBond := bond\<rparr>) m in
          res_bind (add_provider c (bsKeeper s) na2 m bp) (\<lambda>bp1.
            case acc_from_bech32 K (mbBondAddress m) of
              None \<Rightarrow> Inl (Err ''fail to parse bond address'')
            | Some from \<Rightarrow>
                res_map (\<lambda>bp2.
                  let bp3 = (if mbOperatorFee m > - 1 \<and> mbOperatorFee m \<le> 10000
                             then bp2\<lparr>NodeOperatorFee := nat (mbOperatorFee m)\<rparr> else bp2)
                  in SetBondProviders ((put_nodes s (SetNodeAccount c (bsNode s) na2))\<lparr>bsBank := b\<rparr>) bp3)
                (if BondProviders_Has bp1 from then BondProviders_Bond bp1 amt from else Inr bp1))))))"

section \<open>Unbond\<close>

record msg_unbond =
  muTxIn :: tx
  muNodeAddress :: acc
  muAmount :: uint
  muBondAddress :: address
  muBondProviderAddress :: acc
  muSigner :: acc

definition MsgUnBond_ValidateBasic :: "msg_unbond \<Rightarrow> unit res" where
  "MsgUnBond_ValidateBasic m =
     (if muNodeAddress m = [] then Inl (Err ''node address cannot be empty'')
      else if Address_IsEmpty (muBondAddress m) then Inl (Err ''bond address cannot be empty'')
      else if TxID_IsEmpty (tID (muTxIn m)) then Inl (Err ''tx id cannot be empty'')
      else if Address_IsEmpty (tFromAddress (muTxIn m)) then Inl (Err ''tx from address cannot be empty'')
      else if muSigner m = [] then Inl (Err ''empty signer address'')
      else Inr ())"

definition Unbond_validate :: "key_lib \<Rightarrow> ctx \<Rightarrow> 'b bond_state \<Rightarrow> msg_unbond \<Rightarrow> unit res" where
  "Unbond_validate K c s m =
     res_bind (MsgUnBond_ValidateBasic m) (\<lambda>_.
       if \<not> Coins_IsEmpty (tCoins (muTxIn m)) then Inl (Err ''unbond message cannot have a non-zero coin amount'')
       else res_bind (GetNodeAccount c (bsNode s) (muNodeAddress m)) (\<lambda>na.
         if naStatus na = NodeStatus_Active \<or> naStatus na = NodeStatus_Ready
           then Inl (Err ''cannot unbond while node is in active or ready status'')
         else if GetConfigInt64 c (bsKeeper s) ''PauseUnbond'' > 0 then Inl (Err ''unbonding has been paused'')
         else res_bind (GetBondProviders s (muNodeAddress m)) (\<lambda>bp.
           case acc_from_bech32 K (muBondAddress m) of
             None \<Rightarrow> Inl (Err ''fail to parse bond address'')
           | Some from \<Rightarrow>
               if \<not> BondProviders_Has bp from \<and> \<not> Address_Equals (naBondAddress na) (muBondAddress m)
               then Inl (Err ''not authorized'') else Inr ())))"

definition bond_lock_period :: "ctx \<Rightarrow> kstore \<Rightarrow> int" where
  "bond_lock_period c k = (case GetMimir k ''BondLockupPeriod'' of
     Inl _ \<Rightarrow> GetInt64Value (cBuild c) ''BondLockupPeriod''
   | Inr v \<Rightarrow> if v < 0 then GetInt64Value (cBuild c) ''BondLockupPeriod'' else v)"

definition bond_locked :: "ctx \<Rightarrow> kstore \<Rightarrow> node_account \<Rightarrow> bool" where
  "bond_locked c k na \<longleftrightarrow> i64 (BlockHeight c - naStatusSince na) < bond_lock_period c k"

definition in_retiring_vault :: "key_lib \<Rightarrow> ctx \<Rightarrow> 'b bond_state \<Rightarrow> node_account \<Rightarrow> bool res" where
  "in_retiring_vault K c s na =
     res_map (list_ex (\<lambda>v. PubKeys_Contains (GetMembership K v) (Secp256k1 (naPubKeySet na))))
       (GetAsgardVaultsByStatus K c (bsVault s) VaultStatus_RetiringVault)"

definition drop_provider :: "'b bond_state \<Rightarrow> node_account \<Rightarrow> acc \<Rightarrow> 'b bond_state res" where
  "drop_provider s na a =
     res_map (\<lambda>bp. let p = BondProviders_Get bp a in
       if \<not> BondProvider_IsEmpty p \<and> bpBond p = 0
       then let (ok, bp') = BondProviders_Remove bp a in if ok then SetBondProviders s bp' else s
       else s) (GetBondProviders s (NodeAddress na))"

definition add_coin_bond :: "ctx \<Rightarrow> 'b bond_state \<Rightarrow> tx \<Rightarrow> node_account \<Rightarrow> 'b bond_state res" where
  "add_coin_bond c s t na =
     (let coin = GetCoin (tCoins t) SwitchNative in
      if Coin_IsEmpty coin then Inr s
      else res_map (\<lambda>b. put_nodes s (SetNodeAccount c (bsNode s) (na\<lparr>naBond := b\<rparr>))) (uint_add (naBond na) (cAmount coin)))"

definition Unbond_handle ::
  "dec_lib \<Rightarrow> key_lib \<Rightarrow> 'b bank_lib \<Rightarrow> ctx \<Rightarrow> 'b bond_state \<Rightarrow> msg_unbond \<Rightarrow> 'b bond_state res" where
  "Unbond_handle D K B c s m =
     (if \<not> cVersion3 c then Inl (Err ''bad version'')
      else res_bind (GetNodeAccount c (bsNode s) (muNodeAddress m)) (\<lambda>na.
        if bond_locked c (bsKeeper s) na then Inl (Err ''node can not unbond yet'')
        else res_bind (in_retiring_vault K c s na) (\<lambda>retiring.
          if retiring then Inl (Err ''fail to unbond, still part of the retiring vault'')
          else case acc_from_bech32 K (muBondAddress m) of
            None \<Rightarrow> Inl (Err ''fail to parse from address'')
          | Some from \<Rightarrow>
              if Address_Equals (muBondAddress m) (naBondAddress na) \<and> muBondProviderAddress m \<noteq> [] then
                res_bind (refundBond D K B c s (muBondProviderAddress m) (muAmount m) na) (\<lambda>(na1, s1).
                  case acc_from_bech32 K (naBondAddress na1) of
                    None \<Rightarrow> Inl (Err ''fail to refund bond'')
                  | Some bondAddr \<Rightarrow>
                      res_bind (if bondAddr = muBondProviderAddress m then Inr s1 else drop_provider s1 na1 (muBondProviderAddress m))
                        (\<lambda>s2. add_coin_bond c s2 (muTxIn m) na1))
              else res_bind (refundBond D K B c s from (muAmount m) na) (\<lambda>(na1, s1). add_coin_bond c s1 (muTxIn m) na1))))"

section \<open>Leave\<close>

record msg_leave =
  mlTx :: tx
  mlNodeAddress :: acc
  mlSigner :: acc

definition MsgLeave_ValidateBasic :: "msg_leave \<Rightarrow> unit res" where
  "MsgLeave_ValidateBasic m =
     (if Address_IsEmpty (tFromAddress (mlTx m)) then Inl (Err ''from address cannot be empty'')
      else if TxID_IsEmpty (tID (mlTx m)) then Inl (Err ''tx id cannot be empty'')
      else if mlSigner m = [] then Inl (Err ''signer cannot be empty'')
      else if mlNodeAddress m = [] then Inl (Err ''node address cannot be empty'')
      else Inr ())"

definition Leave_validate :: "msg_leave \<Rightarrow> unit res" where
  "Leave_validate m =
     res_bind (MsgLeave_ValidateBasic m) (\<lambda>_.
       guard_err (\<not> Coins_IsEmpty (tCoins (mlTx m))) ''leave message cannot have a non-zero coin amount'')"

text \<open>Besides the operator, a provider with the minimum bond may let an active node leave.\<close>

definition may_leave :: "key_lib \<Rightarrow> ctx \<Rightarrow> 'b bond_state \<Rightarrow> msg_leave \<Rightarrow> node_account \<Rightarrow> unit res" where
  "may_leave K c s m na =
     (if Address_Equals (naBondAddress na) (tFromAddress (mlTx m)) then Inr ()
      else if naStatus na \<noteq> NodeStatus_Active then Inl (Err ''not authorized when it is not Active'')
      else res_bind (GetBondProviders s (mlNodeAddress m)) (\<lambda>bp.
        if Providers bp = [] then Inl (Err ''not authorized'')
        else case acc_from_bech32 K (tFromAddress (mlTx m)) of
          None \<Rightarrow> Inl (Err ''fail to resolve bond provider AccAddress'')
        | Some a \<Rightarrow>
            guard_err (\<not> list_ex (\<lambda>p. BondAddress p = a \<and> bpBond p \<ge> uint64_of (GetConfigInt64 c (bsKeeper s) ''MinimumBondInSWITCH'')) (Providers bp))
              ''not authorized''))"

definition leave_score :: "ctx \<Rightarrow> mimir_state \<Rightarrow> node_account \<Rightarrow> 64 word" where
  "leave_score c n na =
     (let age = uint64_of (i64 (i64 (BlockHeight c - naStatusSince na) * int One)) in
      case GetNodeAccountSlashPoints n (NodeAddress na) of
        Inl _ \<Rightarrow> of_nat age
      | Inr pts \<Rightarrow> if pts = 0 then of_nat age else of_nat (age div uint64_of pts))"

text \<open>A standby node gets its bond back unless its key is a vault's or a member of a retiring vault.\<close>

definition leave_standby ::
  "dec_lib \<Rightarrow> key_lib \<Rightarrow> 'b bank_lib \<Rightarrow> ctx \<Rightarrow> 'b bond_state \<Rightarrow> acc \<Rightarrow> node_account \<Rightarrow> (node_account \<times> 'b bond_state) res" where
  "leave_standby D K B c s bondAddr na =
     (if bond_locked c (bsKeeper s) na then Inl (Err ''node can not unbond yet'')
      else res_bind (in_retiring_vault K c s na) (\<lambda>retiring.
        if retiring \<or> VaultExists (bsVault s) (Secp256k1 (naPubKeySet na)) then Inr (na, s)
        else res_map (\<lambda>(na1, s1). (UpdateStatus na1 NodeStatus_Disabled (BlockHeight c), s1)) (refundBond D K B c s bondAddr 0 na)))"

definition Leave_handle ::
  "dec_lib \<Rightarrow> key_lib \<Rightarrow> 'b bank_lib \<Rightarrow> ctx \<Rightarrow> 'b bond_state \<Rightarrow> msg_leave \<Rightarrow> 'b bond_state res" where
  "Leave_handle D K B c s m =
     (if \<not> cVersion3 c then Inl (Err ''bad version'')
      else res_bind (GetNodeAccount c (bsNode s) (mlNodeAddress m)) (\<lambda>na.
        if NodeAccount_IsEmpty na then Inl (Err ''node account doesn't exist'')
        else res_bind (may_leave K c s m na) (\<lambda>_.
          let coin = GetCoin (tCoins (mlTx m)) SwitchNative in
          res_bind (if Coin_IsEmpty coin then Inr na else res_map (\<lambda>b. na\<lparr>naBond := b\<rparr>) (uint_add (naBond na) (cAmount coin))) (\<lambda>na1.
            case acc_from_bech32 K (naBondAddress na1) of
              None \<Rightarrow> Inl (Err ''fail to refund bond'')
            | Some bondAddr \<Rightarrow>
                res_map (\<lambda>(na2, s1). put_nodes s1 (SetNodeAccount c (bsNode s1) (na2\<lparr>RequestedToLeave := True\<rparr>)))
                  (if naStatus na1 = NodeStatus_Active
                   then Inr (if LeaveScore na1 = 0 then na1\<lparr>LeaveScore := leave_score c (bsNode s) na1\<rparr> else na1, s)
                   else leave_standby D K B c s bondAddr na1)))))"

section \<open>The bonds of the nodes\<close>

definition put_node :: "mimir_state \<Rightarrow> node_account \<Rightarrow> mimir_state" where
  "put_node s na = s\<lparr>msNodes := queue_put (kv_key (NodeAddress na)) (Stored na) (msNodes s)\<rparr>"

interpretation node_store: record_store "\<lambda>s. map_of (msNodes s)" put_node "\<lambda>na. kv_key (NodeAddress na)"
  by unfold_locales (simp add: put_node_def map_of_queue_put)

definition bonded :: "mimir_state \<Rightarrow> nat" where
  "bonded s = kv_total naBond (map_of (msNodes s))"

text \<open>Nodes are stored under their address, and only with a status.\<close>

definition nodes_ok :: "mimir_state \<Rightarrow> bool" where
  "nodes_ok s \<longleftrightarrow> (\<forall>k na. map_of (msNodes s) k = Some (Stored na) \<longrightarrow> k = kv_key (NodeAddress na) \<and> \<not> NodeAccount_IsEmpty na)"

text \<open>The account agrees with what is stored under its address.\<close>

definition current :: "mimir_state \<Rightarrow> node_account \<Rightarrow> bool" where
  "current s na \<longleftrightarrow> slot_val naBond (map_of (msNodes s) (kv_key (NodeAddress na))) = naBond na
     \<and> (NodeAccount_IsEmpty na \<longrightarrow> naBond na = 0)"

lemma GetNodeAccount_current:
  assumes "nodes_ok s" and "GetNodeAccount c s a = Inr na"
  shows "current s na" and "kv_key (NodeAddress na) = kv_key a"
  using assms by (auto simp: GetNodeAccount_def kv_get_def nodes_ok_def current_def NewNodeAccount_def UpdateStatus_def
      split: option.splits slot.splits)

lemma SetNodeAccount_nodes:
  "map_of (msNodes (SetNodeAccount c s na)) = (if NodeAccount_IsEmpty na then map_of (msNodes s)
     else (map_of (msNodes s))(kv_key (NodeAddress na) \<mapsto> Stored
       (if naStatus na = NodeStatus_Active \<and> ActiveBlockHeight na = 0 then na\<lparr>ActiveBlockHeight := BlockHeight c\<rparr> else na)))"
  by (simp add: SetNodeAccount_def Let_def ResetNodeAccountSlashPoints_def map_of_queue_put)

lemma nodes_ok_set: "nodes_ok s \<Longrightarrow> nodes_ok (SetNodeAccount c s na)"
  by (auto simp: nodes_ok_def SetNodeAccount_nodes NodeAccount_IsEmpty_def split: if_splits)

lemma current_set:
  "\<not> NodeAccount_IsEmpty na \<Longrightarrow> NodeAddress na' = NodeAddress na \<Longrightarrow> naBond na' = naBond na \<Longrightarrow> (NodeAccount_IsEmpty na' \<longrightarrow> naBond na' = 0)
     \<Longrightarrow> current (SetNodeAccount c s na) na'"
  by (simp add: current_def SetNodeAccount_nodes)

lemma bonded_set:
  assumes "current s na" and "NodeAddress na' = NodeAddress na"
  shows "bonded (SetNodeAccount c s na') + naBond na = bonded s + (if NodeAccount_IsEmpty na' then naBond na else naBond na')"
proof (cases "NodeAccount_IsEmpty na'")
  case False
  define na1 where "na1 = (if naStatus na' = NodeStatus_Active \<and> ActiveBlockHeight na' = 0 then na'\<lparr>ActiveBlockHeight := BlockHeight c\<rparr> else na')"
  have addr: "NodeAddress na1 = NodeAddress na" "naBond na1 = naBond na'" using assms(2) by (simp_all add: na1_def)
  have "map_of (msNodes (SetNodeAccount c s na')) = map_of (msNodes (put_node s na1))"
    using False addr assms(2) by (simp add: SetNodeAccount_nodes put_node_def map_of_queue_put na1_def)
  moreover have "kv_total naBond (map_of (msNodes (put_node s na1))) + naBond na = kv_total naBond (map_of (msNodes s)) + naBond na1"
    using node_store.total_put [of s naBond na1] assms(1) addr by (simp add: current_def finite_dom_map_of)
  ultimately show ?thesis using False addr by (simp add: bonded_def)
qed (simp add: bonded_def SetNodeAccount_nodes)

section \<open>What the handlers take from the bond module\<close>

text \<open>
  From a state in which the bond module received \<open>paid\<close> for a new bond, an operation may spend from the
  module what it takes off the bonds.
\<close>

definition module_funds :: "'b bank_lib \<Rightarrow> 'b bond_state \<Rightarrow> nat" where
  "module_funds B s = GetSWITCHBalanceOfModule B (bsBank s) BondName"

definition settles :: "'b bank_lib \<Rightarrow> 'b bond_state \<Rightarrow> nat \<Rightarrow> 'b bond_state \<Rightarrow> bool" where
  "settles B s paid s' \<longleftrightarrow> nodes_ok (bsNode s')
     \<and> (\<exists>spent. bonded (bsNode s') + spent \<le> bonded (bsNode s) + paid \<and> module_funds B s \<le> module_funds B s' + spent)"

lemma settles_refl: "nodes_ok (bsNode s) \<Longrightarrow> settles B s 0 s"
  unfolding settles_def by (auto intro: exI [of _ 0])

lemma settles_trans: "settles B s p s1 \<Longrightarrow> settles B s1 q s2 \<Longrightarrow> settles B s (p + q) s2"
  unfolding settles_def
proof (elim conjE exE, intro conjI)
  fix x y
  assume "bonded (bsNode s1) + x \<le> bonded (bsNode s) + p" "module_funds B s \<le> module_funds B s1 + x"
    "bonded (bsNode s2) + y \<le> bonded (bsNode s1) + q" "module_funds B s1 \<le> module_funds B s2 + y"
  then show "\<exists>z. bonded (bsNode s2) + z \<le> bonded (bsNode s) + (p + q) \<and> module_funds B s \<le> module_funds B s2 + z"
    by (intro exI [of _ "x + y"]) linarith
qed

lemma bond_frames [simp]:
  "bsNode (put_nodes s n) = n" "bsBank (put_nodes s n) = bsBank s" "bsNode (SetBondProviders s bp) = bsNode s"
  "bsBank (SetBondProviders s bp) = bsBank s" "bsProviders (put_nodes s n) = bsProviders s"
  by (simp_all add: put_nodes_def SetBondProviders_def)

lemma module_funds_frames [simp]:
  "module_funds B (put_nodes s n) = module_funds B s" "module_funds B (SetBondProviders s bp) = module_funds B s"
  "module_funds B (s\<lparr>bsVault := v\<rparr>) = module_funds B s"
  by (simp_all add: module_funds_def)

lemma module_pays:
  assumes "bank_laws B" and "SendFromModuleToAccount B (bsBank s) BondName a (NewCoin SwitchNative n) = Inr b"
  shows "module_funds B s \<le> module_funds B (s'\<lparr>bsBank := b\<rparr>) + n"
  using bank_laws.balance_of_sender(2) [OF assms(1)] assms(2) by (simp add: module_funds_def transfer_defs NewCoin_def)

lemma UpdateStatus_fields [simp]: "NodeAddress (UpdateStatus na st h) = NodeAddress na" "naBond (UpdateStatus na st h) = naBond na"
  "naBondAddress (UpdateStatus na st h) = naBondAddress na"
  by (simp_all add: UpdateStatus_def Let_def)

lemma pay_provider_pays:
  assumes "bank_laws B" and "pay_provider B b a amt na bp = Inr (b', na', bp')"
  shows "\<exists>paid. paid \<le> amt \<and> paid \<le> bpBond (BondProviders_Get bp a) \<and> na' = na\<lparr>naBond := naBond na - paid\<rparr>
    \<and> GetSWITCHBalanceOfModule B b BondName \<le> GetSWITCHBalanceOfModule B b' BondName + paid"
proof (cases "BondProvider_IsEmpty (BondProviders_Get bp a) \<or> bpBond (BondProviders_Get bp a) = 0")
  case True
  with assms(2) show ?thesis by (intro exI [of _ 0]) (auto simp: pay_provider_def Let_def)
next
  case False
  define n where "n = (if amt > bpBond (BondProviders_Get bp a) then bpBond (BondProviders_Get bp a) else amt)"
  from False assms(2) have send: "SendFromModuleToAccount B b BondName (BondAddress (BondProviders_Get bp a)) (NewCoin SwitchNative n) = Inr b'"
    and "na' = na\<lparr>naBond := naBond na - n\<rparr>"
    by (auto simp: pay_provider_def Let_def res_simps n_def SafeSub_def)
  with bank_laws.balance_of_sender(2) [OF assms(1)] show ?thesis
    by (intro exI [of _ n]) (simp add: transfer_defs NewCoin_def n_def)
qed

lemma refund_settles:
  assumes laws: "bank_laws B" and ok: "nodes_ok (bsNode s)" and cur: "current (bsNode s) na"
    and run: "refundBond D K B c s a amt na = Inr (na', s')"
  shows "\<exists>paid. naBond na' + paid = naBond na \<and> (amt \<noteq> 0 \<longrightarrow> paid \<le> amt)
    \<and> (0 < paid \<longrightarrow> (\<exists>bp. adjusted_providers D K c s na = Inr bp \<and> paid \<le> bpBond (BondProviders_Get bp a)
          \<and> naStatus na \<noteq> NodeStatus_Active \<and> naStatus na \<noteq> NodeStatus_Ready))
    \<and> bonded (bsNode s') + paid = bonded (bsNode s) \<and> module_funds B s \<le> module_funds B s' + paid
    \<and> nodes_ok (bsNode s') \<and> current (bsNode s') na' \<and> NodeAddress na' = NodeAddress na"
proof (cases "naStatus na = NodeStatus_Active \<or> naStatus na = NodeStatus_Ready")
  case True
  with run ok cur show ?thesis by (intro exI [of _ 0]) (auto simp: refundBond_def)
next
  case False
  define amt1 where "amt1 = (if amt = 0 \<or> amt > naBond na then naBond na else amt)"
  from False run obtain bp b na1 bp1 where bp: "adjusted_providers D K c s na = Inr bp"
    and pay: "pay_provider B (bsBank s) a amt1 na bp = Inr (b, na1, bp1)"
    and na': "na' = (if RequestedToLeave na1 then UpdateStatus na1 NodeStatus_Disabled (BlockHeight c) else na1)"
    and s': "s' = SetBondProviders ((put_nodes s (SetNodeAccount c (bsNode s) na'))\<lparr>bsBank := b\<rparr>) bp1"
    by (auto simp: refundBond_def Let_def res_simps amt1_def)
  obtain n where n: "n \<le> amt1" "n \<le> bpBond (BondProviders_Get bp a)" "na1 = na\<lparr>naBond := naBond na - n\<rparr>"
    "GetSWITCHBalanceOfModule B (bsBank s) BondName \<le> GetSWITCHBalanceOfModule B b BondName + n"
    using pay_provider_pays [OF laws pay] by blast
  have le: "n \<le> naBond na" "amt \<noteq> 0 \<longrightarrow> n \<le> amt" using n(1) by (auto simp: amt1_def split: if_splits)
  have flds: "NodeAddress na' = NodeAddress na" "naBond na' = naBond na - n" by (simp_all add: na' n(3))
  have empty: "NodeAccount_IsEmpty na' \<longrightarrow> NodeAccount_IsEmpty na"
    by (auto simp: na' n(3) NodeAccount_IsEmpty_def UpdateStatus_def Let_def split: if_splits)
  then have zero: "NodeAccount_IsEmpty na' \<longrightarrow> naBond na = 0" using cur by (auto simp: current_def)
  have "bonded (bsNode s') + n = bonded (bsNode s)"
    using bonded_set [OF cur flds(1), of c] zero le(1) flds(2) by (auto simp: s' split: if_splits)
  moreover have "current (bsNode s') na'"
  proof (cases "NodeAccount_IsEmpty na'")
    case True
    with cur zero flds le(1) show ?thesis by (simp add: s' current_def SetNodeAccount_nodes)
  next
    case False
    then show ?thesis by (simp add: s' current_set)
  qed
  moreover have "module_funds B s \<le> module_funds B s' + n" using n(4) by (simp add: s' module_funds_def)
  ultimately show ?thesis using False flds le n(2) bp ok by (intro exI [of _ n]) (auto simp: s' nodes_ok_set)
qed

lemma coins_empty_get: "Coins_IsEmpty cs \<Longrightarrow> Coin_IsEmpty (GetCoin cs a)"
  by (auto simp: Coins_IsEmpty_def GetCoin_def list_all_iff NoCoin_def NewCoin_def Coin_IsEmpty_def dest!: find_SomeD split: option.splits)

lemma drop_provider_frames: "drop_provider s na a = Inr s' \<Longrightarrow> bsNode s' = bsNode s \<and> bsBank s' = bsBank s"
  by (auto simp: drop_provider_def Let_def res_simps split: if_splits prod.splits)

text \<open>Who is paid by an unbond message.\<close>

definition unbond_receiver :: "key_lib \<Rightarrow> msg_unbond \<Rightarrow> node_account \<Rightarrow> acc" where
  "unbond_receiver K m na = (if Address_Equals (muBondAddress m) (naBondAddress na) \<and> muBondProviderAddress m \<noteq> []
     then muBondProviderAddress m else the (acc_from_bech32 K (muBondAddress m)))"

lemma unbond_settles:
  assumes laws: "bank_laws B" and ok: "nodes_ok (bsNode s)" and na: "GetNodeAccount c (bsNode s) (muNodeAddress m) = Inr na"
    and val: "Coins_IsEmpty (tCoins (muTxIn m))" and run: "Unbond_handle D K B c s m = Inr s'"
  shows "\<exists>na' s1. refundBond D K B c s (unbond_receiver K m na) (muAmount m) na = Inr (na', s1)
    \<and> bsNode s' = bsNode s1 \<and> bsBank s' = bsBank s1"
  using run na val
  by (auto simp: Unbond_handle_def res_simps unbond_receiver_def add_coin_bond_def Let_def coins_empty_get
      dest: drop_provider_frames split: if_splits option.splits)

lemma leave_settles:
  assumes laws: "bank_laws B" and ok: "nodes_ok (bsNode s)"
    and val: "Leave_validate m = Inr ()" and run: "Leave_handle D K B c s m = Inr s'"
  shows "settles B s 0 s'"
proof -
  have coins: "Coin_IsEmpty (GetCoin (tCoins (mlTx m)) SwitchNative)"
    using val by (auto simp: Leave_validate_def res_simps intro: coins_empty_get)
  from run coins obtain na bondAddr na2 s1 where na: "GetNodeAccount c (bsNode s) (mlNodeAddress m) = Inr na" "\<not> NodeAccount_IsEmpty na"
    and step: "(if naStatus na = NodeStatus_Active
        then Inr (if LeaveScore na = 0 then na\<lparr>LeaveScore := leave_score c (bsNode s) na\<rparr> else na, s)
        else leave_standby D K B c s bondAddr na) = Inr (na2, s1)"
    and s': "s' = put_nodes s1 (SetNodeAccount c (bsNode s1) (na2\<lparr>RequestedToLeave := True\<rparr>))"
    by (auto simp: Leave_handle_def Let_def res_simps split: if_splits option.splits)
  have cur: "current (bsNode s) na" by (rule GetNodeAccount_current [OF ok na(1)])
  have mid: "settles B s 0 s1 \<and> current (bsNode s1) (na2\<lparr>RequestedToLeave := True\<rparr>) \<and> nodes_ok (bsNode s1)"
  proof (cases "naStatus na = NodeStatus_Active")
    case True
    with step ok cur show ?thesis
      by (auto simp: settles_refl current_def NodeAccount_IsEmpty_def split: if_splits)
  next
    case False
    show ?thesis
    proof (cases "na2 = na \<and> s1 = s")
      case True
      with ok cur show ?thesis by (auto simp: settles_refl current_def NodeAccount_IsEmpty_def)
    next
      case same: False
      with False step obtain na1 where r: "refundBond D K B c s bondAddr 0 na = Inr (na1, s1)"
        and na2: "na2 = UpdateStatus na1 NodeStatus_Disabled (BlockHeight c)"
        by (auto simp: leave_standby_def res_simps split: if_splits)
      from refund_settles [OF laws ok cur r] obtain paid where
        p: "bonded (bsNode s1) + paid = bonded (bsNode s)" "module_funds B s \<le> module_funds B s1 + paid" "nodes_ok (bsNode s1)"
          "current (bsNode s1) na1" by blast
      then have "settles B s 0 s1" by (auto simp: settles_def intro: exI [of _ paid])
      moreover have "current (bsNode s1) (na2\<lparr>RequestedToLeave := True\<rparr>)"
        using p(4) by (auto simp: current_def na2 NodeAccount_IsEmpty_def UpdateStatus_def Let_def split: if_splits)
      ultimately show ?thesis using p(3) by blast
    qed
  qed
  have "settles B s1 0 s'"
    using bonded_set [of "bsNode s1" "na2\<lparr>RequestedToLeave := True\<rparr>" "na2\<lparr>RequestedToLeave := True\<rparr>" c] mid
    by (auto simp: settles_def s' nodes_ok_set intro!: exI [of _ 0])
  with settles_trans [of B s 0 s1 0 s'] mid show ?thesis by simp
qed

lemma bond_account_current:
  assumes "nodes_ok s" and "GetNodeAccount c s (mbNodeAddress m) = Inr na"
  shows "current s (bond_account c na m) \<and> kv_key (NodeAddress (bond_account c na m)) = kv_key (mbNodeAddress m)"
proof (cases "naStatus na = NodeStatus_Unknown")
  case True
  then have "NodeAccount_IsEmpty na" by (simp add: NodeAccount_IsEmpty_def)
  with GetNodeAccount_current [OF assms] True show ?thesis
    by (simp add: bond_account_def current_def NewNodeAccount_def UpdateStatus_def Let_def)
next
  case False
  with GetNodeAccount_current [OF assms] show ?thesis by (simp add: bond_account_def)
qed

lemma first_bond_cases:
  assumes "bank_laws B" and "first_bond B hasAcct b na m = (na', amt, b')"
  shows "NodeAddress na' = NodeAddress na
    \<and> (\<exists>spent. GetSWITCHBalanceOfModule B b BondName \<le> GetSWITCHBalanceOfModule B b' BondName + spent
        \<and> (NodeAccount_IsEmpty na' \<and> spent = 0 \<or> naStatus na' = naStatus na \<and> naBond na' + spent = naBond na))"
proof (cases "\<not> hasAcct (mbNodeAddress m) \<and> naBond na \<ge> One")
  case True
  show ?thesis
  proof (cases "SendFromModuleToAccount B b BondName (mbNodeAddress m) (NewCoin SwitchNative One)")
    case (Inl e)
    with True assms(2) show ?thesis by (auto simp: first_bond_def Let_def NodeAccount_IsEmpty_def intro: exI [of _ 0])
  next
    case (Inr b1)
    with True assms(2) have "na' = na\<lparr>naBond := naBond na - One\<rparr>" "b' = b1"
      by (auto simp: first_bond_def Let_def SafeSub_def)
    moreover have "GetSWITCHBalanceOfModule B b BondName \<le> GetSWITCHBalanceOfModule B b1 BondName + One"
      using bank_laws.balance_of_sender(2) [OF assms(1)] Inr by (simp add: transfer_defs NewCoin_def)
    ultimately show ?thesis using True by (auto intro: exI [of _ One])
  qed
next
  case False
  with assms(2) show ?thesis by (auto simp: first_bond_def intro: exI [of _ 0])
qed

lemma bond_settles:
  assumes laws: "bank_laws B" and ok: "nodes_ok (bsNode s)" and run: "Bond_handle D K B hasAcct c s m = Inr s'"
  shows "settles B s (mbBond m) s'"
proof -
  obtain na0 where na0: "GetNodeAccount c (bsNode s) (mbNodeAddress m) = Inr na0"
    using run by (auto simp: Bond_handle_def res_simps split: if_splits)
  define na1 where "na1 = bond_account c na0 m"
  obtain na2 amt b where fb: "first_bond B hasAcct (bsBank s) (na1\<lparr>naBond := naBond na1 + mbBond m\<rparr>) m = (na2, amt, b)"
    by (cases "first_bond B hasAcct (bsBank s) (na1\<lparr>naBond := naBond na1 + mbBond m\<rparr>) m")
  from run na0 fb obtain bp where s': "s' = SetBondProviders ((put_nodes s (SetNodeAccount c (bsNode s) na2))\<lparr>bsBank := b\<rparr>) bp"
    by (auto simp: Bond_handle_def Let_def res_simps uint_simps na1_def split: if_splits option.splits)
  have cur: "current (bsNode s) na1" using bond_account_current [OF ok na0] by (simp add: na1_def)
  from first_bond_cases [OF laws fb] obtain spent where addr: "NodeAddress na2 = NodeAddress na1"
    and bal: "GetSWITCHBalanceOfModule B (bsBank s) BondName \<le> GetSWITCHBalanceOfModule B b BondName + spent"
    and cs: "NodeAccount_IsEmpty na2 \<and> spent = 0 \<or> naStatus na2 = naStatus na1 \<and> naBond na2 + spent = naBond na1 + mbBond m" by auto
  have b: "bonded (bsNode s') + naBond na1 = bonded (bsNode s) + (if NodeAccount_IsEmpty na2 then naBond na1 else naBond na2)"
    using bonded_set [OF cur addr, of c] by (simp add: s')
  show ?thesis
  proof (cases "NodeAccount_IsEmpty na2")
    case True
    then have "spent \<le> mbBond m" using cs cur addr by (auto simp: current_def NodeAccount_IsEmpty_def)
    with True b bal ok show ?thesis
      by (auto simp: settles_def s' nodes_ok_set module_funds_def intro!: exI [of _ spent])
  next
    case False
    with b cs bal ok show ?thesis
      by (auto simp: settles_def s' nodes_ok_set module_funds_def intro!: exI [of _ spent])
  qed
qed

lemma fee_settles:
  assumes laws: "bank_laws B" and ok: "nodes_ok (bsNode s)" and run: "DeductNativeTxFeeFromBond D B c pools s a = Inr s'"
  shows "settles B s 0 s'"
proof (cases "GetNativeTxFee D c (bsKeeper s) pools = Inr 0")
  case True
  with run ok show ?thesis by (simp add: DeductNativeTxFeeFromBond_def settles_refl)
next
  case False
  with run obtain fee na b where fee: "GetNativeTxFee D c (bsKeeper s) pools = Inr fee" "fee \<noteq> 0"
    and na: "GetNodeAccount c (bsNode s) a = Inr na" "fee \<le> naBond na"
    and snd: "SendFromModuleToModule B (bsBank s) BondName ReserveName (NewCoin SwitchNative fee) = Inr b"
    and s': "s' = (put_nodes s (SetNodeAccount c (bsNode s) (na\<lparr>naBond := naBond na - fee\<rparr>)))\<lparr>bsBank := b\<rparr>"
    by (auto simp: DeductNativeTxFeeFromBond_def Let_def res_simps SafeSub_def split: if_splits)
  have cur: "current (bsNode s) na" by (rule GetNodeAccount_current [OF ok na(1)])
  have "\<not> NodeAccount_IsEmpty na" using cur fee(2) na(2) by (auto simp: current_def)
  then have "bonded (bsNode s') + fee = bonded (bsNode s)"
    using bonded_set [OF cur, of "na\<lparr>naBond := naBond na - fee\<rparr>" c] na(2) by (simp add: s' NodeAccount_IsEmpty_def)
  moreover have "module_funds B s \<le> module_funds B s' + fee"
    using bank_laws.balance_of_sender(2) [OF laws] snd by (simp add: s' module_funds_def transfer_defs NewCoin_def)
  ultimately show ?thesis using ok by (auto simp: settles_def s' nodes_ok_set intro!: exI [of _ fee])
qed

section \<open>Runs\<close>

text \<open>
  The messages in any order: a bond message comes with a transfer of the bond from its payer to the bond
  module, and the other handlers run after their validation. Besides, the fee of a node's own messages is
  taken from its bond, the bond module receives funds, nodes change without gaining bond (status changes,
  slashes), and votes, vaults and the configuration change.
\<close>

inductive bond_step :: "dec_lib \<Rightarrow> key_lib \<Rightarrow> 'b bank_lib \<Rightarrow> 'b bond_state \<Rightarrow> 'b bond_state \<Rightarrow> bool"
  for D :: dec_lib and K :: key_lib and B :: "'b bank_lib" where
  bond: "payer \<noteq> bank_module B BondName \<Longrightarrow>
     SendFromAccountToModule B (bsBank s) payer BondName (NewCoin SwitchNative (mbBond m)) = Inr b \<Longrightarrow>
     Bond_validate A K c (s\<lparr>bsBank := b\<rparr>) m = Inr () \<Longrightarrow> Bond_handle D K B hasAcct c (s\<lparr>bsBank := b\<rparr>) m = Inr s' \<Longrightarrow> bond_step D K B s s'"
| unbond: "Unbond_validate K c s m = Inr () \<Longrightarrow> Unbond_handle D K B c s m = Inr s' \<Longrightarrow> bond_step D K B s s'"
| leave: "Leave_validate m' = Inr () \<Longrightarrow> Leave_handle D K B c s m' = Inr s' \<Longrightarrow> bond_step D K B s s'"
| fee: "DeductNativeTxFeeFromBond D B c pools s a = Inr s' \<Longrightarrow> bond_step D K B s s'"
| funds: "module_funds B s \<le> module_funds B (s\<lparr>bsBank := b\<rparr>) \<Longrightarrow> bond_step D K B s (s\<lparr>bsBank := b\<rparr>)"
| node: "GetNodeAccount c (bsNode s) a = Inr na \<Longrightarrow> NodeAddress na' = NodeAddress na \<Longrightarrow> naBond na' \<le> naBond na \<Longrightarrow>
     bond_step D K B s (put_nodes s (SetNodeAccount c (bsNode s) na'))"
| other: "msNodes (vsNode v) = msNodes (bsNode s) \<Longrightarrow> bond_step D K B s (s\<lparr>bsVault := v, bsJails := js\<rparr>)"

inductive bond_run :: "dec_lib \<Rightarrow> key_lib \<Rightarrow> 'b bank_lib \<Rightarrow> 'b bond_state \<Rightarrow> bool"
  for D :: dec_lib and K :: key_lib and B :: "'b bank_lib" where
  start: "msNodes (bsNode s) = [] \<Longrightarrow> bond_run D K B s"
| step: "bond_run D K B s \<Longrightarrow> bond_step D K B s s' \<Longrightarrow> bond_run D K B s'"

definition backed :: "'b bank_lib \<Rightarrow> 'b bond_state \<Rightarrow> bool" where
  "backed B s \<longleftrightarrow> nodes_ok (bsNode s) \<and> bonded (bsNode s) \<le> module_funds B s"

lemma settles_backed: "settles B s 0 s' \<Longrightarrow> backed B s \<Longrightarrow> backed B s'"
  by (auto simp: settles_def backed_def)

lemma bond_step_backed:
  assumes laws: "bank_laws B" and step: "bond_step D K B s s'" and inv: "backed B s"
  shows "backed B s'"
  using step
proof cases
  case (bond payer m b A c hasAcct)
  have "module_funds B (s\<lparr>bsBank := b\<rparr>) = module_funds B s + mbBond m"
    using bank_laws.balance_of_receiver [OF laws, of "bsBank s" payer "bank_module B BondName"] bond(1,2)
    by (simp add: module_funds_def transfer_defs NewCoin_def)
  moreover have "settles B (s\<lparr>bsBank := b\<rparr>) (mbBond m) s'"
    using bond_settles [OF laws _ bond(4)] inv by (simp add: backed_def)
  ultimately show ?thesis using inv by (auto simp: settles_def backed_def)
next
  case (unbond c m)
  then obtain na where na: "GetNodeAccount c (bsNode s) (muNodeAddress m) = Inr na" and coins: "Coins_IsEmpty (tCoins (muTxIn m))"
    by (auto simp: Unbond_validate_def res_simps split: if_splits)
  have ok: "nodes_ok (bsNode s)" using inv by (simp add: backed_def)
  from unbond_settles [OF laws ok na coins unbond(2)] obtain na' s1
    where r: "refundBond D K B c s (unbond_receiver K m na) (muAmount m) na = Inr (na', s1)" "bsNode s' = bsNode s1" "bsBank s' = bsBank s1" by blast
  from refund_settles [OF laws ok GetNodeAccount_current(1) [OF ok na] r(1)] show ?thesis
    using inv r(2,3) by (auto simp: backed_def module_funds_def)
next
  case (leave m' c)
  then show ?thesis using leave_settles [OF laws _ leave] settles_backed inv by (auto simp: backed_def)
next
  case (fee c pools a)
  then show ?thesis using fee_settles [OF laws _ fee] settles_backed inv by (auto simp: backed_def)
next
  case (funds b)
  then show ?thesis using inv by (simp add: backed_def)
next
  case (node c a na na')
  have ok: "nodes_ok (bsNode s)" using inv by (simp add: backed_def)
  from bonded_set [OF GetNodeAccount_current(1) [OF ok node(2)] node(3), of c] node(4) show ?thesis
    using inv by (auto simp: backed_def node(1) nodes_ok_set split: if_splits)
next
  case (other v js)
  then show ?thesis using inv by (simp add: backed_def bonded_def nodes_ok_def module_funds_def)
qed

lemma bond_run_backed:
  assumes laws: "bank_laws B" and "bond_run D K B s"
  shows "backed B s"
  using assms(2)
proof (induction rule: bond_run.induct)
  case (start s)
  then show ?case by (simp add: backed_def nodes_ok_def bonded_def kv_total_def)
next
  case (step s s')
  then show ?case by (intro bond_step_backed [OF laws step.hyps(2)])
qed

section \<open>Properties\<close>

text \<open>C3. The bond module always holds at least the bonds of all nodes together: bonding, unbonding, leaving and
  fees take from the module no more than they take off the bonds.\<close>

theorem bond_module_backs_bonds:
  assumes "bank_laws B" and "bond_run D K B s"
  shows "kv_total naBond (map_of (msNodes (bsNode s))) \<le> GetSWITCHBalanceOfModule B (bsBank s) BondName"
  using bond_run_backed [OF assms] by (simp add: backed_def bonded_def module_funds_def)

definition bond_start :: "plain_bank bond_state" where
  "bond_start = \<lparr>bsVault = no_vaults, bsProviders = Map.empty, bsJails = Map.empty,
     bsBank = ((\<lambda>a d. if a = ''switch1op'' \<and> d = Asset_Native SwitchNative then 5 else 0), (\<lambda>_. 5))\<rparr>"

definition demo_bond :: msg_bond where
  "demo_bond = \<lparr>mbTxIn = \<lparr>tID = ''t'', tChain = SWITCHLYChain, tFromAddress = ''switch1op'', tToAddress = ''switch1bond'',
     tCoins = [NewCoin SwitchNative 3], tGas = [NewCoin SwitchNative 1], tMemo = ''b''\<rparr>,
     mbNodeAddress = ''n'', mbBond = 3, mbBondAddress = ''switch1op'', mbBondProviderAddress = '''', mbSigner = ''switch1op'', mbOperatorFee = - 1\<rparr>"

definition paid_bank :: plain_bank where
  "paid_bank = ((\<lambda>a d. if d = Asset_Native SwitchNative then if a = ''switch1op'' then 2 else if a = ''module/bond'' then 3 else 0 else 0), (\<lambda>_. 5))"

lemma demo_bond_valid: "MsgBond_ValidateBasic demo_bond = Inr ()" "IsChain plain_addrs ''switch1op'' SWITCHLYChain"
  "kv_key ''n'' = ''N''" "\<not> Address_Equals ''switch1op'' ''''" "Address_IsEmpty ''''" "acc_from_bech32 plain_keys ''switch1op'' = Some ''switch1op''"
  "Address_Equals ''switch1op'' ''switch1op''"
  by code_simp+

lemmas bond_eval = bond_start_def no_vaults_def demo_bond_def demo_ctx_def empty_kstore_def GetNodeAccount_def kv_get_def kv_set_def
  NewNodeAccount_def UpdateStatus_def GetConfigInt64_def GetMimir_def GetInt64Value_def above_max_bond_def GetBondProviders_def NewBondProviders_def

lemma demo_bond_paid:
  "SendFromAccountToModule plain_bank (bsBank bond_start) ''switch1op'' BondName (NewCoin SwitchNative (mbBond demo_bond)) = Inr paid_bank"
  by (simp add: transfer_defs plain_bank_def bond_start_def demo_bond_def BondName_def NewCoin_def paid_bank_def fun_eq_iff Let_def)

lemma demo_bond_validate: "Bond_validate plain_addrs plain_keys demo_ctx (bond_start\<lparr>bsBank := paid_bank\<rparr>) demo_bond = Inr ()"
  using demo_bond_valid by (simp add: Bond_validate_def bond_eval uint_eval)

definition bonded_state :: "plain_bank bond_state" where
  "bonded_state = bond_start\<lparr>bsVault := no_vaults\<lparr>vsNode := (vsNode no_vaults)\<lparr>msNodes := [(''N'', Stored
       (NewNodeAccount ''n'' NodeStatus_Whitelisted \<lparr>Secp256k1 = '''', Ed25519 = ''''\<rparr> '''' 3 ''switch1op'' 10))]\<rparr>\<rparr>,
     bsBank := paid_bank, bsProviders := [''N'' \<mapsto> Stored \<lparr>bpNodeAddress = ''n'', NodeOperatorFee = 0, Providers = [\<lparr>BondAddress = ''switch1op'', bpBond = 3\<rparr>]\<rparr>]\<rparr>"

lemma bonded_state_reached: "Bond_handle legacy_dec plain_keys plain_bank (\<lambda>_. True) demo_ctx (bond_start\<lparr>bsBank := paid_bank\<rparr>) demo_bond = Inr bonded_state"
  using demo_bond_valid
  by (simp add: Bond_handle_def bond_eval uint_eval bond_account_def adjusted_providers_def passiveBackfill_def BondProviders_Adjust_def
      first_bond_def add_provider_def BondProviders_Has_def BondProviders_Get_def BondProviders_Bond_def NewBondProvider_def
      BondProvider_IsEmpty_def Let_def SetNodeAccount_def NodeAccount_IsEmpty_def bonded_state_def put_nodes_def SetBondProviders_def uint64_of_def)

lemma demo_bond_run: "bond_run legacy_dec plain_keys plain_bank bonded_state"
proof -
  have "bond_run legacy_dec plain_keys plain_bank bond_start" by (rule bond_run.start) (simp add: bond_start_def no_vaults_def)
  moreover have "''switch1op'' \<noteq> bank_module plain_bank BondName" by (simp add: plain_bank_def)
  then have "bond_step legacy_dec plain_keys plain_bank bond_start bonded_state"
    by (rule bond_step.bond [OF _ demo_bond_paid demo_bond_validate bonded_state_reached])
  ultimately show ?thesis by (rule bond_run.step)
qed

theorem bond_module_backs_bonds_witness:
  "kv_total naBond (map_of (msNodes (bsNode bonded_state))) = 3
     \<and> kv_total naBond (map_of (msNodes (bsNode bonded_state))) \<le> GetSWITCHBalanceOfModule plain_bank (bsBank bonded_state) BondName"
proof
  show "kv_total naBond (map_of (msNodes (bsNode bonded_state))) = 3"
    by (simp add: bonded_state_def kv_total_def NewNodeAccount_def UpdateStatus_def)
qed (rule bond_module_backs_bonds [OF plain_bank.bank_laws_axioms demo_bond_run])

text \<open>C8. An unbond message that succeeds takes off the node's bond exactly what the node loses, never more than asked
  for and never more than the adjusted bond of the provider that is paid; the node is then neither active nor
  ready, its bond is not locked and it is in no retiring vault.\<close>

theorem unbond_bounded:
  assumes "bank_laws B" and "bond_run D K B s" and "Unbond_validate K c s m = Inr ()" and "Unbond_handle D K B c s m = Inr s'"
    and "GetNodeAccount c (bsNode s) (muNodeAddress m) = Inr na"
  shows "\<exists>paid. kv_total naBond (map_of (msNodes (bsNode s'))) + paid = kv_total naBond (map_of (msNodes (bsNode s)))
    \<and> GetSWITCHBalanceOfModule B (bsBank s) BondName \<le> GetSWITCHBalanceOfModule B (bsBank s') BondName + paid
    \<and> paid \<le> naBond na \<and> (muAmount m \<noteq> 0 \<longrightarrow> paid \<le> muAmount m)
    \<and> (0 < paid \<longrightarrow> (\<exists>bp. adjusted_providers D K c s na = Inr bp \<and> paid \<le> bpBond (BondProviders_Get bp (unbond_receiver K m na))))
    \<and> naStatus na \<noteq> NodeStatus_Active \<and> naStatus na \<noteq> NodeStatus_Ready
    \<and> \<not> bond_locked c (bsKeeper s) na \<and> in_retiring_vault K c s na = Inr False"
proof -
  have ok: "nodes_ok (bsNode s)" using bond_run_backed [OF assms(1,2)] by (simp add: backed_def)
  have coins: "Coins_IsEmpty (tCoins (muTxIn m))" and st: "naStatus na \<noteq> NodeStatus_Active \<and> naStatus na \<noteq> NodeStatus_Ready"
    using assms(3,5) by (auto simp: Unbond_validate_def res_simps split: if_splits)
  have free: "\<not> bond_locked c (bsKeeper s) na \<and> in_retiring_vault K c s na = Inr False"
    using assms(4,5) by (auto simp: Unbond_handle_def res_simps split: if_splits)
  from unbond_settles [OF assms(1) ok assms(5) coins assms(4)] obtain na' s1
    where r: "refundBond D K B c s (unbond_receiver K m na) (muAmount m) na = Inr (na', s1)" "bsNode s' = bsNode s1" "bsBank s' = bsBank s1" by blast
  from refund_settles [OF assms(1) ok GetNodeAccount_current(1) [OF ok assms(5)] r(1)] obtain paid where
    p: "naBond na' + paid = naBond na" "muAmount m \<noteq> 0 \<longrightarrow> paid \<le> muAmount m"
       "0 < paid \<longrightarrow> (\<exists>bp. adjusted_providers D K c s na = Inr bp \<and> paid \<le> bpBond (BondProviders_Get bp (unbond_receiver K m na)))"
       "bonded (bsNode s1) + paid = bonded (bsNode s)" "module_funds B s \<le> module_funds B s1 + paid" by blast
  show ?thesis
    using p r(2,3) st free by (intro exI [of _ paid]) (auto simp: bonded_def module_funds_def)
qed

definition demo_unbond :: msg_unbond where
  "demo_unbond = \<lparr>muTxIn = (mbTxIn demo_bond)\<lparr>tCoins := []\<rparr>, muNodeAddress = ''n'', muAmount = 2, muBondAddress = ''switch1op'',
     muBondProviderAddress = '''', muSigner = ''switch1op''\<rparr>"

lemma demo_unbond_valid: "MsgUnBond_ValidateBasic demo_unbond = Inr ()" "Coins_IsEmpty []" "PubKeys_Contains [] ''''  = False"
  by code_simp+

lemmas unbond_eval = bonded_state_def bond_eval demo_unbond_def BondProviders_Has_def BondProviders_Get_def
      BondProvider_IsEmpty_def

lemma demo_unbond_validate: "Unbond_validate plain_keys demo_ctx bonded_state demo_unbond = Inr ()"
  using demo_bond_valid demo_unbond_valid
  by (simp add: Unbond_validate_def unbond_eval)

lemma demo_unbond_runs: "\<exists>s'. Unbond_handle legacy_dec plain_keys plain_bank demo_ctx bonded_state demo_unbond = Inr s'"
proof -
  have na: "GetNodeAccount demo_ctx (bsNode bonded_state) ''n'' = Inr
      (NewNodeAccount ''n'' NodeStatus_Whitelisted \<lparr>Secp256k1 = '''', Ed25519 = ''''\<rparr> '''' 3 ''switch1op'' 10)" (is "_ = Inr ?na")
    using demo_bond_valid(3) by (simp add: bonded_state_def GetNodeAccount_def kv_get_def)
  have free: "\<not> bond_locked demo_ctx (bsKeeper bonded_state) ?na"
    by (simp add: bond_locked_def bond_lock_period_def unbond_eval i64_def)
  have ret: "in_retiring_vault plain_keys demo_ctx bonded_state ?na = Inr False"
    by (simp add: in_retiring_vault_def GetAsgardVaultsByStatus_def GetAsgardVaults_def getAsgardIndex_def unbond_eval)
  have adj: "adjusted_providers legacy_dec plain_keys demo_ctx bonded_state ?na
      = Inr \<lparr>bpNodeAddress = ''n'', NodeOperatorFee = 0, Providers = [\<lparr>BondAddress = ''switch1op'', bpBond = 3\<rparr>]\<rparr>"
    using demo_bond_valid(3)
    by (simp add: adjusted_providers_def passiveBackfill_def BondProviders_Adjust_def uint_eval GetBondProviders_def bonded_state_def
        NewNodeAccount_def UpdateStatus_def kv_get_def)
  have "bsBank bonded_state = paid_bank" by (simp add: bonded_state_def)
  then have "\<exists>b. SendFromModuleToAccount plain_bank (bsBank bonded_state) BondName ''switch1op'' (NewCoin SwitchNative 2) = Inr b"
    by (simp add: transfer_defs plain_bank_def paid_bank_def BondName_def NewCoin_def)
  then obtain b where b: "SendFromModuleToAccount plain_bank (bsBank bonded_state) BondName ''switch1op'' (NewCoin SwitchNative 2) = Inr b" ..
  have v3: "cVersion3 demo_ctx" by (simp add: demo_ctx_def)
  have st: "naStatus ?na = NodeStatus_Whitelisted" "naBond ?na = 3" by (simp_all add: NewNodeAccount_def UpdateStatus_def Let_def)
  have "\<exists>r. refundBond legacy_dec plain_keys plain_bank demo_ctx bonded_state ''switch1op'' 2 ?na = Inr r"
    by (simp add: refundBond_def adj pay_provider_def Let_def BondProviders_Get_def BondProvider_IsEmpty_def b st)
  then show ?thesis
    using v3 na free ret demo_bond_valid(6) coins_empty_get [OF demo_unbond_valid(2), of SwitchNative]
    by (auto simp: Unbond_handle_def demo_unbond_def add_coin_bond_def Let_def split: prod.splits)
qed

theorem unbond_bounded_witness:
  "\<exists>na s' paid. GetNodeAccount demo_ctx (bsNode bonded_state) (muNodeAddress demo_unbond) = Inr na
     \<and> Unbond_handle legacy_dec plain_keys plain_bank demo_ctx bonded_state demo_unbond = Inr s'
     \<and> kv_total naBond (map_of (msNodes (bsNode s'))) + paid = kv_total naBond (map_of (msNodes (bsNode bonded_state))) \<and> paid \<le> naBond na"
proof -
  obtain s' where run: "Unbond_handle legacy_dec plain_keys plain_bank demo_ctx bonded_state demo_unbond = Inr s'"
    using demo_unbond_runs by blast
  then obtain na where na: "GetNodeAccount demo_ctx (bsNode bonded_state) (muNodeAddress demo_unbond) = Inr na"
    by (auto simp: Unbond_handle_def res_simps split: if_splits)
  from unbond_bounded [OF plain_bank.bank_laws_axioms demo_bond_run demo_unbond_validate run na] run na show ?thesis by blast
qed

text \<open>A jail sentence is never reduced, and slash points never become negative.\<close>

lemma jail_not_reduced:
  assumes "SetNodeAccountJail s a h reason = Inr s'" and "GetNodeAccountJail s a = Inr j"
  shows "\<exists>j'. GetNodeAccountJail s' a = Inr j' \<and> jlReleaseHeight j \<le> jlReleaseHeight j' \<and> h \<le> jlReleaseHeight j'"
  using assms by (auto simp: SetNodeAccountJail_def GetNodeAccountJail_def kv_get_def kv_set_def res_simps)

lemma slash_points_nonneg:
  "GetNodeAccountSlashPoints (SetNodeAccountSlashPoints s a pts) a = Inr (max 0 pts)"
  by (simp add: GetNodeAccountSlashPoints_def SetNodeAccountSlashPoints_def kv_get_def kv_set_def)

lemma SetNodeMimir_nodes: "SetNodeMimir s key v a = Inr s' \<Longrightarrow> msNodes s' = msNodes s"
  by (auto simp: SetNodeMimir_def Let_def res_simps split: if_splits)

lemma apply_votes_nodes: "apply_votes it c s msg v = Inr s' \<Longrightarrow> msNodes s' = msNodes s"
  by (auto simp: apply_votes_def Let_def res_simps split: if_splits)

lemma mimir_nodes:
  assumes "Mimir_handle it cost send c s msg = Inr s'" and "GetNodeAccount c s (mmSigner msg) = Inr na"
  shows "msNodes s' = msNodes (SetNodeAccount c s (na\<lparr>naBond := SafeSub (naBond na) cost\<rparr>))"
proof -
  obtain s1 v where "SetNodeMimir (SetNodeAccount c s (na\<lparr>naBond := SafeSub (naBond na) cost\<rparr>)) (mmKey msg) (mmValue msg) (mmSigner msg) = Inr s1"
    "s' = s1 \<or> apply_votes it c s1 msg v = Inr s'"
    using assms unfolding Mimir_handle_def Let_def by (auto simp only: res_simps sum.inject split: if_splits)
  then show ?thesis using SetNodeMimir_nodes apply_votes_nodes by metis
qed


text \<open>A second node bonds one unit; the fee of its vote is two.\<close>

definition second_bond :: msg_bond where
  "second_bond = demo_bond\<lparr>mbTxIn := (mbTxIn demo_bond)\<lparr>tCoins := [NewCoin SwitchNative 1]\<rparr>, mbNodeAddress := ''o'', mbBond := 1\<rparr>"

definition bank_of :: "nat \<Rightarrow> nat \<Rightarrow> nat \<Rightarrow> plain_bank" where
  "bank_of x y z = ((\<lambda>a d. if d = Asset_Native SwitchNative then if a = ''switch1op'' then x else if a = ''module/bond'' then y
     else if a = ''module/reserve'' then z else 0 else 0), (\<lambda>_. 5))"

lemma second_bond_valid: "MsgBond_ValidateBasic second_bond = Inr ()" "kv_key ''o'' = ''O''" "str_less ''N'' ''O''" "\<not> str_less ''O'' ''N''"
  by code_simp+

lemma second_bond_paid:
  "SendFromAccountToModule plain_bank (bsBank bonded_state) ''switch1op'' BondName (NewCoin SwitchNative (mbBond second_bond)) = Inr (bank_of 1 4 0)"
  by (simp add: transfer_defs plain_bank_def bonded_state_def second_bond_def BondName_def NewCoin_def paid_bank_def bank_of_def fun_eq_iff Let_def)

definition node_with :: "acc \<Rightarrow> uint \<Rightarrow> node_account" where
  "node_with a n = NewNodeAccount a NodeStatus_Whitelisted \<lparr>Secp256k1 = '''', Ed25519 = ''''\<rparr> '''' n ''switch1op'' 10"

lemma second_bond_validate:
  "Bond_validate plain_addrs plain_keys demo_ctx (bonded_state\<lparr>bsBank := bank_of 1 4 0\<rparr>) second_bond = Inr ()"
  using demo_bond_valid second_bond_valid
  by (simp add: Bond_validate_def bonded_state_def second_bond_def bond_eval uint_eval)

definition two_nodes :: mimir_state where
  "two_nodes = (vsNode no_vaults)\<lparr>msNodes := [(''N'', Stored (node_with ''n'' 3)), (''O'', Stored (node_with ''o'' 1))]\<rparr>"

lemma second_bond_handle:
  "\<exists>s'. Bond_handle legacy_dec plain_keys plain_bank (\<lambda>_. True) demo_ctx (bonded_state\<lparr>bsBank := bank_of 1 4 0\<rparr>) second_bond = Inr s'
     \<and> bsBank s' = bank_of 1 4 0 \<and> bsNode s' = two_nodes"
  using demo_bond_valid second_bond_valid
  by (simp add: Bond_handle_def bonded_state_def second_bond_def bond_eval uint_eval bond_account_def adjusted_providers_def passiveBackfill_def
      BondProviders_Adjust_def first_bond_def add_provider_def BondProviders_Has_def BondProviders_Get_def BondProviders_Bond_def
      NewBondProvider_def node_with_def BondProvider_IsEmpty_def Let_def SetNodeAccount_def NodeAccount_IsEmpty_def two_nodes_def)

lemma second_vote:
  "\<exists>n. Mimir_handle rev 2 (\<lambda>_. Inr ()) demo_ctx two_nodes \<lparr>mmKey = ''FEE'', mmValue = - 1, mmSigner = ''o''\<rparr> = Inr n"
  "GetNodeAccount demo_ctx two_nodes ''o'' = Inr (node_with ''o'' 1)"
  using second_bond_valid mimir_keys
  by (simp_all add: Mimir_handle_def two_nodes_def bond_eval node_with_def SetNodeMimir_def GetNodeMimirs_def Let_def
      SetNodeAccount_def NodeAccount_IsEmpty_def NodeMimirs_Set_def NodeMimirs_Delete_def)

lemma second_fee:
  "SendFromModuleToModule plain_bank (bank_of 1 4 0) BondName ReserveName (NewCoin SwitchNative 2) = Inr (bank_of 1 2 2)"
  by (simp add: transfer_defs plain_bank_def BondName_def ReserveName_def NewCoin_def bank_of_def fun_eq_iff Let_def)


end
