(* ===== verification/Memo_Types.thy ===== *)
theory Memo_Types
  imports Coins
begin

text \<open>
  The types of memos: \<^verbatim>\<open>src/x/switchly/memo/memo.go\<close>. The parser and the memos are in the theory \<open>Memos\<close>.
\<close>

datatype TxType = TxUnknown | TxAdd | TxWithdraw | TxSwap | TxLimitSwap | TxOutbound | TxDonate | TxBond | TxUnbond
  | TxLeave | TxReserve | TxRefund | TxMigrate | TxRagnarok | TxNoOp | TxConsolidate | TxSWITCHName | TxLoanOpen
  | TxLoanRepayment | TxTradeAccountDeposit | TxTradeAccountWithdrawal | TxSecuredAssetDeposit | TxSecuredAssetWithdraw
  | TxSwitchPoolDeposit | TxSwitchPoolWithdraw | TxExec | TxSwitch | TxSWCYClaim | TxSWCYStake | TxSWCYUnstake | TxMaint

definition stringToTxTypeMap :: "(string \<times> TxType) list" where
  "stringToTxTypeMap = [(''add'', TxAdd), (''+'', TxAdd), (''withdraw'', TxWithdraw), (''wd'', TxWithdraw), (''-'', TxWithdraw),
     (''swap'', TxSwap), (''s'', TxSwap), (''='', TxSwap), (''=<'', TxLimitSwap), (''out'', TxOutbound), (''donate'', TxDonate),
     (''d'', TxDonate), (''bond'', TxBond), (''unbond'', TxUnbond), (''leave'', TxLeave), (''reserve'', TxReserve),
     (''refund'', TxRefund), (''migrate'', TxMigrate), (''ragnarok'', TxRagnarok), (''noop'', TxNoOp),
     (''consolidate'', TxConsolidate), (''name'', TxSWITCHName), (''n'', TxSWITCHName), (''~'', TxSWITCHName),
     (''$+'', TxLoanOpen), (''loan+'', TxLoanOpen), (''$-'', TxLoanRepayment), (''loan-'', TxLoanRepayment),
     (''trade+'', TxTradeAccountDeposit), (''trade-'', TxTradeAccountWithdrawal), (''secure+'', TxSecuredAssetDeposit),
     (''secure-'', TxSecuredAssetWithdraw), (''pool+'', TxSwitchPoolDeposit), (''pool-'', TxSwitchPoolWithdraw),
     (''x'', TxExec), (''exec'', TxExec), (''switch'', TxSwitch), (''tcy'', TxSWCYClaim), (''tcy+'', TxSWCYStake),
     (''tcy-'', TxSWCYUnstake), (''maint'', TxMaint)]"

text \<open>A type without an entry prints as the empty string.\<close>

fun TxType_String :: "TxType \<Rightarrow> string" where
  "TxType_String TxAdd = ''add''"
| "TxType_String TxWithdraw = ''withdraw''"
| "TxType_String TxSwap = ''swap''"
| "TxType_String TxLimitSwap = ''=<''"
| "TxType_String TxOutbound = ''out''"
| "TxType_String TxRefund = ''refund''"
| "TxType_String TxDonate = ''donate''"
| "TxType_String TxBond = ''bond''"
| "TxType_String TxUnbond = ''unbond''"
| "TxType_String TxLeave = ''leave''"
| "TxType_String TxReserve = ''reserve''"
| "TxType_String TxMigrate = ''migrate''"
| "TxType_String TxRagnarok = ''ragnarok''"
| "TxType_String TxNoOp = ''noop''"
| "TxType_String TxConsolidate = ''consolidate''"
| "TxType_String TxSWITCHName = ''switchlyname''"
| "TxType_String TxLoanOpen = ''$+''"
| "TxType_String TxLoanRepayment = ''$-''"
| "TxType_String TxTradeAccountDeposit = ''trade+''"
| "TxType_String TxTradeAccountWithdrawal = ''trade-''"
| "TxType_String TxSecuredAssetDeposit = ''secure+''"
| "TxType_String TxSecuredAssetWithdraw = ''secure-''"
| "TxType_String TxExec = ''x''"
| "TxType_String TxSwitch = ''switch''"
| "TxType_String TxSWCYClaim = ''tcy''"
| "TxType_String TxSWCYStake = ''tcy+''"
| "TxType_String TxSWCYUnstake = ''tcy-''"
| "TxType_String TxMaint = ''maint''"
| "TxType_String _ = ''''"

definition StringToTxType :: "string \<Rightarrow> TxType res" where
  "StringToTxType s = (case map_of stringToTxTypeMap (to_lower s) of Some t \<Rightarrow> Inr t | None \<Rightarrow> Inl (Err ''invalid tx type''))"

definition TxType_IsInbound :: "TxType \<Rightarrow> bool" where
  "TxType_IsInbound t \<longleftrightarrow> t \<in> set [TxAdd, TxWithdraw, TxTradeAccountDeposit, TxTradeAccountWithdrawal, TxSwitchPoolDeposit,
     TxSwitchPoolWithdraw, TxSecuredAssetDeposit, TxSecuredAssetWithdraw, TxSwap, TxLimitSwap, TxDonate, TxBond, TxUnbond,
     TxLeave, TxMaint, TxReserve, TxNoOp, TxSWITCHName, TxLoanOpen, TxLoanRepayment, TxExec, TxSwitch, TxSWCYClaim,
     TxSWCYStake, TxSWCYUnstake]"

definition TxType_IsOutbound :: "TxType \<Rightarrow> bool" where
  "TxType_IsOutbound t \<longleftrightarrow> t \<in> set [TxOutbound, TxRefund, TxRagnarok]"

definition TxType_IsInternal :: "TxType \<Rightarrow> bool" where
  "TxType_IsInternal t \<longleftrightarrow> t \<in> set [TxMigrate, TxConsolidate]"

definition HasOutbound :: "TxType \<Rightarrow> bool" where
  "HasOutbound t \<longleftrightarrow> t \<notin> set [TxAdd, TxBond, TxTradeAccountDeposit, TxSecuredAssetDeposit, TxSwitchPoolDeposit, TxDonate,
     TxReserve, TxMigrate, TxMaint, TxRagnarok]"

text \<open>The type a memo starts with: the text before the first bar, up to the first colon.\<close>

definition memo_parts :: "string \<Rightarrow> string list" where
  "memo_parts memo = split_on CHR '':'' (hd (split_on CHR ''|'' memo))"

definition memo_type :: "string \<Rightarrow> TxType res" where
  "memo_type memo = (if memo = [] then Inl (Err ''memo can't be empty'') else StringToTxType (hd (memo_parts memo)))"

text \<open>Every type but the unknown one is of exactly one direction.\<close>

lemma tx_directions:
  "t \<noteq> TxUnknown \<longleftrightarrow> TxType_IsInbound t \<or> TxType_IsOutbound t \<or> TxType_IsInternal t"
  "\<not> (TxType_IsInbound t \<and> TxType_IsOutbound t)" "\<not> (TxType_IsInbound t \<and> TxType_IsInternal t)"
  "\<not> (TxType_IsOutbound t \<and> TxType_IsInternal t)"
  by (cases t; simp add: TxType_IsInbound_def TxType_IsOutbound_def TxType_IsInternal_def)+

end
