(* ===== verification/Outbounds.thy ===== *)
theory Outbounds
  imports Vault_Store Memo_Types
begin

text \<open>
  The outbound manager: \<^verbatim>\<open>src/x/switchly/manager_txout_current.go\<close> with the clout of swappers
  (\<^verbatim>\<open>types/type_clout.go\<close>, \<^verbatim>\<open>keeper/v1/keeper_clout.go\<close>). Modelled are the selection of the vaults that
  send an outbound, the clout, and the height an outbound is scheduled at.

  The address of a public key on a chain is the argument \<open>addr_of\<close>, as in \<open>Vault_Store\<close>.
\<close>

section \<open>Clout\<close>

record swapper_clout =
  scAddress :: address
  Score :: uint
  Reclaimed :: uint
  Spent :: uint
  LastSpentHeight :: int
  LastReclaimHeight :: int

definition NewSwapperClout :: "address \<Rightarrow> swapper_clout" where
  "NewSwapperClout a = \<lparr>scAddress = a, Score = 0, Reclaimed = 0, Spent = 0, LastSpentHeight = 0, LastReclaimHeight = 0\<rparr>"

definition SwapperClout_Valid :: "swapper_clout \<Rightarrow> unit res" where
  "SwapperClout_Valid c = guard_err (\<not> Address_IsEmpty (scAddress c)) ''invalid swapper clout address''"

definition Available :: "swapper_clout \<Rightarrow> uint" where
  "Available c = SafeSub (Score c) (SafeSub (Spent c) (Reclaimed c))"

definition Claimable :: "swapper_clout \<Rightarrow> uint" where
  "Claimable c = SafeSub (Spent c) (Reclaimed c)"

definition Reclaim :: "swapper_clout \<Rightarrow> uint \<Rightarrow> swapper_clout res" where
  "Reclaim c v = res_map (\<lambda>r. c\<lparr>Reclaimed := (if r > Spent c then Spent c else r)\<rparr>) (uint_add (Reclaimed c) v)"

definition Restore :: "swapper_clout \<Rightarrow> int \<Rightarrow> int \<Rightarrow> swapper_clout" where
  "Restore c height limit = (if i64 (LastSpentHeight c + limit) < height then c\<lparr>Reclaimed := Spent c\<rparr> else c)"

record outbound_state =
  obVault :: vault_state
  obClouts :: "swapper_clout kv"
  obVoters :: "observed_tx_voter kv"

abbreviation obKeeper :: "outbound_state \<Rightarrow> kstore" where
  "obKeeper s \<equiv> vsKeeper (obVault s)"

definition SetSwapperClout :: "outbound_state \<Rightarrow> swapper_clout \<Rightarrow> outbound_state" where
  "SetSwapperClout s c = s\<lparr>obClouts := kv_set (obClouts s) (kv_key (scAddress c)) c\<rparr>"

definition GetSwapperClout :: "outbound_state \<Rightarrow> address \<Rightarrow> swapper_clout res" where
  "GetSwapperClout s a =
     (if Address_IsEmpty a then Inr (NewSwapperClout a) else kv_get (obClouts s) (kv_key a) (NewSwapperClout a))"

definition GetObservedTxInVoter :: "outbound_state \<Rightarrow> txid \<Rightarrow> observed_tx_voter res" where
  "GetObservedTxInVoter s h = kv_get (obVoters s) (kv_key h) (NewObservedTxVoter h [])"

text \<open>An error is logged and the record the read started from is used.\<close>

definition clout_of :: "outbound_state \<Rightarrow> address \<Rightarrow> swapper_clout" where
  "clout_of s a = (case GetSwapperClout s a of Inl _ \<Rightarrow> NewSwapperClout a | Inr c \<Rightarrow> c)"

definition sender_of :: "outbound_state \<Rightarrow> txid \<Rightarrow> address" where
  "sender_of s h = (case GetObservedTxInVoter s h of Inl _ \<Rightarrow> '''' | Inr v \<Rightarrow> tFromAddress (oTx (vTx v)))"

definition cap_clouts :: "uint \<Rightarrow> uint \<Rightarrow> uint \<Rightarrow> uint \<times> uint" where
  "cap_clouts limit c1 c2 =
     (let half = limit div 2 in
      if c1 > half \<and> c2 > half then (half, half)
      else if c1 > c2 then (SafeSub limit c2, c2)
      else if c2 > c1 then (c1, SafeSub limit c1)
      else (c1, c2))"

definition splitClout :: "uint \<Rightarrow> uint \<Rightarrow> uint \<Rightarrow> uint \<Rightarrow> (uint \<times> uint \<times> uint) res" where
  "splitClout limit c1 c2 v =
     res_bind (uint_add c1 c2) (\<lambda>t0.
       let (d1, d2) = (if t0 > limit then cap_clouts limit c1 c2 else (c1, c2)) in
       res_bind (uint_add d1 d2) (\<lambda>t.
         if t > limit then Inr (0, 0, v)
         else if t = 0 then Inr (0, 0, v)
         else let applied = min t v in
           res_bind (uint_mul applied d1) (\<lambda>x.
           res_bind (uint_quo x t) (\<lambda>a1.
           res_bind (uint_sub applied a1) (\<lambda>a2.
           res_map (\<lambda>sum. (a1, a2, SafeSub v sum)) (uint_add a1 a2))))))"

definition calcClout :: "ctx \<Rightarrow> outbound_state \<Rightarrow> uint \<Rightarrow> tx_out_item \<Rightarrow> ((uint \<times> uint) \<times> outbound_state) res" where
  "calcClout c s v toi =
     (if toiAggregator toi \<noteq> [] \<or> toiAggregatorTargetAsset toi \<noteq> [] \<or> toiAggregatorTargetLimit toi \<noteq> None then Inr ((v, 0), s)
      else
        let reset = GetConfigInt64 c (obKeeper s) ''CloutReset'';
            limit = GetConfigInt64 c (obKeeper s) ''CloutLimit'';
            cout = Restore (clout_of s (toiToAddress toi)) (BlockHeight c) reset;
            cin = Restore (clout_of s (sender_of s (toiInHash toi))) (BlockHeight c) reset
        in res_bind (splitClout (SafeUintFromInt64 limit) (Available cin) (Available cout) v) (\<lambda>(a1, a2, v').
           res_bind (uint_add v' a1) (\<lambda>x. res_bind (uint_add x a2) (\<lambda>total.
             if total \<noteq> v then Inr ((v, 0), s)
             else
               res_bind (if a1 = 0 then Inr s else res_map (\<lambda>n. SetSwapperClout s (cin\<lparr>Spent := n, LastSpentHeight := BlockHeight c\<rparr>))
                   (uint_add (Spent cin) a1)) (\<lambda>s1.
               res_bind (if a2 = 0 then Inr s1
                   else res_bind (if Address_Equals (scAddress cin) (scAddress cout) then uint_add (Spent cout) a1 else Inr (Spent cout)) (\<lambda>n.
                        res_map (\<lambda>n'. SetSwapperClout s1 (cout\<lparr>Spent := n', LastSpentHeight := BlockHeight c\<rparr>)) (uint_add n a2))) (\<lambda>s2.
               res_map (\<lambda>a. ((v', a), s2)) (uint_add a1 a2)))))))"

section \<open>Vaults for an outbound\<close>

definition frozen_for :: "vault \<Rightarrow> chain \<Rightarrow> bool" where
  "frozen_for v ch = Chains_Has (fst (NewChains (vtFrozen v))) ch"

definition necessary :: "asset \<Rightarrow> uint \<Rightarrow> vault \<Rightarrow> nat" where
  "necessary a amount v = amount div cAmount (Vault_GetCoin v a)"

text \<open>
  With more than one vault, those without the asset or frozen for the chain are left out and the others are
  sorted by how many vaults of that size the amount would need. The estimate is a \<open>uint64\<close>.
\<close>

definition order_vaults :: "asset \<Rightarrow> uint \<Rightarrow> chain \<Rightarrow> vault list \<Rightarrow> vault list res" where
  "order_vaults a amount ch vs =
     (if length vs \<le> 1 then Inr vs
      else let ws = filter (\<lambda>v. cAmount (Vault_GetCoin v a) \<noteq> 0 \<and> \<not> frozen_for v ch) vs in
        if list_ex (\<lambda>v. necessary a amount v \<ge> 2 ^ 64) ws then Inl (Panic ''Uint64() out of bounds'')
        else Inr (sort_by (\<lambda>v w. necessary a amount v < necessary a amount w) ws))"

text \<open>What a vault can contribute: nothing when it cannot send, else its coins less the gas when they are of the gas asset.\<close>

definition vault_offer ::
  "(pubkey \<Rightarrow> chain \<Rightarrow> address option) \<Rightarrow> uint \<Rightarrow> coin \<Rightarrow> tx_out_item \<Rightarrow> vault \<Rightarrow> uint option" where
  "vault_offer addr_of fee gas toi v =
     (case addr_of (PubKeyForChain v (toiChain toi)) (toiChain toi) of
        None \<Rightarrow> None
      | Some fromAddr \<Rightarrow>
          if Address_IsEmpty fromAddr \<or> Address_Equals (toiToAddress toi) fromAddr then None
          else let amt = cAmount (Vault_GetCoin v (cAsset (toiCoin toi))); g = Vault_GetCoin v (GetGasAsset (toiChain toi)) in
            if amt \<le> fee then None
            else if Coin_IsEmpty g \<or> cAmount g < cAmount gas then None
            else if Asset_Equals (cAsset (toiCoin toi)) (cAsset gas) then
              (if SafeSub amt (cAmount gas) = 0 then None else Some (SafeSub amt (cAmount gas)))
            else Some amt)"

fun assign_vaults ::
  "(pubkey \<Rightarrow> chain \<Rightarrow> address option) \<Rightarrow> uint \<Rightarrow> coin \<Rightarrow> tx_out_item \<Rightarrow> vault list \<Rightarrow> tx_out_item list \<times> uint" where
  "assign_vaults addr_of fee gas toi [] = ([], cAmount (toiCoin toi))"
| "assign_vaults addr_of fee gas toi (v # vs) =
     (case vault_offer addr_of fee gas toi v of
        None \<Rightarrow> assign_vaults addr_of fee gas toi vs
      | Some offer \<Rightarrow>
          let toi1 = toi\<lparr>toiVaultPubKey := vtPubKey v\<rparr>; amt = cAmount (toiCoin toi) in
          if amt \<le> offer then ([toi1], 0)
          else let remaining = SafeSub amt offer;
                   out = toi1\<lparr>toiCoin := (toiCoin toi)\<lparr>cAmount := SafeSub amt remaining\<rparr>\<rparr>;
                   (outs, rest) = assign_vaults addr_of fee gas (toi1\<lparr>toiCoin := (toiCoin toi)\<lparr>cAmount := remaining\<rparr>\<rparr>) vs
               in (out # outs, rest))"

definition DiscoverOutbounds ::
  "(pubkey \<Rightarrow> chain \<Rightarrow> address option) \<Rightarrow> uint \<Rightarrow> coin \<Rightarrow> tx_out_item \<Rightarrow> vault list \<Rightarrow> (tx_out_item list \<times> uint) res" where
  "DiscoverOutbounds addr_of fee gas toi vs =
     res_map (assign_vaults addr_of fee gas toi)
       (order_vaults (cAsset (toiCoin toi)) (cAmount (toiCoin toi)) (GetChain (cAsset gas)) vs)"

section \<open>The height of an outbound\<close>

text \<open>The scheduled value and clout of the coming blocks.\<close>

fun scheduled_value ::
  "dec_lib \<Rightarrow> vault_state \<Rightarrow> int \<Rightarrow> int list \<Rightarrow> uint \<times> uint \<Rightarrow> (uint \<times> uint) res" where
  "scheduled_value D s limit [] acc = Inr acc"
| "scheduled_value D s limit (h # hs) (sv, cv) =
     (case GetTxOutValue D s h of
        Inl (Panic e) \<Rightarrow> Inl (Panic e)
      | Inl (Err e) \<Rightarrow> scheduled_value D s limit hs (sv, cv)
      | Inr (v, cl) \<Rightarrow>
          if h > limit \<and> v = 0 then Inr (sv, cv)
          else res_bind (uint_add sv v) (\<lambda>sv'. res_bind (uint_add cv cl) (\<lambda>cv'. scheduled_value D s limit hs (sv', cv'))))"

text \<open>The first block from the target on that has room, at most \<open>n\<close> blocks later.\<close>

fun find_block :: "dec_lib \<Rightarrow> vault_state \<Rightarrow> uint \<Rightarrow> uint \<Rightarrow> nat \<Rightarrow> int \<Rightarrow> int res" where
  "find_block D s threshold v 0 target = Inr target"
| "find_block D s threshold v (Suc n) target =
     (case GetTxOutValue D s target of
        Inl (Panic e) \<Rightarrow> Inl (Panic e)
      | Inl (Err e) \<Rightarrow> Inr target
      | Inr (w, _) \<Rightarrow>
          if w = 0 then Inr target
          else res_bind (uint_add w v) (\<lambda>x. if x \<le> threshold then Inr target else find_block D s threshold v n (i64 (target + 1))))"

definition delay_rate :: "uint \<Rightarrow> uint \<Rightarrow> uint \<Rightarrow> uint \<Rightarrow> uint res" where
  "delay_rate rate threshold sumValue cloutValue =
     res_bind (uint_mul One (SafeSub sumValue cloutValue)) (\<lambda>x.
     res_map (\<lambda>reduction. if reduction \<ge> rate then 1 else rate - reduction) (uint_quo x threshold))"

definition is_outbound_memo :: "string \<Rightarrow> bool" where
  "is_outbound_memo memo = (case memo_type memo of Inr t \<Rightarrow> t = TxRefund \<or> t = TxOutbound | Inl _ \<Rightarrow> False)"

definition CalcTxOutHeight ::
  "dec_lib \<Rightarrow> ctx \<Rightarrow> outbound_state \<Rightarrow> tx_out_item \<Rightarrow> ((int \<times> uint) \<times> outbound_state) res" where
  "CalcTxOutHeight D c s toi =
     (let k = obKeeper s; h = BlockHeight c;
          threshold = GetConfigInt64 c k ''MinTxOutVolumeThreshold'';
          rate = GetConfigInt64 c k ''TxOutDelayRate'';
          delayMax = GetConfigInt64 c k ''TxOutDelayMax'';
          maxOffset = GetConfigInt64 c k ''MaxTxOutOffset''
      in if \<not> is_outbound_memo (toiMemo toi) then Inr ((h, 0), s)
      else if threshold \<le> 0 \<or> rate \<le> 0 \<or> maxOffset \<le> 0 then Inr ((h, 0), s)
      else res_bind (GetTOIsValue D k [toi]) (\<lambda>(v0, _).
        res_bind (calcClout c s v0 toi) (\<lambda>((v, clout), s1).
          if v = 0 then Inr ((h, clout), s1)
          else res_bind (scheduled_value D (obVault s1) (i64 (h + maxOffset)) [i64 (h + 1)..i64 (h + delayMax)] (v, 0)) (\<lambda>(sv, cv).
            res_bind (delay_rate (nat rate) (nat threshold) sv cv) (\<lambda>r.
            res_bind (uint_quo v r) (\<lambda>q.
              let minBlocks = (if q > nat maxOffset then nat maxOffset else q) in
              res_map (\<lambda>target. ((target, clout), s1))
                (find_block D (obVault s1) (nat threshold) v (nat delayMax) (i64 (h + int minBlocks)))))))))"

section \<open>The queue of the current block\<close>

definition GetBlockOut :: "ctx \<Rightarrow> vault_state \<Rightarrow> tx_out res" where
  "GetBlockOut c s = GetTxOut s (BlockHeight c)"

definition GetOutboundItemByToAddress :: "ctx \<Rightarrow> vault_state \<Rightarrow> address \<Rightarrow> tx_out_item list" where
  "GetOutboundItemByToAddress c s to = filter (\<lambda>t. Address_Equals (toiToAddress t) to) (tx_array s (BlockHeight c))"

definition ClearOutboundItems :: "ctx \<Rightarrow> vault_state \<Rightarrow> vault_state" where
  "ClearOutboundItems c s = ClearTxOut s (BlockHeight c)"

text \<open>An item that leaves the network joins the queue of its height with every pointer set.\<close>

definition addToBlockOut_external :: "vault_state \<Rightarrow> tx_out_item \<Rightarrow> int \<Rightarrow> vault_state res" where
  "addToBlockOut_external s item h =
     AppendTxOut s h (item\<lparr>toiAggregatorTargetLimit := (case toiAggregatorTargetLimit item of None \<Rightarrow> Some 0 | x \<Rightarrow> x),
       toiCloutSpent := (case toiCloutSpent item of None \<Rightarrow> Some 0 | x \<Rightarrow> x)\<rparr>)"

text \<open>The clout is shared over the outputs in proportion to their amounts; the last one takes the remainder.\<close>

fun share_clout :: "dec_lib \<Rightarrow> uint \<Rightarrow> uint \<Rightarrow> uint \<Rightarrow> tx_out_item list \<Rightarrow> tx_out_item list res" where
  "share_clout D sumOut clout used [] = Inr []"
| "share_clout D sumOut clout used [o'] = Inr [o'\<lparr>toiCloutSpent := Some (SafeSub clout used)\<rparr>]"
| "share_clout D sumOut clout used (o' # os) =
     (let x = GetSafeShare D (cAmount (toiCoin o')) sumOut clout in
      res_bind (uint_add used x) (\<lambda>used'. res_map ((#) (o'\<lparr>toiCloutSpent := Some x\<rparr>)) (share_clout D sumOut clout used' os)))"

section \<open>Lemmas\<close>

definition offer_of :: "(pubkey \<Rightarrow> chain \<Rightarrow> address option) \<Rightarrow> uint \<Rightarrow> coin \<Rightarrow> tx_out_item \<Rightarrow> vault \<Rightarrow> nat" where
  "offer_of addr_of fee gas toi v = (case vault_offer addr_of fee gas toi v of None \<Rightarrow> 0 | Some n \<Rightarrow> n)"

lemma offer_frame:
  "vault_offer addr_of fee gas (toi\<lparr>toiVaultPubKey := pk, toiCoin := (toiCoin toi)\<lparr>cAmount := n\<rparr>\<rparr>) v = vault_offer addr_of fee gas toi v"
  by (cases "addr_of (PubKeyForChain v (toiChain toi)) (toiChain toi)") (simp_all add: vault_offer_def Let_def)

text \<open>What is left is what the offers do not cover, and each output is covered by the vault it is sent from.\<close>

lemma assign_vaults_exact:
  assumes "assign_vaults addr_of fee gas toi vs = (outs, rest)"
  shows "sum_list (map (\<lambda>o'. cAmount (toiCoin o')) outs) + rest = cAmount (toiCoin toi)
    \<and> rest = cAmount (toiCoin toi) - sum_list (map (offer_of addr_of fee gas toi) vs)"
  using assms
proof (induction vs arbitrary: toi outs rest)
  case (Cons v vs)
  show ?case
  proof (cases "vault_offer addr_of fee gas toi v")
    case None
    with Cons show ?thesis by (simp add: offer_of_def)
  next
    case (Some n)
    define toi2 where "toi2 = toi\<lparr>toiVaultPubKey := vtPubKey v, toiCoin := (toiCoin toi)\<lparr>cAmount := cAmount (toiCoin toi) - n\<rparr>\<rparr>"
    show ?thesis
    proof (cases "cAmount (toiCoin toi) \<le> n")
      case True
      with Some Cons.prems show ?thesis by (auto simp: offer_of_def)
    next
      case False
      obtain outs1 rest1 where r: "assign_vaults addr_of fee gas toi2 vs = (outs1, rest1)" by fastforce
      have off: "offer_of addr_of fee gas toi2 = offer_of addr_of fee gas toi"
        by (simp add: fun_eq_iff offer_of_def toi2_def offer_frame)
      have "outs = (toi\<lparr>toiVaultPubKey := vtPubKey v, toiCoin := (toiCoin toi)\<lparr>cAmount := n\<rparr>\<rparr>) # outs1" "rest = rest1"
        using Cons.prems Some False r by (auto simp: Let_def SafeSub_def toi2_def)
      moreover have "offer_of addr_of fee gas toi v = n" by (simp add: offer_of_def Some)
      moreover have "cAmount (toiCoin toi2) = cAmount (toiCoin toi) - n" by (simp add: toi2_def)
      ultimately show ?thesis using False Cons.IH [OF r] by (auto simp: off)
    qed
  qed
qed simp

lemma assign_vaults_covered:
  assumes "assign_vaults addr_of fee gas toi vs = (outs, rest)" and "o' \<in> set outs"
  shows "toiCoin o' = (toiCoin toi)\<lparr>cAmount := cAmount (toiCoin o')\<rparr> \<and> toiToAddress o' = toiToAddress toi \<and> toiInHash o' = toiInHash toi
    \<and> (\<exists>v \<in> set vs. toiVaultPubKey o' = vtPubKey v \<and> (\<exists>n. vault_offer addr_of fee gas toi v = Some n \<and> cAmount (toiCoin o') \<le> n))"
  using assms
proof (induction vs arbitrary: toi outs rest)
  case (Cons v vs)
  show ?case
  proof (cases "vault_offer addr_of fee gas toi v")
    case None
    with Cons show ?thesis by fastforce
  next
    case (Some n)
    define toi2 where "toi2 = toi\<lparr>toiVaultPubKey := vtPubKey v, toiCoin := (toiCoin toi)\<lparr>cAmount := cAmount (toiCoin toi) - n\<rparr>\<rparr>"
    obtain outs1 rest1 where r: "assign_vaults addr_of fee gas toi2 vs = (outs1, rest1)" by fastforce
    have off: "vault_offer addr_of fee gas toi2 = vault_offer addr_of fee gas toi" by (simp add: fun_eq_iff toi2_def offer_frame)
    show ?thesis
    proof (cases "o' \<in> set outs1 \<and> \<not> cAmount (toiCoin toi) \<le> n")
      case True
      with Cons.IH [OF r] show ?thesis by (auto simp: off) (simp_all add: toi2_def)
    next
      case False
      with Cons.prems Some r show ?thesis by (auto simp: Let_def SafeSub_def toi2_def split: if_splits)
    qed
  qed
qed simp

lemma assign_vaults_distinct:
  assumes "assign_vaults addr_of fee gas toi vs = (outs, rest)" and "distinct (map vtPubKey vs)"
  shows "distinct (map toiVaultPubKey outs) \<and> toiVaultPubKey ` set outs \<subseteq> vtPubKey ` set vs"
  using assms
proof (induction vs arbitrary: toi outs rest)
  case (Cons v vs)
  show ?case
  proof (cases "vault_offer addr_of fee gas toi v")
    case None
    then have "assign_vaults addr_of fee gas toi vs = (outs, rest)" using Cons.prems(1) by simp
    from Cons.IH [OF this] Cons.prems(2) show ?thesis by auto
  next
    case (Some n)
    define toi2 where "toi2 = toi\<lparr>toiVaultPubKey := vtPubKey v, toiCoin := (toiCoin toi)\<lparr>cAmount := cAmount (toiCoin toi) - n\<rparr>\<rparr>"
    obtain outs1 rest1 where r: "assign_vaults addr_of fee gas toi2 vs = (outs1, rest1)" by fastforce
    have IH: "distinct (map toiVaultPubKey outs1) \<and> toiVaultPubKey ` set outs1 \<subseteq> vtPubKey ` set vs"
      using Cons.IH [OF r] Cons.prems(2) by simp
    show ?thesis
    proof (cases "cAmount (toiCoin toi) \<le> n")
      case True
      with Cons.prems Some show ?thesis by auto
    next
      case False
      then have "outs = toi\<lparr>toiVaultPubKey := vtPubKey v, toiCoin := (toiCoin toi)\<lparr>cAmount := n\<rparr>\<rparr> # outs1"
        using Cons.prems Some r by (auto simp: Let_def SafeSub_def toi2_def)
      with IH Cons.prems(2) show ?thesis by auto
    qed
  qed
qed simp

text \<open>An offer is backed by the coins of the vault, the gas of the outbound included.\<close>

lemma vault_offer_backed:
  assumes "vault_offer addr_of fee gas toi v = Some n"
  shows "n + (if Asset_Equals (cAsset (toiCoin toi)) (cAsset gas) then cAmount gas else 0) = vault_amount v (cAsset (toiCoin toi)) \<and> 0 < n
    \<and> cAmount gas \<le> vault_amount v (GetGasAsset (toiChain toi)) \<and> fee < vault_amount v (cAsset (toiCoin toi))
    \<and> (\<exists>a. addr_of (PubKeyForChain v (toiChain toi)) (toiChain toi) = Some a \<and> \<not> Address_Equals (toiToAddress toi) a)"
  using assms by (auto simp: vault_offer_def Let_def vault_amount_def SafeSub_def split: option.splits if_splits)

lemma order_vaults_Inr:
  assumes "order_vaults a n ch vs = Inr ws"
  shows "set ws \<subseteq> set vs \<and> (distinct (map vtPubKey vs) \<longrightarrow> distinct (map vtPubKey ws))
    \<and> (length vs > 1 \<longrightarrow> set ws = {v \<in> set vs. vault_amount v a \<noteq> 0 \<and> \<not> frozen_for v ch})"
proof (cases "length vs \<le> 1")
  case True
  with assms show ?thesis by (simp add: order_vaults_def)
next
  case False
  define us where "us = filter (\<lambda>v. cAmount (Vault_GetCoin v a) \<noteq> 0 \<and> \<not> frozen_for v ch) vs"
  have ws: "ws = sort_by (\<lambda>v w. necessary a n v < necessary a n w) us"
    using assms False by (auto simp: order_vaults_def Let_def us_def split: if_splits)
  then have "mset (map vtPubKey ws) = mset (map vtPubKey us)" by simp
  then have "distinct (map vtPubKey ws) = distinct (map vtPubKey us)" by (rule mset_eq_imp_distinct_iff)
  moreover have "distinct (map vtPubKey vs) \<Longrightarrow> distinct (map vtPubKey us)" by (simp add: us_def distinct_map_filter)
  moreover have "set ws = set us" by (simp add: ws)
  ultimately show ?thesis using False by (auto simp: us_def vault_amount_def)
qed

text \<open>The vaults of \<^verbatim>\<open>prepareTxOutItem\<close>: active before retiring ones, each kind sorted by security, less their pending outbounds.\<close>

definition status_vaults :: "key_lib \<Rightarrow> ctx \<Rightarrow> vault_state \<Rightarrow> VaultStatus \<Rightarrow> vault list" where
  "status_vaults K c s st = (case GetAsgardVaultsByStatus K c s st of Inl _ \<Rightarrow> [] | Inr vs \<Rightarrow> vs)"

definition discover_vaults ::
  "dec_lib \<Rightarrow> key_lib \<Rightarrow> (pubkey \<Rightarrow> chain \<Rightarrow> address option) \<Rightarrow> ctx \<Rightarrow> vault_state \<Rightarrow> uint \<Rightarrow> coin \<Rightarrow> tx_out_item \<Rightarrow> tx_out_item list res" where
  "discover_vaults D K addr_of c s fee gas toi =
     (let pending = GetPendingOutbounds c s (cAsset (toiCoin toi));
          period = GetInt64Value (cBuild c) ''SigningTransactionPeriod'';
          deduct = (\<lambda>v. DeductVaultPendingOutbounds v pending)
      in res_bind (SortBySecurity D K addr_of c s period (status_vaults K c s VaultStatus_ActiveVault)) (\<lambda>active.
         res_bind (SortBySecurity D K addr_of c s period (status_vaults K c s VaultStatus_RetiringVault)) (\<lambda>retiring.
         res_bind (DiscoverOutbounds addr_of fee gas toi (map deduct active @ map deduct retiring)) (\<lambda>(outs, remaining).
           if remaining \<noteq> 0 then Inl (Err ''insufficient funds for outbound request'') else Inr outs))))"

lemma securities_vaults: "securities D K addr_of c s period vs = Inr ys \<Longrightarrow> map vyVault ys = vs"
  by (induction vs arbitrary: ys) (fastforce simp: res_simps security_of_def)+

lemma SortBySecurity_mset: "SortBySecurity D K addr_of c s period vs = Inr ws \<Longrightarrow> mset ws = mset vs"
  by (auto simp: SortBySecurity_def getSortedVaultSecurity_def res_simps dest!: securities_vaults split: if_splits)

text \<open>Splitting the clout loses nothing and stays within both clouts and the limit.\<close>

lemma cap_clouts_bounds:
  assumes "limit < c1 + c2" and "cap_clouts limit c1 c2 = (d1, d2)"
  shows "d1 \<le> c1 \<and> d2 \<le> c2 \<and> d1 + d2 \<le> limit"
proof -
  have h: "limit div 2 + limit div 2 \<le> limit" by simp
  show ?thesis
  proof (cases "limit div 2 < c1 \<and> limit div 2 < c2")
    case True
    with assms(2) h show ?thesis by (auto simp: cap_clouts_def Let_def)
  next
    case False
    then have "c1 \<le> limit div 2 \<or> c2 \<le> limit div 2" by auto
    with assms False show ?thesis by (auto simp: cap_clouts_def Let_def SafeSub_def split: if_splits)
  qed
qed

lemma split_share:
  assumes "0 < d1 + (d2 :: nat)" and "a \<le> d1 + d2"
  shows "a * d1 div (d1 + d2) \<le> d1 \<and> a * d1 div (d1 + d2) \<le> a \<and> a - a * d1 div (d1 + d2) \<le> d2"
proof -
  let ?t = "d1 + d2" and ?x = "a * d1 div (d1 + d2)"
  have "?x \<le> ?t * d1 div ?t" using assms(2) by (intro div_le_mono mult_le_mono1)
  then have x1: "?x \<le> d1" using assms(1) by (auto split: if_splits)
  have "?x \<le> a * ?t div ?t" by (intro div_le_mono mult_le_mono2) simp
  then have x2: "?x \<le> a" using assms(1) by (auto split: if_splits)
  have "a * ?t < (?x + d2 + 1) * ?t"
  proof -
    have "a * d1 < (?x + 1) * ?t" using assms(1) by (metis div_less_iff_less_mult less_add_one)
    moreover have "a * d2 \<le> d2 * ?t" using assms(2) by (simp add: mult.commute)
    ultimately show ?thesis by (simp add: algebra_simps)
  qed
  then have "a < ?x + d2 + 1" using assms(1) mult_less_cancel2 by blast
  with x1 x2 show ?thesis by linarith
qed

lemma splitClout_exact:
  assumes "splitClout limit c1 c2 v = Inr (a1, a2, v')"
  shows "a1 + a2 + v' = v \<and> a1 \<le> c1 \<and> a2 \<le> c2 \<and> a1 + a2 \<le> limit"
proof -
  define d where "d = (if c1 + c2 > limit then cap_clouts limit c1 c2 else (c1, c2))"
  obtain d1 d2 where dd: "d = (d1, d2)" by (cases d)
  have db: "d1 \<le> c1" "d2 \<le> c2" "d1 + d2 \<le> limit" using dd cap_clouts_bounds [of limit c1 c2 d1 d2] by (auto simp: d_def split: if_splits)
  show ?thesis
  proof (cases "d1 + d2 = 0")
    case True
    with assms dd db show ?thesis
      by (auto simp: splitClout_def Let_def res_simps uint_simps d_def [symmetric] split: if_splits)
  next
    case False
    let ?a = "min (d1 + d2) v"
    have "a1 = ?a * d1 div (d1 + d2)" "a2 = ?a - a1" "v' = v - (a1 + a2)"
      using assms dd db(3) False
      by (auto simp: splitClout_def Let_def res_simps uint_simps d_def [symmetric] SafeSub_def)
    with split_share [of d1 d2 ?a] False db show ?thesis by auto
  qed
qed

lemma find_block_bounds:
  assumes "find_block D s threshold v n target = Inr t" and "- (2 ^ 63) \<le> target" and "target + int n < 2 ^ 63"
  shows "target \<le> t \<and> t \<le> target + int n
    \<and> (t < target + int n \<longrightarrow> (\<forall>w cl. GetTxOutValue D s t = Inr (w, cl) \<longrightarrow> w = 0 \<or> w + v \<le> threshold))"
  using assms
proof (induction n arbitrary: target)
  case (Suc n)
  have nxt: "i64 (target + 1) = target + 1" using Suc.prems by (simp add: i64_id)
  show ?case
  proof (cases "GetTxOutValue D s target")
    case (Inl e)
    with Suc.prems show ?thesis by (cases e) auto
  next
    case (Inr wc)
    obtain w cl where wc: "wc = (w, cl)" by (cases wc)
    show ?thesis
    proof (cases "w = 0 \<or> w + v \<le> threshold")
      case True
      with Suc.prems Inr wc have "t = target" by (auto simp: res_simps uint_simps split: if_splits)
      with True Inr wc show ?thesis by auto
    next
      case False
      then have "find_block D s threshold v n (target + 1) = Inr t"
        using Suc.prems(1) Inr wc nxt by (auto simp: res_simps uint_simps)
      from Suc.IH [OF this] Suc.prems(2,3) show ?thesis by auto
    qed
  qed
qed simp

lemma distinct_two_filters:
  assumes "distinct (map f vs)" and "\<And>v. P v \<Longrightarrow> \<not> Q v"
  shows "distinct (map f (filter P vs @ filter Q vs))"
  using assms by (induction vs) auto

section \<open>Properties\<close>

text \<open>C4. Choosing vaults for an outbound gives outputs that add up to the requested amount, from different vaults, to the
  requested address. No vault is overcommitted: each output, the gas it burns in the same asset and what the
  outbounds still pending for its vault take of the asset are together within the vault's balance.\<close>

theorem outbounds_not_overcommitted:
  assumes "vault_run K s" and "discover_vaults D K addr_of c s fee gas toi = Inr outs"
  shows "sum_list (map (\<lambda>o'. cAmount (toiCoin o')) outs) = cAmount (toiCoin toi)
    \<and> distinct (map toiVaultPubKey outs)
    \<and> (\<forall>o' \<in> set outs. toiToAddress o' = toiToAddress toi \<and> (\<exists>v \<in> set (status_vaults K c s VaultStatus_ActiveVault)
          \<union> set (status_vaults K c s VaultStatus_RetiringVault). vtPubKey v = toiVaultPubKey o'
        \<and> cAmount (toiCoin o') + (if Asset_Equals (cAsset (toiCoin toi)) (cAsset gas) then cAmount gas else 0)
          + sum_list (map (pending_amount (cAsset (toiCoin toi))) (filter (pending_for (vtPubKey v)) (GetPendingOutbounds c s (cAsset (toiCoin toi)))))
          \<le> vault_amount v (cAsset (toiCoin toi))))"
proof -
  let ?a = "cAsset (toiCoin toi)"
  define pend where "pend = GetPendingOutbounds c s ?a"
  define ded where "ded = (\<lambda>v. DeductVaultPendingOutbounds v pend)"
  define act where "act = status_vaults K c s VaultStatus_ActiveVault"
  define ret where "ret = status_vaults K c s VaultStatus_RetiringVault"
  obtain as rs where as: "mset as = mset act" and rs: "mset rs = mset ret"
    and disc: "DiscoverOutbounds addr_of fee gas toi (map ded as @ map ded rs) = Inr (outs, 0)"
    using assms(2)
    by (auto simp: discover_vaults_def Let_def res_simps pend_def [symmetric] ded_def [symmetric] act_def [symmetric] ret_def [symmetric]
        split: if_splits dest!: SortBySecurity_mset)
  then obtain ws where ws: "order_vaults ?a (cAmount (toiCoin toi)) (GetChain (cAsset gas)) (map ded as @ map ded rs) = Inr ws"
    and asg: "assign_vaults addr_of fee gas toi ws = (outs, 0)" by (auto simp: DiscoverOutbounds_def res_simps)
  have pk: "vtPubKey (ded v) = vtPubKey v" for v using deduct_amount [of v pend ?a] by (simp add: ded_def)
  obtain vs where vs: "GetAsgardVaults K c s = Inr vs" "distinct (map vtPubKey vs)" using asgard_vaults_sound [OF assms(1), of c] by blast
  have "act = filter (\<lambda>v. vtStatus v = VaultStatus_ActiveVault) vs" "ret = filter (\<lambda>v. vtStatus v = VaultStatus_RetiringVault) vs"
    by (simp_all add: act_def ret_def status_vaults_def GetAsgardVaultsByStatus_def vs(1))
  then have "distinct (map vtPubKey (act @ ret))"
    using distinct_two_filters [OF vs(2), of "\<lambda>v. vtStatus v = VaultStatus_ActiveVault" "\<lambda>v. vtStatus v = VaultStatus_RetiringVault"] by simp
  moreover have "mset (map vtPubKey (map ded as @ map ded rs)) = mset (map vtPubKey (act @ ret))"
    using as rs by (simp add: pk comp_def)
  ultimately have dist: "distinct (map vtPubKey (map ded as @ map ded rs))" by (metis mset_eq_imp_distinct_iff)
  note ord = order_vaults_Inr [OF ws]
  have "\<exists>v \<in> set act \<union> set ret. vtPubKey v = toiVaultPubKey o' \<and> cAmount (toiCoin o') + (if Asset_Equals ?a (cAsset gas) then cAmount gas else 0)
      + sum_list (map (pending_amount ?a) (filter (pending_for (vtPubKey v)) pend)) \<le> vault_amount v ?a"
    if mem: "o' \<in> set outs" for o'
  proof -
    obtain w n where w: "w \<in> set ws" "toiVaultPubKey o' = vtPubKey w" "vault_offer addr_of fee gas toi w = Some n" "cAmount (toiCoin o') \<le> n"
      using assign_vaults_covered [OF asg mem] by blast
    then have "w \<in> ded ` (set as \<union> set rs)" using ord by auto
    moreover have "set as = set act" "set rs = set ret" using as rs by (metis mset_eq_setD)+
    ultimately obtain v where v: "v \<in> set act \<union> set ret" "w = ded v" by auto
    from vault_offer_backed [OF w(3)] deduct_amount [of v pend ?a] w(2,4) v show ?thesis
      by (intro bexI [of _ v]) (auto simp: ded_def)
  qed
  moreover have "distinct (map toiVaultPubKey outs)" using assign_vaults_distinct [OF asg] ord dist by blast
  moreover have "\<forall>o' \<in> set outs. toiToAddress o' = toiToAddress toi" using assign_vaults_covered [OF asg] by blast
  ultimately show ?thesis using assign_vaults_exact [OF asg] by (auto simp: pend_def act_def ret_def)
qed

definition btc_outbound :: tx_out_item where
  "btc_outbound = \<lparr>toiChain = BTCChain, toiToAddress = ''to'', toiVaultPubKey = '''', toiCoin = NewCoin BTCAsset 5, toiMemo = ''OUT:x'', toiMaxGas = [],
     toiGasRate = 1, toiInHash = ''h'', toiOutHash = '''', toiModuleName = '''', toiAggregator = '''', toiAggregatorTargetAsset = '''',
     toiAggregatorTargetLimit = None, toiCloutSpent = None\<rparr>"

definition funded_vault :: vault where
  "funded_vault = demo_vault\<lparr>vtCoins := [NewCoin BTCAsset 9]\<rparr>"

definition funded_vaults :: vault_state where
  "funded_vaults = no_vaults\<lparr>vsVaults := [(''PK'', Stored funded_vault)], vsAsgard := [[] \<mapsto> Stored [''pk'']]\<rparr>"

lemma funded_vaults_run: "vault_run plain_keys funded_vaults"
proof -
  have "vtPubKey funded_vault = ''pk''" and asg: "IsAsgard funded_vault"
    by (simp_all add: funded_vault_def demo_vault_def NewVault_def IsAsgard_def IsType_def)
  moreover from this have "SetVault plain_keys no_vaults funded_vault = Inr funded_vaults"
    by (simp add: SetVault_def addAsgardIndex_def getAsgardIndex_def no_vaults_def funded_vaults_def kv_get_def kv_set_def demo_keys)
  moreover have "vault_run plain_keys no_vaults" by (rule vault_run.start) (simp_all add: no_vaults_def)
  ultimately show ?thesis using demo_keys(1) by (metis vault_run.step vault_step.set_asgard)
qed

lemma demo_discover_facts: "NewPubKey plain_keys ''pk'' = Inr ''pk''" "\<not> Address_IsEmpty ''from''" "\<not> Address_Equals ''to'' ''from''"
  "Asset_Equals BTCAsset BTCAsset" "GetGasAsset BTCChain = BTCAsset" "\<not> Asset_IsEmpty BTCAsset"
  by code_simp+

lemma demo_discover:
  "\<exists>outs. discover_vaults legacy_dec plain_keys (\<lambda>_ _. Some ''from'') demo_ctx funded_vaults 0 (NewCoin BTCAsset 2) btc_outbound = Inr outs"
proof -
  have act: "status_vaults plain_keys demo_ctx funded_vaults VaultStatus_ActiveVault = [funded_vault]"
    and ret: "status_vaults plain_keys demo_ctx funded_vaults VaultStatus_RetiringVault = []"
    using demo_discover_facts(1) demo_keys(3)
    by (simp_all add: status_vaults_def GetAsgardVaultsByStatus_def GetAsgardVaults_def getAsgardIndex_def funded_vaults_def kv_get_def GetVault_def
        funded_vault_def demo_vault_def NewVault_def IsAsgard_def IsType_def)
  have pend: "GetPendingOutbounds demo_ctx funded_vaults a = []" for a
    by (simp add: GetPendingOutbounds_def demo_ctx_def GetInt64Value_def GetConfigInt64_def GetMimir_def funded_vaults_def no_vaults_def empty_kstore_def
        kv_get_def tx_array_def GetTxOut_def NewTxOut_def i64_def Let_def)
  have coin: "Vault_GetCoin funded_vault BTCAsset = NewCoin BTCAsset 9"
    using demo_discover_facts(4) by (simp add: Vault_GetCoin_def funded_vault_def NewCoin_def)
  have offer: "vault_offer (\<lambda>_ _. Some ''from'') 0 (NewCoin BTCAsset 2) btc_outbound funded_vault = Some 7"
    using demo_discover_facts by (simp add: vault_offer_def btc_outbound_def NewCoin_def coin Coin_IsEmpty_def SafeSub_def Let_def)
  have five: "cAmount (toiCoin btc_outbound) = 5" by (simp add: btc_outbound_def NewCoin_def)
  have asg: "assign_vaults (\<lambda>_ _. Some ''from'') 0 (NewCoin BTCAsset 2) btc_outbound [funded_vault]
      = ([btc_outbound\<lparr>toiVaultPubKey := vtPubKey funded_vault\<rparr>], 0)"
    by (simp add: offer five)
  have "DiscoverOutbounds (\<lambda>_ _. Some ''from'') 0 (NewCoin BTCAsset 2) btc_outbound [DeductVaultPendingOutbounds funded_vault []]
      = Inr ([btc_outbound\<lparr>toiVaultPubKey := vtPubKey funded_vault\<rparr>], 0)"
    by (simp add: DiscoverOutbounds_def order_vaults_def DeductVaultPendingOutbounds_def asg del: assign_vaults.simps)
  then show ?thesis by (simp add: discover_vaults_def act ret pend SortBySecurity_def)
qed

theorem outbounds_not_overcommitted_witness:
  "\<exists>outs. discover_vaults legacy_dec plain_keys (\<lambda>_ _. Some ''from'') demo_ctx funded_vaults 0 (NewCoin BTCAsset 2) btc_outbound = Inr outs
    \<and> sum_list (map (\<lambda>o'. cAmount (toiCoin o')) outs) = cAmount (toiCoin btc_outbound)"
  using demo_discover outbounds_not_overcommitted [OF funded_vaults_run] by blast

text \<open>The clout of the sender and of the receiver of an outbound reduce its value by at most what each has
  available and by at most the limit; the value and the clout add up to the original value.\<close>

theorem clout_within_limits:
  assumes "calcClout c s v toi = Inr ((v', clout), s')"
  shows "v' + clout = v
    \<and> clout \<le> Available (Restore (clout_of s (sender_of s (toiInHash toi))) (BlockHeight c) (GetConfigInt64 c (obKeeper s) ''CloutReset''))
        + Available (Restore (clout_of s (toiToAddress toi)) (BlockHeight c) (GetConfigInt64 c (obKeeper s) ''CloutReset''))
    \<and> clout \<le> SafeUintFromInt64 (GetConfigInt64 c (obKeeper s) ''CloutLimit'')"
proof (cases "toiAggregator toi \<noteq> [] \<or> toiAggregatorTargetAsset toi \<noteq> [] \<or> toiAggregatorTargetLimit toi \<noteq> None")
  case True
  with assms show ?thesis by (simp add: calcClout_def)
next
  case False
  let ?reset = "GetConfigInt64 c (obKeeper s) ''CloutReset''"
  let ?in = "Available (Restore (clout_of s (sender_of s (toiInHash toi))) (BlockHeight c) ?reset)"
  let ?out = "Available (Restore (clout_of s (toiToAddress toi)) (BlockHeight c) ?reset)"
  let ?limit = "SafeUintFromInt64 (GetConfigInt64 c (obKeeper s) ''CloutLimit'')"
  from assms False obtain a1 a2 w where sp: "splitClout ?limit ?in ?out v = Inr (a1, a2, w)"
    and r: "v' = v \<and> clout = 0 \<or> v' = w \<and> clout = a1 + a2"
    by (auto simp: calcClout_def Let_def res_bind_Inr res_map_Inr uint_simps split: if_splits)
  from splitClout_exact [OF sp] r show ?thesis by auto
qed

definition clout_demo :: outbound_state where
  "clout_demo = \<lparr>obVault = no_vaults\<lparr>vsNode := (vsNode no_vaults)\<lparr>msKeeper := SetMimir empty_kstore ''CloutLimit'' 10\<rparr>\<rparr>,
     obClouts = [''TO'' \<mapsto> Stored ((NewSwapperClout ''to'')\<lparr>Score := 4\<rparr>)], obVoters = Map.empty\<rparr>"

lemma clout_demo_facts: "kv_key ''to'' = ''TO''" "kv_key ''CloutLimit'' = ''CLOUTLIMIT''" "kv_key ''CloutReset'' = ''CLOUTRESET''" "\<not> Address_IsEmpty ''to''" "Address_IsEmpty ''''"
  "tFromAddress (oTx EmptyObservedTx) = ''''" "\<not> Address_Equals '''' ''to''"
  by code_simp+

lemma clout_demo_run: "\<exists>s'. calcClout demo_ctx clout_demo 7 btc_outbound = Inr ((3, 4), s')"
proof -
  have sender: "sender_of clout_demo ''h'' = ''''"
    using clout_demo_facts(6) by (simp add: sender_of_def GetObservedTxInVoter_def clout_demo_def kv_get_def NewObservedTxVoter_def)
  have cl: "clout_of clout_demo '''' = NewSwapperClout ''''" "clout_of clout_demo ''to'' = (NewSwapperClout ''to'')\<lparr>Score := 4\<rparr>"
    using clout_demo_facts by (simp_all add: clout_of_def GetSwapperClout_def clout_demo_def kv_get_def)
  have cfg: "GetConfigInt64 demo_ctx (obKeeper clout_demo) ''CloutLimit'' = 10" "GetConfigInt64 demo_ctx (obKeeper clout_demo) ''CloutReset'' = 0"
    using clout_demo_facts(2,3) by (simp_all add: GetConfigInt64_def GetMimir_def clout_demo_def SetMimir_def kv_set_def kv_get_def empty_kstore_def
        GetInt64Value_def demo_ctx_def)
  have sp: "splitClout 10 0 4 7 = Inr (0, 4, 3)"
    by (simp add: splitClout_def Let_def uint_eval SafeSub_def)
  have toi: "toiAggregator btc_outbound = []" "toiAggregatorTargetAsset btc_outbound = []" "toiAggregatorTargetLimit btc_outbound = None"
    "toiToAddress btc_outbound = ''to''" "toiInHash btc_outbound = ''h''" by (simp_all add: btc_outbound_def)
  have ten: "BlockHeight demo_ctx = 10" by (simp add: demo_ctx_def)
  have rin: "Restore (NewSwapperClout '''') 10 0 = (NewSwapperClout '''')"
    and rout: "Restore ((NewSwapperClout ''to'')\<lparr>Score := 4\<rparr>) 10 0 = (NewSwapperClout ''to'')\<lparr>Score := 4\<rparr>"
    and ain: "Available (NewSwapperClout '''') = 0" and aout: "Available ((NewSwapperClout ''to'')\<lparr>Score := 4\<rparr>) = 4"
    and lim: "SafeUintFromInt64 10 = 10"
    by (simp_all add: Restore_def NewSwapperClout_def Available_def SafeSub_def i64_def SafeUintFromInt64_def)
  show ?thesis
    unfolding calcClout_def Let_def toi sender cl cfg ten rin rout ain aout lim sp
    using clout_demo_facts(7) by (simp add: uint_eval NewSwapperClout_def)
qed

theorem clout_within_limits_witness:
  "\<exists>s'. calcClout demo_ctx clout_demo 7 btc_outbound = Inr ((3, 4), s')
     \<and> 4 \<le> SafeUintFromInt64 (GetConfigInt64 demo_ctx (obKeeper clout_demo) ''CloutLimit'')"
  using clout_demo_run clout_within_limits by blast

text \<open>An outbound is scheduled at the current block or later, at most the maximal offset and the maximal delay
  ahead. A later block that is chosen within the maximal delay is empty or has room for the value.\<close>

theorem outbound_height_bounds:
  assumes "CalcTxOutHeight D c s toi = Inr ((target, clout), s')" and "0 \<le> BlockHeight c"
    and "BlockHeight c + max 0 (GetConfigInt64 c (obKeeper s) ''MaxTxOutOffset'') + max 0 (GetConfigInt64 c (obKeeper s) ''TxOutDelayMax'') < 2 ^ 63"
  shows "BlockHeight c \<le> target
    \<and> target \<le> BlockHeight c + max 0 (GetConfigInt64 c (obKeeper s) ''MaxTxOutOffset'') + max 0 (GetConfigInt64 c (obKeeper s) ''TxOutDelayMax'')
    \<and> (\<not> is_outbound_memo (toiMemo toi) \<longrightarrow> target = BlockHeight c \<and> clout = 0 \<and> s' = s)
    \<and> (\<forall>v0 x v cl0 s1 w cl. GetTOIsValue D (obKeeper s) [toi] = Inr (v0, x) \<and> calcClout c s v0 toi = Inr ((v, cl0), s1)
        \<and> target \<noteq> BlockHeight c \<and> target < BlockHeight c + GetConfigInt64 c (obKeeper s) ''TxOutDelayMax''
        \<and> GetTxOutValue D (obVault s') target = Inr (w, cl)
        \<longrightarrow> w = 0 \<or> w + v \<le> nat (GetConfigInt64 c (obKeeper s) ''MinTxOutVolumeThreshold''))"
proof -
  define h off dl thr where "h = BlockHeight c" and "off = GetConfigInt64 c (obKeeper s) ''MaxTxOutOffset''"
    and "dl = GetConfigInt64 c (obKeeper s) ''TxOutDelayMax''" and "thr = GetConfigInt64 c (obKeeper s) ''MinTxOutVolumeThreshold''"
  note defs = h_def [symmetric] off_def [symmetric] dl_def [symmetric] thr_def [symmetric]
  show ?thesis
  proof (cases "target = h")
    case True
    then show ?thesis using assms(1) by (auto simp: CalcTxOutHeight_def Let_def h_def split: if_splits)
  next
    case False
    from assms(1) False have memo: "is_outbound_memo (toiMemo toi)" and off: "0 < off" "0 < thr"
      "0 < GetConfigInt64 c (obKeeper s) ''TxOutDelayRate''"
      unfolding CalcTxOutHeight_def Let_def defs by (auto split: if_splits)
    then obtain v0 x v cl0 where v: "GetTOIsValue D (obKeeper s) [toi] = Inr (v0, x)" "calcClout c s v0 toi = Inr ((v, cl0), s')"
      and v0: "v \<noteq> 0"
      using assms(1) False unfolding CalcTxOutHeight_def Let_def defs
      by (auto simp: res_bind_Inr res_map_Inr split: if_splits)
    obtain q where fb: "find_block D (obVault s') (nat thr) v (nat dl) (i64 (h + int (if nat off < q then nat off else q))) = Inr target"
      using assms(1) memo off v0 unfolding CalcTxOutHeight_def Let_def defs
      by (auto simp: res_bind_Inr res_map_Inr v simp del: of_nat_nat int_nat_eq split del: if_split)
    define m where "m = (if nat off < q then nat off else q)"
    have m: "m \<le> nat off" by (simp add: m_def)
    note fb' = fb [folded m_def]
    have i: "i64 (h + int m) = h + int m" using m off assms(2,3) unfolding defs by (intro i64_id) auto
    have "h + int m + int (nat dl) < 2 ^ 63" "- (2 ^ 63) \<le> h + int m" using m off assms(2,3) unfolding defs by auto
    from find_block_bounds [OF fb' [unfolded i] this(2,1)] memo off m show ?thesis
      unfolding defs by (auto simp: v max_def split: if_splits)
  qed
qed

theorem outbound_height_bounds_witness:
  "CalcTxOutHeight legacy_dec demo_ctx clout_demo btc_outbound = Inr ((10, 0), clout_demo) \<and> BlockHeight demo_ctx \<le> 10"
proof -
  have "CalcTxOutHeight legacy_dec demo_ctx clout_demo btc_outbound = Inr ((10, 0), clout_demo)"
  proof -
    have "kv_key ''MinTxOutVolumeThreshold'' = ''MINTXOUTVOLUMETHRESHOLD''" by code_simp
    then have "GetConfigInt64 demo_ctx (obKeeper clout_demo) ''MinTxOutVolumeThreshold'' = 0" using clout_demo_facts(2)
      by (simp add: GetConfigInt64_def GetMimir_def clout_demo_def SetMimir_def kv_set_def kv_get_def empty_kstore_def GetInt64Value_def demo_ctx_def)
    then show ?thesis by (simp add: CalcTxOutHeight_def Let_def) (simp add: demo_ctx_def)
  qed
  moreover have "kv_key ''MaxTxOutOffset'' = ''MAXTXOUTOFFSET''" "kv_key ''TxOutDelayMax'' = ''TXOUTDELAYMAX''" by code_simp+
  then have "GetConfigInt64 demo_ctx (obKeeper clout_demo) ''MaxTxOutOffset'' = 0" "GetConfigInt64 demo_ctx (obKeeper clout_demo) ''TxOutDelayMax'' = 0"
    "BlockHeight demo_ctx = 10"
    using clout_demo_facts(2)
    by (simp_all add: GetConfigInt64_def GetMimir_def clout_demo_def SetMimir_def kv_set_def kv_get_def empty_kstore_def GetInt64Value_def demo_ctx_def)
  ultimately show ?thesis
    using outbound_height_bounds [of legacy_dec demo_ctx clout_demo btc_outbound 10 0 clout_demo] by simp
qed

end
