(* ===== verification/Switch_Names.thy ===== *)
theory Switch_Names
  imports Anchors Addresses
begin

text \<open>
  SWITCHNames: names that stand for addresses on several chains. \<^verbatim>\<open>src/x/switchly/types/type_switchlyname.go\<close>,
  \<^verbatim>\<open>keeper/v1/keeper_switchlyname.go\<close> and \<^verbatim>\<open>handler_manage_thorname.go\<close>.

  A name is stored under the upper-cased base64 text of its lower-case letters. Upper-casing merges the two
  halves of the base64 alphabet; the names the handler accepts still have different keys.
\<close>

section \<open>Base64\<close>

text \<open>\<open>base64.StdEncoding.EncodeToString\<close> of the standard library.\<close>

definition b64_char :: "nat \<Rightarrow> char" where
  "b64_char i = (if i < 26 then char_of (65 + i) else if i < 52 then char_of (71 + i)
     else if i < 62 then char_of (i - 4) else if i = 62 then CHR ''+'' else CHR ''/'')"

fun b64_encode :: "nat list \<Rightarrow> string" where
  "b64_encode [] = []"
| "b64_encode [a] = [b64_char (a div 4), b64_char (a mod 4 * 16), CHR ''='', CHR ''='']"
| "b64_encode [a, b] = [b64_char (a div 4), b64_char (a mod 4 * 16 + b div 16), b64_char (b mod 16 * 4), CHR ''='']"
| "b64_encode (a # b # c # xs) =
     b64_char (a div 4) # b64_char (a mod 4 * 16 + b div 16) # b64_char (b mod 16 * 4 + c div 64) # b64_char (c mod 64) # b64_encode xs"

section \<open>Names\<close>

record switch_name =
  snName :: string
  snExpire :: int
  snOwner :: acc
  snPreferred :: asset
  snAliases :: "(chain \<times> address) list"

definition NewSWITCHName :: "string \<Rightarrow> int \<Rightarrow> (chain \<times> address) list \<Rightarrow> switch_name" where
  "NewSWITCHName name ex aliases = \<lparr>snName = name, snExpire = ex, snOwner = '''', snPreferred = EmptyAsset, snAliases = aliases\<rparr>"

definition SWITCHName_Valid :: "switch_name \<Rightarrow> unit res" where
  "SWITCHName_Valid m =
     (if snName m = [] then Inl (Err ''name can't be empty'')
      else if snAliases m = [] then Inl (Err ''aliases can't be empty'')
      else if list_ex (\<lambda>(ch, a). Chain_IsEmpty ch \<or> Address_IsEmpty a) (snAliases m) then Inl (Err ''chain or address can't be empty'')
      else Inr ())"

definition GetAlias :: "switch_name \<Rightarrow> chain \<Rightarrow> address" where
  "GetAlias m ch = (case find (\<lambda>(c, _). Chain_Equals c ch) (snAliases m) of Some (_, a) \<Rightarrow> a | None \<Rightarrow> '''')"

definition SetAlias :: "switch_name \<Rightarrow> chain \<Rightarrow> address \<Rightarrow> switch_name" where
  "SetAlias m ch addr = m\<lparr>snAliases :=
     (if list_ex (\<lambda>(c, _). Chain_Equals c ch) (snAliases m)
      then update_first (\<lambda>(c, _). Chain_Equals c ch) (\<lambda>(c, _). (c, addr)) (snAliases m)
      else snAliases m @ [(ch, addr)])\<rparr>"

definition SWITCHName_Key :: "string \<Rightarrow> string" where
  "SWITCHName_Key name = b64_encode (map of_char (to_lower name))"

definition CanReceiveAffiliateFee :: "switch_name \<Rightarrow> bool" where
  "CanReceiveAffiliateFee m =
     (if snOwner m = [] then False
      else if Asset_IsEmpty (snPreferred m) then \<not> Address_IsEmpty (GetAlias m SWITCHLYChain)
      else \<not> Address_IsEmpty (GetAlias m (GetChain (snPreferred m))))"

section \<open>The store\<close>

record name_state =
  nsKeeper :: kstore
  nsNames :: "switch_name kv"

definition SetSWITCHName :: "name_state \<Rightarrow> switch_name \<Rightarrow> name_state" where
  "SetSWITCHName s n = s\<lparr>nsNames := kv_set (nsNames s) (kv_key (SWITCHName_Key (snName n))) n\<rparr>"

text \<open>An expired name reads as a fresh one, before the error of a record that does not decode is looked at.\<close>

definition GetSWITCHName :: "ctx \<Rightarrow> name_state \<Rightarrow> string \<Rightarrow> switch_name res" where
  "GetSWITCHName c s name =
     (case nsNames s (kv_key (SWITCHName_Key name)) of
        None \<Rightarrow> Inl (Err ''SWITCHName doesn't exist'')
      | Some (Stored n) \<Rightarrow> Inr (if snExpire n < BlockHeight c then NewSWITCHName name 0 [] else n)
      | Some Corrupt \<Rightarrow> if 0 < BlockHeight c then Inr (NewSWITCHName name 0 []) else Inl (Err ''KVStore Error: Unmarshal''))"

definition SWITCHNameExists :: "ctx \<Rightarrow> name_state \<Rightarrow> string \<Rightarrow> bool" where
  "SWITCHNameExists c s name =
     (if nsNames s (kv_key (SWITCHName_Key name)) = None then False
      else snExpire (case GetSWITCHName c s name of Inr n \<Rightarrow> n | Inl _ \<Rightarrow> NewSWITCHName name 0 []) \<ge> BlockHeight c)"

definition DeleteSWITCHName :: "name_state \<Rightarrow> string \<Rightarrow> name_state" where
  "DeleteSWITCHName s name = s\<lparr>nsNames := kv_del (nsNames s) (kv_key (SWITCHName_Key name))\<rparr>"

section \<open>Managing a name\<close>

record msg_manage_name =
  mnName :: string
  mnChain :: chain
  mnAddress :: address
  mnCoin :: coin
  mnExpire :: int
  mnPreferred :: asset
  mnOwner :: acc
  mnSigner :: acc

definition MsgManageSWITCHName_ValidateBasic :: "addr_lib \<Rightarrow> msg_manage_name \<Rightarrow> unit res" where
  "MsgManageSWITCHName_ValidateBasic A m =
     (if mnSigner m = [] then Inl (Err ''invalid address'')
      else if Chain_IsEmpty (mnChain m) then Inl (Err ''chain can't be empty'')
      else if Address_IsEmpty (mnAddress m) then Inl (Err ''address can't be empty'')
      else if \<not> IsChain A (mnAddress m) (mnChain m) then Inl (Err ''address and chain must match'')
      else if \<not> Coin_IsSwitch (mnCoin m) then Inl (Err ''coin must be native switch'')
      else Inr ())"

text \<open>The regular expression \<^verbatim>\<open>^[a-zA-Z0-9+_-]+$\<close>.\<close>

definition name_char :: "char \<Rightarrow> bool" where
  "name_char c \<longleftrightarrow> char_in c 97 122 \<or> char_in c 65 90 \<or> char_in c 48 57 \<or> c = CHR ''+'' \<or> c = CHR ''_'' \<or> c = CHR ''-''"

definition IsValidSWITCHName :: "string \<Rightarrow> bool" where
  "IsValidSWITCHName n \<longleftrightarrow> n \<noteq> [] \<and> list_all name_char n"

definition validateName :: "string \<Rightarrow> unit res" where
  "validateName n =
     (if length n > 30 then Inl (Err ''SWITCHName cannot exceed 30 characters'')
      else guard_err (\<not> IsValidSWITCHName n) ''invalid SWITCHName'')"

definition preferred_available :: "kstore \<Rightarrow> asset \<Rightarrow> unit res" where
  "preferred_available k a =
     (if Asset_IsEmpty a then Inr ()
      else if \<not> PoolExist k a then Inl (Err ''pool does not exist'')
      else res_bind (GetPool k a) (\<lambda>p. guard_err (pStatus p \<noteq> PoolStatus_Available) ''pool is not available''))"

definition ManageSWITCHName_validate ::
  "dec_lib \<Rightarrow> addr_lib \<Rightarrow> pool list res \<Rightarrow> ctx \<Rightarrow> name_state \<Rightarrow> msg_manage_name \<Rightarrow> unit res" where
  "ManageSWITCHName_validate D A pools c s m =
     (if \<not> cVersion3 c then Inl (Err ''bad version'')
      else res_bind (MsgManageSWITCHName_ValidateBasic A m) (\<lambda>_.
        if \<not> SoftEquals (cNetwork c) (GetNetwork A (cNetwork c) (mnAddress m) (Address_GetChain A (mnAddress m)))
        then Inl (Err ''address is not same network'')
        else res_bind
          (if \<not> SWITCHNameExists c s (mnName m) then
             res_bind (validateName (mnName m)) (\<lambda>_.
             res_bind (GetSWITCHNameRegisterFee D c (nsKeeper s) pools) (\<lambda>fee.
               guard_err (cAmount (mnCoin m) \<le> fee) ''not enough funds''))
           else res_bind (GetSWITCHName c s (mnName m)) (\<lambda>n.
             if snOwner n \<noteq> mnSigner m \<and> BlockHeight c \<le> snExpire n then Inl (Err ''no authorization'')
             else guard_err (snExpire n < mnExpire m) ''cannot artificially inflate expire block height''))
          (\<lambda>_. preferred_available (nsKeeper s) (mnPreferred m))))"

text \<open>
  The blocks a payment buys. \<open>Uint64()\<close> panics above 64 bits, the conversion to \<open>int64\<close> wraps, and the
  quotient panics on a fee of zero.
\<close>

definition blocks_bought :: "uint \<Rightarrow> uint \<Rightarrow> int res" where
  "blocks_bought amount fee =
     (if amount \<ge> 2 ^ 64 \<or> fee \<ge> 2 ^ 64 then Inl (Panic ''Uint64() out of bounds'')
      else if i64 (int fee) = 0 then Inl (Panic ''integer divide by zero'')
      else Inr (i64 (go_quot (i64 (int amount)) (i64 (int fee)))))"

definition extend_name ::
  "dec_lib \<Rightarrow> pool list res \<Rightarrow> ctx \<Rightarrow> kstore \<Rightarrow> bool \<Rightarrow> msg_manage_name \<Rightarrow> switch_name \<Rightarrow> switch_name res" where
  "extend_name D pools c k exists m n =
     (if cAmount (mnCoin m) = 0 then Inr n
      else res_bind (validateName (mnName m)) (\<lambda>_.
        res_bind (if exists then Inr (cAmount (mnCoin m), 0)
          else res_map (\<lambda>fee. (SafeSub (cAmount (mnCoin m)) fee, GetInt64Value (cBuild c) ''BlocksPerYear''))
                 (GetSWITCHNameRegisterFee D c k pools)) (\<lambda>(amount, free).
        res_bind (GetSWITCHNamePerBlockFee D c k pools) (\<lambda>fee.
        res_map (\<lambda>bought. let add = i64 (free + bought) in
            n\<lparr>snExpire := (if snExpire n < BlockHeight c then i64 (BlockHeight c + add) else i64 (snExpire n + add))\<rparr>)
          (blocks_bought amount fee)))))"

text \<open>The changes a message asks for: an earlier expiry, the preferred asset, an alias, a new owner.\<close>

definition update_name :: "msg_manage_name \<Rightarrow> switch_name \<Rightarrow> switch_name" where
  "update_name m n =
     (let n2 = (if 0 < mnExpire m \<and> mnExpire m < snExpire n then n\<lparr>snExpire := mnExpire m\<rparr> else n);
          n3 = (if \<not> Asset_Equals (snPreferred n2) (mnPreferred m) \<and> \<not> Asset_IsEmpty (mnPreferred m)
                then n2\<lparr>snPreferred := mnPreferred m\<rparr> else n2);
          n4 = SetAlias n3 (mnChain m) (mnAddress m)
      in if mnOwner m \<noteq> [] \<and> mnOwner m \<noteq> snOwner n4
         then n4\<lparr>snOwner := mnOwner m, snPreferred := EmptyAsset, snAliases := []\<rparr> else n4)"

definition ManageSWITCHName_handle ::
  "dec_lib \<Rightarrow> pool list res \<Rightarrow> ctx \<Rightarrow> name_state \<Rightarrow> msg_manage_name \<Rightarrow> name_state res" where
  "ManageSWITCHName_handle D pools c s m =
     (if \<not> cVersion3 c then Inl (Err ''bad version'')
      else if kv_get_or (kMimirs (nsKeeper s)) (kv_key ''SWITCHNames'') (- 1) = 0 then Inl (Err ''SWITCHNames are currently disabled'')
      else let exists = SWITCHNameExists c s (mnName m) in
        res_bind (if exists then GetSWITCHName c s (mnName m)
                  else Inr ((NewSWITCHName (mnName m) 0 [])\<lparr>snOwner := mnSigner m\<rparr>)) (\<lambda>n.
        res_map (\<lambda>n1. SetSWITCHName s (update_name m n1)) (extend_name D pools c (nsKeeper s) exists m n)))"

section \<open>Different names have different keys\<close>

text \<open>The bytes of lower-cased names, and the letter of a base64 index in a key.\<close>

definition name_byte :: "nat \<Rightarrow> bool" where
  "name_byte n \<longleftrightarrow> n = 43 \<or> n = 45 \<or> n = 95 \<or> 48 \<le> n \<and> n \<le> 57 \<or> 97 \<le> n \<and> n \<le> 122"

definition key_char :: "nat \<Rightarrow> char" where
  "key_char i = char_upper (b64_char i)"

lemma lower_name_byte: "name_char c \<Longrightarrow> name_byte (of_char (char_lower c))"
  by (auto simp: name_char_def char_in_def Let_def char_lower_def name_byte_def)

definition key_code :: "nat \<Rightarrow> nat" where
  "key_code i = (if i < 26 then 65 + i else if i < 52 then 39 + i else if i < 62 then i - 4 else if i = 62 then 43 else 47)"

lemma of_key_char: "of_char (key_char i) = key_code i"
  by (auto simp: key_char_def of_char_upper key_code_def b64_char_def)

text \<open>Only the two cases of a letter are merged.\<close>

lemma key_char_merged:
  assumes "key_char i = key_char j" and "i < 64" and "j < 64"
  shows "i = j \<or> i < 26 \<and> j = i + 26 \<or> j < 26 \<and> i = j + 26"
proof -
  have "key_code i = key_code j" using assms(1) by (metis of_key_char)
  with assms(2,3) show ?thesis by (auto simp: key_code_def split: if_splits)
qed

text \<open>Each of the four letters of a group loses nothing that the others do not keep.\<close>

lemma name_byte_bounds: "name_byte a \<Longrightarrow> 43 \<le> a \<and> a \<le> 122"
  by (auto simp: name_byte_def)

lemma key_char_first:
  assumes "name_byte a" and "name_byte a'" and "key_char (a div 4) = key_char (a' div 4)"
  shows "a div 4 = a' div 4"
proof -
  have "a div 4 < 64" "a' div 4 < 64" "10 \<le> a div 4" "10 \<le> a' div 4" "a div 4 < 31" "a' div 4 < 31"
    using assms(1,2) [THEN name_byte_bounds] by auto
  with key_char_merged [OF assms(3)] show ?thesis by auto
qed

lemma key_char_block:
  assumes "key_char (x * n + r) = key_char (y * n + s)" and "x * n + r < 64" and "y * n + s < 64" and "r < n" and "s < n"
    and "r \<noteq> (s + 26) mod n" and "s \<noteq> (r + 26) mod n"
  shows "x = y \<and> r = s"
proof -
  have m: "(z * n + t) mod n = t mod n" "(z * n + t) div n = z + t div n" if "0 < n" for z t using that by simp_all
  have "x * n + r = y * n + s"
  proof (rule ccontr)
    assume "x * n + r \<noteq> y * n + s"
    with key_char_merged [OF assms(1-3)] have "x * n + r = y * n + (s + 26) \<or> y * n + s = x * n + (r + 26)" by auto
    then have "(x * n + r) mod n = (y * n + (s + 26)) mod n \<or> (y * n + s) mod n = (x * n + (r + 26)) mod n" by metis
    with assms(4-7) m(1) show False by auto
  qed
  with assms(4,5) show ?thesis by (metis add.commute add.right_neutral div_less div_mult_self3 gr_implies_not0 mod_less mod_mult_self3)
qed

lemma key_char_second:
  assumes "q < 4" and "q' < 4" and "name_byte b" and "name_byte b'" and "key_char (q * 16 + b div 16) = key_char (q' * 16 + b' div 16)"
  shows "q = q' \<and> b div 16 = b' div 16"
proof (rule key_char_block [OF assms(5)])
  have r: "b div 16 \<in> {2, 3, 5, 6, 7}" "b' div 16 \<in> {2, 3, 5, 6, 7}" using assms(3,4) by (auto simp: name_byte_def)
  then show "q * 16 + b div 16 < 64" "q' * 16 + b' div 16 < 64" "b div 16 < 16" "b' div 16 < 16" using assms(1,2) by auto
  show "b div 16 \<noteq> (b' div 16 + 26) mod 16" using r by (elim insertE; simp)
  show "b' div 16 \<noteq> (b div 16 + 26) mod 16" using r by (elim insertE; simp)
qed

lemma key_char_second_last:
  assumes "q < 4" and "q' < 4" and "key_char (q * 16) = key_char (q' * 16)"
  shows "q = q'"
  using key_char_block [of q 16 0 q' 0] assms by simp

lemma key_char_third:
  assumes "m < 16" and "m' < 16" and "e < 2" and "e' < 2" and "key_char (m * 4 + e) = key_char (m' * 4 + e')"
  shows "m = m' \<and> e = e'"
proof (rule key_char_block [OF assms(5)])
  have "e = 0 \<or> e = 1" "e' = 0 \<or> e' = 1" using assms(3,4) by auto
  then show "e \<noteq> (e' + 26) mod 4" "e' \<noteq> (e + 26) mod 4" by (elim disjE; simp)+
qed (use assms in auto)

lemma key_char_fourth:
  assumes "name_byte c" and "name_byte c'" and "c div 64 = c' div 64" and "key_char (c mod 64) = key_char (c' mod 64)"
  shows "c = c'"
proof -
  have split: "x < 58 \<and> x div 64 = 0 \<and> 43 \<le> x mod 64 \<or> 95 \<le> x \<and> x div 64 = 1 \<and> 31 \<le> x mod 64 \<and> x mod 64 < 59" if "name_byte x" for x
  proof (cases "x < 64")
    case True
    with that show ?thesis by (auto simp: name_byte_def)
  next
    case False
    with that have "95 \<le> x" "x \<le> 122" by (auto simp: name_byte_def)
    moreover from this have "x div 64 = 1" by auto
    moreover have "x = x div 64 * 64 + x mod 64" by simp
    ultimately show ?thesis by auto
  qed
  have "c mod 64 = c' mod 64"
    using key_char_merged [OF assms(4)] split [OF assms(1)] split [OF assms(2)] by auto
  with assms(3) show ?thesis by (metis div_mult_mod_eq)
qed

lemma key_char_not_pad: "key_char i \<noteq> CHR ''=''"
proof -
  have "key_code i \<noteq> of_char CHR ''=''" by (auto simp: key_code_def)
  then show ?thesis by (metis of_key_char)
qed

lemma name_byte_half: "name_byte b \<Longrightarrow> b div 64 < 2"
  by (auto simp: name_byte_def)

lemma mod_4: "(a :: nat) mod 4 < 4" and mod_16: "(a :: nat) mod 16 < 16"
  by simp_all

lemma upper_b64:
  "to_upper (b64_encode [a]) = [key_char (a div 4), key_char (a mod 4 * 16), CHR ''='', CHR ''='']"
  "to_upper (b64_encode [a, b]) = [key_char (a div 4), key_char (a mod 4 * 16 + b div 16), key_char (b mod 16 * 4), CHR ''='']"
  "to_upper (b64_encode (a # b # c # xs)) = key_char (a div 4) # key_char (a mod 4 * 16 + b div 16)
     # key_char (b mod 16 * 4 + c div 64) # key_char (c mod 64) # to_upper (b64_encode xs)"
  by (simp_all add: key_char_def char_upper_def)

lemma div_mod_eq: "(a :: nat) div n = a' div n \<Longrightarrow> a mod n = a' mod n \<Longrightarrow> a = a'"
  by (metis div_mult_mod_eq)

lemma b64_upper_inj:
  assumes "list_all name_byte xs" and "list_all name_byte ys" and "to_upper (b64_encode xs) = to_upper (b64_encode ys)"
  shows "xs = ys"
  using assms
proof (induction xs arbitrary: ys rule: b64_encode.induct)
  case 1
  then show ?case by (cases ys rule: b64_encode.cases) simp_all
next
  case (2 a)
  then show ?case
  proof (cases ys rule: b64_encode.cases)
    case (2 a')
    from 2 "2.prems" have eq: "key_char (a div 4) = key_char (a' div 4)" "key_char (a mod 4 * 16) = key_char (a' mod 4 * 16)"
      and mem: "name_byte a" "name_byte a'" by (simp_all add: upper_b64 del: b64_encode.simps)
    from key_char_first [OF mem eq(1)] key_char_second_last [OF mod_4 mod_4 eq(2)]
    show ?thesis using 2 div_mod_eq by blast
  qed (use "2.prems" key_char_not_pad in \<open>auto simp: upper_b64 simp del: b64_encode.simps(2-)\<close>)
next
  case (3 a b)
  then show ?case
  proof (cases ys rule: b64_encode.cases)
    case (3 a' b')
    from 3 "3.prems" have eq: "key_char (a div 4) = key_char (a' div 4)" "key_char (a mod 4 * 16 + b div 16) = key_char (a' mod 4 * 16 + b' div 16)"
        "key_char (b mod 16 * 4 + 0) = key_char (b' mod 16 * 4 + 0)"
      and mem: "name_byte a" "name_byte a'" "name_byte b" "name_byte b'"
      by (simp_all add: upper_b64 del: b64_encode.simps)
    from key_char_first [OF mem(1,2) eq(1)] key_char_second [OF mod_4 mod_4 mem(3,4) eq(2)]
      key_char_third [OF mod_16 mod_16 _ _ eq(3)]
    have "a = a'" "b = b'" by (auto intro: div_mod_eq)
    with 3 show ?thesis by simp
  qed (use "3.prems" key_char_not_pad in \<open>auto simp: upper_b64 simp del: b64_encode.simps(2-)\<close>)
next
  case (4 a b c xs)
  then show ?case
  proof (cases ys rule: b64_encode.cases)
    case (4 a' b' c' zs)
    from 4 "4.prems" have eq: "key_char (a div 4) = key_char (a' div 4)" "key_char (a mod 4 * 16 + b div 16) = key_char (a' mod 4 * 16 + b' div 16)"
        "key_char (b mod 16 * 4 + c div 64) = key_char (b' mod 16 * 4 + c' div 64)" "key_char (c mod 64) = key_char (c' mod 64)"
        "to_upper (b64_encode xs) = to_upper (b64_encode zs)"
      and mem: "name_byte a" "name_byte a'" "name_byte b" "name_byte b'" "name_byte c" "name_byte c'"
        "list_all name_byte xs" "list_all name_byte zs"
      by (simp_all add: upper_b64 del: b64_encode.simps)
    have a: "a div 4 = a' div 4" by (rule key_char_first [OF mem(1,2) eq(1)])
    have b: "a mod 4 = a' mod 4 \<and> b div 16 = b' div 16"
      by (rule key_char_second [OF mod_4 mod_4 mem(3,4) eq(2)])
    have c: "b mod 16 = b' mod 16 \<and> c div 64 = c' div 64"
      by (rule key_char_third [OF mod_16 mod_16 name_byte_half [OF mem(5)] name_byte_half [OF mem(6)] eq(3)])
    have "a = a'" "b = b'" "c = c'" using a b c key_char_fourth [OF mem(5,6) _ eq(4)] by (auto intro: div_mod_eq)
    with 4 "4.IH" [OF mem(7,8) eq(5)] show ?thesis by simp
  qed (use "4.prems" key_char_not_pad in \<open>auto simp: upper_b64 simp del: b64_encode.simps(2-)\<close>)
qed

text \<open>Two acceptable names with one key are the same name up to the case of their letters.\<close>

lemma name_key_inj:
  assumes "IsValidSWITCHName n" and "IsValidSWITCHName n'" and "kv_key (SWITCHName_Key n) = kv_key (SWITCHName_Key n')"
  shows "to_lower n = to_lower n'"
proof -
  have "list_all name_byte (map of_char (to_lower x))" if "IsValidSWITCHName x" for x
    using that lower_name_byte by (auto simp: IsValidSWITCHName_def to_lower_def list_all_iff)
  with assms have "map of_char (to_lower n) = (map of_char (to_lower n') :: nat list)"
    by (intro b64_upper_inj) (auto simp: kv_key_def SWITCHName_Key_def)
  then show ?thesis by (simp add: inj_on_def map_injective)
qed

section \<open>Names through a run\<close>

text \<open>The store of names through messages; other modules leave it alone and may change the rest.\<close>

inductive name_run :: "dec_lib \<Rightarrow> addr_lib \<Rightarrow> name_state \<Rightarrow> bool" for D A where
  start: "nsNames s = Map.empty \<Longrightarrow> name_run D A s"
| manage: "name_run D A s \<Longrightarrow> 0 < BlockHeight c \<Longrightarrow> ManageSWITCHName_validate D A pools c s m = Inr () \<Longrightarrow> ManageSWITCHName_handle D pools c s m = Inr s'
    \<Longrightarrow> name_run D A s'"
| other: "name_run D A s \<Longrightarrow> nsNames s' = nsNames s \<Longrightarrow> name_run D A s'"

abbreviation name_slot :: "string \<Rightarrow> string" where
  "name_slot name \<equiv> kv_key (SWITCHName_Key name)"

definition names_ok :: "name_state \<Rightarrow> bool" where
  "names_ok s \<longleftrightarrow> (\<forall>k n. nsNames s k = Some n \<longrightarrow> (\<exists>r. n = Stored r \<and> IsValidSWITCHName (snName r) \<and> k = name_slot (snName r)))"

lemma exists_stored:
  assumes "names_ok s" and "SWITCHNameExists c s x" and "0 < BlockHeight c"
  obtains n where "nsNames s (name_slot x) = Some (Stored n)" and "GetSWITCHName c s x = Inr n" and "name_slot (snName n) = name_slot x"
    and "IsValidSWITCHName (snName n)" and "BlockHeight c \<le> snExpire n"
  using assms by (fastforce simp: SWITCHNameExists_def GetSWITCHName_def names_ok_def NewSWITCHName_def split: if_splits option.splits)

text \<open>What a message writes: one record, of the name it names.\<close>

lemma extend_name_name: "extend_name D pools c k ex m n = Inr n' \<Longrightarrow> snName n' = snName n"
  by (auto simp: extend_name_def res_simps Let_def split: if_splits prod.splits)

lemma update_name_name: "snName (update_name m n) = snName n"
  by (simp add: update_name_def Let_def SetAlias_def)

lemma manage_writes:
  assumes "ManageSWITCHName_handle D pools c s m = Inr s'"
  obtains n n' where "(if SWITCHNameExists c s (mnName m) then GetSWITCHName c s (mnName m)
      else Inr ((NewSWITCHName (mnName m) 0 [])\<lparr>snOwner := mnSigner m\<rparr>)) = Inr n"
    and "snName n' = snName n" and "s' = SetSWITCHName s n'"
proof -
  from assms obtain n n1 where "(if SWITCHNameExists c s (mnName m) then GetSWITCHName c s (mnName m)
      else Inr ((NewSWITCHName (mnName m) 0 [])\<lparr>snOwner := mnSigner m\<rparr>)) = Inr n"
    and n1: "extend_name D pools c (nsKeeper s) (SWITCHNameExists c s (mnName m)) m n = Inr n1" and "s' = SetSWITCHName s (update_name m n1)"
    by (auto simp: ManageSWITCHName_handle_def Let_def res_bind_Inr res_map_Inr split: if_splits)
  with extend_name_name [OF n1] that update_name_name show ?thesis by metis
qed

lemma validated_name:
  assumes "ManageSWITCHName_validate D A pools c s m = Inr ()"
  shows "if SWITCHNameExists c s (mnName m)
    then \<exists>n. GetSWITCHName c s (mnName m) = Inr n \<and> (snOwner n = mnSigner m \<or> snExpire n < BlockHeight c)
    else IsValidSWITCHName (mnName m)"
  using assms by (auto simp: ManageSWITCHName_validate_def res_simps validateName_def guard_err_def split: if_splits)

lemma manage_slot:
  assumes "names_ok s" and "ManageSWITCHName_validate D A pools c s m = Inr ()" and "ManageSWITCHName_handle D pools c s m = Inr s'"
    and "0 < BlockHeight c"
  obtains n' where "s' = SetSWITCHName s n'" and "name_slot (snName n') = name_slot (mnName m)" and "IsValidSWITCHName (snName n')"
proof -
  from assms(3) obtain n n' where n: "(if SWITCHNameExists c s (mnName m) then GetSWITCHName c s (mnName m)
      else Inr ((NewSWITCHName (mnName m) 0 [])\<lparr>snOwner := mnSigner m\<rparr>)) = Inr n"
    and n': "snName n' = snName n" "s' = SetSWITCHName s n'" by (rule manage_writes)
  show ?thesis
  proof (cases "SWITCHNameExists c s (mnName m)")
    case True
    from exists_stored [OF assms(1) True assms(4)] n True n' that show ?thesis by (metis sum.inject(2))
  next
    case False
    with n n' that validated_name [OF assms(2)] show ?thesis by (auto simp: NewSWITCHName_def)
  qed
qed

lemma name_run_ok: "name_run D A s \<Longrightarrow> names_ok s"
proof (induction rule: name_run.induct)
  case (manage s pools c m s')
  from manage_slot [OF manage.IH manage.hyps(3,4,2)] obtain n' where "s' = SetSWITCHName s n'" "IsValidSWITCHName (snName n')" by metis
  with manage.IH show ?case by (auto simp: names_ok_def SetSWITCHName_def kv_set_def)
qed (auto simp: names_ok_def)

section \<open>Properties\<close>

text \<open>C28. A registered name that has not expired is changed only by its owner: whatever message is accepted, every
  such name reads as before, unless the message is for that name, spelled with letters of any case, and signed by
  the owner.\<close>

theorem name_owner_controls:
  assumes "name_run D A s" and "ManageSWITCHName_validate D A pools c s m = Inr ()" and "ManageSWITCHName_handle D pools c s m = Inr s'"
    and "0 < BlockHeight c" and "IsValidSWITCHName x" and "SWITCHNameExists c s x"
  shows "GetSWITCHName c s' x = GetSWITCHName c s x
    \<or> (\<exists>n. GetSWITCHName c s x = Inr n \<and> snOwner n = mnSigner m
         \<and> (IsValidSWITCHName (mnName m) \<longrightarrow> to_lower x = to_lower (mnName m)))"
proof (cases "name_slot x = name_slot (mnName m)")
  case True
  have ok: "names_ok s" by (rule name_run_ok [OF assms(1)])
  have ex: "SWITCHNameExists c s (mnName m)" using assms(4,6) ok True
    by (auto simp: SWITCHNameExists_def GetSWITCHName_def names_ok_def NewSWITCHName_def split: if_splits option.splits slot.splits)
  from exists_stored [OF ok assms(6,4)] obtain n where n: "nsNames s (name_slot x) = Some (Stored n)" "GetSWITCHName c s x = Inr n"
    "BlockHeight c \<le> snExpire n" by metis
  moreover have "GetSWITCHName c s (mnName m) = Inr n" using n True by (auto simp: GetSWITCHName_def)
  moreover have "snOwner n = mnSigner m" using validated_name [OF assms(2)] ex n calculation by auto
  ultimately show ?thesis using name_key_inj [OF assms(5) _ True] by blast
next
  case False
  from manage_slot [OF name_run_ok [OF assms(1)] assms(2-4)] obtain n' where "s' = SetSWITCHName s n'" "name_slot (snName n') = name_slot (mnName m)"
    by metis
  with False show ?thesis by (simp add: GetSWITCHName_def SetSWITCHName_def kv_set_def)
qed

definition name_ctx :: ctx where
  "name_ctx = demo_ctx\<lparr>cBuild := mainnet_overrides\<lparr>int64Overrides := (\<lambda>_. Some 2)\<rparr>\<rparr>"

definition register :: "string \<Rightarrow> acc \<Rightarrow> msg_manage_name" where
  "register name signer = \<lparr>mnName = name, mnChain = SWITCHLYChain, mnAddress = ''switch1op'', mnCoin = NewCoin SwitchNative 9,
     mnExpire = 0, mnPreferred = EmptyAsset, mnOwner = [], mnSigner = signer\<rparr>"

definition registered :: "string \<Rightarrow> acc \<Rightarrow> switch_name" where
  "registered name signer =
     \<lparr>snName = name, snExpire = 15, snOwner = signer, snPreferred = EmptyAsset, snAliases = [(SWITCHLYChain, ''switch1op'')]\<rparr>"

lemma register_facts:
  "MsgManageSWITCHName_ValidateBasic plain_addrs (register name (x # xs)) = Inr ()"
  "SoftEquals MainNet (GetNetwork plain_addrs MainNet ''switch1op'' (Address_GetChain plain_addrs ''switch1op''))"
  "Asset_IsEmpty EmptyAsset"
  unfolding register_def by code_simp+

lemma register_runs:
  assumes "IsValidSWITCHName name" and "length name \<le> 30" and "nsNames s (name_slot name) = None" and "nsKeeper s = empty_kstore"
  shows "ManageSWITCHName_validate legacy_dec plain_addrs (Inr []) name_ctx s (register name (x # xs)) = Inr ()"
    and "ManageSWITCHName_handle legacy_dec (Inr []) name_ctx s (register name (x # xs)) = Inr (SetSWITCHName s (registered name (x # xs)))"
proof -
  have ctx: "BlockHeight name_ctx = 10" "cVersion3 name_ctx" "cNetwork name_ctx = MainNet" "\<And>n. GetInt64Value (cBuild name_ctx) n = 2"
    by (simp_all add: name_ctx_def demo_ctx_def GetInt64Value_def)
  have fee: "GetSWITCHNameRegisterFee legacy_dec name_ctx (nsKeeper s) pools = Inr 2" "GetSWITCHNamePerBlockFee legacy_dec name_ctx (nsKeeper s) pools = Inr 2"
    for pools :: "pool list res"
    by (simp_all add: GetSWITCHNameRegisterFee_def GetSWITCHNamePerBlockFee_def usdFeesEnabled_def GetMimir_def assms(4) empty_kstore_def kv_get_def ctx(4) uint64_of_def)
  have m: "mnName (register name (x # xs)) = name" "mnAddress (register name (x # xs)) = ''switch1op''" "mnChain (register name (x # xs)) = SWITCHLYChain"
    "cAmount (mnCoin (register name (x # xs))) = 9" "mnPreferred (register name (x # xs)) = EmptyAsset" "mnExpire (register name (x # xs)) = 0"
    "mnOwner (register name (x # xs)) = []" "mnSigner (register name (x # xs)) = x # xs"
    by (simp_all add: register_def NewCoin_def)
  have ne: "\<not> SWITCHNameExists name_ctx s name" by (simp add: SWITCHNameExists_def assms(3))
  have nm: "validateName name = Inr ()" using assms(1,2) by (simp add: validateName_def guard_err_def)
  show "ManageSWITCHName_validate legacy_dec plain_addrs (Inr []) name_ctx s (register name (x # xs)) = Inr ()"
    using register_facts by (simp add: ManageSWITCHName_validate_def ctx m ne nm fee guard_err_def preferred_available_def)
  have bought: "blocks_bought 7 2 = Inr 3" by (simp add: blocks_bought_def i64_def go_quot_def)
  show "ManageSWITCHName_handle legacy_dec (Inr []) name_ctx s (register name (x # xs)) = Inr (SetSWITCHName s (registered name (x # xs)))"
  proof -
    let ?n = "(NewSWITCHName name 0 [])\<lparr>snOwner := x # xs\<rparr>"
    have on: "kv_get_or (kMimirs (nsKeeper s)) (kv_key ''SWITCHNames'') (- 1) = - 1"
      by (simp add: kv_get_or_def kv_get_def assms(4) empty_kstore_def)
    have "extend_name legacy_dec (Inr []) name_ctx (nsKeeper s) False (register name (x # xs)) ?n = Inr (?n\<lparr>snExpire := 15\<rparr>)"
      by (simp add: extend_name_def m ctx nm fee SafeSub_def bought NewSWITCHName_def i64_def Let_def)
    moreover have "update_name (register name (x # xs)) (?n\<lparr>snExpire := 15\<rparr>) = registered name (x # xs)"
      using register_facts(3) by (simp add: update_name_def m NewSWITCHName_def SetAlias_def registered_def Let_def)
    ultimately show ?thesis by (simp add: ManageSWITCHName_handle_def ctx m ne on)
  qed
qed

theorem name_owner_controls_witness:
  "\<exists>s s'. name_run legacy_dec plain_addrs s \<and> ManageSWITCHName_handle legacy_dec (Inr []) name_ctx s (register ''al'' ''v'') = Inr s'
     \<and> GetSWITCHName name_ctx s' ''bob'' = Inr (registered ''bob'' ''u'')"
proof -
  define s0 where "s0 = \<lparr>nsKeeper = empty_kstore, nsNames = Map.empty\<rparr>"
  define s where "s = SetSWITCHName s0 (registered ''bob'' ''u'')"
  have ok: "IsValidSWITCHName ''bob''" "IsValidSWITCHName ''al''" "name_slot ''al'' \<noteq> name_slot ''bob''" by code_simp+
  have h: "0 < BlockHeight name_ctx" by (simp add: name_ctx_def demo_ctx_def)
  have none: "nsNames s0 (name_slot ''bob'') = None" "nsKeeper s0 = empty_kstore" by (simp_all add: s0_def)
  note bob = register_runs [OF ok(1) _ none, of "CHR ''u''" "[]", folded s_def, simplified]
  have run: "name_run legacy_dec plain_addrs s" by (rule name_run.manage [OF name_run.start h bob]) (simp add: s0_def)
  have al: "nsNames s (name_slot ''al'') = None" "nsKeeper s = empty_kstore"
    using ok(3) by (simp_all add: s_def s0_def SetSWITCHName_def kv_set_def registered_def)
  note al_runs = register_runs [OF ok(2) _ al, of "CHR ''v''" "[]", simplified]
  have rd: "GetSWITCHName name_ctx s ''bob'' = Inr (registered ''bob'' ''u'')" and ex: "SWITCHNameExists name_ctx s ''bob''"
    by (simp_all add: SWITCHNameExists_def GetSWITCHName_def s_def SetSWITCHName_def kv_set_def registered_def name_ctx_def demo_ctx_def)
  have "snOwner (registered ''bob'' ''u'') \<noteq> mnSigner (register ''al'' ''v'')" by (simp add: registered_def register_def)
  with name_owner_controls [OF run al_runs h ok(1) ex] rd run al_runs(2) show ?thesis by auto
qed

end
