(* ===== verification/Big_Float.thy ===== *)
theory Big_Float
  imports Decimal_Text
begin

text \<open>
  Amounts in scientific notation. Memos read them with \<open>big.ParseFloat(s, 10, 0, big.ToZero)\<close> of the standard
  library and cut the result to an integer. A float has a mantissa of 64 bits: longer amounts lose their low bits.
\<close>

section \<open>Floats\<close>

text \<open>\<open>Fin m e\<close> is m times 2 to the e. The exponent of the standard library is \<open>e\<close> plus the length of \<open>m\<close>.\<close>

datatype bigfloat = Inf | Fin nat int

fun mant_len :: "nat \<Rightarrow> nat" where
  "mant_len n = (if n = 0 then 0 else Suc (mant_len (n div 2)))"

declare mant_len.simps [simp del]

definition MaxExp :: int where "MaxExp = 2147483647"
definition MinExp :: int where "MinExp = - 2147483648"

text \<open>A result above the range is infinite, below it zero.\<close>

definition in_exp_range :: "bigfloat \<Rightarrow> bigfloat" where
  "in_exp_range x = (case x of Inf \<Rightarrow> Inf
     | Fin m e \<Rightarrow> let ex = int (mant_len m) + e in if m = 0 then Fin 0 0 else if ex > MaxExp then Inf else if ex < MinExp then Fin 0 0 else Fin m e)"

definition to_zero :: "nat \<Rightarrow> bigfloat \<Rightarrow> bigfloat" where
  "to_zero prec x = (case x of Inf \<Rightarrow> Inf
     | Fin m e \<Rightarrow> let k = mant_len m - prec in in_exp_range (Fin (m div 2 ^ k) (e + int k)))"

definition to_nearest_even :: "nat \<Rightarrow> bigfloat \<Rightarrow> bigfloat" where
  "to_nearest_even prec x = (case x of Inf \<Rightarrow> Inf
     | Fin m e \<Rightarrow> let k = mant_len m - prec; q = m div 2 ^ k; r = m mod 2 ^ k
         in in_exp_range (Fin (if k > 0 \<and> (2 * r > 2 ^ k \<or> 2 * r = 2 ^ k \<and> odd q) then q + 1 else q) (e + int k)))"

definition fl_mul :: "(bigfloat \<Rightarrow> bigfloat) \<Rightarrow> bigfloat \<Rightarrow> bigfloat \<Rightarrow> bigfloat" where
  "fl_mul rnd x y = (case (x, y) of (Fin m e, Fin n d) \<Rightarrow> rnd (Fin (m * n) (e + d)) | _ \<Rightarrow> Inf)"

text \<open>The quotient, cut to 64 bits: the dividend is extended so that the quotient has at least that many.\<close>

definition fl_quo_to_zero :: "bigfloat \<Rightarrow> bigfloat \<Rightarrow> bigfloat" where
  "fl_quo_to_zero x y = (case (x, y) of
       (Fin m e, Fin n d) \<Rightarrow> let k = 64 + mant_len n in to_zero 64 (Fin (m * 2 ^ k div n) (e - d - int k))
     | (Fin m e, Inf) \<Rightarrow> Fin 0 0
     | (Inf, _) \<Rightarrow> Inf)"

fun pow5_loop :: "nat \<Rightarrow> bigfloat \<Rightarrow> bigfloat \<Rightarrow> bigfloat" where
  "pow5_loop n z f =
     (if n = 0 then z
      else pow5_loop (n div 2) (if odd n then fl_mul (to_nearest_even 128) z f else z) (fl_mul (to_nearest_even 192) f f))"

declare pow5_loop.simps [simp del]

definition pow5 :: "nat \<Rightarrow> bigfloat" where
  "pow5 n = (if n \<le> 27 then Fin (5 ^ n) 0 else pow5_loop (n - 27) (Fin (5 ^ 27) 0) (Fin 5 0))"

section \<open>Text\<close>

text \<open>Leading digits: their value, their number and the rest.\<close>

fun scan_digits :: "nat \<Rightarrow> string \<Rightarrow> nat \<times> nat \<times> string" where
  "scan_digits acc [] = (acc, 0, [])"
| "scan_digits acc (c # cs) = (case digit_val c of None \<Rightarrow> (acc, 0, c # cs)
     | Some d \<Rightarrow> (let (v, n, rest) = scan_digits (10 * acc + d) cs in (v, Suc n, rest)))"

text \<open>The mantissa: digits with at most one point, at least one digit. Second is the number of decimals.\<close>

definition scan_mantissa :: "string \<Rightarrow> (nat \<times> nat \<times> string) option" where
  "scan_mantissa s =
     (let (v, n, rest) = scan_digits 0 s in
      case rest of
        CHR ''.'' # rest' \<Rightarrow> (let (w, k, rest2) = scan_digits v rest' in if n + k = 0 then None else Some (w, k, rest2))
      | _ \<Rightarrow> if n = 0 then None else Some (v, 0, rest))"

text \<open>The exponent, of 10 or of 2; it must end the text.\<close>

definition scan_exponent :: "string \<Rightarrow> (bool \<times> int) option" where
  "scan_exponent s =
     (case s of
        [] \<Rightarrow> Some (True, 0)
      | c # cs \<Rightarrow>
          if c \<in> {CHR ''e'', CHR ''E'', CHR ''p'', CHR ''P''}
          then map_option (\<lambda>x. (c \<in> {CHR ''e'', CHR ''E''}, x)) (parse_int64 cs)
          else None)"

definition split_sign :: "string \<Rightarrow> bool \<times> string" where
  "split_sign s = (case s of c # cs \<Rightarrow> if c = CHR ''-'' then (True, cs) else if c = CHR ''+'' then (False, cs) else (False, s) | [] \<Rightarrow> (False, []))"

definition fl_int :: "bigfloat \<Rightarrow> nat" where
  "fl_int x = (case x of Inf \<Rightarrow> 0 | Fin m e \<Rightarrow> if 0 \<le> e then m * 2 ^ nat e else m div 2 ^ nat (- e))"

text \<open>\<open>big.ParseFloat\<close> followed by \<open>Int\<close> on a fresh integer, which an infinite value leaves at zero.\<close>

definition parse_float_int :: "string \<Rightarrow> int option" where
  "parse_float_int s =
     (let (neg, body) = split_sign s in
      if body = ''Inf'' \<or> body = ''inf'' then Some 0
      else case scan_mantissa body of None \<Rightarrow> None
      | Some (m, decimals, rest) \<Rightarrow>
        (case scan_exponent rest of None \<Rightarrow> None
         | Some (ten, x) \<Rightarrow>
           if m = 0 then Some 0
           else let exp5 = (if ten then x else 0) - int decimals; exp2 = x - int decimals; ex = int (mant_len m) + exp2 in
             if ex < MinExp \<or> MaxExp < ex then None
             else let v = (if exp5 = 0 then to_zero 64 (Fin m exp2)
                     else if exp5 < 0 then fl_quo_to_zero (Fin m exp2) (pow5 (nat (- exp5)))
                     else fl_mul (to_zero 64) (Fin m exp2) (pow5 (nat exp5)))
               in Some (if neg then - int (fl_int v) else int (fl_int v))))"

section \<open>Lemmas\<close>

lemma mant_len_le: "n < 2 ^ k \<Longrightarrow> mant_len n \<le> k"
proof (induction k arbitrary: n)
  case 0
  then show ?case by (simp add: mant_len.simps)
next
  case (Suc k)
  then have "n div 2 < 2 ^ k" by auto
  with Suc.IH show ?case by (simp add: mant_len.simps [of n])
qed

lemma scan_all_digits: "digits_val acc s = Some v \<Longrightarrow> scan_digits acc s = (v, length s, [])"
  by (induction s arbitrary: acc) (auto split: option.splits)

text \<open>A plain amount below 2^64 is read exactly.\<close>

lemma parse_float_nat_str:
  assumes "n < 2 ^ 64"
  shows "parse_float_int (nat_str n) = Some (int n)"
proof -
  have "set (nat_str n) \<inter> {CHR ''-'', CHR ''+'', CHR ''I'', CHR ''i''} = {}"
    by (auto simp: char_in_def dest!: nat_str_digits)
  then have body: "split_sign (nat_str n) = (False, nat_str n)" "nat_str n \<noteq> ''Inf''" "nat_str n \<noteq> ''inf''"
    by (cases "nat_str n"; auto simp: split_sign_def)+
  have m: "scan_mantissa (nat_str n) = Some (n, 0, [])"
    by (simp add: scan_mantissa_def scan_all_digits [OF digits_nat_str])
  have len: "mant_len n \<le> 64" by (rule mant_len_le [OF assms])
  then have "to_zero 64 (Fin n 0) = Fin n 0" by (auto simp: to_zero_def in_exp_range_def MaxExp_def MinExp_def Let_def)
  with len show ?thesis by (simp add: parse_float_int_def body m scan_exponent_def Let_def fl_int_def MaxExp_def MinExp_def)
qed

end
