(* ===== verification/Memos.thy ===== *)
theory Memos
  imports Switch_Names Memo_Types Big_Float
begin

text \<open>
  The parser of memos and the memos themselves: \<^verbatim>\<open>src/x/switchly/memo\<close>. A memo is text with colons; its first part
  is the type. The parser keeps going after a bad field: it collects the errors and counts the required fields, and
  \<open>Error\<close> reports them at the end, beside the memo. Functions of the parser thread its state; a panic is recovered by
  \<open>ParseMemo\<close>.

  \<open>memo_lib\<close> holds the address decoders, the keys, the parser of unsigned integers of the SDK and the network of the
  build. Without a keeper (\<open>ParseMemo\<close>) no names are looked up. The swap memo is that of version 3.0.0 and above.
\<close>

section \<open>Memos\<close>

record swap_memo =
  smAsset :: asset
  smDestination :: address
  smSlipLimit :: uint
  smAffiliateAddress :: address
  smAffiliateBasisPoints :: uint
  smDexAggregator :: string
  smDexTargetAddress :: string
  smDexTargetLimit :: "uint option"
  smLimit :: bool
  smStreamInterval :: nat
  smStreamQuantity :: nat
  smAffiliateName :: "switch_name option"
  smRefundAddress :: address
  smAffiliates :: "string list"
  smAffiliatesBasisPoints :: "uint list"

record loan_open_memo =
  loTargetAsset :: asset
  loTargetAddress :: address
  loMinOut :: uint
  loAffiliateAddress :: address
  loAffiliateBasisPoints :: uint
  loDexAggregator :: string
  loDexTargetAddress :: string
  loDexTargetLimit :: uint
  loAffiliateName :: switch_name

datatype memo =
    EmptyMemo
  | AddLiquidityMemo asset address address uint
  | WithdrawLiquidityMemo asset uint asset
  | SwapMemo swap_memo
  | OutboundMemo txid
  | RefundMemo txid
  | DonateMemo asset
  | BondMemo acc acc int
  | UnbondMemo acc uint acc
  | LeaveMemo acc
  | ReserveMemo
  | MigrateMemo int
  | RagnarokMemo int
  | NoOpMemo string
  | ConsolidateMemo
  | ManageSWITCHNameMemo string chain address int asset acc
  | LoanOpenMemo loan_open_memo
  | LoanRepaymentMemo asset address uint
  | TradeAccountDepositMemo acc
  | TradeAccountWithdrawalMemo address
  | SecuredAssetDepositMemo acc
  | SecuredAssetWithdrawMemo address
  | SwitchPoolDepositMemo
  | SwitchPoolWithdrawMemo uint address uint "switch_name option"
  | ExecMemo acc "nat list"
  | SwitchMemo acc
  | SWCYClaimMemo address
  | SWCYStakeMemo
  | SWCYUnstakeMemo uint
  | MaintMemo acc

fun memo_GetType :: "memo \<Rightarrow> TxType" where
  "memo_GetType EmptyMemo = TxUnknown"
| "memo_GetType (AddLiquidityMemo _ _ _ _) = TxAdd"
| "memo_GetType (WithdrawLiquidityMemo _ _ _) = TxWithdraw"
| "memo_GetType (SwapMemo _) = TxSwap"
| "memo_GetType (OutboundMemo _) = TxOutbound"
| "memo_GetType (RefundMemo _) = TxRefund"
| "memo_GetType (DonateMemo _) = TxDonate"
| "memo_GetType (BondMemo _ _ _) = TxBond"
| "memo_GetType (UnbondMemo _ _ _) = TxUnbond"
| "memo_GetType (LeaveMemo _) = TxLeave"
| "memo_GetType ReserveMemo = TxReserve"
| "memo_GetType (MigrateMemo _) = TxMigrate"
| "memo_GetType (RagnarokMemo _) = TxRagnarok"
| "memo_GetType (NoOpMemo _) = TxNoOp"
| "memo_GetType ConsolidateMemo = TxConsolidate"
| "memo_GetType (ManageSWITCHNameMemo _ _ _ _ _ _) = TxSWITCHName"
| "memo_GetType (LoanOpenMemo _) = TxLoanOpen"
| "memo_GetType (LoanRepaymentMemo _ _ _) = TxLoanRepayment"
| "memo_GetType (TradeAccountDepositMemo _) = TxTradeAccountDeposit"
| "memo_GetType (TradeAccountWithdrawalMemo _) = TxTradeAccountWithdrawal"
| "memo_GetType (SecuredAssetDepositMemo _) = TxSecuredAssetDeposit"
| "memo_GetType (SecuredAssetWithdrawMemo _) = TxSecuredAssetWithdraw"
| "memo_GetType SwitchPoolDepositMemo = TxSwitchPoolDeposit"
| "memo_GetType (SwitchPoolWithdrawMemo _ _ _ _) = TxSwitchPoolWithdraw"
| "memo_GetType (ExecMemo _ _) = TxExec"
| "memo_GetType (SwitchMemo _) = TxSwitch"
| "memo_GetType (SWCYClaimMemo _) = TxSWCYClaim"
| "memo_GetType SWCYStakeMemo = TxSWCYStake"
| "memo_GetType (SWCYUnstakeMemo _) = TxSWCYUnstake"
| "memo_GetType (MaintMemo _) = TxMaint"

section \<open>The parser\<close>

record memo_lib =
  mlAddr :: addr_lib
  mlKey :: key_lib
  mlParseUint :: "string \<Rightarrow> uint option"
  mlNetwork :: ChainNetwork

record parser =
  pTxType :: TxType
  pKeeper :: "(ctx \<times> name_state) option"
  pParts :: "string list"
  pErrs :: "string list"
  pRequired :: nat

type_synonym 'a parse = "parser \<Rightarrow> ('a \<times> parser) res"

definition parse_return :: "'a \<Rightarrow> 'a parse" where
  "parse_return a = (\<lambda>p. Inr (a, p))"

definition parse_bind :: "'a parse \<Rightarrow> ('a \<Rightarrow> 'b parse) \<Rightarrow> 'b parse" where
  "parse_bind m f = (\<lambda>p. res_bind (m p) (\<lambda>(a, p'). f a p'))"

definition newParser :: "(ctx \<times> name_state) option \<Rightarrow> string \<Rightarrow> parser res" where
  "newParser k memo =
     res_map (\<lambda>t. \<lparr>pTxType = t, pKeeper = k, pParts = memo_parts memo, pErrs = [], pRequired = 0\<rparr>) (memo_type memo)"

definition incRequired :: "bool \<Rightarrow> parser \<Rightarrow> parser" where
  "incRequired required p = (if required then p\<lparr>pRequired := pRequired p + 1\<rparr> else p)"

definition addErr :: "string \<Rightarrow> parser \<Rightarrow> parser" where
  "addErr e p = p\<lparr>pErrs := pErrs p @ [e]\<rparr>"

definition hasMinParams :: "nat \<Rightarrow> parser \<Rightarrow> parser" where
  "hasMinParams n p = (if length (pParts p) < n then addErr ''not enough parameters'' p else p)"

definition parser_Error :: "parser \<Rightarrow> go_error option \<times> parser" where
  "parser_Error p = (let p' = hasMinParams (pRequired p + 1) p in
     (if pErrs p' = [] then None else Some (Err ''PARSE FAILURE(S)''), p'))"

definition part :: "parser \<Rightarrow> nat \<Rightarrow> string" where
  "part p idx = (if length (pParts p) \<le> idx then '''' else pParts p ! idx)"

definition getSubIndex :: "parser \<Rightarrow> nat \<Rightarrow> nat \<Rightarrow> string" where
  "getSubIndex p idx sub =
     (if length (pParts p) \<le> idx then ''''
      else let xs = split_on CHR ''/'' (pParts p ! idx) in if length xs \<le> sub then '''' else xs ! sub)"

text \<open>The shape most getters share: a bad value is an error if it is required or given, and the default is used.\<close>

definition field :: "(string \<Rightarrow> 'a option) \<Rightarrow> string \<Rightarrow> nat \<Rightarrow> bool \<Rightarrow> 'a \<Rightarrow> 'a parse" where
  "field read msg idx required dflt p =
     (let p1 = incRequired required p; s = part p idx in
      case read s of Some v \<Rightarrow> Inr (v, p1)
      | None \<Rightarrow> Inr (dflt, if required \<or> s \<noteq> '''' then addErr msg p1 else p1))"

definition ok_value :: "'a res \<Rightarrow> 'a option" where
  "ok_value r = (case r of Inr v \<Rightarrow> Some v | Inl _ \<Rightarrow> None)"

definition getInt64 :: "nat \<Rightarrow> bool \<Rightarrow> int \<Rightarrow> int parse" where
  "getInt64 = field parse_int64 ''cannot parse as an int64''"

definition getUint :: "memo_lib \<Rightarrow> nat \<Rightarrow> bool \<Rightarrow> uint \<Rightarrow> uint parse" where
  "getUint L = field (mlParseUint L) ''cannot parse as an uint''"

text \<open>\<open>NewUintFromBigInt\<close> panics on a negative number and above 256 bits.\<close>

definition uint_of_big :: "int \<Rightarrow> uint res" where
  "uint_of_big i = (if i < 0 \<or> 2 ^ 256 \<le> i then Inl (Panic ''Uint out of range'') else Inr (nat i))"

definition getUintWithScientificNotation :: "nat \<Rightarrow> bool \<Rightarrow> uint \<Rightarrow> uint parse" where
  "getUintWithScientificNotation idx required dflt p =
     (case parse_float_int (part p idx) of
        None \<Rightarrow> field (\<lambda>_. None) ''cannot parse as an uint with sci notation'' idx required dflt p
      | Some i \<Rightarrow> res_map (\<lambda>n. (n, incRequired required p)) (uint_of_big i))"

definition getUintWithMaxValue :: "memo_lib \<Rightarrow> nat \<Rightarrow> bool \<Rightarrow> uint \<Rightarrow> uint \<Rightarrow> uint parse" where
  "getUintWithMaxValue L idx required dflt mx =
     parse_bind (getUint L idx required dflt) (\<lambda>v p.
       if v > mx then Inr (mx, if required \<or> part p idx \<noteq> '''' then addErr ''cannot exceed'' p else p) else Inr (v, p))"

definition getAccAddress :: "memo_lib \<Rightarrow> nat \<Rightarrow> bool \<Rightarrow> acc \<Rightarrow> acc parse" where
  "getAccAddress L = field (acc_from_bech32 (mlKey L)) ''cannot parse as an AccAddress''"

definition getAddress :: "memo_lib \<Rightarrow> nat \<Rightarrow> bool \<Rightarrow> address \<Rightarrow> address parse" where
  "getAddress L = field (\<lambda>s. ok_value (NewAddress (mlAddr L) (mlNetwork L) s)) ''cannot parse as an Address''"

definition getThorAddress :: "memo_lib \<Rightarrow> nat \<Rightarrow> bool \<Rightarrow> address \<Rightarrow> address parse" where
  "getThorAddress L idx required dflt p =
     (case NewAddress (mlAddr L) (mlNetwork L) (part p idx) of
        Inl _ \<Rightarrow> field (\<lambda>_. None) ''cannot parse as an Address'' idx required dflt p
      | Inr a \<Rightarrow>
          if \<not> IsChain (mlAddr L) a SWITCHLYChain \<and> required
          then Inr (dflt, addErr ''cannot parse as a SWITCHLY Address'' (incRequired required p))
          else Inr (a, incRequired required p))"

definition FetchAddress :: "memo_lib \<Rightarrow> ctx \<Rightarrow> name_state \<Rightarrow> string \<Rightarrow> chain \<Rightarrow> address res" where
  "FetchAddress L c s name chain =
     (case NewAddress (mlAddr L) (mlNetwork L) name of
        Inr a \<Rightarrow> Inr a
      | Inl _ \<Rightarrow>
          let (n, ext) = split2 CHR ''.'' name in
          res_bind (case ext of None \<Rightarrow> Inr chain | Some e \<Rightarrow> NewChain e) (\<lambda>ch.
            if SWITCHNameExists c s n then res_map (\<lambda>sn. GetAlias sn ch) (GetSWITCHName c s n)
            else Inl (Err ''is not recognizable'')))"

text \<open>Without a keeper the required field is counted twice.\<close>

definition getAddressWithKeeper :: "memo_lib \<Rightarrow> nat \<Rightarrow> bool \<Rightarrow> chain \<Rightarrow> address parse" where
  "getAddressWithKeeper L idx required chain p =
     (let p1 = incRequired required p in
      case pKeeper p of
        None \<Rightarrow> getAddress L idx required '''' p1
      | Some (c, s) \<Rightarrow> (case FetchAddress L c s (part p idx) chain of
            Inr a \<Rightarrow> Inr (a, p1)
          | Inl _ \<Rightarrow> Inr ('''', if required \<or> part p idx \<noteq> '''' then addErr ''cannot parse as an Address'' p1 else p1)))"

definition getStringArrayBySeparator :: "nat \<Rightarrow> bool \<Rightarrow> char \<Rightarrow> string list parse" where
  "getStringArrayBySeparator idx required sep p =
     Inr (if part p idx = '''' then [] else split_on sep (part p idx), incRequired required p)"

fun read_uints :: "memo_lib \<Rightarrow> bool \<Rightarrow> string list \<Rightarrow> uint list \<Rightarrow> parser \<Rightarrow> uint list \<times> parser" where
  "read_uints L required [] acc p = (acc, p)"
| "read_uints L required (s # ss) acc p =
     (case mlParseUint L s of Some u \<Rightarrow> read_uints L required ss (acc @ [u]) p
      | None \<Rightarrow> ([], if required \<or> s \<noteq> '''' then addErr ''cannot parse as an uint'' p else p))"

definition getUintArrayBySeparator :: "memo_lib \<Rightarrow> nat \<Rightarrow> bool \<Rightarrow> char \<Rightarrow> uint list parse" where
  "getUintArrayBySeparator L idx required sep p =
     (let p1 = incRequired required p in
      if part p idx = '''' then Inr ([], p1) else Inr (read_uints L required (split_on sep (part p idx)) [] p1))"

definition getAddressFromString :: "memo_lib \<Rightarrow> ctx \<Rightarrow> name_state \<Rightarrow> string \<Rightarrow> chain \<Rightarrow> bool \<Rightarrow> address parse" where
  "getAddressFromString L c s val chain required p =
     (case FetchAddress L c s val chain of Inr a \<Rightarrow> Inr (a, p)
      | Inl _ \<Rightarrow> Inr ('''', if required \<or> val \<noteq> '''' then addErr ''cannot parse as an Address'' p else p))"

text \<open>A destination with a refund address after a slash; the refund address is empty when it is not an address.\<close>

definition getAddressAndRefundAddressWithKeeper :: "memo_lib \<Rightarrow> nat \<Rightarrow> bool \<Rightarrow> chain \<Rightarrow> (address \<times> address) parse" where
  "getAddressAndRefundAddressWithKeeper L idx required chain p =
     (let p1 = incRequired required p in
      res_map (\<lambda>((dest, refund), p2).
          ((dest, refund), if Address_IsEmpty dest \<and> \<not> Address_IsEmpty refund then addErr ''refund address is set but destination address is empty'' p2 else p2))
        (case split2 CHR ''/'' (part p idx) of
           (_, None) \<Rightarrow> res_map (\<lambda>(d, p2). ((d, ''''), p2)) (getAddressWithKeeper L idx False chain p1)
         | (first, Some second) \<Rightarrow>
             res_map (\<lambda>(d, p2). ((d, case NewAddress (mlAddr L) (mlNetwork L) second of Inr a \<Rightarrow> a | Inl _ \<Rightarrow> ''''), p2))
               (case pKeeper p of
                  None \<Rightarrow> Inr (case NewAddress (mlAddr L) (mlNetwork L) first of Inr a \<Rightarrow> (a, p1)
                           | Inl _ \<Rightarrow> ('''', if required \<or> first \<noteq> '''' then addErr ''cannot parse as an Address'' p1 else p1))
                | Some (c, s) \<Rightarrow> getAddressFromString L c s first chain required p1)))"

definition getChain :: "nat \<Rightarrow> bool \<Rightarrow> chain \<Rightarrow> chain parse" where
  "getChain = field (\<lambda>s. ok_value (NewChain s)) ''cannot parse as a chain''"

text \<open>A field that is absent and not required keeps what the failed parse returned, the empty asset.\<close>

definition getAsset :: "nat \<Rightarrow> bool \<Rightarrow> asset \<Rightarrow> asset parse" where
  "getAsset idx required dflt p =
     (let p1 = incRequired required p; s = part p idx in
      case NewAssetWithShortCodes s of Inr a \<Rightarrow> Inr (a, p1)
      | Inl _ \<Rightarrow> if required \<or> s \<noteq> '''' then Inr (dflt, addErr ''cannot parse as an asset'' p1) else Inr (EmptyAsset, p1))"

definition getTxID :: "nat \<Rightarrow> bool \<Rightarrow> txid \<Rightarrow> txid parse" where
  "getTxID = field (\<lambda>s. ok_value (NewTxID s)) ''cannot parse as tx hash''"

definition getSWITCHName :: "nat \<Rightarrow> bool \<Rightarrow> switch_name \<Rightarrow> switch_name parse" where
  "getSWITCHName idx required dflt p =
     (let p1 = incRequired required p; name = part p idx in
      case pKeeper p of None \<Rightarrow> Inr (dflt, p1)
      | Some (c, s) \<Rightarrow>
          if SWITCHNameExists c s name
          then (case GetSWITCHName c s name of Inr n \<Rightarrow> Inr (n, p1)
                | Inl _ \<Rightarrow> Inr (NewSWITCHName name 0 [], if required \<or> name \<noteq> '''' then addErr ''cannot parse as a SWITCHName'' p1 else p1))
          else Inr (dflt, p1))"

text \<open>\<open>base64.StdEncoding.DecodeString\<close>: line ends are skipped, padding is required.\<close>

definition b64_val :: "char \<Rightarrow> nat option" where
  "b64_val ch = (let n = of_char ch in
     if 65 \<le> n \<and> n \<le> 90 then Some (n - 65) else if 97 \<le> n \<and> n \<le> 122 then Some (n - 71)
     else if 48 \<le> n \<and> n \<le> 57 then Some (n + 4) else if n = 43 then Some 62 else if n = 47 then Some 63 else None)"

fun b64_decode :: "string \<Rightarrow> nat list option" where
  "b64_decode [] = Some []"
| "b64_decode (a # b # c # d # rest) =
     (case (b64_val a, b64_val b) of
        (Some x, Some y) \<Rightarrow>
          let first = x * 4 + y div 16 in
          if c = CHR ''='' then (if d = CHR ''='' \<and> rest = [] then Some [first] else None)
          else (case b64_val c of None \<Rightarrow> None
            | Some z \<Rightarrow>
                let second = y mod 16 * 16 + z div 4 in
                if d = CHR ''='' then (if rest = [] then Some [first, second] else None)
                else (case b64_val d of None \<Rightarrow> None
                  | Some w \<Rightarrow> map_option (\<lambda>bs. first # second # (z mod 4 * 64 + w) # bs) (b64_decode rest)))
      | _ \<Rightarrow> None)"
| "b64_decode _ = None"

definition getBase64Bytes :: "nat \<Rightarrow> bool \<Rightarrow> nat list \<Rightarrow> nat list parse" where
  "getBase64Bytes = field (\<lambda>s. b64_decode (filter (\<lambda>c. c \<noteq> CHR 10 \<and> c \<noteq> CHR 13) s)) ''cannot parse as a base64 string''"

section \<open>Parsing the memos\<close>

text \<open>
  Each function returns a memo and an error. \<open>finish\<close> is \<open>return m, p.Error()\<close>; an early return has the empty memo
  and an error of its own.
\<close>

type_synonym memo_result = "(memo \<times> go_error option) parse"

definition finish :: "memo \<Rightarrow> memo_result" where
  "finish m p = (let (e, p') = parser_Error p in Inr ((m, e), p'))"

definition early :: "string \<Rightarrow> memo_result" where
  "early msg p = Inr ((EmptyMemo, Some (Err msg)), p)"

definition ParseDonateMemo :: memo_result where
  "ParseDonateMemo = parse_bind (getAsset 1 True EmptyAsset) (\<lambda>a. finish (DonateMemo a))"

definition ParseWithdrawLiquidityMemo :: "memo_lib \<Rightarrow> memo_result" where
  "ParseWithdrawLiquidityMemo L =
     parse_bind (getAsset 1 True EmptyAsset) (\<lambda>a.
     parse_bind (getUintWithMaxValue L 2 False 10000 10000) (\<lambda>bp.
     parse_bind (getAsset 3 False EmptyAsset) (\<lambda>w. finish (WithdrawLiquidityMemo a bp w))))"

definition ParseOutboundMemo :: memo_result where
  "ParseOutboundMemo = parse_bind (getTxID 1 True BlankTxID) (\<lambda>t. finish (OutboundMemo t))"

definition ParseRefundMemo :: memo_result where
  "ParseRefundMemo = parse_bind (getTxID 1 True BlankTxID) (\<lambda>t. finish (RefundMemo t))"

definition ParseMigrateMemo :: memo_result where
  "ParseMigrateMemo = parse_bind (getInt64 1 True 0) (\<lambda>h. finish (MigrateMemo h))"

definition ParseRagnarokMemo :: memo_result where
  "ParseRagnarokMemo = parse_bind (getInt64 1 True 0) (\<lambda>h. finish (RagnarokMemo h))"

definition ParseNoOpMemo :: memo_result where
  "ParseNoOpMemo p = finish (NoOpMemo (part p 1)) p"

definition ParseConsolidateMemo :: memo_result where
  "ParseConsolidateMemo = parse_return (ConsolidateMemo, None)"

definition ParseReserveMemo :: memo_result where
  "ParseReserveMemo = parse_return (ReserveMemo, None)"

definition ParseLeaveMemo :: "memo_lib \<Rightarrow> memo_result" where
  "ParseLeaveMemo L = parse_bind (getAccAddress L 1 True []) (\<lambda>a. finish (LeaveMemo a))"

definition ParseMaintMemo :: "memo_lib \<Rightarrow> memo_result" where
  "ParseMaintMemo L = parse_bind (getAccAddress L 1 True []) (\<lambda>a. finish (MaintMemo a))"

definition ParseBondMemo :: "memo_lib \<Rightarrow> memo_result" where
  "ParseBondMemo L =
     parse_bind (getAccAddress L 1 True []) (\<lambda>a. parse_bind (getAccAddress L 2 False []) (\<lambda>b.
     parse_bind (getInt64 3 False (- 1)) (\<lambda>fee. finish (BondMemo a b fee))))"

definition ParseUnbondMemo :: "memo_lib \<Rightarrow> memo_result" where
  "ParseUnbondMemo L =
     parse_bind (getAccAddress L 1 True []) (\<lambda>a. parse_bind (getUint L 2 True 0) (\<lambda>amt.
     parse_bind (getAccAddress L 3 False []) (\<lambda>b. finish (UnbondMemo a amt b))))"

definition ParseTradeAccountDeposit :: "memo_lib \<Rightarrow> memo_result" where
  "ParseTradeAccountDeposit L = parse_bind (getAccAddress L 1 True []) (\<lambda>a. finish (TradeAccountDepositMemo a))"

definition ParseTradeAccountWithdrawal :: "memo_lib \<Rightarrow> memo_result" where
  "ParseTradeAccountWithdrawal L = parse_bind (getAddress L 1 True '''') (\<lambda>a. finish (TradeAccountWithdrawalMemo a))"

definition ParseSecuredAssetDeposit :: "memo_lib \<Rightarrow> memo_result" where
  "ParseSecuredAssetDeposit L = parse_bind (getAccAddress L 1 True []) (\<lambda>a. finish (SecuredAssetDepositMemo a))"

definition ParseSecuredAssetWithdraw :: "memo_lib \<Rightarrow> memo_result" where
  "ParseSecuredAssetWithdraw L = parse_bind (getAddress L 1 True '''') (\<lambda>a. finish (SecuredAssetWithdrawMemo a))"

definition ParseSwitch :: "memo_lib \<Rightarrow> memo_result" where
  "ParseSwitch L = parse_bind (getAccAddress L 1 True []) (\<lambda>a. finish (SwitchMemo a))"

definition ParseExecMemo :: "memo_lib \<Rightarrow> memo_result" where
  "ParseExecMemo L =
     parse_bind (getAccAddress L 1 True []) (\<lambda>a. parse_bind (getBase64Bytes 2 True []) (\<lambda>m. finish (ExecMemo a m)))"

definition ParseSWCYClaimMemo :: "memo_lib \<Rightarrow> memo_result" where
  "ParseSWCYClaimMemo L = parse_bind (getThorAddress L 1 True '''') (\<lambda>a. finish (SWCYClaimMemo a))"

definition ParseSWCYStakeMemo :: memo_result where
  "ParseSWCYStakeMemo = finish SWCYStakeMemo"

definition ParseSWCYUnstakeMemo :: "memo_lib \<Rightarrow> memo_result" where
  "ParseSWCYUnstakeMemo L = parse_bind (getUint L 1 True 0) (\<lambda>bp. finish (SWCYUnstakeMemo bp))"

definition ParseManageSWITCHNameMemo :: "memo_lib \<Rightarrow> memo_result" where
  "ParseManageSWITCHNameMemo L =
     parse_bind (getChain 2 True EmptyChain) (\<lambda>ch. parse_bind (getAddress L 3 True '''') (\<lambda>a.
     parse_bind (getAccAddress L 4 False []) (\<lambda>own. parse_bind (getAsset 5 False EmptyAsset) (\<lambda>pref.
     parse_bind (getInt64 6 False 0) (\<lambda>ex p. finish (ManageSWITCHNameMemo (part p 1) ch a ex pref own) p)))))"

definition named_affiliate :: "switch_name \<Rightarrow> switch_name option" where
  "named_affiliate n = (if snOwner n = [] then None else Some n)"

definition ParseSwitchPoolDepositMemo :: memo_result where
  "ParseSwitchPoolDepositMemo = parse_return (SwitchPoolDepositMemo, None)"

definition ParseSwitchPoolWithdrawMemo :: "memo_lib \<Rightarrow> memo_result" where
  "ParseSwitchPoolWithdrawMemo L =
     parse_bind (getUint L 1 True 0) (\<lambda>bp. parse_bind (getAddressWithKeeper L 2 False SWITCHLYChain) (\<lambda>aff.
     parse_bind (getSWITCHName 2 False (NewSWITCHName '''' 0 [])) (\<lambda>n.
     parse_bind (getUintWithMaxValue L 3 False 0 10000) (\<lambda>abp. finish (SwitchPoolWithdrawMemo bp aff abp (named_affiliate n))))))"

definition ParseLoanOpenMemo :: "memo_lib \<Rightarrow> memo_result" where
  "ParseLoanOpenMemo L =
     parse_bind (getAsset 1 True EmptyAsset) (\<lambda>a. parse_bind (getAddressWithKeeper L 2 True (GetChain a)) (\<lambda>addr.
     parse_bind (getUintWithScientificNotation 3 False 0) (\<lambda>minOut. parse_bind (getAddressWithKeeper L 4 False SWITCHLYChain) (\<lambda>aff.
     parse_bind (getSWITCHName 5 False (NewSWITCHName '''' 0 [])) (\<lambda>n.
     parse_bind (getUintWithMaxValue L 6 False 0 10000) (\<lambda>abp p.
       parse_bind (getUint L 9 False 0) (\<lambda>lim. finish (LoanOpenMemo \<lparr>loTargetAsset = a, loTargetAddress = addr, loMinOut = minOut,
         loAffiliateAddress = aff, loAffiliateBasisPoints = abp, loDexAggregator = part p 7, loDexTargetAddress = part p 8,
         loDexTargetLimit = lim, loAffiliateName = n\<rparr>)) p))))))"

definition ParseLoanRepaymentMemo :: "memo_lib \<Rightarrow> memo_result" where
  "ParseLoanRepaymentMemo L =
     parse_bind (getAsset 1 True EmptyAsset) (\<lambda>a. parse_bind (getAddressWithKeeper L 2 True (aChain a)) (\<lambda>own.
     parse_bind (getUintWithScientificNotation 3 False 0) (\<lambda>minOut. finish (LoanRepaymentMemo a own minOut))))"

text \<open>Adding liquidity. Without a keeper a shorter parser is used, which knows no names.\<close>

definition optional_address :: "memo_lib \<Rightarrow> string \<Rightarrow> address res" where
  "optional_address L s = (if s = [] then Inr '''' else NewAddress (mlAddr L) (mlNetwork L) s)"

definition affiliate_v1 :: "memo_lib \<Rightarrow> string \<Rightarrow> string \<Rightarrow> (address \<times> uint) res" where
  "affiliate_v1 L addr bp =
     (if addr = [] \<or> bp = [] then Inr ('''', 0)
      else res_bind (NewAddress (mlAddr L) (mlNetwork L) addr) (\<lambda>a.
        case parse_uint64 bp of Some n \<Rightarrow> Inr (a, n) | None \<Rightarrow> Inl (Err ''invalid syntax'')))"

definition ParseAddLiquidityMemoV1 :: "memo_lib \<Rightarrow> asset \<Rightarrow> parser \<Rightarrow> memo res" where
  "ParseAddLiquidityMemoV1 L a p =
     res_bind (optional_address L (part p 2)) (\<lambda>addr.
     res_map (\<lambda>(aff, bp). AddLiquidityMemo a addr aff bp) (affiliate_v1 L (part p 3) (part p 4)))"

definition result_of :: "memo res \<Rightarrow> memo_result" where
  "result_of r = (case r of Inr m \<Rightarrow> parse_return (m, None) | Inl e \<Rightarrow> parse_return (EmptyMemo, Some e))"

definition ParseAddLiquidityMemo :: "memo_lib \<Rightarrow> memo_result" where
  "ParseAddLiquidityMemo L =
     parse_bind (getAsset 1 True EmptyAsset) (\<lambda>a p.
       if pKeeper p = None then result_of (ParseAddLiquidityMemoV1 L a p) p
       else if Chain_Equals (aChain a) SWITCHLYChain then early ''cannot add liquidity with SWITCHLY chain'' p
       else parse_bind (getAddressWithKeeper L 2 False (aChain a)) (\<lambda>addr.
            parse_bind (getAddressWithKeeper L 3 False (if aSynth a then GetChain (GetLayer1Asset a) else SWITCHLYChain)) (\<lambda>aff.
            parse_bind (getUintWithMaxValue L 4 False 0 10000) (\<lambda>bp. finish (AddLiquidityMemo a addr aff bp)))) p)"

text \<open>
  Swapping. The limit may carry the interval and the quantity of a stream after slashes; an empty piece counts as
  zero.
\<close>

definition parseTradeTarget :: "string \<Rightarrow> uint res" where
  "parseTradeTarget limit = (case parse_float_int limit of None \<Rightarrow> Inl (Err ''invalid limit'') | Some i \<Rightarrow> uint_of_big i)"

definition or_zero :: "string \<Rightarrow> string" where
  "or_zero s = (if s = [] then ''0'' else s)"

definition stream_number :: "string \<Rightarrow> nat res" where
  "stream_number s = (case parse_uint64 (or_zero s) of Some n \<Rightarrow> Inr n | None \<Rightarrow> Inl (Err ''failed to parse stream number''))"

definition stream_limit :: "string \<Rightarrow> (uint \<times> nat \<times> nat) res" where
  "stream_limit s =
     (case split2 CHR ''/'' s of
        (a, None) \<Rightarrow> res_map (\<lambda>slip. (slip, 0, 0)) (parseTradeTarget (or_zero a))
      | (a, Some rest) \<Rightarrow>
          res_bind (parseTradeTarget (or_zero a)) (\<lambda>slip.
            case split2 CHR ''/'' rest of
              (b, None) \<Rightarrow> res_map (\<lambda>i. (slip, i, 0)) (stream_number b)
            | (b, Some c) \<Rightarrow> res_bind (stream_number b) (\<lambda>i. res_map (\<lambda>q. (slip, i, q)) (stream_number c))))"

definition swap_limit :: "nat \<Rightarrow> ((uint \<times> nat \<times> nat) res) parse" where
  "swap_limit idx p =
     (if CHR ''/'' \<in> set (part p idx) then
        (case stream_limit (part p idx) of Inl (Panic e) \<Rightarrow> Inl (Panic e) | r \<Rightarrow> Inr (r, p))
      else res_map (\<lambda>(n, p'). (Inr (n, 0, 0), p')) (getUintWithScientificNotation idx False 0 p))"

text \<open>One fee for several affiliates is given to each of them.\<close>

definition spread_fees :: "memo_lib \<Rightarrow> string list \<Rightarrow> uint list \<Rightarrow> uint list parse" where
  "spread_fees L affs fees =
     (if length fees = 1 \<and> length affs > 1
      then parse_bind (getUintWithMaxValue L 5 False 0 10000) (\<lambda>fee. parse_return (replicate (length affs) fee))
      else parse_return fees)"

definition sum_fees :: "uint list \<Rightarrow> uint res" where
  "sum_fees fees = res_fold (\<lambda>x acc. uint_add acc x) fees 0"

definition check_affiliates :: "int \<Rightarrow> string list \<Rightarrow> uint list \<Rightarrow> uint res" where
  "check_affiliates maxAffiliates affs fees =
     (if length affs \<noteq> length fees then Inl (Err ''affiliate switchlynames and affiliate fee bps count mismatch'')
      else if int (length affs) > max 0 maxAffiliates then Inl (Err ''too many affiliates'')
      else res_bind (sum_fees fees) (\<lambda>total.
        if total > 10000 then Inl (Err ''total affiliate fee basis points too high'') else Inr total))"

definition swap_tail ::
  "memo_lib \<Rightarrow> ctx \<Rightarrow> name_state \<Rightarrow> asset \<Rightarrow> bool \<Rightarrow> address \<times> address \<Rightarrow> uint \<times> nat \<times> nat \<Rightarrow> string list \<Rightarrow> uint list \<Rightarrow> uint \<Rightarrow> memo_result" where
  "swap_tail L c s a lim dest stream affs fees bps =
     parse_bind (if bps \<noteq> 0 \<and> affs \<noteq> [] then getAddressFromString L c s (hd affs) SWITCHLYChain False else parse_return '''') (\<lambda>affAddr.
     parse_bind (getSWITCHName 4 False (NewSWITCHName '''' 0 [])) (\<lambda>n.
     parse_bind (getUintWithScientificNotation 8 False 0) (\<lambda>dexLimit p.
       finish (SwapMemo \<lparr>smAsset = a, smDestination = fst dest, smSlipLimit = fst stream, smAffiliateAddress = affAddr,
         smAffiliateBasisPoints = bps, smDexAggregator = part p 6, smDexTargetAddress = part p 7,
         smDexTargetLimit = (if dexLimit = 0 then None else Some dexLimit), smLimit = lim, smStreamInterval = fst (snd stream),
         smStreamQuantity = snd (snd stream), smAffiliateName = named_affiliate n, smRefundAddress = snd dest, smAffiliates = affs,
         smAffiliatesBasisPoints = fees\<rparr>) p)))"

definition ParseSwapMemoV1 :: "memo_lib \<Rightarrow> asset \<Rightarrow> parser \<Rightarrow> memo res" where
  "ParseSwapMemoV1 L a p =
     (if length (pParts p) < 2 then Inl (Err ''not enough parameters'')
      else res_bind (optional_address L (part p 2)) (\<lambda>dest.
        res_bind (if part p 3 = [] then Inr 0
          else case mlParseUint L (part p 3) of Some n \<Rightarrow> Inr n | None \<Rightarrow> Inl (Err ''swap price limit is invalid'')) (\<lambda>slip.
        res_map (\<lambda>(aff, bp). SwapMemo \<lparr>smAsset = a, smDestination = dest, smSlipLimit = slip, smAffiliateAddress = aff,
            smAffiliateBasisPoints = bp, smDexAggregator = '''', smDexTargetAddress = '''', smDexTargetLimit = None, smLimit = False,
            smStreamInterval = 0, smStreamQuantity = 0, smAffiliateName = None, smRefundAddress = '''', smAffiliates = [],
            smAffiliatesBasisPoints = []\<rparr>)
          (affiliate_v1 L (part p 4) (part p 5)))))"

definition ParseSwapMemo :: "memo_lib \<Rightarrow> memo_result" where
  "ParseSwapMemo L =
     parse_bind (getAsset 1 True EmptyAsset) (\<lambda>a p.
       case pKeeper p of
         None \<Rightarrow> result_of (ParseSwapMemoV1 L a p) p
       | Some (c, s) \<Rightarrow>
           parse_bind (getAddressAndRefundAddressWithKeeper L 2 False (aChain a)) (\<lambda>dest.
           parse_bind (swap_limit 3) (\<lambda>r.
             case r of Inl _ \<Rightarrow> early ''swap price limit is invalid''
             | Inr stream \<Rightarrow>
               parse_bind (getStringArrayBySeparator 4 False CHR ''/'') (\<lambda>affs.
               parse_bind (getUintArrayBySeparator L 5 False CHR ''/'') (\<lambda>fees0.
               parse_bind (spread_fees L affs fees0) (\<lambda>fees.
                 case check_affiliates (GetConfigInt64 c (nsKeeper s) ''MultipleAffiliatesMaxCount'') affs fees of
                   Inl (Panic e) \<Rightarrow> (\<lambda>_. Inl (Panic e))
                 | Inl (Err e) \<Rightarrow> early e
                 | Inr bps \<Rightarrow> swap_tail L c s a (equal_fold (pParts p ! 0) (TxType_String TxLimitSwap)) dest stream affs fees bps))))) p)"

section \<open>Dispatch\<close>

fun dispatch :: "memo_lib \<Rightarrow> TxType \<Rightarrow> memo_result" where
  "dispatch L TxLeave = ParseLeaveMemo L"
| "dispatch L TxDonate = ParseDonateMemo"
| "dispatch L TxAdd = ParseAddLiquidityMemo L"
| "dispatch L TxWithdraw = ParseWithdrawLiquidityMemo L"
| "dispatch L TxSwitchPoolDeposit = ParseSwitchPoolDepositMemo"
| "dispatch L TxSwitchPoolWithdraw = ParseSwitchPoolWithdrawMemo L"
| "dispatch L TxSwap = ParseSwapMemo L"
| "dispatch L TxLimitSwap = ParseSwapMemo L"
| "dispatch L TxOutbound = ParseOutboundMemo"
| "dispatch L TxRefund = ParseRefundMemo"
| "dispatch L TxBond = ParseBondMemo L"
| "dispatch L TxUnbond = ParseUnbondMemo L"
| "dispatch L TxReserve = ParseReserveMemo"
| "dispatch L TxMigrate = ParseMigrateMemo"
| "dispatch L TxRagnarok = ParseRagnarokMemo"
| "dispatch L TxNoOp = ParseNoOpMemo"
| "dispatch L TxConsolidate = ParseConsolidateMemo"
| "dispatch L TxSWITCHName = ParseManageSWITCHNameMemo L"
| "dispatch L TxLoanOpen = ParseLoanOpenMemo L"
| "dispatch L TxLoanRepayment = ParseLoanRepaymentMemo L"
| "dispatch L TxTradeAccountDeposit = ParseTradeAccountDeposit L"
| "dispatch L TxTradeAccountWithdrawal = ParseTradeAccountWithdrawal L"
| "dispatch L TxSecuredAssetDeposit = ParseSecuredAssetDeposit L"
| "dispatch L TxSecuredAssetWithdraw = ParseSecuredAssetWithdraw L"
| "dispatch L TxExec = ParseExecMemo L"
| "dispatch L TxSwitch = ParseSwitch L"
| "dispatch L TxSWCYClaim = ParseSWCYClaimMemo L"
| "dispatch L TxSWCYStake = ParseSWCYStakeMemo"
| "dispatch L TxSWCYUnstake = ParseSWCYUnstakeMemo L"
| "dispatch L TxMaint = ParseMaintMemo L"
| "dispatch L TxUnknown = early ''TxType not supported''"

text \<open>The deferred check of the collected errors runs when the parser of the type reported none.\<close>

definition parse_memo :: "memo_lib \<Rightarrow> parser \<Rightarrow> (memo \<times> go_error option) res" where
  "parse_memo L p = res_map (\<lambda>((m, e), p'). (m, if e = None then fst (parser_Error p') else e)) (dispatch L (pTxType p) p)"

definition ParseMemoFor :: "memo_lib \<Rightarrow> (ctx \<times> name_state) option \<Rightarrow> string \<Rightarrow> memo \<times> go_error option" where
  "ParseMemoFor L k memo =
     (case res_bind (newParser k memo) (parse_memo L) of Inr r \<Rightarrow> r | Inl e \<Rightarrow> (EmptyMemo, Some e))"

definition ParseMemo :: "memo_lib \<Rightarrow> string \<Rightarrow> memo \<times> go_error option" where
  "ParseMemo L memo = ParseMemoFor L None memo"

definition ParseMemoWithSWITCHNames :: "memo_lib \<Rightarrow> ctx \<Rightarrow> name_state \<Rightarrow> string \<Rightarrow> memo \<times> go_error option" where
  "ParseMemoWithSWITCHNames L c s memo = ParseMemoFor L (Some (c, s)) memo"

section \<open>Printing\<close>

definition int_str :: "int \<Rightarrow> string" where
  "int_str i = (if i < 0 then CHR ''-'' # nat_str (nat (- i)) else nat_str (nat i))"

text \<open>\<open>strings.Join\<close>.\<close>

fun join_on :: "char \<Rightarrow> string list \<Rightarrow> string" where
  "join_on sep [] = []"
| "join_on sep [x] = x"
| "join_on sep (x # y # ys) = x @ sep # join_on sep (y # ys)"

definition asset_text :: "bool \<Rightarrow> asset \<Rightarrow> string" where
  "asset_text short a = (if short \<and> ShortCode a \<noteq> [] then ShortCode a else Asset_String a)"

definition AddLiquidityMemo_String :: "asset \<Rightarrow> address \<Rightarrow> address \<Rightarrow> uint \<Rightarrow> string" where
  "AddLiquidityMemo_String a addr aff bp =
     (let n = (if \<not> Address_IsEmpty aff then 5 else if \<not> Address_IsEmpty addr then 3 else 2)
      in join_on CHR '':'' (take n [''+'', Asset_String a, addr, aff, nat_str bp]))"

definition slip_text :: "swap_memo \<Rightarrow> string" where
  "slip_text m =
     (if smStreamInterval m > 0 \<or> smStreamQuantity m > 1
      then nat_str (smSlipLimit m) @ ''/'' @ nat_str (smStreamInterval m) @ ''/'' @ nat_str (smStreamQuantity m)
      else if smSlipLimit m = 0 then '''' else nat_str (smSlipLimit m))"

definition SwapMemo_string :: "bool \<Rightarrow> swap_memo \<Rightarrow> string" where
  "SwapMemo_string short m =
     (let dest = (if Address_IsEmpty (smRefundAddress m) then smDestination m else smDestination m @ ''/'' @ smRefundAddress m);
          args = [''='', asset_text short (smAsset m), dest, slip_text m, join_on CHR ''/'' (smAffiliates m),
            join_on CHR ''/'' (map nat_str (smAffiliatesBasisPoints m)), smDexAggregator m, smDexTargetAddress m];
          last1 = (if smSlipLimit m \<noteq> 0 \<or> smStreamInterval m > 0 \<or> smStreamQuantity m > 1 then 4 else 3);
          last2 = (if smAffiliates m \<noteq> [] then 6 else last1);
          last3 = (if smDexAggregator m \<noteq> [] then 8 else last2)
      in case smDexTargetLimit m of
           Some l \<Rightarrow> if l = 0 then join_on CHR '':'' (take last3 args) else join_on CHR '':'' (args @ [nat_str l])
         | None \<Rightarrow> join_on CHR '':'' (take last3 args))"

definition LoanOpenMemo_string :: "bool \<Rightarrow> loan_open_memo \<Rightarrow> string" where
  "LoanOpenMemo_string short m =
     (let args = [TxType_String TxLoanOpen, asset_text short (loTargetAsset m), loTargetAddress m, nat_str (loMinOut m), loAffiliateAddress m,
            nat_str (loAffiliateBasisPoints m), loDexAggregator m, loDexTargetAddress m, nat_str (loDexTargetLimit m)];
          n = (if loDexTargetLimit m \<noteq> 0 then 9 else if loDexTargetAddress m \<noteq> [] then 8 else if loDexAggregator m \<noteq> [] then 7
            else if loAffiliateBasisPoints m \<noteq> 0 then 6 else if \<not> Address_IsEmpty (loAffiliateAddress m) then 5
            else if loMinOut m \<noteq> 0 then 4 else 3)
      in join_on CHR '':'' (take n args))"

text \<open>A memo without a printer of its own prints as the empty text of the base.\<close>

fun memo_String :: "key_lib \<Rightarrow> memo \<Rightarrow> string" where
  "memo_String K (AddLiquidityMemo a addr aff bp) = AddLiquidityMemo_String a addr aff bp"
| "memo_String K (SwapMemo m) = SwapMemo_string False m"
| "memo_String K (OutboundMemo t) = ''OUT:'' @ t"
| "memo_String K (RefundMemo t) = ''REFUND:'' @ t"
| "memo_String K (DonateMemo a) = ''DONATE:'' @ Asset_String a"
| "memo_String K (MigrateMemo h) = ''MIGRATE:'' @ int_str h"
| "memo_String K (RagnarokMemo h) = ''RAGNAROK:'' @ int_str h"
| "memo_String K (NoOpMemo a) = (if a = [] then ''noop'' else ''noop:'' @ a)"
| "memo_String K ConsolidateMemo = ''consolidate''"
| "memo_String K (LoanOpenMemo m) = LoanOpenMemo_string False m"
| "memo_String K (LoanRepaymentMemo a own minOut) =
     join_on CHR '':'' ([TxType_String TxLoanRepayment, Asset_String a, own] @ (if minOut = 0 then [] else [nat_str minOut]))"
| "memo_String K SwitchPoolDepositMemo = ''pool+''"
| "memo_String K (SwitchPoolWithdrawMemo bp aff abp _) =
     join_on CHR '':'' [TxType_String TxSwitchPoolWithdraw, nat_str bp, aff, nat_str abp]"
| "memo_String K (ExecMemo a m) = join_on CHR '':'' [TxType_String TxExec, acc_string K a, b64_encode m]"
| "memo_String K (MaintMemo a) = ''maint:'' @ acc_string K a"
| "memo_String K _ = ''''"

section \<open>Lemmas\<close>

lemma split_on_none: "c \<notin> set s \<Longrightarrow> split_on c s = [s]"
  by (induction s) auto

lemma split_on_append: "c \<notin> set s \<Longrightarrow> split_on c (s @ c # t) = s # split_on c t"
  by (induction s) auto

lemma parse_int_str: "- (2 ^ 63) \<le> i \<Longrightarrow> i < 2 ^ 63 \<Longrightarrow> parse_int64 (int_str i) = Some i"
proof -
  assume b: "- (2 ^ 63) \<le> i" "i < 2 ^ 63"
  show ?thesis
  proof (cases "i < 0")
    case True
    with b show ?thesis by (auto simp: int_str_def parse_int64_def Let_def)
  next
    case False
    with b parse_int64_nat_str [of "nat i"] show ?thesis by (simp add: int_str_def)
  qed
qed

lemma int_str_chars: "c \<in> set (int_str i) \<Longrightarrow> c = CHR ''-'' \<or> char_in c 48 57"
  by (auto simp: int_str_def split: if_splits dest: nat_str_digits)

text \<open>A memo of a type and one field, neither with a separator in it.\<close>

definition plain :: "string \<Rightarrow> bool" where
  "plain s \<longleftrightarrow> CHR '':'' \<notin> set s \<and> CHR ''|'' \<notin> set s"

lemma int_str_plain: "plain (int_str i)"
  unfolding plain_def by (auto dest!: int_str_chars simp: char_in_def)

lemma new_parser_one:
  assumes "plain ty" and "plain s" and "StringToTxType ty = Inr t" and "ty \<noteq> []"
  shows "newParser k (ty @ CHR '':'' # s) = Inr \<lparr>pTxType = t, pKeeper = k, pParts = [ty, s], pErrs = [], pRequired = 0\<rparr>"
  using assms by (simp add: newParser_def memo_type_def memo_parts_def plain_def split_on_none split_on_append)

lemma finish_ok: "pErrs p = [] \<Longrightarrow> pRequired p < length (pParts p) \<Longrightarrow> finish m p = Inr ((m, None), p)"
  by (simp add: finish_def parser_Error_def hasMinParams_def Let_def)

lemma one_field:
  assumes "plain ty" and "plain s" and "StringToTxType ty = Inr t" and "ty \<noteq> []"
    and "dispatch L t = parse_bind (field read msg 1 True d) (\<lambda>x. finish (con x))" and "read s = Some v"
  shows "ParseMemoFor L k (ty @ CHR '':'' # s) = (con v, None)"
proof -
  let ?p = "\<lparr>pTxType = t, pKeeper = k, pParts = [ty, s], pErrs = [], pRequired = 0\<rparr>"
  have "field read msg 1 True d ?p = Inr (v, ?p\<lparr>pRequired := 1\<rparr>)"
    using assms(6) by (simp add: field_def part_def incRequired_def Let_def)
  then have "dispatch L t ?p = Inr ((con v, None), ?p\<lparr>pRequired := 1\<rparr>)"
    by (simp add: assms(5) parse_bind_def finish_ok)
  then show ?thesis
    by (simp add: ParseMemoFor_def new_parser_one [OF assms(1-4)] parse_memo_def parser_Error_def hasMinParams_def Let_def)
qed

lemma memo_words:
  "StringToTxType ''OUT'' = Inr TxOutbound" "StringToTxType ''REFUND'' = Inr TxRefund" "StringToTxType ''MIGRATE'' = Inr TxMigrate"
  "StringToTxType ''RAGNAROK'' = Inr TxRagnarok" "StringToTxType ''noop'' = Inr TxNoOp" "StringToTxType ''consolidate'' = Inr TxConsolidate"
  "StringToTxType ''DONATE'' = Inr TxDonate"
  by code_simp+

lemma memo_words_plain: "plain ''OUT''" "plain ''REFUND''" "plain ''MIGRATE''" "plain ''RAGNAROK''" "plain ''noop''" "plain ''consolidate''" "plain ''DONATE''"
  by code_simp+

section \<open>Properties\<close>

text \<open>The memos the network writes itself and must recognise when it observes them. Hashes of 64 characters and
  heights of 64 bits; the action of a noop has no separator.\<close>

fun network_memo :: "memo \<Rightarrow> bool" where
  "network_memo (OutboundMemo t) \<longleftrightarrow> length t = 64 \<and> to_upper t = t \<and> plain t"
| "network_memo (RefundMemo t) \<longleftrightarrow> length t = 64 \<and> to_upper t = t \<and> plain t"
| "network_memo (MigrateMemo h) \<longleftrightarrow> - (2 ^ 63) \<le> h \<and> h < 2 ^ 63"
| "network_memo (RagnarokMemo h) \<longleftrightarrow> - (2 ^ 63) \<le> h \<and> h < 2 ^ 63"
| "network_memo (NoOpMemo a) \<longleftrightarrow> plain a"
| "network_memo ConsolidateMemo \<longleftrightarrow> True"
| "network_memo _ \<longleftrightarrow> False"

lemma outbound_refund_parse:
  assumes "length t = 64" and "to_upper t = t" and "plain t"
  shows "ParseMemoFor L k (''OUT:'' @ t) = (OutboundMemo t, None)" and "ParseMemoFor L k (''REFUND:'' @ t) = (RefundMemo t, None)"
proof -
  have id: "ok_value (NewTxID t) = Some t" using assms by (simp add: NewTxID_def ok_value_def)
  show "ParseMemoFor L k (''OUT:'' @ t) = (OutboundMemo t, None)"
  proof -
    have "dispatch L TxOutbound = parse_bind (field (\<lambda>s. ok_value (NewTxID s)) ''cannot parse as tx hash'' 1 True BlankTxID) (\<lambda>x. finish (OutboundMemo x))"
      by (simp add: ParseOutboundMemo_def getTxID_def)
    from one_field [OF memo_words_plain(1) assms(3) memo_words(1) _ this id, of k] show ?thesis by simp
  qed
  show "ParseMemoFor L k (''REFUND:'' @ t) = (RefundMemo t, None)"
  proof -
    have "dispatch L TxRefund = parse_bind (field (\<lambda>s. ok_value (NewTxID s)) ''cannot parse as tx hash'' 1 True BlankTxID) (\<lambda>x. finish (RefundMemo x))"
      by (simp add: ParseRefundMemo_def getTxID_def)
    from one_field [OF memo_words_plain(2) assms(3) memo_words(2) _ this id, of k] show ?thesis by simp
  qed
qed

lemma height_parse:
  assumes "- (2 ^ 63) \<le> h" and "h < 2 ^ 63"
  shows "ParseMemoFor L k (''MIGRATE:'' @ int_str h) = (MigrateMemo h, None)" and "ParseMemoFor L k (''RAGNAROK:'' @ int_str h) = (RagnarokMemo h, None)"
proof -
  note h = parse_int_str [OF assms]
  show "ParseMemoFor L k (''MIGRATE:'' @ int_str h) = (MigrateMemo h, None)"
  proof -
    have "dispatch L TxMigrate = parse_bind (field (parse_int64) ''cannot parse as an int64'' 1 True 0) (\<lambda>x. finish (MigrateMemo x))"
      by (simp add: ParseMigrateMemo_def getInt64_def)
    from one_field [OF memo_words_plain(3) int_str_plain memo_words(3) _ this h, of k] show ?thesis by simp
  qed
  show "ParseMemoFor L k (''RAGNAROK:'' @ int_str h) = (RagnarokMemo h, None)"
  proof -
    have "dispatch L TxRagnarok = parse_bind (field (parse_int64) ''cannot parse as an int64'' 1 True 0) (\<lambda>x. finish (RagnarokMemo x))"
      by (simp add: ParseRagnarokMemo_def getInt64_def)
    from one_field [OF memo_words_plain(4) int_str_plain memo_words(4) _ this h, of k] show ?thesis by simp
  qed
qed

lemma new_parser_word:
  assumes "plain ty" and "StringToTxType ty = Inr t" and "ty \<noteq> []"
  shows "newParser k ty = Inr \<lparr>pTxType = t, pKeeper = k, pParts = [ty], pErrs = [], pRequired = 0\<rparr>"
  using assms by (simp add: newParser_def memo_type_def memo_parts_def plain_def split_on_none)

lemma noop_parse:
  assumes "plain a"
  shows "ParseMemoFor L k (memo_String K (NoOpMemo a)) = (NoOpMemo a, None)"
proof (cases "a = []")
  case True
  then show ?thesis
    by (simp add: ParseMemoFor_def new_parser_word [OF memo_words_plain(5) memo_words(5)] parse_memo_def ParseNoOpMemo_def finish_ok part_def
        parser_Error_def hasMinParams_def Let_def)
next
  case False
  then show ?thesis
    using new_parser_one [OF memo_words_plain(5) assms memo_words(5), of k]
    by (simp add: ParseMemoFor_def parse_memo_def ParseNoOpMemo_def finish_ok part_def parser_Error_def hasMinParams_def Let_def)
qed


definition plain_memos :: memo_lib where
  "plain_memos = \<lparr>mlAddr = plain_addrs, mlKey = plain_keys, mlParseUint = parse_uint64, mlNetwork = MainNet\<rparr>"


text \<open>C31. A hash of 66 characters is accepted with the prefix 0x and stored in upper case. The memo of an outbound for
  it therefore does not parse: the prefix is now 0X.\<close>

theorem long_hash_not_recognised:
  assumes "length h = 66" and "has_prefix h ''0x''" and "plain h"
  shows "\<exists>t e. NewTxID h = Inr t \<and> ParseMemo L (memo_String K (OutboundMemo t)) = (OutboundMemo BlankTxID, Some e)"
proof -
  obtain x y r where h: "h = x # y # r" using assms(1) by (cases h; cases "tl h") auto
  with assms(2) have xy: "x = CHR ''0''" "y = CHR ''x''" by (simp_all add: has_prefix_def)
  let ?t = "to_upper h"
  have id: "NewTxID h = Inr ?t" using assms by (simp add: NewTxID_def)
  have "char_upper CHR ''x'' \<noteq> CHR ''x''" by code_simp
  then have "\<not> has_prefix ?t ''0x''" using h xy by (simp add: has_prefix_def)
  then have bad: "ok_value (NewTxID ?t) = None" using assms(1) by (simp add: NewTxID_def ok_value_def)
  have "char_upper c \<noteq> CHR '':''" "char_upper c \<noteq> CHR ''|''" if "c \<noteq> CHR '':''" "c \<noteq> CHR ''|''" for c
    using that by (simp_all add: char_upper_nonletter)
  with assms(3) have "plain ?t" unfolding plain_def to_upper_def set_map image_iff by metis
  from new_parser_one [OF memo_words_plain(1) this memo_words(1), of None]
  have "ParseMemo L (''OUT:'' @ ?t) = (OutboundMemo BlankTxID, Some (Err ''PARSE FAILURE(S)''))"
    by (simp add: ParseMemo_def ParseMemoFor_def parse_memo_def ParseOutboundMemo_def getTxID_def parse_bind_def field_def part_def bad
        incRequired_def addErr_def finish_def parser_Error_def hasMinParams_def Let_def)
  with id show ?thesis by auto
qed

theorem long_hash_not_recognised_witness:
  "\<exists>t e. NewTxID (''0x'' @ replicate 64 CHR ''a'') = Inr t \<and> ParseMemo plain_memos (memo_String plain_keys (OutboundMemo t)) = (OutboundMemo BlankTxID, Some e)"
proof -
  have "plain (''0x'' @ replicate 64 CHR ''a'')" by (simp add: plain_def)
  with long_hash_not_recognised [of "''0x'' @ replicate 64 CHR ''a''"] show ?thesis by (simp add: has_prefix_def)
qed

section \<open>Types of parsed memos\<close>

text \<open>Whatever a parser returns is of the type it was asked for, or empty.\<close>

definition typed :: "TxType \<Rightarrow> ((memo \<times> go_error option) \<times> parser) res \<Rightarrow> bool" where
  "typed t x \<longleftrightarrow> (\<forall>m e p. x = Inr ((m, e), p) \<longrightarrow> memo_GetType m = t \<or> m = EmptyMemo)"

named_theorems typed_rules

lemma typed_bind [typed_rules]: "(\<And>a p'. typed t (f a p')) \<Longrightarrow> typed t (parse_bind m f p)"
  by (fastforce simp: typed_def parse_bind_def res_simps)

lemma typed_finish [typed_rules]: "memo_GetType m = t \<Longrightarrow> typed t (finish m p)"
  by (auto simp: typed_def finish_def split: prod.splits)

lemma typed_return [typed_rules]: "memo_GetType m = t \<Longrightarrow> typed t (parse_return (m, e) p)"
  by (auto simp: typed_def parse_return_def)

lemma typed_early [typed_rules]: "typed t (early msg p)"
  by (auto simp: typed_def early_def)

lemma typed_panic [typed_rules]: "typed t (Inl e)"
  by (simp add: typed_def)

lemma typed_result [typed_rules]: "(\<And>m. r = Inr m \<Longrightarrow> memo_GetType m = t) \<Longrightarrow> typed t (result_of r p)"
  by (auto simp: result_of_def typed_def parse_return_def split: sum.splits)

lemma v1_types:
  "ParseAddLiquidityMemoV1 L a p = Inr m \<Longrightarrow> memo_GetType m = TxAdd"
  "ParseSwapMemoV1 L a p = Inr m \<Longrightarrow> memo_GetType m = TxSwap"
  by (auto simp: ParseAddLiquidityMemoV1_def ParseSwapMemoV1_def res_simps split: if_splits)

lemma add_typed: "typed TxAdd (ParseAddLiquidityMemo L p)"
  unfolding ParseAddLiquidityMemo_def
  by (rule typed_bind) (auto intro!: typed_rules dest: v1_types)

lemma swap_typed: "typed TxSwap (ParseSwapMemo L p)"
proof -
  have tail: "typed TxSwap (swap_tail L c s a lim dest stream affs fees bps q)" for c s a lim dest stream affs fees bps q
    unfolding swap_tail_def by (intro typed_rules) simp
  show ?thesis unfolding ParseSwapMemo_def
    by (rule typed_bind) (auto intro!: typed_rules tail dest: v1_types split: option.splits sum.splits go_error.splits)
qed

lemma dispatch_typed: "typed (if t = TxLimitSwap then TxSwap else t) (dispatch L t p)"
proof (cases t)
  case TxAdd
  then show ?thesis by (simp add: add_typed)
qed (simp_all add: swap_typed, (simp_all add: ParseLeaveMemo_def ParseDonateMemo_def ParseWithdrawLiquidityMemo_def
    ParseSwitchPoolDepositMemo_def ParseSwitchPoolWithdrawMemo_def ParseOutboundMemo_def ParseRefundMemo_def ParseBondMemo_def ParseUnbondMemo_def
    ParseReserveMemo_def ParseMigrateMemo_def ParseRagnarokMemo_def ParseNoOpMemo_def ParseConsolidateMemo_def ParseManageSWITCHNameMemo_def
    ParseLoanOpenMemo_def ParseLoanRepaymentMemo_def ParseTradeAccountDeposit_def ParseTradeAccountWithdrawal_def ParseSecuredAssetDeposit_def
    ParseSecuredAssetWithdraw_def ParseExecMemo_def ParseSwitch_def ParseSWCYClaimMemo_def ParseSWCYStakeMemo_def ParseSWCYUnstakeMemo_def
    ParseMaintMemo_def typed_rules))

lemma parsed_type:
  assumes "memo_type memo = Inr t" and "ParseMemoFor L k memo = (m, e)"
  shows "memo_GetType m = (if t = TxLimitSwap then TxSwap else t) \<or> m = EmptyMemo"
proof (cases "m = EmptyMemo")
  case False
  with assms obtain e' p p' where "dispatch L t p = Inr ((m, e'), p')"
    by (auto simp: ParseMemoFor_def newParser_def parse_memo_def res_simps split: sum.splits prod.splits)
  with dispatch_typed [of t L p] show ?thesis unfolding typed_def by blast
qed simp

text \<open>A memo of an outbound or a refund never panics: its type is that of its first word.\<close>

lemma outbound_type: "memo_GetType (fst (ParseMemoFor L k memo)) \<in> {TxOutbound, TxRefund} \<longleftrightarrow> memo_type memo \<in> {Inr TxOutbound, Inr TxRefund}"
proof (cases "memo_type memo")
  case (Inl e)
  then show ?thesis by (simp add: ParseMemoFor_def newParser_def)
next
  case (Inr t)
  obtain m e where m: "ParseMemoFor L k memo = (m, e)" by (cases "ParseMemoFor L k memo")
  have "m \<noteq> EmptyMemo" if "t = TxOutbound \<or> t = TxRefund"
    using m Inr that by (auto simp: ParseMemoFor_def newParser_def parse_memo_def ParseOutboundMemo_def ParseRefundMemo_def parse_bind_def getTxID_def
        field_def finish_def Let_def res_simps split: option.splits prod.splits)
  with parsed_type [OF Inr m] m Inr show ?thesis by (auto split: if_splits)
qed

end
