(* ===== verification/Inbound.thy ===== *)
theory Inbound
  imports Memos Bonding Streaming_Swaps Secured_Assets Trade_Accounts
begin

text \<open>
  From an observed transaction to a message: \<open>processOneTxIn\<close> of \<^verbatim>\<open>src/x/switchly/handler.go\<close> parses the memo, resolves
  the assets it names, builds the message and validates it. The messages are those of \<^verbatim>\<open>types/msg_*.go\<close>.

  The values of the pool iterator are the argument \<open>pools\<close>, the token lists of the EVM chains \<open>tokens\<close>, and the
  account that the data of a bech32 address denotes under the prefix of the network \<open>mapped_acc\<close>.
\<close>

section \<open>Messages\<close>

record msg_loan_open =
  mloOwner :: address
  mloCollateralAsset :: asset
  mloCollateralAmount :: uint
  mloTargetAddress :: address
  mloTargetAsset :: asset
  mloMinOut :: uint
  mloAffiliateAddress :: address
  mloAffiliateBasisPoints :: uint
  mloAggregator :: string
  mloAggregatorTargetAddress :: string
  mloAggregatorTargetLimit :: uint
  mloSigner :: acc
  mloTxID :: txid

record msg_trade_withdrawal =
  mtwAsset :: asset
  mtwAmount :: uint
  mtwAssetAddress :: address
  mtwSigner :: acc
  mtwTx :: tx

datatype msg =
    MsgSwap msg_swap
  | MsgWithdrawLiquidity msg_withdraw_liquidity
  | MsgAddLiquidity msg_add_liquidity
  | MsgDonate tx asset uint uint acc
  | MsgRefundTx observed_tx txid acc
  | MsgOutboundTx observed_tx txid acc
  | MsgMigrate observed_tx int acc
  | MsgRagnarok observed_tx int acc
  | MsgBond msg_bond
  | MsgUnBond msg_unbond
  | MsgLeave msg_leave
  | MsgReserveContributor tx address uint acc
  | MsgNoOp observed_tx acc string
  | MsgConsolidate observed_tx acc
  | MsgManageSWITCHName msg_manage_name
  | MsgLoanOpen msg_loan_open
  | MsgLoanRepayment address asset uint address coin acc txid
  | MsgTradeAccountDeposit msg_trade_deposit
  | MsgTradeAccountWithdrawal msg_trade_withdrawal
  | MsgSecuredAssetDeposit msg_secured_deposit
  | MsgSecuredAssetWithdraw msg_secured_withdraw
  | MsgSwitchPoolDeposit acc tx
  | MsgSwitchPoolWithdraw acc tx uint address uint
  | MsgWasmExec asset uint acc acc acc "nat list" tx
  | MsgSwitch asset uint acc acc tx
  | MsgSWCYClaim address address acc
  | MsgSWCYStake tx acc
  | MsgSWCYUnstake tx uint acc
  | MsgMaint acc acc

section \<open>Stateless checks\<close>

definition MsgDonate_ValidateBasic :: "tx \<Rightarrow> asset \<Rightarrow> uint \<Rightarrow> uint \<Rightarrow> acc \<Rightarrow> unit res" where
  "MsgDonate_ValidateBasic t a switchAmt assetAmt signer =
     (if signer = [] then Inl (Err ''invalid address'')
      else if Asset_IsEmpty a then Inl (Err ''donate asset cannot be empty'')
      else if IsSwitch a then Inl (Err ''asset cannot be switch'')
      else if switchAmt = 0 \<and> assetAmt = 0 then Inl (Err ''switch and asset amount cannot be zero'')
      else Tx_Valid t)"

definition MsgTxID_ValidateBasic :: "observed_tx \<Rightarrow> txid \<Rightarrow> acc \<Rightarrow> unit res" where
  "MsgTxID_ValidateBasic t inTx signer =
     (if signer = [] then Inl (Err ''invalid address'')
      else if TxID_IsEmpty inTx then Inl (Err ''In Tx ID cannot be empty'')
      else ObservedTx_Valid t)"

definition MsgHeight_ValidateBasic :: "observed_tx \<Rightarrow> int \<Rightarrow> acc \<Rightarrow> unit res" where
  "MsgHeight_ValidateBasic t h signer =
     (if signer = [] then Inl (Err ''invalid address'')
      else if h \<le> 0 then Inl (Err ''invalid block height'')
      else ObservedTx_Valid t)"

definition MsgObserved_ValidateBasic :: "observed_tx \<Rightarrow> acc \<Rightarrow> unit res" where
  "MsgObserved_ValidateBasic t signer = res_bind (ObservedTx_Valid t) (\<lambda>_. guard_err (signer = []) ''invalid address'')"

definition MsgReserveContributor_ValidateBasic :: "tx \<Rightarrow> address \<Rightarrow> uint \<Rightarrow> acc \<Rightarrow> unit res" where
  "MsgReserveContributor_ValidateBasic t addr amt signer =
     res_bind (Tx_Valid t) (\<lambda>_.
       if signer = [] then Inl (Err ''invalid address'')
       else if amt = 0 then Inl (Err ''amount cannot be zero'')
       else guard_err (Address_IsEmpty addr) ''address cannot be empty'')"

definition MsgLoanOpen_ValidateBasic :: "addr_lib \<Rightarrow> msg_loan_open \<Rightarrow> unit res" where
  "MsgLoanOpen_ValidateBasic A m =
     (if Address_IsEmpty (mloOwner m) then Inl (Err ''owner cannot be empty'')
      else if Asset_IsEmpty (mloCollateralAsset m) then Inl (Err ''collateral asset cannot be empty'')
      else if \<not> IsGasAsset (mloCollateralAsset m) \<and> \<not> IsDerivedAsset (mloCollateralAsset m) \<or> Asset_Equals (mloCollateralAsset m) SWITCHLY
        then Inl (Err ''unsupported collateral pool'')
      else if mloCollateralAmount m = 0 then Inl (Err ''amount cannot be zero'')
      else if \<not> IsChain A (mloTargetAddress m) (aChain (mloTargetAsset m)) then Inl (Err ''target address does not match chain of target asset'')
      else if Address_IsEmpty (mloTargetAddress m) then Inl (Err ''target address cannot be empty'')
      else if Asset_IsEmpty (mloTargetAsset m) then Inl (Err ''target asset cannot be empty'')
      else if Address_IsEmpty (mloAffiliateAddress m) \<and> mloAffiliateBasisPoints m \<noteq> 0
        then Inl (Err ''affiliate address is empty while affiliate basis points is non-zero'')
      else if \<not> Address_IsEmpty (mloAffiliateAddress m) \<and> \<not> IsChain A (mloAffiliateAddress m) SWITCHLYChain
        then Inl (Err ''swap affiliate address must be a SWITCHLY address'')
      else guard_err (mloSigner m = []) ''empty signer address'')"

definition MsgLoanRepayment_ValidateBasic :: "address \<Rightarrow> asset \<Rightarrow> coin \<Rightarrow> acc \<Rightarrow> unit res" where
  "MsgLoanRepayment_ValidateBasic own a c signer =
     (if Address_IsEmpty own then Inl (Err ''owner cannot be empty'')
      else if Asset_IsEmpty a then Inl (Err ''collateral asset cannot be empty'')
      else if Coin_IsEmpty c then Inl (Err ''coin cannot be empty'')
      else guard_err (signer = []) ''empty signer address'')"

definition MsgTradeAccountWithdrawal_ValidateBasic :: "addr_lib \<Rightarrow> msg_trade_withdrawal \<Rightarrow> unit res" where
  "MsgTradeAccountWithdrawal_ValidateBasic A m =
     (if Asset_IsEmpty (mtwAsset m) then Inl (Err ''asset cannot be empty'')
      else if \<not> aTrade (mtwAsset m) then Inl (Err ''asset must be a trade asset'')
      else if mtwAmount m = 0 then Inl (Err ''amount cannot be zero'')
      else if Address_IsEmpty (mtwAssetAddress m) then Inl (Err ''asset address cannot be empty'')
      else if \<not> IsChain A (mtwAssetAddress m) (GetChain (GetLayer1Asset (mtwAsset m))) then Inl (Err ''asset address does not match asset chain'')
      else if mtwSigner m = [] then Inl (Err ''invalid address'')
      else guard_err (TxID_IsEmpty (tID (mtwTx m))) ''txID cannot be empty'')"

definition MsgSwitchPoolDeposit_ValidateBasic :: "acc \<Rightarrow> tx \<Rightarrow> unit res" where
  "MsgSwitchPoolDeposit_ValidateBasic signer t =
     (if \<not> Chain_Equals (tChain t) SWITCHLYChain then Inl (Err ''chain must be SWITCHLYChain'')
      else case tCoins t of
        [c] \<Rightarrow> if \<not> Chain_Equals (aChain (cAsset c)) SWITCHLYChain then Inl (Err ''coin chain must be SWITCHLYChain'')
               else if \<not> Coin_IsSwitch c then Inl (Err ''coin must be SWITCH'')
               else if signer = [] then Inl (Err ''signer must not be empty'')
               else guard_err (cAmount c = 0) ''coins amount must not be zero''
      | _ \<Rightarrow> Inl (Err ''coins must be length 1 (SWITCH)''))"

definition MsgSwitchPoolWithdraw_ValidateBasic :: "acc \<Rightarrow> tx \<Rightarrow> uint \<Rightarrow> address \<Rightarrow> uint \<Rightarrow> unit res" where
  "MsgSwitchPoolWithdraw_ValidateBasic signer t bp aff abp =
     (if \<not> Coins_IsEmpty (tCoins t) then Inl (Err ''coins must be empty (zero amount)'')
      else if signer = [] then Inl (Err ''signer must not be empty'')
      else if bp = 0 \<or> bp > 10000 then Inl (Err ''invalid basis points'')
      else if abp > 10000 then Inl (Err ''invalid affiliate basis points'')
      else guard_err (abp \<noteq> 0 \<and> Address_IsEmpty aff) ''affiliate basis points with no affiliate address'')"

definition MsgWasmExec_ValidateBasic :: "asset \<Rightarrow> uint \<Rightarrow> acc \<Rightarrow> acc \<Rightarrow> acc \<Rightarrow> tx \<Rightarrow> unit res" where
  "MsgWasmExec_ValidateBasic a amt contract sender signer t =
     (if Asset_IsEmpty a then Inl (Err ''asset cannot be empty'')
      else if \<not> (aSecured a \<or> \<not> IsNative a) then Inl (Err ''asset cannot be SwitchlyProtocol asset'')
      else if amt = 0 then Inl (Err ''amount cannot be zero'')
      else if contract = [] \<or> sender = [] \<or> signer = [] then Inl (Err ''invalid address'')
      else guard_err (TxID_IsEmpty (tID t)) ''txID cannot be empty'')"

definition MsgSwitch_ValidateBasic :: "asset \<Rightarrow> uint \<Rightarrow> acc \<Rightarrow> acc \<Rightarrow> tx \<Rightarrow> unit res" where
  "MsgSwitch_ValidateBasic a amt addr signer t =
     (if Asset_IsEmpty a then Inl (Err ''asset cannot be empty'')
      else if IsNative a then Inl (Err ''native assets cannot be switched'')
      else if amt = 0 then Inl (Err ''amount cannot be zero'')
      else if addr = [] \<or> signer = [] then Inl (Err ''invalid address'')
      else guard_err (TxID_IsEmpty (tID t)) ''txID cannot be empty'')"

definition MsgSWCYClaim_ValidateBasic :: "address \<Rightarrow> address \<Rightarrow> acc \<Rightarrow> unit res" where
  "MsgSWCYClaim_ValidateBasic switchAddr l1 signer =
     (if signer = [] then Inl (Err ''invalid address'')
      else if Address_IsEmpty switchAddr then Inl (Err ''switch addresses cannot be empty'')
      else guard_err (Address_IsEmpty l1) ''l1 addresses cannot be empty'')"

definition MsgSWCYStake_ValidateBasic :: "tx \<Rightarrow> acc \<Rightarrow> unit res" where
  "MsgSWCYStake_ValidateBasic t signer =
     (if \<not> Chain_Equals (tChain t) SWITCHLYChain then Inl (Err ''chain must be SWITCHLYChain'')
      else case tCoins t of
        [c] \<Rightarrow> if \<not> Coin_IsSWCY c then Inl (Err ''coin must be SWCY'')
               else if signer = [] then Inl (Err ''signer must not be empty'')
               else guard_err (cAmount c = 0) ''coins amount must not be zero''
      | _ \<Rightarrow> Inl (Err ''coins must be length 1 (SWCY)''))"

definition MsgSWCYUnstake_ValidateBasic :: "addr_lib \<Rightarrow> tx \<Rightarrow> uint \<Rightarrow> acc \<Rightarrow> unit res" where
  "MsgSWCYUnstake_ValidateBasic A t bp signer =
     (if signer = [] then Inl (Err ''signer must not be empty'')
      else if bp = 0 \<or> bp > 10000 then Inl (Err ''invalid basis points'')
      else if \<not> IsChain A (tFromAddress t) SWITCHLYChain then Inl (Err ''address should be switch address'')
      else guard_err (\<not> Coins_IsEmpty (tCoins t)) ''coins must be empty (zero amount)'')"

definition MsgMaint_ValidateBasic :: "acc \<Rightarrow> acc \<Rightarrow> unit res" where
  "MsgMaint_ValidateBasic node signer = guard_err (\<not> (acc_ok signer \<and> acc_ok node)) ''invalid address''"

fun msg_ValidateBasic :: "addr_lib \<Rightarrow> msg \<Rightarrow> unit res" where
  "msg_ValidateBasic A (MsgSwap m) = MsgSwap_ValidateBasic A m"
| "msg_ValidateBasic A (MsgWithdrawLiquidity m) = MsgWithdrawLiquidity_ValidateBasic m"
| "msg_ValidateBasic A (MsgAddLiquidity m) = MsgAddLiquidity_ValidateBasic m"
| "msg_ValidateBasic A (MsgDonate t a x y s) = MsgDonate_ValidateBasic t a x y s"
| "msg_ValidateBasic A (MsgRefundTx t i s) = MsgTxID_ValidateBasic t i s"
| "msg_ValidateBasic A (MsgOutboundTx t i s) = MsgTxID_ValidateBasic t i s"
| "msg_ValidateBasic A (MsgMigrate t h s) = MsgHeight_ValidateBasic t h s"
| "msg_ValidateBasic A (MsgRagnarok t h s) = MsgHeight_ValidateBasic t h s"
| "msg_ValidateBasic A (MsgBond m) = MsgBond_ValidateBasic m"
| "msg_ValidateBasic A (MsgUnBond m) = MsgUnBond_ValidateBasic m"
| "msg_ValidateBasic A (MsgLeave m) = MsgLeave_ValidateBasic m"
| "msg_ValidateBasic A (MsgReserveContributor t a x s) = MsgReserveContributor_ValidateBasic t a x s"
| "msg_ValidateBasic A (MsgNoOp t s _) = MsgObserved_ValidateBasic t s"
| "msg_ValidateBasic A (MsgConsolidate t s) = MsgObserved_ValidateBasic t s"
| "msg_ValidateBasic A (MsgManageSWITCHName m) = MsgManageSWITCHName_ValidateBasic A m"
| "msg_ValidateBasic A (MsgLoanOpen m) = MsgLoanOpen_ValidateBasic A m"
| "msg_ValidateBasic A (MsgLoanRepayment own a _ _ c s _) = MsgLoanRepayment_ValidateBasic own a c s"
| "msg_ValidateBasic A (MsgTradeAccountDeposit m) = MsgTradeAccountDeposit_ValidateBasic m"
| "msg_ValidateBasic A (MsgTradeAccountWithdrawal m) = MsgTradeAccountWithdrawal_ValidateBasic A m"
| "msg_ValidateBasic A (MsgSecuredAssetDeposit m) = MsgSecuredAssetDeposit_ValidateBasic m"
| "msg_ValidateBasic A (MsgSecuredAssetWithdraw m) = MsgSecuredAssetWithdraw_ValidateBasic A m"
| "msg_ValidateBasic A (MsgSwitchPoolDeposit s t) = MsgSwitchPoolDeposit_ValidateBasic s t"
| "msg_ValidateBasic A (MsgSwitchPoolWithdraw s t bp a abp) = MsgSwitchPoolWithdraw_ValidateBasic s t bp a abp"
| "msg_ValidateBasic A (MsgWasmExec a x con sn sg _ t) = MsgWasmExec_ValidateBasic a x con sn sg t"
| "msg_ValidateBasic A (MsgSwitch a x ad s t) = MsgSwitch_ValidateBasic a x ad s t"
| "msg_ValidateBasic A (MsgSWCYClaim x y s) = MsgSWCYClaim_ValidateBasic x y s"
| "msg_ValidateBasic A (MsgSWCYStake t s) = MsgSWCYStake_ValidateBasic t s"
| "msg_ValidateBasic A (MsgSWCYUnstake t bp s) = MsgSWCYUnstake_ValidateBasic A t bp s"
| "msg_ValidateBasic A (MsgMaint n s) = MsgMaint_ValidateBasic n s"

section \<open>Resolving assets\<close>

text \<open>The hint after the dash of the symbol, lower-cased; none when there is no dash or nothing after it.\<close>

definition symbol_hint :: "asset \<Rightarrow> string option" where
  "symbol_hint a = (case split_on CHR ''-'' (Symbol_String (aSymbol a)) of
     _ # h # _ \<Rightarrow> if h = '''' then None else Some (to_lower h) | _ \<Rightarrow> None)"

definition fuzzy_candidate :: "asset \<Rightarrow> pool \<Rightarrow> bool" where
  "fuzzy_candidate a p \<longleftrightarrow> Chain_Equals (aChain a) (aChain (pAsset p)) \<and> Ticker_Equals (aTicker a) (aTicker (pAsset p))
     \<and> (case symbol_hint a of None \<Rightarrow> True | Some h \<Rightarrow> has_suffix (to_lower (Symbol_String (aSymbol (pAsset p)))) h)"

definition fuzzy_step :: "asset \<Rightarrow> pool slot \<Rightarrow> pool \<Rightarrow> pool" where
  "fuzzy_step a sl winner = (case sl of Corrupt \<Rightarrow> winner
     | Stored p \<Rightarrow> if fuzzy_candidate a p \<and> BalanceSwitch winner \<le> BalanceSwitch p then p else winner)"

definition fuzzyAssetMatch :: "kstore \<Rightarrow> pool slot list \<Rightarrow> asset \<Rightarrow> asset" where
  "fuzzyAssetMatch s pools orig =
     (let a = GetLayer1Asset orig in
      case GetPool s a of Inl _ \<Rightarrow> orig
      | Inr p \<Rightarrow> if BalanceSwitch p \<noteq> 0 then orig
                 else orig\<lparr>aSymbol := aSymbol (pAsset (fold (fuzzy_step a) pools (NewPool\<lparr>pAsset := orig\<rparr>)))\<rparr>)"

definition externalAssetMatch :: "(chain \<Rightarrow> string list) \<Rightarrow> chain \<Rightarrow> string \<Rightarrow> string" where
  "externalAssetMatch tokens ch hint =
     (if hint = '''' \<or> \<not> IsEVM ch then hint
      else case filter (\<lambda>t. has_suffix (to_lower t) (to_lower hint)) (tokens ch) of [t] \<Rightarrow> t | _ \<Rightarrow> hint)"

section \<open>Messages from memos\<close>

definition getMsgSwapFromMemo :: "swap_memo \<Rightarrow> observed_tx \<Rightarrow> acc \<Rightarrow> msg" where
  "getMsgSwapFromMemo m t signer = MsgSwap
     \<lparr>swTx = oTx t, swTargetAsset = smAsset m,
      swDestination = (if Address_IsEmpty (smDestination m) then tFromAddress (oTx t) else smDestination m),
      swTradeTarget = smSlipLimit m, swAffiliateAddress = smAffiliateAddress m, swAffiliateBasisPoints = smAffiliateBasisPoints m,
      swSigner = signer, swAggregator = smDexAggregator m, swAggregatorTargetAddress = smDexTargetAddress m,
      swAggregatorTargetLimit = smDexTargetLimit m, swSwapType = (if smLimit m then LimitSwap else MarketSwap),
      swStreamQuantity = of_nat (smStreamQuantity m), swStreamInterval = of_nat (smStreamInterval m)\<rparr>"

definition getMsgWithdrawFromMemo :: "asset \<Rightarrow> uint \<Rightarrow> asset \<Rightarrow> observed_tx \<Rightarrow> acc \<Rightarrow> msg" where
  "getMsgWithdrawFromMemo a amt w t signer = MsgWithdrawLiquidity
     \<lparr>mwlTx = oTx t, mwlWithdrawAddress = tFromAddress (oTx t),
      mwlBasisPoints = (if amt = 0 then MaxWithdrawBasisPoints else amt),
      mwlAsset = a, mwlWithdrawalAsset = w, mwlSigner = signer\<rparr>"

definition getMsgAddLiquidityFromMemo :: "asset \<Rightarrow> address \<Rightarrow> address \<Rightarrow> uint \<Rightarrow> observed_tx \<Rightarrow> acc \<Rightarrow> msg" where
  "getMsgAddLiquidityFromMemo a dest aff abp t signer =
     (let native = Chain_Equals (tChain (oTx t)) SWITCHLYChain;
          switchAddr = (if native then tFromAddress (oTx t) else dest);
          assetAddr = (if native then dest else tFromAddress (oTx t))
      in MsgAddLiquidity
        \<lparr>malTx = oTx t, malAsset = a, malAssetAmount = cAmount (GetCoin (tCoins (oTx t)) a),
         malSwitchAmount = cAmount (GetCoin (tCoins (oTx t)) SwitchNative), malSwitchAddress = switchAddr,
         malAssetAddress = (if Chain_Equals (aChain a) SWITCHLYChain then switchAddr else assetAddr),
         malAffiliateAddress = aff, malAffiliateBasisPoints = abp, malSigner = signer\<rparr>)"

definition getMsgDonateFromMemo :: "asset \<Rightarrow> observed_tx \<Rightarrow> acc \<Rightarrow> msg" where
  "getMsgDonateFromMemo a t signer =
     MsgDonate (oTx t) a (cAmount (GetCoin (tCoins (oTx t)) SwitchNative)) (cAmount (GetCoin (tCoins (oTx t)) a)) signer"

definition getMsgLoanOpenFromMemo :: "kstore \<Rightarrow> pool slot list \<Rightarrow> loan_open_memo \<Rightarrow> observed_tx \<Rightarrow> coin \<Rightarrow> acc \<Rightarrow> msg" where
  "getMsgLoanOpenFromMemo s pools m t c signer = MsgLoanOpen
     \<lparr>mloOwner = tFromAddress (oTx t), mloCollateralAsset = cAsset c, mloCollateralAmount = cAmount c,
      mloTargetAddress = loTargetAddress m, mloTargetAsset = fuzzyAssetMatch s pools (loTargetAsset m),
      mloMinOut = loMinOut m, mloAffiliateAddress = loAffiliateAddress m, mloAffiliateBasisPoints = loAffiliateBasisPoints m,
      mloAggregator = loDexAggregator m, mloAggregatorTargetAddress = loDexTargetAddress m,
      mloAggregatorTargetLimit = loDexTargetLimit m, mloSigner = signer, mloTxID = tID (oTx t)\<rparr>"

definition getMsgBondFromMemo :: "acc \<Rightarrow> acc \<Rightarrow> int \<Rightarrow> observed_tx \<Rightarrow> acc \<Rightarrow> msg" where
  "getMsgBondFromMemo node provider fee t signer = MsgBond
     \<lparr>mbTxIn = oTx t, mbNodeAddress = node, mbBond = cAmount (GetCoin (tCoins (oTx t)) SwitchNative),
      mbBondAddress = tFromAddress (oTx t), mbBondProviderAddress = provider, mbSigner = signer, mbOperatorFee = fee\<rparr>"

definition getMsgUnbondFromMemo :: "acc \<Rightarrow> uint \<Rightarrow> acc \<Rightarrow> observed_tx \<Rightarrow> acc \<Rightarrow> msg" where
  "getMsgUnbondFromMemo node amt provider t signer = MsgUnBond
     \<lparr>muTxIn = oTx t, muNodeAddress = node, muAmount = amt, muBondAddress = tFromAddress (oTx t),
      muBondProviderAddress = provider, muSigner = signer\<rparr>"

definition getMsgManageSWITCHNameFromMemo :: "string \<Rightarrow> chain \<Rightarrow> address \<Rightarrow> int \<Rightarrow> asset \<Rightarrow> acc \<Rightarrow> coin \<Rightarrow> acc \<Rightarrow> msg" where
  "getMsgManageSWITCHNameFromMemo name ch addr expire pref own c signer = MsgManageSWITCHName
     \<lparr>mnName = name, mnChain = ch, mnAddress = addr, mnCoin = c, mnExpire = expire, mnPreferred = pref,
      mnOwner = own, mnSigner = signer\<rparr>"

text \<open>What the code reads besides the memo and the transaction.\<close>

record inbound_env =
  ieMemo :: memo_lib
  ieMapped :: "address \<Rightarrow> acc option"
  ieTokens :: "chain \<Rightarrow> string list"
  iePools :: "pool slot list"

fun message_of :: "inbound_env \<Rightarrow> kstore \<Rightarrow> memo \<Rightarrow> observed_tx \<Rightarrow> coin \<Rightarrow> acc \<Rightarrow> msg res" where
  "message_of E s (AddLiquidityMemo a dest aff abp) t c sg =
     Inr (getMsgAddLiquidityFromMemo (fuzzyAssetMatch s (iePools E) a) dest aff abp t sg)"
| "message_of E s (WithdrawLiquidityMemo a amt w) t c sg =
     Inr (getMsgWithdrawFromMemo (fuzzyAssetMatch s (iePools E) a) amt
       (if Asset_IsEmpty w then w else fuzzyAssetMatch s (iePools E) w) t sg)"
| "message_of E s (SwapMemo m) t c sg =
     (let a = fuzzyAssetMatch s (iePools E) (smAsset m) in
      Inr (getMsgSwapFromMemo (m\<lparr>smAsset := a,
        smDexTargetAddress := externalAssetMatch (ieTokens E) (GetChain a) (smDexTargetAddress m)\<rparr>) t sg))"
| "message_of E s (DonateMemo a) t c sg = Inr (getMsgDonateFromMemo (fuzzyAssetMatch s (iePools E) a) t sg)"
| "message_of E s (RefundMemo i) t c sg = Inr (MsgRefundTx t i sg)"
| "message_of E s (OutboundMemo i) t c sg = Inr (MsgOutboundTx t i sg)"
| "message_of E s (MigrateMemo h) t c sg = Inr (MsgMigrate t h sg)"
| "message_of E s (BondMemo node provider fee) t c sg = Inr (getMsgBondFromMemo node provider fee t sg)"
| "message_of E s (UnbondMemo node amt provider) t c sg = Inr (getMsgUnbondFromMemo node amt provider t sg)"
| "message_of E s (RagnarokMemo h) t c sg = Inr (MsgRagnarok t h sg)"
| "message_of E s (LeaveMemo node) t c sg = Inr (MsgLeave \<lparr>mlTx = oTx t, mlNodeAddress = node, mlSigner = sg\<rparr>)"
| "message_of E s ReserveMemo t c sg =
     Inr (MsgReserveContributor (oTx t) (tFromAddress (oTx t)) (cAmount (GetCoin (tCoins (oTx t)) SwitchNative)) sg)"
| "message_of E s (NoOpMemo act) t c sg = Inr (MsgNoOp t sg act)"
| "message_of E s ConsolidateMemo t c sg = Inr (MsgConsolidate t sg)"
| "message_of E s (ManageSWITCHNameMemo n ch ad ex pref own) t c sg =
     Inr (getMsgManageSWITCHNameFromMemo n ch ad ex pref own c sg)"
| "message_of E s (LoanOpenMemo m) t c sg = Inr (getMsgLoanOpenFromMemo s (iePools E) m t c sg)"
| "message_of E s (LoanRepaymentMemo a own lim) t c sg =
     Inr (MsgLoanRepayment own (fuzzyAssetMatch s (iePools E) a) lim (tFromAddress (oTx t)) c sg (tID (oTx t)))"
| "message_of E s (TradeAccountDepositMemo a) t c sg = Inr (MsgTradeAccountDeposit
     \<lparr>mtdTx = oTx t, mtdAsset = cAsset c, mtdAmount = cAmount c, mtdAddress = a, mtdSigner = sg\<rparr>)"
| "message_of E s (TradeAccountWithdrawalMemo a) t c sg = Inr (MsgTradeAccountWithdrawal
     \<lparr>mtwAsset = cAsset c, mtwAmount = cAmount c, mtwAssetAddress = a, mtwSigner = sg, mtwTx = oTx t\<rparr>)"
| "message_of E s (SecuredAssetDepositMemo a) t c sg = Inr (MsgSecuredAssetDeposit
     \<lparr>msdTx = oTx t, msdAsset = cAsset c, msdAmount = cAmount c, msdAddress = a, msdSigner = sg\<rparr>)"
| "message_of E s (SecuredAssetWithdrawMemo a) t c sg = Inr (MsgSecuredAssetWithdraw
     \<lparr>mswAsset = cAsset c, mswAmount = cAmount c, mswAssetAddress = a, mswSigner = sg, mswTx = oTx t\<rparr>)"
| "message_of E s SwitchPoolDepositMemo t c sg = Inr (MsgSwitchPoolDeposit sg (oTx t))"
| "message_of E s (SwitchPoolWithdrawMemo bp aff abp n) t c sg = Inr (MsgSwitchPoolWithdraw sg (oTx t) bp aff abp)"
| "message_of E s (ExecMemo contract m) t c sg =
     (case ieMapped E (tFromAddress (oTx t)) of None \<Rightarrow> Inl (Err ''fail to map the sender'')
      | Some sender \<Rightarrow> Inr (MsgWasmExec (cAsset c) (cAmount c) contract sender sg m (oTx t)))"
| "message_of E s (SwitchMemo a) t c sg = Inr (MsgSwitch (cAsset c) (cAmount c) a sg (oTx t))"
| "message_of E s (SWCYClaimMemo a) t c sg = Inr (MsgSWCYClaim a (tFromAddress (oTx t)) sg)"
| "message_of E s SWCYStakeMemo t c sg = Inr (MsgSWCYStake (oTx t) sg)"
| "message_of E s (SWCYUnstakeMemo bp) t c sg = Inr (MsgSWCYUnstake (oTx t) bp sg)"
| "message_of E s (MaintMemo node) t c sg = Inr (MsgMaint node sg)"
| "message_of E s EmptyMemo t c sg = Inl (Err ''invalid memo'')"

definition processOneTxIn :: "inbound_env \<Rightarrow> ctx \<Rightarrow> name_state \<Rightarrow> observed_tx \<Rightarrow> acc \<Rightarrow> msg res" where
  "processOneTxIn E c ns t signer =
     (case tCoins (oTx t) of
        [co] \<Rightarrow>
          (case ParseMemoWithSWITCHNames (ieMemo E) c ns (tMemo (oTx t)) of
             (_, Some e) \<Rightarrow> Inl e
           | (m, None) \<Rightarrow> res_bind (message_of E (nsKeeper ns) m t co signer) (\<lambda>msg.
               res_map (\<lambda>_. msg) (msg_ValidateBasic (mlAddr (ieMemo E)) msg)))
      | _ \<Rightarrow> Inl (Err ''only send 1 coins per message''))"

section \<open>What matching returns\<close>

definition fuzzy_best :: "asset \<Rightarrow> pool slot list \<Rightarrow> pool \<Rightarrow> pool \<Rightarrow> bool" where
  "fuzzy_best a pools start w \<longleftrightarrow>
     (if \<exists>q. Stored q \<in> set pools \<and> fuzzy_candidate a q \<and> BalanceSwitch start \<le> BalanceSwitch q
      then Stored w \<in> set pools \<and> fuzzy_candidate a w
        \<and> (\<forall>q. Stored q \<in> set pools \<longrightarrow> fuzzy_candidate a q \<longrightarrow> BalanceSwitch q \<le> BalanceSwitch w)
      else w = start)"

lemma fuzzy_fold_best: "fuzzy_best a pools w0 (fold (fuzzy_step a) pools w0)"
proof (induction pools arbitrary: w0)
  case Nil
  show ?case by (simp add: fuzzy_best_def)
next
  case (Cons sl pools)
  show ?case
  proof (cases "\<exists>p. sl = Stored p \<and> fuzzy_candidate a p \<and> BalanceSwitch w0 \<le> BalanceSwitch p")
    case True
    then obtain p where p: "sl = Stored p" "fuzzy_candidate a p" "BalanceSwitch w0 \<le> BalanceSwitch p" by blast
    let ?w = "fold (fuzzy_step a) pools p"
    have step: "fold (fuzzy_step a) (sl # pools) w0 = ?w" using p by (simp add: fuzzy_step_def)
    have "Stored ?w \<in> set (sl # pools)" and "fuzzy_candidate a ?w"
      using Cons.IH [of p] p by (auto simp: fuzzy_best_def split: if_splits)
    moreover have "BalanceSwitch q \<le> BalanceSwitch ?w" if "Stored q \<in> set (sl # pools)" "fuzzy_candidate a q" for q
    proof (cases "\<exists>q. Stored q \<in> set pools \<and> fuzzy_candidate a q \<and> BalanceSwitch p \<le> BalanceSwitch q")
      case True
      then obtain r where r: "Stored r \<in> set pools" "fuzzy_candidate a r" "BalanceSwitch p \<le> BalanceSwitch r" by blast
      have all: "BalanceSwitch q \<le> BalanceSwitch ?w" if "Stored q \<in> set pools" "fuzzy_candidate a q" for q
        using Cons.IH [of p] True that by (simp add: fuzzy_best_def)
      show ?thesis using that all [of q] all [OF r(1,2)] r(3) p(1) by auto
    next
      case False
      then have "?w = p" using Cons.IH [of p] by (simp add: fuzzy_best_def)
      with False that p(1) show ?thesis by fastforce
    qed
    moreover have "\<exists>q. Stored q \<in> set (sl # pools) \<and> fuzzy_candidate a q \<and> BalanceSwitch w0 \<le> BalanceSwitch q"
      using p by auto
    ultimately show ?thesis unfolding step fuzzy_best_def by simp
  next
    case False
    then have step: "fold (fuzzy_step a) (sl # pools) w0 = fold (fuzzy_step a) pools w0"
      by (auto simp: fuzzy_step_def split: slot.splits)
    have cand: "(\<exists>q. Stored q \<in> set (sl # pools) \<and> fuzzy_candidate a q \<and> BalanceSwitch w0 \<le> BalanceSwitch q)
        = (\<exists>q. Stored q \<in> set pools \<and> fuzzy_candidate a q \<and> BalanceSwitch w0 \<le> BalanceSwitch q)"
      using False by auto
    have skip: "BalanceSwitch p < BalanceSwitch w0" if "sl = Stored p" "fuzzy_candidate a p" for p
      using False that not_le by blast
    show ?thesis
      using Cons.IH [of w0] skip unfolding step fuzzy_best_def cand
      by (auto split: if_splits intro: less_imp_le dest: order_less_le_trans)
  qed
qed

lemma fuzzy_keeps:
  "\<exists>sym. fuzzyAssetMatch s pools orig = orig\<lparr>aSymbol := sym\<rparr>
     \<and> (sym = aSymbol orig \<or> (\<exists>p. Stored p \<in> set pools \<and> fuzzy_candidate (GetLayer1Asset orig) p \<and> aSymbol (pAsset p) = sym))"
proof -
  let ?a = "GetLayer1Asset orig"
  obtain w where w: "w = fold (fuzzy_step ?a) pools (NewPool\<lparr>pAsset := orig\<rparr>)" by simp
  have "w = NewPool\<lparr>pAsset := orig\<rparr> \<or> Stored w \<in> set pools \<and> fuzzy_candidate ?a w"
    using fuzzy_fold_best [of ?a pools "NewPool\<lparr>pAsset := orig\<rparr>", folded w] by (auto simp: fuzzy_best_def split: if_splits)
  then have "aSymbol (pAsset w) = aSymbol orig \<or> (\<exists>p. Stored p \<in> set pools \<and> fuzzy_candidate ?a p \<and> aSymbol (pAsset p) = aSymbol (pAsset w))"
    by (elim disjE) (simp, blast)
  moreover have "fuzzyAssetMatch s pools orig = orig \<or> fuzzyAssetMatch s pools orig = orig\<lparr>aSymbol := aSymbol (pAsset w)\<rparr>"
    unfolding fuzzyAssetMatch_def Let_def w [symmetric] by (auto split: sum.splits)
  moreover have "fuzzyAssetMatch s pools orig = orig \<Longrightarrow> fuzzyAssetMatch s pools orig = orig\<lparr>aSymbol := aSymbol orig\<rparr>" by simp
  ultimately show ?thesis by metis
qed

text \<open>An asset whose own pool has no balance becomes the deepest pool with its chain, its ticker and, where given, its
  symbol's ending; only when no pool matches it stays as it was.\<close>

theorem fuzzy_match_deepest:
  assumes "GetPool s (GetLayer1Asset orig) = Inr p" and "BalanceSwitch p = 0"
  shows "if \<exists>q. Stored q \<in> set pools \<and> fuzzy_candidate (GetLayer1Asset orig) q
         then \<exists>w. Stored w \<in> set pools \<and> fuzzy_candidate (GetLayer1Asset orig) w \<and> fuzzyAssetMatch s pools orig = orig\<lparr>aSymbol := aSymbol (pAsset w)\<rparr>
           \<and> (\<forall>q. Stored q \<in> set pools \<longrightarrow> fuzzy_candidate (GetLayer1Asset orig) q \<longrightarrow> BalanceSwitch q \<le> BalanceSwitch w)
         else fuzzyAssetMatch s pools orig = orig"
proof -
  let ?a = "GetLayer1Asset orig"
  obtain w where w: "w = fold (fuzzy_step ?a) pools (NewPool\<lparr>pAsset := orig\<rparr>)" by simp
  have best: "fuzzy_best ?a pools (NewPool\<lparr>pAsset := orig\<rparr>) w" unfolding w by (rule fuzzy_fold_best)
  have res: "fuzzyAssetMatch s pools orig = orig\<lparr>aSymbol := aSymbol (pAsset w)\<rparr>"
    using assms unfolding fuzzyAssetMatch_def Let_def w [symmetric] by simp
  have zero: "BalanceSwitch (NewPool\<lparr>pAsset := orig\<rparr>) = 0" by (simp add: NewPool_def)
  show ?thesis
  proof (cases "\<exists>q. Stored q \<in> set pools \<and> fuzzy_candidate ?a q")
    case True
    then show ?thesis using best res unfolding fuzzy_best_def zero by auto
  next
    case False
    then have "w = NewPool\<lparr>pAsset := orig\<rparr>" using best unfolding fuzzy_best_def by meson
    then have "fuzzyAssetMatch s pools orig = orig" using res by simp
    with False show ?thesis by meson
  qed
qed

section \<open>Withdrawals without a withdrawal asset\<close>

text \<open>An absent asset field is not empty: the table of short codes maps the empty text to ETH.ETH.\<close>

lemma empty_text_is_eth: "NewAssetWithShortCodes [] = Inr ETHAsset"
  by (simp add: NewAssetWithShortCodes_def shorts_empty) code_simp

lemma absent_asset: "length (pParts p) \<le> idx \<Longrightarrow> getAsset idx False d p = Inr (ETHAsset, incRequired False p)"
  by (simp add: getAsset_def part_def empty_text_is_eth Let_def)

lemma uint_field_total: "\<exists>v p'. getUintWithMaxValue L idx req d mx p = Inr (v, p') \<and> pParts p' = pParts p"
  by (cases "mlParseUint L (part p idx)")
    (simp_all add: getUintWithMaxValue_def getUint_def field_def parse_bind_def incRequired_def addErr_def Let_def)

lemma short_withdrawal_parse:
  assumes "newParser k memo = Inr p" and "pTxType p = TxWithdraw" and "length (pParts p) \<le> 3"
    and "NewAssetWithShortCodes (part p 1) = Inr a"
  shows "\<exists>bp e. ParseMemoFor L k memo = (WithdrawLiquidityMemo a bp ETHAsset, e)"
proof -
  have a: "getAsset 1 True EmptyAsset p = Inr (a, incRequired True p)"
    using assms(4) by (simp add: getAsset_def Let_def)
  obtain bp p2 where bp: "getUintWithMaxValue L 2 False 10000 10000 (incRequired True p) = Inr (bp, p2)" "pParts p2 = pParts p"
    using uint_field_total [of L 2 False 10000 10000 "incRequired True p"] by (auto simp: incRequired_def)
  have w: "getAsset 3 False EmptyAsset p2 = Inr (ETHAsset, incRequired False p2)"
    using assms(3) bp(2) by (simp add: absent_asset)
  have "dispatch L TxWithdraw p = finish (WithdrawLiquidityMemo a bp ETHAsset) (incRequired False p2)"
    by (simp add: ParseWithdrawLiquidityMemo_def parse_bind_def a [simplified] bp(1) w)
  then show ?thesis
    using assms(1,2) by (cases "parser_Error (incRequired False p2)") (simp add: ParseMemoFor_def parse_memo_def finish_def)
qed

lemma foreign_withdrawal_invalid:
  assumes "\<not> Chain_Equals (aChain a) ETHChain" and "\<not> Asset_IsEmpty w" and "aChain w = ETHChain"
  shows "\<exists>e. msg_ValidateBasic A (getMsgWithdrawFromMemo a amt w t signer) = Inl e"
proof -
  have "\<not> IsSwitch w" using assms(3) by (simp add: IsSwitch_def Asset_Equals_def Chain_Equals_def) code_simp
  moreover have "\<not> Asset_Equals w a" using assms(1,3) equal_fold_sym by (simp add: Asset_Equals_def Chain_Equals_def)
  ultimately show ?thesis using assms(2) by (simp add: getMsgWithdrawFromMemo_def MsgWithdrawLiquidity_ValidateBasic_def)
qed


definition withdraw_tx :: observed_tx where
  "withdraw_tx = \<lparr>oTx = \<lparr>tID = ''T'', tChain = BTCChain, tFromAddress = ''bc1a'', tToAddress = ''bc1b'',
       tCoins = [\<lparr>cAsset = BTCAsset, cAmount = 1, cDecimals = 0\<rparr>], tGas = [], tMemo = ''-:BTC.BTC:10000''\<rparr>,
     oStatus = Status_incomplete, OutHashes = [], oBlockHeight = 1, oSigners = [], ObservedPubKey = [], KeysignMs = 0,
     FinaliseHeight = 1, Aggregator = [], AggregatorTarget = [], AggregatorTargetLimit = None\<rparr>"

definition no_names :: name_state where
  "no_names = \<lparr>nsKeeper = empty_kstore, nsNames = Map.empty\<rparr>"

definition plain_inbound :: inbound_env where
  "plain_inbound = \<lparr>ieMemo = plain_memos, ieMapped = (\<lambda>_. None), ieTokens = (\<lambda>_. []), iePools = []\<rparr>"


theorem fuzzy_match_deepest_witness:
  "fuzzyAssetMatch empty_kstore [Stored (NewPool\<lparr>pAsset := mk_asset ETHChain ''USDT-0X1'' ''USDT''\<rparr>)] (mk_asset ETHChain ''USDT'' ''USDT'')
     = mk_asset ETHChain ''USDT-0X1'' ''USDT''"
proof -
  let ?o = "mk_asset ETHChain ''USDT'' ''USDT''" and ?q = "NewPool\<lparr>pAsset := mk_asset ETHChain ''USDT-0X1'' ''USDT''\<rparr>"
  have get: "GetPool empty_kstore (GetLayer1Asset ?o) = Inr NewPool" by (simp add: GetPool_def kv_get_def empty_kstore_def)
  have cand: "fuzzy_candidate (GetLayer1Asset ?o) ?q" by code_simp
  show ?thesis
    using fuzzy_match_deepest [OF get, of "[Stored ?q]"] cand by (auto simp: NewPool_def mk_asset_def)
qed

end
