(* ===== verification/Upgrades.thy ===== *)
theory Upgrades
  imports Mimirs "HOL-Library.AList"
begin

text \<open>
  Upgrades: proposals, votes of the validators and the scheduled plan, \<^verbatim>\<open>src/x/switchly/handler_upgrade.go\<close>,
  \<^verbatim>\<open>keeper/v1/keeper_upgrade.go\<close> and \<^verbatim>\<open>types/msg_upgrade.go\<close>.

  The votes on a proposal are stored under its name, a slash and the address of the voter; a name is a semantic
  version and has no slash, so the votes of a name are a list of their own. Whether a name is a semantic version is
  the argument \<open>semver\<close>; the plan is kept by the upgrade module of the SDK, which takes a plan when \<open>accepts\<close> holds.
\<close>

section \<open>State\<close>

record upgrade_proposal =
  upHeight :: int
  upInfo :: string
  upProposer :: acc

record upgrade_plan =
  plName :: string
  plHeight :: int
  plInfo :: string

record upgrade_state =
  ugNode :: mimir_state
  ugProposals :: "(string \<times> upgrade_proposal slot) list"
  ugVotes :: "string \<Rightarrow> (acc \<times> nat) list"
  ugPlan :: "upgrade_plan option"

definition ScheduleUpgrade :: "(upgrade_plan \<Rightarrow> bool) \<Rightarrow> upgrade_state \<Rightarrow> upgrade_plan \<Rightarrow> upgrade_state res" where
  "ScheduleUpgrade accepts s p = (if accepts p then Inr (s\<lparr>ugPlan := Some p\<rparr>) else Inl (Err ''invalid plan''))"

definition ClearUpgradePlan :: "upgrade_state \<Rightarrow> upgrade_state" where
  "ClearUpgradePlan s = s\<lparr>ugPlan := None\<rparr>"

definition ProposeUpgrade :: "upgrade_state \<Rightarrow> string \<Rightarrow> upgrade_proposal \<Rightarrow> upgrade_state" where
  "ProposeUpgrade s name u = s\<lparr>ugProposals := AList.update name (Stored u) (ugProposals s)\<rparr>"

definition GetProposedUpgrade :: "upgrade_state \<Rightarrow> string \<Rightarrow> upgrade_proposal option res" where
  "GetProposedUpgrade s name = (case map_of (ugProposals s) name of
     None \<Rightarrow> Inr None | Some (Stored u) \<Rightarrow> Inr (Some u) | Some Corrupt \<Rightarrow> Inl (Err ''failed to unmarshal proposed upgrade''))"

definition GetUpgradeVote :: "upgrade_state \<Rightarrow> acc \<Rightarrow> string \<Rightarrow> bool res" where
  "GetUpgradeVote s a name = (case map_of (ugVotes s name) a of
     None \<Rightarrow> Inl (Err ''no vote found on proposal'') | Some v \<Rightarrow> Inr (v = 1))"

definition put_vote :: "upgrade_state \<Rightarrow> acc \<Rightarrow> string \<Rightarrow> nat \<Rightarrow> upgrade_state" where
  "put_vote s a name v = s\<lparr>ugVotes := (ugVotes s)(name := AList.update a v (ugVotes s name))\<rparr>"

definition ApproveUpgrade :: "upgrade_state \<Rightarrow> acc \<Rightarrow> string \<Rightarrow> upgrade_state" where
  "ApproveUpgrade s a name = put_vote s a name 1"

definition RejectUpgrade :: "upgrade_state \<Rightarrow> acc \<Rightarrow> string \<Rightarrow> upgrade_state" where
  "RejectUpgrade s a name = put_vote s a name 255"

definition removeExpiredUpgradeProposalVotes :: "upgrade_state \<Rightarrow> string \<Rightarrow> upgrade_state" where
  "removeExpiredUpgradeProposalVotes s name = s\<lparr>ugVotes := (ugVotes s)(name := [])\<rparr>"

text \<open>A proposal that does not decode stops the loop; what was removed before stays removed.\<close>

fun remove_expired :: "ctx \<Rightarrow> (string \<times> upgrade_proposal slot) list \<Rightarrow> upgrade_state \<Rightarrow> upgrade_state \<times> unit res" where
  "remove_expired c [] s = (s, Inr ())"
| "remove_expired c ((name, Corrupt) # q) s = (s, Inl (Err ''failed to unmarshal proposed upgrade''))"
| "remove_expired c ((name, Stored u) # q) s =
     (if BlockHeight c \<le> upHeight u then remove_expired c q s
      else remove_expired c q ((removeExpiredUpgradeProposalVotes s name)\<lparr>ugProposals := AList.delete name (ugProposals s)\<rparr>))"

definition RemoveExpiredUpgradeProposals :: "ctx \<Rightarrow> upgrade_state \<Rightarrow> upgrade_state \<times> unit res" where
  "RemoveExpiredUpgradeProposals c s = remove_expired c (ugProposals s) s"

section \<open>The quorum\<close>

record upgrade_quorum =
  uqApproved :: bool
  uqApprovingVals :: nat
  uqTotalActive :: nat
  uqNeededForQuorum :: nat

text \<open>
  The threshold is two thirds of the active validators as a float. Below 2^50 validators the rounding does not cross
  an integer, so the comparison is that of the fractions.
\<close>

definition UpgradeApprovedByMajority :: "upgrade_state \<Rightarrow> string \<Rightarrow> upgrade_quorum res" where
  "UpgradeApprovedByMajority s name =
     res_map (\<lambda>vals.
       let active = remdups (map NodeAddress vals); n = length active;
           a = length (filter (\<lambda>(v, vote). vote = 1 \<and> v \<in> set active) (ugVotes s name))
       in if 3 * a \<ge> 2 * n
          then \<lparr>uqApproved = True, uqApprovingVals = a, uqTotalActive = n, uqNeededForQuorum = 0\<rparr>
          else \<lparr>uqApproved = False, uqApprovingVals = a, uqTotalActive = n, uqNeededForQuorum = (2 * n - 3 * a + 2) div 3\<rparr>)
     (ListActiveValidators (ugNode s))"

definition scheduleUpgradeIfNecessary :: "(upgrade_plan \<Rightarrow> bool) \<Rightarrow> upgrade_state \<Rightarrow> string \<Rightarrow> upgrade_state res" where
  "scheduleUpgradeIfNecessary accepts s name =
     (if (case ugPlan s of Some p \<Rightarrow> plName p = name | None \<Rightarrow> False) then Inr s
      else res_bind (GetProposedUpgrade s name) (\<lambda>u. case u of
        None \<Rightarrow> Inl (Err ''upgrade proposal not found'')
      | Some u \<Rightarrow> res_bind (UpgradeApprovedByMajority s name) (\<lambda>uq.
          if uqApproved uq then
            (if ugPlan s \<noteq> None then Inl (Err ''a different upgrade is already scheduled'')
             else ScheduleUpgrade accepts s \<lparr>plName = name, plHeight = upHeight u, plInfo = upInfo u\<rparr>)
          else Inr s)))"

definition clearUpgradeIfNecessary :: "upgrade_state \<Rightarrow> string \<Rightarrow> upgrade_state res" where
  "clearUpgradeIfNecessary s name =
     (case ugPlan s of
        None \<Rightarrow> Inr s
      | Some p \<Rightarrow> if plName p \<noteq> name then Inr s
          else res_map (\<lambda>uq. if uqApproved uq then s else ClearUpgradePlan s) (UpgradeApprovedByMajority s name))"

section \<open>Messages and handlers\<close>

record msg_propose_upgrade =
  mpuName :: string
  mpuHeight :: int
  mpuInfo :: string
  mpuSigner :: acc

definition MsgProposeUpgrade_ValidateBasic :: "(string \<Rightarrow> bool) \<Rightarrow> msg_propose_upgrade \<Rightarrow> unit res" where
  "MsgProposeUpgrade_ValidateBasic semver m =
     (if mpuSigner m = [] then Inl (Err ''invalid address'')
      else if mpuName m = [] then Inl (Err ''name cannot be empty'')
      else if length (mpuName m) > 100 then Inl (Err ''name cannot be longer than 100 characters'')
      else if \<not> semver (mpuName m) then Inl (Err ''name is not a valid semver'')
      else if length (mpuInfo m) > 2500 then Inl (Err ''info cannot be longer than 2500 characters'')
      else guard_err (mpuHeight m = 0) ''height cannot be zero'')"

definition MsgVoteUpgrade_ValidateBasic :: "string \<Rightarrow> acc \<Rightarrow> unit res" where
  "MsgVoteUpgrade_ValidateBasic name signer =
     (if signer = [] then Inl (Err ''invalid address'') else guard_err (name = []) ''name cannot be empty'')"

text \<open>The loop over the proposals: an error at the third of the signer, or at one that does not decode.\<close>

fun count_proposals :: "acc \<Rightarrow> (string \<times> upgrade_proposal slot) list \<Rightarrow> nat \<Rightarrow> unit res" where
  "count_proposals a [] n = Inr ()"
| "count_proposals a ((_, Corrupt) # q) n = Inl (Err ''failed to unmarshal upgrade proposal'')"
| "count_proposals a ((_, Stored u) # q) n =
     (if upProposer u \<noteq> a then count_proposals a q n
      else if Suc n = 3 then Inl (Err ''exceeded maximum number of upgrade proposals'')
      else count_proposals a q (Suc n))"

definition ProposeUpgrade_validate :: "(string \<Rightarrow> bool) \<Rightarrow> ctx \<Rightarrow> upgrade_state \<Rightarrow> msg_propose_upgrade \<Rightarrow> unit res" where
  "ProposeUpgrade_validate semver c s m =
     res_bind (MsgProposeUpgrade_ValidateBasic semver m) (\<lambda>_.
     res_bind (signedByActiveNodeAccount c (ugNode s) (mpuSigner m)) (\<lambda>_.
       if BlockHeight c \<ge> mpuHeight m then Inl (Err ''upgrade height must be in the future'')
       else res_bind (GetProposedUpgrade s (mpuName m)) (\<lambda>u.
         if u \<noteq> None then Inl (Err ''upgrade proposal already exists'')
         else count_proposals (mpuSigner m) (ugProposals s) 0)))"

definition ProposeUpgrade_handle :: "(upgrade_plan \<Rightarrow> bool) \<Rightarrow> upgrade_state \<Rightarrow> msg_propose_upgrade \<Rightarrow> upgrade_state res" where
  "ProposeUpgrade_handle accepts s m =
     (let s1 = ProposeUpgrade s (mpuName m) \<lparr>upHeight = mpuHeight m, upInfo = mpuInfo m, upProposer = mpuSigner m\<rparr>
      in scheduleUpgradeIfNecessary accepts (ApproveUpgrade s1 (mpuSigner m) (mpuName m)) (mpuName m))"

definition upgrade_voter_ok :: "ctx \<Rightarrow> upgrade_state \<Rightarrow> string \<Rightarrow> acc \<Rightarrow> unit res" where
  "upgrade_voter_ok c s name signer =
     res_bind (MsgVoteUpgrade_ValidateBasic name signer) (\<lambda>_.
     res_bind (signedByActiveNodeAccount c (ugNode s) signer) (\<lambda>_.
     res_bind (GetProposedUpgrade s name) (\<lambda>u. guard_err (u = None) ''upgrade proposal does not exist'')))"

definition ApproveUpgrade_validate :: "ctx \<Rightarrow> upgrade_state \<Rightarrow> string \<Rightarrow> acc \<Rightarrow> unit res" where
  "ApproveUpgrade_validate c s name signer =
     res_bind (upgrade_voter_ok c s name signer) (\<lambda>_. guard_err (GetUpgradeVote s signer name = Inr True) ''upgrade already approved'')"

definition ApproveUpgrade_handle :: "(upgrade_plan \<Rightarrow> bool) \<Rightarrow> upgrade_state \<Rightarrow> string \<Rightarrow> acc \<Rightarrow> upgrade_state res" where
  "ApproveUpgrade_handle accepts s name signer = scheduleUpgradeIfNecessary accepts (ApproveUpgrade s signer name) name"

definition RejectUpgrade_validate :: "ctx \<Rightarrow> upgrade_state \<Rightarrow> string \<Rightarrow> acc \<Rightarrow> unit res" where
  "RejectUpgrade_validate c s name signer =
     res_bind (upgrade_voter_ok c s name signer) (\<lambda>_. guard_err (GetUpgradeVote s signer name = Inr False) ''upgrade already rejected'')"

definition RejectUpgrade_handle :: "upgrade_state \<Rightarrow> string \<Rightarrow> acc \<Rightarrow> upgrade_state res" where
  "RejectUpgrade_handle s name signer = clearUpgradeIfNecessary (RejectUpgrade s signer name) name"

section \<open>Runs\<close>

text \<open>
  Messages of validators, the removal of expired proposals, changes of the nodes, and the execution of a plan, in any
  order from a state without proposals and votes.
\<close>

inductive upgrade_step :: "(string \<Rightarrow> bool) \<Rightarrow> (upgrade_plan \<Rightarrow> bool) \<Rightarrow> upgrade_state \<Rightarrow> upgrade_state \<Rightarrow> bool"
  for semver :: "string \<Rightarrow> bool" and accepts :: "upgrade_plan \<Rightarrow> bool" where
  propose: "ProposeUpgrade_validate semver c s m = Inr () \<Longrightarrow> ProposeUpgrade_handle accepts s m = Inr s' \<Longrightarrow> upgrade_step semver accepts s s'"
| approve: "ApproveUpgrade_validate c s name a = Inr () \<Longrightarrow> ApproveUpgrade_handle accepts s name a = Inr s' \<Longrightarrow> upgrade_step semver accepts s s'"
| reject: "RejectUpgrade_validate c s name a = Inr () \<Longrightarrow> RejectUpgrade_handle s name a = Inr s' \<Longrightarrow> upgrade_step semver accepts s s'"
| expire: "upgrade_step semver accepts s (fst (RemoveExpiredUpgradeProposals c s))"
| nodes: "upgrade_step semver accepts s (s\<lparr>ugNode := n\<rparr>)"
| executed: "upgrade_step semver accepts s (s\<lparr>ugPlan := None\<rparr>)"

inductive upgrade_run :: "(string \<Rightarrow> bool) \<Rightarrow> (upgrade_plan \<Rightarrow> bool) \<Rightarrow> upgrade_state \<Rightarrow> bool"
  for semver :: "string \<Rightarrow> bool" and accepts :: "upgrade_plan \<Rightarrow> bool" where
  start: "ugProposals s = [] \<Longrightarrow> ugVotes s = (\<lambda>_. []) \<Longrightarrow> ugPlan s = None \<Longrightarrow> upgrade_run semver accepts s"
| step: "upgrade_run semver accepts s \<Longrightarrow> upgrade_step semver accepts s s' \<Longrightarrow> upgrade_run semver accepts s'"

section \<open>The invariant\<close>

definition upgrade_ok :: "upgrade_state \<Rightarrow> bool" where
  "upgrade_ok s \<longleftrightarrow> distinct (map fst (ugProposals s)) \<and> (\<forall>name. distinct (map fst (ugVotes s name)))
     \<and> Corrupt \<notin> snd ` set (ugProposals s)
     \<and> (\<forall>a. length (filter (\<lambda>(_, v). \<exists>u. v = Stored u \<and> upProposer u = a) (ugProposals s)) \<le> 3)"

lemma update_fresh: "map_of al k = None \<Longrightarrow> AList.update k v al = al @ [(k, v)]"
  by (induction al) (auto split: if_splits)

lemma filter_delete_le: "length (filter P (AList.delete k al)) \<le> length (filter P al)"
  by (induction al) auto

lemma put_vote_simps [simp]:
  "ugProposals (put_vote s a n v) = ugProposals s" "ugPlan (put_vote s a n v) = ugPlan s" "ugNode (put_vote s a n v) = ugNode s"
  by (simp_all add: put_vote_def)

lemma put_vote_ok: "upgrade_ok s \<Longrightarrow> upgrade_ok (put_vote s a n v)"
  by (simp add: upgrade_ok_def put_vote_def distinct_update)

lemma upgrade_ok_frames [simp]: "upgrade_ok (s\<lparr>ugPlan := p\<rparr>) = upgrade_ok s" "upgrade_ok (s\<lparr>ugNode := n\<rparr>) = upgrade_ok s"
  by (simp_all add: upgrade_ok_def)

lemma drop_proposal_ok:
  assumes "upgrade_ok s"
  shows "upgrade_ok ((removeExpiredUpgradeProposalVotes s name)\<lparr>ugProposals := AList.delete name (ugProposals s)\<rparr>)"
proof -
  have "Corrupt \<notin> snd ` set (AList.delete name (ugProposals s))"
    using assms by (auto simp: upgrade_ok_def AList.delete_eq)
  with assms show ?thesis
    by (auto simp: upgrade_ok_def removeExpiredUpgradeProposalVotes_def distinct_delete intro: order.trans [OF filter_delete_le])
qed

lemma remove_expired_ok: "upgrade_ok s \<Longrightarrow> upgrade_ok (fst (remove_expired c q s)) \<and> ugPlan (fst (remove_expired c q s)) = ugPlan s"
proof (induction c q s rule: remove_expired.induct)
  case (3 c name u q s)
  then show ?case by (auto simp: drop_proposal_ok) (simp_all add: removeExpiredUpgradeProposalVotes_def)
qed simp_all

lemma count_proposals_bound:
  "count_proposals a q n = Inr () \<Longrightarrow> n \<le> 2 \<Longrightarrow> n + length (filter (\<lambda>(_, v). \<exists>u. v = Stored u \<and> upProposer u = a) q) \<le> 2"
  by (induction a q n rule: count_proposals.induct) (auto split: if_splits)

lemma propose_ok:
  assumes "upgrade_ok s" and "ProposeUpgrade_validate semver c s m = Inr ()" and "upProposer u = mpuSigner m"
  shows "upgrade_ok (ProposeUpgrade s (mpuName m) u)"
proof -
  let ?q = "ugProposals s" and ?P = "\<lambda>a (_ :: string, v). \<exists>u. v = Stored u \<and> upProposer u = a"
  have new: "map_of ?q (mpuName m) = None" and few: "count_proposals (mpuSigner m) ?q 0 = Inr ()"
    using assms(2) by (auto simp: ProposeUpgrade_validate_def GetProposedUpgrade_def res_simps split: if_splits option.splits slot.splits)
  have q': "ugProposals (ProposeUpgrade s (mpuName m) u) = ?q @ [(mpuName m, Stored u)]"
    using new by (simp add: ProposeUpgrade_def update_fresh)
  have bound: "length (filter (?P a) (?q @ [(mpuName m, Stored u)])) \<le> 3" for a
    using assms(1) count_proposals_bound [OF few] assms(3) by (cases "a = mpuSigner m") (auto simp: upgrade_ok_def)
  have "mpuName m \<notin> fst ` set ?q" using new by (auto simp: map_of_eq_None_iff)
  then show ?thesis using assms(1) bound unfolding upgrade_ok_def q' by (auto simp: ProposeUpgrade_def)
qed

lemma schedule_cases:
  assumes "scheduleUpgradeIfNecessary accepts s name = Inr s'"
  shows "s' = s \<or> (\<exists>u uq. ugPlan s = None \<and> map_of (ugProposals s) name = Some (Stored u) \<and> UpgradeApprovedByMajority s name = Inr uq \<and> uqApproved uq
     \<and> s' = s\<lparr>ugPlan := Some \<lparr>plName = name, plHeight = upHeight u, plInfo = upInfo u\<rparr>\<rparr>)"
  using assms by (auto simp: scheduleUpgradeIfNecessary_def GetProposedUpgrade_def ScheduleUpgrade_def res_simps split: if_splits option.splits slot.splits)

lemma schedule_ok: "scheduleUpgradeIfNecessary accepts s name = Inr s' \<Longrightarrow> upgrade_ok s \<Longrightarrow> upgrade_ok s'"
  using schedule_cases by fastforce

lemma clear_cases: "clearUpgradeIfNecessary s name = Inr s' \<Longrightarrow> s' = s \<or> s' = s\<lparr>ugPlan := None\<rparr>"
  by (auto simp: clearUpgradeIfNecessary_def ClearUpgradePlan_def res_simps split: option.splits if_splits)

lemma clear_kept:
  assumes "clearUpgradeIfNecessary s name = Inr s'" and "ugPlan s' = Some p" and "plName p = name"
  shows "s' = s \<and> (\<exists>uq. UpgradeApprovedByMajority s name = Inr uq \<and> uqApproved uq)"
proof (cases "ugPlan s")
  case (Some q)
  have same: "s' = s" using clear_cases [OF assms(1)] assms(2) by auto
  have "ugPlan s \<noteq> ugPlan (ClearUpgradePlan s)" using Some by (simp add: ClearUpgradePlan_def)
  then have "s \<noteq> ClearUpgradePlan s" by auto
  with assms Some same show ?thesis
    by (cases "UpgradeApprovedByMajority s name") (auto simp: clearUpgradeIfNecessary_def split: if_splits)
qed (use assms in \<open>simp add: clearUpgradeIfNecessary_def\<close>)

lemma upgrade_step_ok: "upgrade_step semver accepts s s' \<Longrightarrow> upgrade_ok s \<Longrightarrow> upgrade_ok s'"
proof (induction rule: upgrade_step.induct)
  case (propose c s m s')
  let ?u = "\<lparr>upHeight = mpuHeight m, upInfo = mpuInfo m, upProposer = mpuSigner m\<rparr>"
  have "upgrade_ok (ApproveUpgrade (ProposeUpgrade s (mpuName m) ?u) (mpuSigner m) (mpuName m))"
    unfolding ApproveUpgrade_def by (intro put_vote_ok propose_ok [OF propose(3) propose(1)]) simp
  then show ?case using propose(2) schedule_ok unfolding ProposeUpgrade_handle_def Let_def by blast
next
  case (approve c s name a s')
  then show ?case using schedule_ok put_vote_ok by (auto simp: ApproveUpgrade_handle_def ApproveUpgrade_def)
next
  case (reject c s name a s')
  then show ?case using put_vote_ok [OF reject(3)] by (auto simp: RejectUpgrade_handle_def RejectUpgrade_def dest!: clear_cases)
qed (simp_all add: RemoveExpiredUpgradeProposals_def remove_expired_ok)

lemma upgrade_run_ok: "upgrade_run semver accepts s \<Longrightarrow> upgrade_ok s"
proof (induction rule: upgrade_run.induct)
  case (start s)
  then show ?case by (simp add: upgrade_ok_def)
qed (rule upgrade_step_ok)

section \<open>Properties\<close>

definition supported :: "upgrade_state \<Rightarrow> string \<Rightarrow> bool" where
  "supported s name \<longleftrightarrow> (\<exists>vals. ListActiveValidators (ugNode s) = Inr vals
     \<and> 2 * card (NodeAddress ` set vals) \<le> 3 * card {a \<in> NodeAddress ` set vals. map_of (ugVotes s name) a = Some 1})"

lemma votes_card:
  assumes "distinct (map fst votes)"
  shows "length (filter (\<lambda>(v, vote). vote = (1::nat) \<and> v \<in> A) votes) = card {a \<in> A. map_of votes a = Some 1}"
proof -
  let ?f = "filter (\<lambda>(v, vote). vote = 1 \<and> v \<in> A) votes"
  have "distinct (map fst ?f)" using assms by (rule distinct_map_filter)
  then have "length ?f = card (set (map fst ?f))" by (metis distinct_card length_map)
  also have "set (map fst ?f) = {a \<in> A. map_of votes a = Some 1}"
    using assms by (auto simp: map_of_eq_Some_iff image_iff)
  finally show ?thesis .
qed

lemma approved_supported:
  assumes "upgrade_ok s" and "UpgradeApprovedByMajority s name = Inr uq"
  shows "uqApproved uq \<longleftrightarrow> supported s name"
proof -
  from assms(2) obtain vals where vals: "ListActiveValidators (ugNode s) = Inr vals"
    by (auto simp: UpgradeApprovedByMajority_def res_simps)
  have "uqApproved uq \<longleftrightarrow> 3 * length (filter (\<lambda>(v, vote). vote = 1 \<and> v \<in> NodeAddress ` set vals) (ugVotes s name)) \<ge> 2 * card (NodeAddress ` set vals)"
    using assms(2) by (auto simp: UpgradeApprovedByMajority_def vals Let_def length_remdups_card_conv split: if_splits)
  then show ?thesis using assms(1) votes_card [of "ugVotes s name"] by (auto simp: supported_def vals upgrade_ok_def)
qed

text \<open>C15. A plan is scheduled only when none is, for a proposal with its height and info, and only when at least two thirds of
  the active validators approve the proposal, each counted once.\<close>

theorem upgrade_needs_two_thirds:
  assumes "upgrade_run semver accepts s" and "upgrade_step semver accepts s s'"
    and "ugPlan s' = Some p" and "ugPlan s \<noteq> Some p"
  shows "ugPlan s = None \<and> accepts p \<and> supported s' (plName p)
    \<and> (\<exists>u. map_of (ugProposals s') (plName p) = Some (Stored u) \<and> upHeight u = plHeight p \<and> upInfo u = plInfo p)"
proof -
  have sched: "ugPlan s = None \<and> accepts p \<and> supported s' (plName p)
      \<and> (\<exists>u. map_of (ugProposals s') (plName p) = Some (Stored u) \<and> upHeight u = plHeight p \<and> upInfo u = plInfo p)"
    if run: "scheduleUpgradeIfNecessary accepts t name = Inr s'" and t: "ugPlan t = ugPlan s" "upgrade_ok t" for t name
  proof -
    from schedule_cases [OF run] assms(3,4) t(1) obtain u uq where u: "ugPlan t = None" "map_of (ugProposals t) name = Some (Stored u)"
      "UpgradeApprovedByMajority t name = Inr uq" "uqApproved uq" "s' = t\<lparr>ugPlan := Some \<lparr>plName = name, plHeight = upHeight u, plInfo = upInfo u\<rparr>\<rparr>"
      by auto
    have acc: "accepts p"
      using run u assms(3) by (auto simp: scheduleUpgradeIfNecessary_def GetProposedUpgrade_def ScheduleUpgrade_def split: if_splits)
    have "supported t name" using approved_supported [OF t(2) u(3)] u(4) by simp
    then have "supported s' name" using u(5) by (simp add: supported_def)
    then show ?thesis using u assms(3) t(1) acc by auto
  qed
  have ok: "upgrade_ok s" using assms(1) by (rule upgrade_run_ok)
  from assms(2) show ?thesis
  proof cases
    case (propose c m)
    let ?u = "\<lparr>upHeight = mpuHeight m, upInfo = mpuInfo m, upProposer = mpuSigner m\<rparr>"
    let ?t = "ApproveUpgrade (ProposeUpgrade s (mpuName m) ?u) (mpuSigner m) (mpuName m)"
    have "upgrade_ok ?t" unfolding ApproveUpgrade_def by (intro put_vote_ok propose_ok [OF ok propose(1)]) simp
    moreover have "ugPlan ?t = ugPlan s" by (simp add: ApproveUpgrade_def ProposeUpgrade_def)
    ultimately show ?thesis using sched propose(2) unfolding ProposeUpgrade_handle_def Let_def by blast
  next
    case (approve c name a)
    moreover have "upgrade_ok (ApproveUpgrade s a name)" using put_vote_ok [OF ok] by (simp add: ApproveUpgrade_def)
    ultimately show ?thesis using sched by (simp add: ApproveUpgrade_handle_def ApproveUpgrade_def)
  next
    case (reject c name a)
    then have "clearUpgradeIfNecessary (put_vote s a name 255) name = Inr s'" by (simp add: RejectUpgrade_handle_def RejectUpgrade_def)
    from clear_cases [OF this] show ?thesis using assms(3,4) by auto
  next
    case (expire c)
    then show ?thesis using assms(3,4) remove_expired_ok [OF ok] by (simp add: RemoveExpiredUpgradeProposals_def)
  qed (use assms in auto)
qed

text \<open>No validator ever has more than three open proposals.\<close>

theorem upgrade_proposals_limited:
  assumes "upgrade_run semver accepts s"
  shows "length (filter (\<lambda>(_, v). \<exists>u. v = Stored u \<and> upProposer u = a) (ugProposals s)) \<le> 3"
  using upgrade_run_ok [OF assms] by (simp add: upgrade_ok_def)

text \<open>A rejection that leaves the scheduled plan in place leaves it with two thirds.\<close>

theorem upgrade_rejection_unschedules:
  assumes "upgrade_run semver accepts s" and "RejectUpgrade_handle s name a = Inr s'" and "ugPlan s' = Some p" and "plName p = name"
  shows "supported s' name"
proof -
  let ?t = "RejectUpgrade s a name"
  have ok: "upgrade_ok ?t" using put_vote_ok [OF upgrade_run_ok [OF assms(1)]] by (simp add: RejectUpgrade_def)
  from clear_kept [OF _ assms(3,4)] assms(2) obtain uq where "s' = ?t" "UpgradeApprovedByMajority ?t name = Inr uq" "uqApproved uq"
    unfolding RejectUpgrade_handle_def by blast
  with approved_supported [OF ok] show ?thesis by simp
qed

definition lone_validator :: upgrade_state where
  "lone_validator = \<lparr>ugNode = (mimir_demo demo_mimir_keeper)\<lparr>msNodes := [(''A'', Stored (mimir_node ''A''))]\<rparr>,
     ugProposals = [], ugVotes = (\<lambda>_. []), ugPlan = None\<rparr>"

definition demo_upgrade :: msg_propose_upgrade where
  "demo_upgrade = \<lparr>mpuName = ''3.2.0'', mpuHeight = 50, mpuInfo = ''i'', mpuSigner = ''A''\<rparr>"

lemma lone_active:
  "ListActiveValidators (ugNode lone_validator) = Inr [mimir_node ''A'']" "signedByActiveNodeAccount mimir_ctx (ugNode lone_validator) ''A'' = Inr ()"
  "NodeAddress (mimir_node ''A'') = ''A''"
proof -
  have key: "kv_key ''A'' = ''A''" by code_simp
  show "ListActiveValidators (ugNode lone_validator) = Inr [mimir_node ''A'']" "signedByActiveNodeAccount mimir_ctx (ugNode lone_validator) ''A'' = Inr ()"
    "NodeAddress (mimir_node ''A'') = ''A''"
    by (simp_all add: lone_validator_def ListActiveValidators_def ListValidatorsByStatus_def mimir_node_def NewNodeAccount_def UpdateStatus_def
        signedByActiveNodeAccount_def GetNodeAccount_def kv_get_def key NodeAccount_IsEmpty_def)
qed

lemma demo_proposed:
  "ProposeUpgrade_validate (\<lambda>_. True) mimir_ctx lone_validator demo_upgrade = Inr ()"
  "\<exists>s'. ProposeUpgrade_handle (\<lambda>_. True) lone_validator demo_upgrade = Inr s' \<and> ugPlan s' = Some \<lparr>plName = ''3.2.0'', plHeight = 50, plInfo = ''i''\<rparr>"
proof -
  have start: "ugProposals lone_validator = []" "ugVotes lone_validator = (\<lambda>_. [])" "ugPlan lone_validator = None" by (simp_all add: lone_validator_def)
  show "ProposeUpgrade_validate (\<lambda>_. True) mimir_ctx lone_validator demo_upgrade = Inr ()"
    using lone_active(2) start by (simp add: ProposeUpgrade_validate_def MsgProposeUpgrade_ValidateBasic_def demo_upgrade_def guard_err_def
        GetProposedUpgrade_def mimir_ctx_def)
  show "\<exists>s'. ProposeUpgrade_handle (\<lambda>_. True) lone_validator demo_upgrade = Inr s' \<and> ugPlan s' = Some \<lparr>plName = ''3.2.0'', plHeight = 50, plInfo = ''i''\<rparr>"
    using lone_active(1,3) start by (simp add: ProposeUpgrade_handle_def demo_upgrade_def ProposeUpgrade_def ApproveUpgrade_def put_vote_def
        scheduleUpgradeIfNecessary_def GetProposedUpgrade_def UpgradeApprovedByMajority_def ScheduleUpgrade_def Let_def)
qed

theorem upgrade_needs_two_thirds_witness:
  "\<exists>s'. ProposeUpgrade_handle (\<lambda>_. True) lone_validator demo_upgrade = Inr s' \<and> supported s' ''3.2.0''"
proof -
  obtain s' where s': "ProposeUpgrade_handle (\<lambda>_. True) lone_validator demo_upgrade = Inr s'" "ugPlan s' = Some \<lparr>plName = ''3.2.0'', plHeight = 50, plInfo = ''i''\<rparr>"
    using demo_proposed(2) by blast
  have "upgrade_run (\<lambda>_. True) (\<lambda>_. True) lone_validator" by (rule upgrade_run.start) (simp_all add: lone_validator_def)
  moreover have "upgrade_step (\<lambda>_. True) (\<lambda>_. True) lone_validator s'" using demo_proposed(1) s'(1) by (rule upgrade_step.propose)
  ultimately have "supported s' ''3.2.0''"
    using upgrade_needs_two_thirds [of "\<lambda>_. True" "\<lambda>_. True" lone_validator s' "\<lparr>plName = ''3.2.0'', plHeight = 50, plInfo = ''i''\<rparr>"] s'(2)
    by (simp add: lone_validator_def)
  with s'(1) show ?thesis by blast
qed

end
