(* ===== verification/Slashing.thy ===== *)
theory Slashing
  imports Bonding Vote_Records
begin

text \<open>
  The slasher, \<^verbatim>\<open>src/x/switchly/manager_slasher_current.go\<close>: slash points for double and missing signatures of
  blocks, and the slash of the bonds of a vault's members for funds the vault lost. The votes and the evidence of the
  block come from the consensus engine; \<open>cons_addr\<close> decodes a consensus key to its address.

  \<open>paying_bank\<close> extends the laws of the bank: a module that has the funds can pay.
\<close>

section \<open>Signatures of blocks\<close>

definition or_else :: "'a \<Rightarrow> 'a res \<Rightarrow> 'a" where
  "or_else d r = (case r of Inr x \<Rightarrow> x | Inl _ \<Rightarrow> d)"

type_synonym validator_pairs = "(acc \<times> string) list"

definition validator_addresses :: "(string \<Rightarrow> string option) \<Rightarrow> node_account list \<Rightarrow> validator_pairs" where
  "validator_addresses cons_addr nas =
     concat (map (\<lambda>na. case cons_addr (ValidatorConsPubKey na) of None \<Rightarrow> [] | Some v \<Rightarrow> [(NodeAddress na, v)]) nas)"

definition with_signer ::
  "ctx \<Rightarrow> mimir_state \<Rightarrow> validator_pairs \<Rightarrow> string \<Rightarrow> (node_account \<Rightarrow> mimir_state) \<Rightarrow> mimir_state res" where
  "with_signer c n pairs addr f =
     (case find (\<lambda>(_, v). v = addr) pairs of
        None \<Rightarrow> Inl (Err ''could not find active node account with validator address'')
      | Some (a, _) \<Rightarrow> res_map f (GetNodeAccount c n a))"

definition HandleDoubleSign :: "ctx \<Rightarrow> mimir_state \<Rightarrow> validator_pairs \<Rightarrow> string \<Rightarrow> int \<Rightarrow> mimir_state res" where
  "HandleDoubleSign c n pairs addr height =
     (if i64 (BlockHeight c - height) > GetInt64Value (cBuild c) ''DoubleSignMaxAge'' then Inr n
      else let pts = GetConfigInt64 c (msKeeper n) ''DoubleBlockSignSlashPoints'' in
        with_signer c n pairs addr (\<lambda>na.
          SetNodeAccount c (or_else n (IncNodeAccountSlashPoints n (NodeAddress na) pts)) na))"

definition HandleSuccessfulSign :: "ctx \<Rightarrow> mimir_state \<Rightarrow> validator_pairs \<Rightarrow> string \<Rightarrow> mimir_state res" where
  "HandleSuccessfulSign c n pairs addr =
     with_signer c n pairs addr (\<lambda>na.
       if MissingBlocks na = 0 then n else SetNodeAccount c n (na\<lparr>MissingBlocks := MissingBlocks na - 1\<rparr>))"

definition HandleMissingSign :: "ctx \<Rightarrow> mimir_state \<Rightarrow> validator_pairs \<Rightarrow> string \<Rightarrow> mimir_state res" where
  "HandleMissingSign c n pairs addr =
     (let pts = GetConfigInt64 c (msKeeper n) ''MissBlockSignSlashPoints'';
          maxTrack = (word_of_int (GetConfigInt64 c (msKeeper n) ''MaxTrackMissingBlock'') :: 64 word)
      in with_signer c n pairs addr (\<lambda>na.
        let missing = MissingBlocks na + 1 in
        SetNodeAccount c (or_else n (IncNodeAccountSlashPoints n (NodeAddress na) pts))
          (na\<lparr>MissingBlocks := if missing > maxTrack then maxTrack else missing\<rparr>)))"

text \<open>Evidence is a list of addresses and heights of duplicate votes; a vote is an address and whether it signed.\<close>

definition Slasher_BeginBlock ::
  "(string \<Rightarrow> string option) \<Rightarrow> ctx \<Rightarrow> (string \<times> int) list \<Rightarrow> (string \<times> bool) list \<Rightarrow> mimir_state \<Rightarrow> mimir_state" where
  "Slasher_BeginBlock cons_addr c evidence votes n =
     (let missing = map fst (filter (\<lambda>v. \<not> snd v) votes); signed = map fst (filter snd votes) in
      if evidence = [] \<and> missing = [] then n
      else case ListActiveValidators n of
        Inl _ \<Rightarrow> n
      | Inr nas \<Rightarrow>
          let pairs = validator_addresses cons_addr nas;
              n1 = fold (\<lambda>(a, h) m. or_else m (HandleDoubleSign c m pairs a h)) evidence n;
              n2 = fold (\<lambda>a m. or_else m (HandleMissingSign c m pairs a)) missing n1
          in fold (\<lambda>a m. or_else m (HandleSuccessfulSign c m pairs a)) signed n2)"

definition IncSlashPoints :: "mimir_state \<Rightarrow> int \<Rightarrow> acc list \<Rightarrow> mimir_state" where
  "IncSlashPoints n pts as = fold (\<lambda>a m. or_else m (IncNodeAccountSlashPoints m a pts)) as n"

definition DecSlashPoints :: "mimir_state \<Rightarrow> int \<Rightarrow> acc list \<Rightarrow> mimir_state" where
  "DecSlashPoints n pts as = fold (\<lambda>a m. or_else m (DecNodeAccountSlashPoints m a pts)) as n"

section \<open>Slashing the members of a vault\<close>

definition put_keeper :: "'b bond_state \<Rightarrow> kstore \<Rightarrow> 'b bond_state" where
  "put_keeper s k = put_nodes s ((bsNode s)\<lparr>msKeeper := k\<rparr>)"

definition slashAndUpdateNodeAccount ::
  "dec_lib \<Rightarrow> ctx \<Rightarrow> 'b bond_state \<Rightarrow> node_account \<Rightarrow> uint \<Rightarrow> uint \<Rightarrow> 'b bond_state \<times> uint" where
  "slashAndUpdateNodeAccount D c s na totalBond totalSlash =
     (let share = GetSafeShare D (naBond na) totalBond totalSlash;
          amt = (if share > naBond na then naBond na else share)
      in (put_nodes s (SetNodeAccount c (bsNode s) (na\<lparr>naBond := SafeSub (naBond na) amt\<rparr>)), amt))"

definition slash_member ::
  "dec_lib \<Rightarrow> key_lib \<Rightarrow> ctx \<Rightarrow> uint \<Rightarrow> uint \<Rightarrow> pubkey \<Rightarrow> 'b bond_state \<times> uint \<Rightarrow> ('b bond_state \<times> uint) res" where
  "slash_member D K c totalBond totalSlash pk sa =
     (case GetNodeAccountByPubKey K c (bsNode (fst sa)) pk of
        Inl _ \<Rightarrow> Inr sa
      | Inr na \<Rightarrow> if naBond na = 0 then Inr sa
          else let (s', amt) = slashAndUpdateNodeAccount D c (fst sa) na totalBond totalSlash
            in res_map (\<lambda>slashed. (s', slashed)) (uint_add (snd sa) amt))"

definition total_bond :: "key_lib \<Rightarrow> ctx \<Rightarrow> mimir_state \<Rightarrow> pubkey list \<Rightarrow> uint res" where
  "total_bond K c n members =
     res_fold (\<lambda>pk acc. case GetNodeAccountByPubKey K c n pk of Inl _ \<Rightarrow> Inr acc | Inr na \<Rightarrow> uint_add acc (naBond na)) members 0"

text \<open>A transfer whose error is only logged.\<close>

definition try_send :: "'b bank_lib \<Rightarrow> 'b bond_state \<Rightarrow> string \<Rightarrow> uint \<Rightarrow> 'b bond_state res" where
  "try_send B s m amt =
     (if amt = 0 then Inr s
      else case SendFromModuleToModule B (bsBank s) BondName m (NewCoin SwitchNative amt) of
        Inr b \<Rightarrow> Inr (s\<lparr>bsBank := b\<rparr>) | Inl (Err _) \<Rightarrow> Inr s | Inl (Panic e) \<Rightarrow> Inl (Panic e))"

text \<open>The amounts of the event are converted to 64 bits, which panics above.\<close>

definition updatePoolFromSlash :: "'b bond_state \<Rightarrow> pool \<Rightarrow> uint \<Rightarrow> uint \<Rightarrow> 'b bond_state res" where
  "updatePoolFromSlash s p stolen credit =
     res_bind (uint_add (BalanceSwitch p) credit) (\<lambda>bal.
       let s' = (case SetPool (bsKeeper s) (p\<lparr>BalanceAsset := SafeSub (BalanceAsset p) stolen, BalanceSwitch := bal\<rparr>) of
                   Inl _ \<Rightarrow> s | Inr k \<Rightarrow> put_keeper s k)
       in if stolen \<ge> 2 ^ 64 \<or> credit \<ge> 2 ^ 64 then Inl (Panic ''Uint64() out of bounds'') else Inr s')"

definition stolen_amount :: "vault \<Rightarrow> pool \<Rightarrow> coin \<Rightarrow> uint" where
  "stolen_amount v p co =
     (let held = cAmount (Vault_GetCoin v (cAsset co));
          x = (if cAmount co > held then held else cAmount co)
      in if x > BalanceAsset p then BalanceAsset p else x)"

definition pause_on_slash :: "ctx \<Rightarrow> 'b bond_state \<Rightarrow> coin \<Rightarrow> uint \<Rightarrow> 'b bond_state" where
  "pause_on_slash c s co penalty =
     (let threshold = GetConfigInt64 c (bsKeeper s) ''PauseOnSlashThreshold'' in
      if threshold > 0 \<and> penalty \<ge> uint64_of threshold
      then put_keeper s (SetMimir (bsKeeper s) (''Halt'' @ Chain_String (aChain (cAsset co)) @ ''Chain'') (BlockHeight c))
      else s)"

text \<open>The value of the loss goes to the pool, what was slashed beyond it to the reserve.\<close>

definition settle_slash :: "'b bank_lib \<Rightarrow> 'b bond_state \<Rightarrow> pool \<Rightarrow> uint \<Rightarrow> uint \<Rightarrow> uint \<Rightarrow> 'b bond_state res" where
  "settle_slash B s p stolen val slashed =
     (let toAsgard = (if slashed < val then slashed else val); toReserve = SafeSub slashed toAsgard in
      res_bind (try_send B s ReserveName toReserve) (\<lambda>s2.
        if toAsgard = 0 then Inr s2
        else res_bind (try_send B s2 AsgardName toAsgard) (\<lambda>s3. updatePoolFromSlash s3 p stolen toAsgard)))"

definition slash_coin ::
  "dec_lib \<Rightarrow> key_lib \<Rightarrow> 'b bank_lib \<Rightarrow> ctx \<Rightarrow> vault \<Rightarrow> uint \<Rightarrow> coin \<Rightarrow> 'b bond_state \<Rightarrow> 'b bond_state res" where
  "slash_coin D K B c v totalBond co s =
     (if Coin_IsEmpty co then Inr s
      else case GetPool (bsKeeper s) (cAsset co) of
        Inl _ \<Rightarrow> Inr s
      | Inr p \<Rightarrow>
          if Pool_IsEmpty p then Inr s
          else let stolen = stolen_amount v p co; val = AssetValueInSWITCH D p stolen in
            if val = 0 then Inr s
            else let penalty = GetUncappedShare D (uint64_of (GetConfigInt64 c (bsKeeper s) ''SlashPenalty'')) 10000 val in
              res_bind (res_fold (slash_member D K c totalBond penalty) (GetMembership K v) (pause_on_slash c s co penalty, 0))
                (\<lambda>(s1, slashed). settle_slash B s1 p stolen val slashed))"

definition SlashVault ::
  "dec_lib \<Rightarrow> key_lib \<Rightarrow> 'b bank_lib \<Rightarrow> ctx \<Rightarrow> 'b bond_state \<Rightarrow> pubkey \<Rightarrow> coins \<Rightarrow> 'b bond_state res" where
  "SlashVault D K B c s pk cs =
     (if Coins_IsEmpty cs then Inr s
      else res_bind (GetVault c (bsVault s) pk) (\<lambda>v.
        res_bind (total_bond K c (bsNode s) (GetMembership K v)) (\<lambda>tb. res_fold (slash_coin D K B c v tb) cs s)))"

section \<open>What a slash moves\<close>

locale paying_bank = bank_laws +
  assumes module_can_pay: "n \<le> bank_balance B b (bank_module B m) d \<Longrightarrow> \<exists>b'. bank_send B b (bank_module B m) to d n = Inr b'"

interpretation plain_payer: paying_bank plain_bank
  by unfold_locales (auto simp: plain_bank_def Let_def split: prod.splits)

lemma put_keeper_frames [simp]:
  "bsKeeper (put_keeper s k) = k" "bsBank (put_keeper s k) = bsBank s" "msNodes (bsNode (put_keeper s k)) = msNodes (bsNode s)"
  "module_funds B (put_keeper s k) = module_funds B s"
  by (simp_all add: put_keeper_def)

lemma SetNodeAccount_keeper [simp]: "msKeeper (SetNodeAccount c n na) = msKeeper n"
  by (simp add: SetNodeAccount_def Let_def ResetNodeAccountSlashPoints_def)

lemma nodes_frames:
  "msNodes n = msNodes n' \<Longrightarrow> nodes_ok n = nodes_ok n'" "msNodes n = msNodes n' \<Longrightarrow> bonded n = bonded n'"
  by (simp_all add: nodes_ok_def bonded_def)

lemma slash_member_takes:
  assumes ok: "nodes_ok (bsNode s)" and run: "slash_member D K c tb pen pk (s, a) = Inr (s', a')"
  shows "nodes_ok (bsNode s') \<and> bsBank s' = bsBank s \<and> bsKeeper s' = bsKeeper s \<and> bonded (bsNode s') + a' = bonded (bsNode s) + a"
proof (cases "GetNodeAccountByPubKey K c (bsNode s) pk")
  case (Inl e)
  then show ?thesis using run ok by (simp add: slash_member_def)
next
  case (Inr na)
  show ?thesis
  proof (cases "naBond na = 0")
    case True
    then show ?thesis using run ok Inr by (simp add: slash_member_def)
  next
    case False
    define amt where "amt = (if GetSafeShare D (naBond na) tb pen > naBond na then naBond na else GetSafeShare D (naBond na) tb pen)"
    from Inr obtain addr where "GetNodeAccount c (bsNode s) addr = Inr na" by (auto simp: GetNodeAccountByPubKey_def split: option.splits)
    then have cur: "current (bsNode s) na" by (rule GetNodeAccount_current [OF ok])
    have le: "amt \<le> naBond na" by (simp add: amt_def)
    have s': "s' = put_nodes s (SetNodeAccount c (bsNode s) (na\<lparr>naBond := naBond na - amt\<rparr>))" "a' = a + amt"
      using run Inr False by (auto simp: slash_member_def slashAndUpdateNodeAccount_def Let_def amt_def res_simps uint_add_def uint_chk_def split: if_splits)
    have "\<not> NodeAccount_IsEmpty na" using cur False by (auto simp: current_def)
    then have "bonded (bsNode s') + amt = bonded (bsNode s)"
      using bonded_set [OF cur, of "na\<lparr>naBond := naBond na - amt\<rparr>" c] le by (simp add: s' NodeAccount_IsEmpty_def)
    then show ?thesis using ok by (simp add: s' nodes_ok_set)
  qed
qed

lemma slash_members_take:
  assumes "nodes_ok (bsNode s)" and "res_fold (slash_member D K c tb pen) pks (s, a) = Inr (s', a')"
  shows "nodes_ok (bsNode s') \<and> bsBank s' = bsBank s \<and> bsKeeper s' = bsKeeper s \<and> bonded (bsNode s') + a' = bonded (bsNode s) + a"
  using assms
proof (induction pks arbitrary: s a)
  case (Cons pk pks)
  from Cons.prems(2) obtain s1 a1 where "slash_member D K c tb pen pk (s, a) = Inr (s1, a1)" "res_fold (slash_member D K c tb pen) pks (s1, a1) = Inr (s', a')"
    by (auto simp: res_simps)
  with Cons.IH [of s1 a1] slash_member_takes [OF Cons.prems(1)] show ?case by force
qed simp

definition funds :: "'b bank_lib \<Rightarrow> 'b bond_state \<Rightarrow> string \<Rightarrow> nat" where
  "funds B s m = GetSWITCHBalanceOfModule B (bsBank s) m"

definition apart :: "'b bank_lib \<Rightarrow> bool" where
  "apart B \<longleftrightarrow> distinct (map (bank_module B) [BondName, ReserveName, AsgardName])"

lemma try_send_settles:
  assumes "bank_laws B" and "try_send B s m amt = Inr s'"
  shows "bsVault s' = bsVault s \<and> module_funds B s \<le> module_funds B s' + amt"
proof (cases "amt = 0")
  case True
  then show ?thesis using assms(2) by (simp add: try_send_def)
next
  case False
  show ?thesis
  proof (cases "SendFromModuleToModule B (bsBank s) BondName m (NewCoin SwitchNative amt)")
    case (Inr b)
    then have "s' = s\<lparr>bsBank := b\<rparr>" using assms(2) False by (simp add: try_send_def)
    moreover have "module_funds B s \<le> module_funds B (s\<lparr>bsBank := b\<rparr>) + amt"
      using bank_laws.balance_of_sender(2) [OF assms(1)] Inr by (simp add: module_funds_def transfer_defs NewCoin_def)
    ultimately show ?thesis by simp
  next
    case (Inl e)
    then show ?thesis using assms(2) False by (cases e) (auto simp: try_send_def)
  qed
qed

lemma try_send_pays:
  assumes bank: "paying_bank B" and dist: "bank_module B m \<noteq> bank_module B BondName" and enough: "amt \<le> module_funds B s"
    and run: "try_send B s m amt = Inr s'"
  shows "funds B s' m = funds B s m + amt \<and> module_funds B s' + amt = module_funds B s
    \<and> (\<forall>m'. bank_module B m' \<noteq> bank_module B m \<and> bank_module B m' \<noteq> bank_module B BondName \<longrightarrow> funds B s' m' = funds B s m')"
proof (cases "amt = 0")
  case True
  then show ?thesis using run by (simp add: try_send_def)
next
  case False
  have "amt \<le> bank_balance B (bsBank s) (bank_module B BondName) (Asset_Native SwitchNative)"
    using enough by (simp add: module_funds_def transfer_defs)
  from paying_bank.module_can_pay [OF bank this] obtain b
    where b: "bank_send B (bsBank s) (bank_module B BondName) (bank_module B m) (Asset_Native SwitchNative) amt = Inr b" by blast
  then have s': "s' = s\<lparr>bsBank := b\<rparr>" using run False by (simp add: try_send_def SendFromModuleToModule_def NewCoin_def)
  have laws: "bank_laws B" by (rule paying_bank.axioms(1) [OF bank])
  have after: "bank_balance B b a (Asset_Native SwitchNative) = bank_balance B (bsBank s) a (Asset_Native SwitchNative)
      + (if a = bank_module B m then amt else 0) - (if a = bank_module B BondName then amt else 0)" for a
    by (rule bank_laws.balance_after_send [OF laws b])
  show ?thesis using dist enough by (simp add: s' funds_def module_funds_def transfer_defs after)
qed

section \<open>The accounts after a slash\<close>

definition pool_funds :: "'b bond_state \<Rightarrow> nat" where
  "pool_funds s = kv_total BalanceSwitch (kPools (bsKeeper s))"

definition pools_keyed :: "kstore \<Rightarrow> bool" where
  "pools_keyed k \<longleftrightarrow> finite (dom (kPools k)) \<and> (\<forall>x p. kPools k x = Some (Stored p) \<longrightarrow> x = kv_key (Asset_String (pAsset p)))"

definition put_pool :: "kstore \<Rightarrow> pool \<Rightarrow> kstore" where
  "put_pool k p = k\<lparr>kPools := kv_set (kPools k) (kv_key (Asset_String (pAsset p))) p\<rparr>"

interpretation pool_store: record_store kPools put_pool "\<lambda>p. kv_key (Asset_String (pAsset p))"
  by unfold_locales (simp add: put_pool_def kv_set_def)

definition conserves :: "'b bank_lib \<Rightarrow> 'b bond_state \<Rightarrow> 'b bond_state \<Rightarrow> bool" where
  "conserves B s s' \<longleftrightarrow>
     bonded (bsNode s') + funds B s' ReserveName + funds B s' AsgardName = bonded (bsNode s) + funds B s ReserveName + funds B s AsgardName
     \<and> pool_funds s' + funds B s AsgardName = pool_funds s + funds B s' AsgardName"

definition slash_ok :: "'b bank_lib \<Rightarrow> 'b bond_state \<Rightarrow> bool" where
  "slash_ok B s \<longleftrightarrow> backed B s \<and> pools_keyed (bsKeeper s)"

lemma conserves_refl: "conserves B s s" by (simp add: conserves_def)

lemma conserves_trans: "conserves B s s1 \<Longrightarrow> conserves B s1 s2 \<Longrightarrow> conserves B s s2"
  unfolding conserves_def by linarith

lemma read_pool_keyed:
  assumes "pools_keyed k" and "GetPool k a = Inr p" and "\<not> Pool_IsEmpty p"
  shows "kPools k (kv_key (Asset_String (pAsset p))) = Some (Stored p)"
proof (cases "kPools k (kv_key (Asset_String a))")
  case None
  then have "p = NewPool" using assms(2) by (simp add: GetPool_def kv_get_def)
  moreover have "Pool_IsEmpty NewPool" by code_simp
  ultimately have "Pool_IsEmpty p" by simp
  with assms(3) show ?thesis by simp
next
  case (Some sl)
  then show ?thesis using assms(1,2) by (cases sl) (auto simp: GetPool_def kv_get_def pools_keyed_def)
qed

lemma pool_credited:
  assumes "pools_keyed (bsKeeper s)" and "kPools (bsKeeper s) (kv_key (Asset_String (pAsset p))) = Some (Stored p)" and "\<not> Pool_IsEmpty p"
    and "updatePoolFromSlash s p stolen credit = Inr s'"
  shows "pools_keyed (bsKeeper s') \<and> pool_funds s' = pool_funds s + credit \<and> bsBank s' = bsBank s \<and> msNodes (bsNode s') = msNodes (bsNode s)"
proof -
  let ?p' = "p\<lparr>BalanceAsset := SafeSub (BalanceAsset p) stolen, BalanceSwitch := BalanceSwitch p + credit\<rparr>"
  have s': "s' = put_keeper s (put_pool (bsKeeper s) ?p')"
    using assms(3,4) by (auto simp: updatePoolFromSlash_def Let_def uint_add_def uint_chk_def SetPool_def Pool_IsEmpty_def put_pool_def split: if_splits)
  have "kv_total BalanceSwitch (kPools (put_pool (bsKeeper s) ?p')) + BalanceSwitch p = kv_total BalanceSwitch (kPools (bsKeeper s)) + (BalanceSwitch p + credit)"
    using pool_store.total_put [of "bsKeeper s" BalanceSwitch ?p'] assms(1,2) by (simp add: pools_keyed_def)
  moreover have "pools_keyed (put_pool (bsKeeper s) ?p')"
    using assms(1) by (auto simp: pools_keyed_def put_pool_def kv_set_def)
  ultimately show ?thesis by (simp add: s' pool_funds_def)
qed

text \<open>One coin: the bonds are lowered by what leaves the bond module.\<close>

lemma slash_coin_cases:
  assumes "slash_coin D K B c v tb co s = Inr s'"
  shows "s' = s \<or> (\<exists>p pen s1 slashed stolen val.
     GetPool (bsKeeper s) (cAsset co) = Inr p \<and> \<not> Pool_IsEmpty p
     \<and> res_fold (slash_member D K c tb pen) (GetMembership K v) (pause_on_slash c s co pen, 0) = Inr (s1, slashed)
     \<and> settle_slash B s1 p stolen val slashed = Inr s')"
proof (cases "Coin_IsEmpty co")
  case False
  show ?thesis
  proof (cases "GetPool (bsKeeper s) (cAsset co)")
    case (Inr p)
    define val where "val = AssetValueInSWITCH D p (stolen_amount v p co)"
    show ?thesis
    proof (cases "Pool_IsEmpty p \<or> val = 0")
      case True
      then have "slash_coin D K B c v tb co s = Inr s"
        using False Inr by (cases "Pool_IsEmpty p") (simp_all add: slash_coin_def val_def Let_def)
      then show ?thesis using assms by simp
    next
      case go: False
      with assms False Inr show ?thesis by (simp add: slash_coin_def val_def [symmetric] Let_def res_bind_Inr) blast
    qed
  qed (use assms False in \<open>simp add: slash_coin_def\<close>)
qed (use assms in \<open>simp add: slash_coin_def\<close>)

lemma settle_slash_cases:
  assumes "settle_slash B s p stolen val slashed = Inr s'"
  shows "\<exists>toAsgard s2. toAsgard \<le> slashed \<and> try_send B s ReserveName (slashed - toAsgard) = Inr s2
     \<and> (if toAsgard = 0 then s' = s2 else \<exists>s3. try_send B s2 AsgardName toAsgard = Inr s3 \<and> updatePoolFromSlash s3 p stolen toAsgard = Inr s')"
proof -
  define a where "a = (if slashed < val then slashed else val)"
  have "a \<le> slashed" by (simp add: a_def)
  moreover obtain s2 where "try_send B s ReserveName (slashed - a) = Inr s2"
    "if a = 0 then s' = s2 else \<exists>s3. try_send B s2 AsgardName a = Inr s3 \<and> updatePoolFromSlash s3 p stolen a = Inr s'"
    using assms unfolding settle_slash_def Let_def a_def [symmetric] by (cases "a = 0") (auto simp: res_simps)
  ultimately show ?thesis by blast
qed

lemma pause_frames:
  "bsBank (pause_on_slash c s co pen) = bsBank s" "msNodes (bsNode (pause_on_slash c s co pen)) = msNodes (bsNode s)"
  "kPools (bsKeeper (pause_on_slash c s co pen)) = kPools (bsKeeper s)"
  by (simp_all add: pause_on_slash_def Let_def SetMimir_def)

lemma slash_coin_conserves:
  assumes bank: "paying_bank B" and dist: "apart B" and ok: "slash_ok B s" and run: "slash_coin D K B c v tb co s = Inr s'"
  shows "slash_ok B s' \<and> conserves B s s'"
  using slash_coin_cases [OF run]
proof (elim disjE exE conjE)
  assume "s' = s"
  then show ?thesis using ok by (simp add: conserves_refl)
next
  fix p pen s1 slashed stolen val
  assume p: "GetPool (bsKeeper s) (cAsset co) = Inr p" "\<not> Pool_IsEmpty p"
    and m: "res_fold (slash_member D K c tb pen) (GetMembership K v) (pause_on_slash c s co pen, 0) = Inr (s1, slashed)"
    and settle: "settle_slash B s1 p stolen val slashed = Inr s'"
  from settle_slash_cases [OF settle] obtain toAsgard s2 where le: "toAsgard \<le> slashed" and r: "try_send B s1 ReserveName (slashed - toAsgard) = Inr s2"
    and a: "if toAsgard = 0 then s' = s2 else \<exists>s3. try_send B s2 AsgardName toAsgard = Inr s3 \<and> updatePoolFromSlash s3 p stolen toAsgard = Inr s'"
    by blast
  have laws: "bank_laws B" by (rule paying_bank.axioms(1) [OF bank])
  have d: "bank_module B ReserveName \<noteq> bank_module B BondName" "bank_module B AsgardName \<noteq> bank_module B BondName"
    "bank_module B AsgardName \<noteq> bank_module B ReserveName" using dist by (auto simp: apart_def)
  have n0: "nodes_ok (bsNode (pause_on_slash c s co pen))" using ok by (simp add: slash_ok_def backed_def nodes_ok_def pause_frames)
  have "bonded (bsNode (pause_on_slash c s co pen)) = bonded (bsNode s)" by (simp add: bonded_def pause_frames)
  with slash_members_take [OF n0 m] have s1: "nodes_ok (bsNode s1)" "bsBank s1 = bsBank s" "kPools (bsKeeper s1) = kPools (bsKeeper s)" "bonded (bsNode s1) + slashed = bonded (bsNode s)"
    by (simp_all add: pause_frames)
  have f1: "funds B s1 x = funds B s x" "module_funds B s1 = module_funds B s" for x using s1(2) by (simp_all add: funds_def module_funds_def)
  have enough: "slashed \<le> module_funds B s1" using s1(4) ok f1(2) by (simp add: slash_ok_def backed_def)
  have v2: "bsVault s2 = bsVault s1" using try_send_settles [OF laws r] by simp
  from try_send_pays [OF bank d(1) _ r] enough d
  have s2: "funds B s2 ReserveName = funds B s1 ReserveName + (slashed - toAsgard)" "module_funds B s2 + (slashed - toAsgard) = module_funds B s1"
    "funds B s2 AsgardName = funds B s1 AsgardName" by auto
  have keyed: "pools_keyed (bsKeeper s2)" using ok s1(3) v2 by (simp add: slash_ok_def pools_keyed_def)
  have stored: "kPools (bsKeeper s2) (kv_key (Asset_String (pAsset p))) = Some (Stored p)"
    using read_pool_keyed [OF _ p] ok s1(3) v2 by (simp add: slash_ok_def)
  have pf2: "pool_funds s2 = pool_funds s" using s1(3) v2 by (simp add: pool_funds_def)
  show ?thesis
  proof (cases "toAsgard = 0")
    case True
    then have "s' = s2" using a by simp
    then show ?thesis using True s2 s1 v2 f1 keyed pf2 ok le by (auto simp: slash_ok_def backed_def conserves_def)
  next
    case False
    then obtain s3 where t: "try_send B s2 AsgardName toAsgard = Inr s3" and u: "updatePoolFromSlash s3 p stolen toAsgard = Inr s'" using a by auto
    have v3: "bsVault s3 = bsVault s2" using try_send_settles [OF laws t] by simp
    from try_send_pays [OF bank d(2) _ t] s2(2) enough le d
    have s3: "funds B s3 AsgardName = funds B s2 AsgardName + toAsgard" "module_funds B s3 + toAsgard = module_funds B s2" "funds B s3 ReserveName = funds B s2 ReserveName"
      by auto
    from pool_credited [OF _ _ p(2) u] keyed stored v3
    have s': "pools_keyed (bsKeeper s')" "pool_funds s' = pool_funds s3 + toAsgard" "bsBank s' = bsBank s3" "msNodes (bsNode s') = msNodes (bsNode s3)" by auto
    have f': "funds B s' x = funds B s3 x" "module_funds B s' = module_funds B s3" for x using s'(3) by (simp_all add: funds_def module_funds_def)
    have b': "bonded (bsNode s') = bonded (bsNode s1)" "nodes_ok (bsNode s')" using nodes_frames [OF s'(4)] v3 v2 s1(1) by simp_all
    have "pool_funds s3 = pool_funds s" using v3 pf2 by (simp add: pool_funds_def)
    then show ?thesis using s' s3 s2 s1(4) f1 f' b' ok le by (auto simp: slash_ok_def backed_def conserves_def)
  qed
qed

section \<open>Properties\<close>

text \<open>C6. Slashing a vault for lost coins keeps the books: what the bonds lose, the reserve and the asgard module receive; what
  the pools are credited with has arrived in the asgard module; and the bond module still holds all bonds.\<close>

theorem slash_vault_conserves:
  assumes "paying_bank B" and "apart B" and "backed B s" and "pools_keyed (bsKeeper s)"
    and "SlashVault D K B c s pk cs = Inr s'"
  shows "conserves B s s' \<and> backed B s'"
proof -
  have fold: "slash_ok B t' \<and> conserves B t t'" if "res_fold (slash_coin D K B c v tb) xs t = Inr t'" "slash_ok B t" for v tb xs t t'
    using that
  proof (induction xs arbitrary: t)
    case (Cons co xs)
    then obtain t1 where "slash_coin D K B c v tb co t = Inr t1" "res_fold (slash_coin D K B c v tb) xs t1 = Inr t'" by (auto simp: res_simps)
    with Cons slash_coin_conserves [OF assms(1,2) Cons.prems(2)] show ?case by (blast intro: conserves_trans)
  qed (simp add: conserves_refl)
  have "slash_ok B s" using assms(3,4) by (simp add: slash_ok_def)
  with assms(5) show ?thesis
    by (auto simp: SlashVault_def slash_ok_def conserves_refl res_simps split: if_splits dest!: fold)
qed

section \<open>A slash\<close>

definition slash_start :: "plain_bank bond_state" where
  "slash_start = \<lparr>bsVault = \<lparr>vsNode = \<lparr>msKeeper = empty_kstore\<lparr>kPools := [''BTC.BTC'' \<mapsto>
         Stored (NewPool\<lparr>BalanceSwitch := 100, BalanceAsset := 100, pAsset := BTCAsset\<rparr>)]\<rparr>, msVotes = Map.empty,
       msNodes = [(''N'', Stored (node_with ''n'' 3))], msSlashPoints = Map.empty\<rparr>,
       vsVaults = [(''PK'', Stored (demo_vault\<lparr>vtMembership := [''n''], vtCoins := [NewCoin BTCAsset 10]\<rparr>))], vsAsgard = Map.empty, vsTxOuts = Map.empty\<rparr>,
     bsProviders = Map.empty, bsJails = Map.empty, bsBank = bank_of 0 3 0\<rparr>"

lemma slash_shares:
  "GetUncappedShare legacy_dec 100 100 2 = 2" "GetUncappedShare legacy_dec 15000 10000 2 = 3" "GetUncappedShare legacy_dec 3 3 3 = 3"
  by (simp_all add: GetSafeShare_def GetUncappedShare_def uncapped_share_body_def legacy_eval uint_eval Let_def)

lemma slash_keys: "kv_key ''pk'' = ''PK''" "kv_key ''n'' = ''N''" "kv_key (Asset_String BTCAsset) = ''BTC.BTC''" "Asset_Equals BTCAsset BTCAsset"
  "\<not> Asset_IsEmpty BTCAsset" "parse_pubkeys plain_keys [''n''] = [''n'']"
  by code_simp+

lemma slash_constants: "map_of int64values ''SlashPenalty'' = Some 15000" "map_of int64values ''PauseOnSlashThreshold'' = Some 10000000000"
  by code_simp+

lemma slash_config: "GetConfigInt64 mimir_ctx k ''SlashPenalty'' = 15000" "GetConfigInt64 mimir_ctx k ''PauseOnSlashThreshold'' = 10000000000"
  if "kMimirs k = Map.empty" for k
  using that slash_constants by (simp_all add: GetConfigInt64_def GetMimir_def kv_get_def mimir_ctx_def GetInt64Value_def mainnet_overrides_def)

abbreviation slash_vault :: vault where
  "slash_vault \<equiv> demo_vault\<lparr>vtMembership := [''n''], vtCoins := [NewCoin BTCAsset 10]\<rparr>"

abbreviation slash_pool :: pool where
  "slash_pool \<equiv> NewPool\<lparr>BalanceSwitch := 100, BalanceAsset := 100, pAsset := BTCAsset\<rparr>"

definition slashed_node :: "plain_bank bond_state" where
  "slashed_node = put_nodes slash_start (SetNodeAccount mimir_ctx (bsNode slash_start) (node_with ''n'' 0))"

lemma slash_reads:
  "GetVault mimir_ctx (bsVault slash_start) ''pk'' = Inr slash_vault" "GetMembership plain_keys slash_vault = [''n'']"
  "GetPool (bsKeeper slash_start) BTCAsset = Inr slash_pool" "stolen_amount slash_vault slash_pool (NewCoin BTCAsset 2) = 2"
  "\<not> Pool_IsEmpty slash_pool" "AssetValueInSWITCH legacy_dec slash_pool 2 = 2"
  by (simp_all add: GetVault_def slash_start_def slash_keys demo_vault_def NewVault_def GetMembership_def GetPool_def kv_get_def
      stolen_amount_def Vault_GetCoin_def Let_def Pool_IsEmpty_def AssetValueInSWITCH_def slash_shares NewCoin_def)

lemma slash_node_read:
  "GetNodeAccountByPubKey plain_keys mimir_ctx (bsNode slash_start) ''n'' = Inr (node_with ''n'' 3)"
  by (simp add: GetNodeAccountByPubKey_def plain_keys_def GetNodeAccount_def kv_get_def slash_keys slash_start_def)

lemma slash_members_run:
  "total_bond plain_keys mimir_ctx (bsNode slash_start) [''n''] = Inr 3"
  "slash_member legacy_dec plain_keys mimir_ctx 3 3 ''n'' (slash_start, 0) = Inr (slashed_node, 3)"
proof -
  have bond: "naBond (node_with ''n'' 3) = 3" "(node_with ''n'' 3)\<lparr>naBond := 0\<rparr> = node_with ''n'' 0" by (simp_all add: node_with_def NewNodeAccount_def UpdateStatus_def)
  then show "total_bond plain_keys mimir_ctx (bsNode slash_start) [''n''] = Inr 3" by (simp add: total_bond_def slash_node_read uint_eval)
  show "slash_member legacy_dec plain_keys mimir_ctx 3 3 ''n'' (slash_start, 0) = Inr (slashed_node, 3)"
    using bond by (simp add: slash_member_def slash_node_read slashAndUpdateNodeAccount_def GetSafeShare_def slash_shares uint_eval Let_def slashed_node_def)
qed

lemma slash_settles: "\<exists>s'. settle_slash plain_bank slashed_node slash_pool 2 2 3 = Inr s' \<and> msNodes (bsNode s') = msNodes (bsNode slashed_node)"
proof -
  have bank: "bsBank slashed_node = bank_of 0 3 0" by (simp add: slashed_node_def slash_start_def)
  have name: "BondName = ''bond''" "ReserveName = ''reserve''" "AsgardName = ''asgard''" by (simp_all add: BondName_def ReserveName_def AsgardName_def)
  show ?thesis
    by (simp add: settle_slash_def try_send_def SendFromModuleToModule_def plain_bank_def bank bank_of_def name Let_def updatePoolFromSlash_def
        uint_eval SetPool_def slash_keys put_keeper_def)
qed

lemma slash_runs:
  "\<exists>s'. SlashVault legacy_dec plain_keys plain_bank mimir_ctx slash_start ''pk'' [NewCoin BTCAsset 2] = Inr s' \<and> msNodes (bsNode s') = msNodes (bsNode slashed_node)"
proof -
  have coin: "\<not> Coin_IsEmpty (NewCoin BTCAsset 2)" "\<not> Coins_IsEmpty [NewCoin BTCAsset 2]" by code_simp+
  have ca: "cAsset (NewCoin BTCAsset 2) = BTCAsset" by (simp add: NewCoin_def)
  have mim: "kMimirs (bsKeeper slash_start) = Map.empty" by (simp add: slash_start_def empty_kstore_def)
  have pen: "GetUncappedShare legacy_dec (uint64_of 15000) 10000 2 = 3" using slash_shares by (simp add: uint64_of_def)
  have "pause_on_slash mimir_ctx slash_start (NewCoin BTCAsset 2) 3 = slash_start"
    by (simp add: pause_on_slash_def slash_config(2) [OF mim] uint64_of_def Let_def)
  moreover obtain s' where "settle_slash plain_bank slashed_node slash_pool 2 2 3 = Inr s'" "msNodes (bsNode s') = msNodes (bsNode slashed_node)"
    using slash_settles by blast
  ultimately show ?thesis
    by (simp add: SlashVault_def coin ca slash_reads slash_members_run slash_coin_def Let_def slash_config(1) [OF mim] pen)
qed

theorem slash_vault_conserves_witness:
  "\<exists>s'. SlashVault legacy_dec plain_keys plain_bank mimir_ctx slash_start ''pk'' [NewCoin BTCAsset 2] = Inr s'
     \<and> conserves plain_bank slash_start s' \<and> bonded (bsNode slash_start) = 3 \<and> bonded (bsNode s') = 0"
proof -
  obtain s' where run: "SlashVault legacy_dec plain_keys plain_bank mimir_ctx slash_start ''pk'' [NewCoin BTCAsset 2] = Inr s'"
    and nodes: "msNodes (bsNode s') = msNodes (bsNode slashed_node)" using slash_runs by blast
  have ap: "apart plain_bank" by (simp add: apart_def plain_bank_def BondName_def ReserveName_def AsgardName_def)
  have "bonded (bsNode slash_start) = 3" and nok: "nodes_ok (bsNode slash_start)"
    by (simp_all add: bonded_def kv_total_def slash_start_def nodes_ok_def node_with_def NewNodeAccount_def UpdateStatus_def slash_keys NodeAccount_IsEmpty_def)
  moreover from this have "backed plain_bank slash_start"
    by (simp add: backed_def module_funds_def transfer_defs plain_bank_def slash_start_def bank_of_def BondName_def)
  moreover have "pools_keyed (bsKeeper slash_start)" using slash_keys by (simp add: pools_keyed_def slash_start_def)
  moreover have "bonded (bsNode s') = 0"
    using nodes by (simp add: bonded_def slashed_node_def slash_start_def SetNodeAccount_def node_with_def NewNodeAccount_def UpdateStatus_def
        NodeAccount_IsEmpty_def Let_def slash_keys kv_total_def)
  ultimately show ?thesis using slash_vault_conserves [OF plain_payer.paying_bank_axioms ap _ _ run] run by blast
qed

end
