(* ===== verification/Node_Versions.thy ===== *)
theory Node_Versions
  imports Slashing Decimal_Text
begin

text \<open>
  The versions of the nodes: the message and handler that set them (\<^verbatim>\<open>src/x/switchly/handler_version.go\<close>,
  \<^verbatim>\<open>types/msg_version.go\<close>), the version a node must have to join (\<^verbatim>\<open>keeper/v1/keeper_node_account.go\<close>) and its
  record (\<^verbatim>\<open>keeper/v1/keeper_version.go\<close>).

  Semantic versions belong to \<open>blang/semver\<close>: the record \<open>semver_lib\<close> with the laws of the locale \<open>semver_laws\<close>.
\<close>

section \<open>Semantic versions\<close>

record 'v semver_lib =
  sv_parse :: "string \<Rightarrow> 'v option"
  sv_string :: "'v \<Rightarrow> string"
  sv_lt :: "'v \<Rightarrow> 'v \<Rightarrow> bool"
  sv_zero :: 'v
  sv_plain :: "'v \<Rightarrow> bool"

definition sv_eq :: "'v semver_lib \<Rightarrow> 'v \<Rightarrow> 'v \<Rightarrow> bool" where
  "sv_eq S v w \<longleftrightarrow> \<not> sv_lt S v w \<and> \<not> sv_lt S w v"

text \<open>The comparison is a total order up to the build part, which it ignores; a version that was read is printed so that it is read back.\<close>

locale semver_laws =
  fixes S :: "'v semver_lib"
  assumes version_order: "weak_order (sv_lt S)"
    and print_parse: "sv_parse S t = Some v \<Longrightarrow> sv_parse S (sv_string S v) = Some v"
    and print_zero: "sv_parse S (sv_string S (sv_zero S)) = Some (sv_zero S)"
    and print_ne: "sv_string S v \<noteq> []"

definition GetVersion :: "'v semver_lib \<Rightarrow> node_account \<Rightarrow> 'v" where
  "GetVersion S na = (case sv_parse S (naVersion na) of None \<Rightarrow> sv_zero S | Some v \<Rightarrow> v)"

section \<open>The version to join\<close>

text \<open>The tally of versions: a version counts the nodes that have it or a later one.\<close>

definition count_version :: "'v semver_lib \<Rightarrow> node_account \<Rightarrow> ('v \<times> nat) list \<Rightarrow> ('v \<times> nat) list" where
  "count_version S na vc =
     map (\<lambda>(v, k). if \<not> sv_lt S (GetVersion S na) v then (v, Suc k) else (v, k))
       (if list_ex (\<lambda>(v, _). sv_string S v = naVersion na) vc then vc else vc @ [(GetVersion S na, 0)])"

definition version_counts :: "'v semver_lib \<Rightarrow> node_account list \<Rightarrow> ('v \<times> nat) list" where
  "version_counts S nodes =
     fold (count_version S) (sort_by (\<lambda>a b. sv_lt S (GetVersion S a) (GetVersion S b)) nodes) []"

definition GetMinJoinVersion :: "'v semver_lib \<Rightarrow> mimir_state \<Rightarrow> 'v" where
  "GetMinJoinVersion S n =
     (case ListActiveValidators n of
        Inl _ \<Rightarrow> sv_zero S
      | Inr nodes \<Rightarrow>
          fold (\<lambda>(v, k) best. if HasSuperMajority (int k) (int (length nodes)) \<and> sv_lt S best v then v else best)
            (sort_by (\<lambda>a b. sv_lt S (fst b) (fst a)) (version_counts S nodes)) (sv_zero S))"

text \<open>The version of the running software is an argument.\<close>

definition GetLowestActiveVersion :: "'v semver_lib \<Rightarrow> 'v \<Rightarrow> mimir_state \<Rightarrow> 'v" where
  "GetLowestActiveVersion S sw n =
     (case ListActiveValidators n of
        Inr (na # nas) \<Rightarrow>
          fold (\<lambda>na v. if sv_lt S (GetVersion S na) v then GetVersion S na else v) (na # nas) (GetVersion S na)
      | _ \<Rightarrow> sw)"

record min_join_last =
  mjLastChangedHeight :: int
  mjVersion :: string

definition getMinJoinLast :: "min_join_last slot option \<Rightarrow> min_join_last" where
  "getMinJoinLast sl = (case sl of Some (Stored r) \<Rightarrow> r | _ \<Rightarrow> \<lparr>mjLastChangedHeight = 0, mjVersion = ''''\<rparr>)"

definition GetMinJoinLast :: "'v semver_lib \<Rightarrow> mimir_state \<Rightarrow> min_join_last slot option \<Rightarrow> ('v \<times> int) res" where
  "GetMinJoinLast S n sl =
     (let r = getMinJoinLast sl in
      res_map (\<lambda>v. if sv_eq S v (sv_zero S) \<or> mjLastChangedHeight r \<le> 0 then (GetMinJoinVersion S n, 0) else (v, mjLastChangedHeight r))
        (if mjVersion r = '''' then Inr (sv_zero S)
         else case sv_parse S (mjVersion r) of None \<Rightarrow> Inl (Panic ''semver: Parse'') | Some v \<Rightarrow> Inr v))"

definition SetMinJoinLast ::
  "'v semver_lib \<Rightarrow> ctx \<Rightarrow> mimir_state \<Rightarrow> min_join_last slot option \<Rightarrow> min_join_last slot option res" where
  "SetMinJoinLast S c n sl =
     (let mv = GetMinJoinVersion S n in
      res_map (\<lambda>(v, h). if \<not> sv_eq S mv v \<or> h \<le> 0
          then Some (Stored \<lparr>mjLastChangedHeight = BlockHeight c, mjVersion = sv_string S mv\<rparr>) else sl)
        (GetMinJoinLast S n sl))"

section \<open>The handler\<close>

record msg_set_version =
  svVersion :: string
  svSigner :: acc

definition MsgSetVersion_ValidateBasic :: "'v semver_lib \<Rightarrow> msg_set_version \<Rightarrow> unit res" where
  "MsgSetVersion_ValidateBasic S m =
     (if svSigner m = [] then Inl (Err ''invalid address'')
      else guard_err (sv_parse S (svVersion m) = None) ''unknown request'')"

text \<open>The check that versions and IP addresses share: the signer is a validator.\<close>

definition validateVersionAuth :: "ctx \<Rightarrow> mimir_state \<Rightarrow> acc \<Rightarrow> unit res" where
  "validateVersionAuth c n signer =
     (case GetNodeAccount c n signer of
        Inl _ \<Rightarrow> Inl (Err ''not authorized'')
      | Inr na \<Rightarrow>
          if NodeAccount_IsEmpty na then Inl (Err ''not authorized'')
          else guard_err (naType na \<noteq> NodeType_TypeValidator) ''not authorized'')"

definition Version_validate :: "'v semver_lib \<Rightarrow> ctx \<Rightarrow> mimir_state \<Rightarrow> msg_set_version \<Rightarrow> unit res" where
  "Version_validate S c n m =
     (if \<not> cVersion3 c then Inl (Err ''bad version'')
      else res_bind (MsgSetVersion_ValidateBasic S m) (\<lambda>_.
        case sv_parse S (svVersion m) of
          None \<Rightarrow> Inl (Err ''invalid version'')
        | Some v \<Rightarrow> if \<not> sv_plain S v then Inl (Err ''Switchly doesn't use Pre/Build version'')
            else validateVersionAuth c n (svSigner m)))"

definition Version_handle ::
  "'v semver_lib \<Rightarrow> ctx \<Rightarrow> mimir_state \<Rightarrow> min_join_last slot option \<Rightarrow> msg_set_version \<Rightarrow> (mimir_state \<times> min_join_last slot option) res" where
  "Version_handle S c n sl m =
     (if \<not> cVersion3 c then Inl (Err ''bad version'')
      else case GetNodeAccount c n (svSigner m) of
        Inl _ \<Rightarrow> Inl (Err ''unable to find account'')
      | Inr na \<Rightarrow>
          (case sv_parse S (svVersion m) of
             None \<Rightarrow> Inl (Err ''fail to parse version'')
           | Some v \<Rightarrow>
               let na1 = (if sv_lt S (GetVersion S na) v then na\<lparr>naVersion := sv_string S v\<rparr> else na);
                   n1 = SetNodeAccount c n na1
               in if naStatus na1 = NodeStatus_Active then res_map (\<lambda>sl1. (n1, sl1)) (SetMinJoinLast S c n1 sl) else Inr (n1, sl)))"

section \<open>The tally is the support of each version\<close>

definition support :: "'v semver_lib \<Rightarrow> 'v \<Rightarrow> node_account list \<Rightarrow> nat" where
  "support S v nas = length (filter (\<lambda>na. \<not> sv_lt S (GetVersion S na) v) nas)"

text \<open>Every version of a node is tallied, once in full and perhaps again in part.\<close>

definition tallied :: "'v semver_lib \<Rightarrow> ('v \<times> nat) list \<Rightarrow> node_account list \<Rightarrow> bool" where
  "tallied S vc nas \<longleftrightarrow> (\<forall>(v, k) \<in> set vc. k \<le> support S v nas \<and> v \<in> GetVersion S ` set nas)
     \<and> (\<forall>na \<in> set nas. \<exists>(v, k) \<in> set vc. sv_eq S v (GetVersion S na) \<and> k = support S v nas)"

lemma support_snoc: "support S v (nas @ [na]) = (if sv_lt S (GetVersion S na) v then support S v nas else Suc (support S v nas))"
  by (simp add: support_def)

lemma support_le: "support S v nas \<le> length nas"
  by (simp add: support_def)

context semver_laws
begin

lemma lt_trans: "\<not> sv_lt S x y \<Longrightarrow> \<not> sv_lt S y z \<Longrightarrow> \<not> sv_lt S x z"
  using version_order unfolding weak_order_def by blast

lemma lt_asym: "sv_lt S x y \<Longrightarrow> \<not> sv_lt S y x" "\<not> sv_lt S x x"
  using version_order unfolding weak_order_def by blast+

lemma version_text: "sv_string S (GetVersion S x) = naVersion na \<Longrightarrow> GetVersion S na = GetVersion S x"
  using print_parse print_zero by (auto simp: GetVersion_def split: option.splits) (metis option.inject option.distinct(1))+

lemma tally_step:
  assumes inv: "tallied S vc nas" and upper: "\<forall>x \<in> set nas. \<not> sv_lt S (GetVersion S na) (GetVersion S x)"
  shows "tallied S (count_version S na vc) (nas @ [na])"
proof -
  define vc1 where "vc1 = (if list_ex (\<lambda>(v, _). sv_string S v = naVersion na) vc then vc else vc @ [(GetVersion S na, 0)])"
  define up where "up = (\<lambda>(v, k). if \<not> sv_lt S (GetVersion S na) v then (v, Suc k) else (v, k :: nat))"
  have set: "set (count_version S na vc) = up ` set vc1" by (simp add: count_version_def vc1_def up_def)
  have sub: "set vc \<subseteq> set vc1" by (auto simp: vc1_def)
  have low: "k \<le> support S v nas \<and> v \<in> GetVersion S ` set (nas @ [na])" if "(v, k) \<in> set vc1" for v k
    using that inv by (fastforce simp: vc1_def tallied_def split: if_splits)
  have 1: "\<forall>(v, k) \<in> set (count_version S na vc). k \<le> support S v (nas @ [na]) \<and> v \<in> GetVersion S ` set (nas @ [na])"
  proof (clarify, unfold set)
    fix v k assume "(v, k) \<in> up ` set vc1"
    then obtain j where "(v, j) \<in> set vc1" "k = (if sv_lt S (GetVersion S na) v then j else Suc j)"
      by (auto simp: up_def split: if_splits)
    with low [of v j] show "k \<le> support S v (nas @ [na]) \<and> v \<in> GetVersion S ` set (nas @ [na])" by (simp add: support_snoc)
  qed
  have step: "(v, support S v (nas @ [na])) \<in> set (count_version S na vc)" if "(v, support S v nas) \<in> set vc1" for v
    unfolding set by (rule image_eqI [OF _ that]) (simp add: up_def support_snoc)
  have 2: "\<exists>(v, k) \<in> set (count_version S na vc). sv_eq S v (GetVersion S x) \<and> k = support S v (nas @ [na])" if "x \<in> set (nas @ [na])" for x
  proof (cases "\<exists>y \<in> set nas. sv_eq S (GetVersion S y) (GetVersion S x)")
    case True
    then obtain y where y: "y \<in> set nas" "sv_eq S (GetVersion S y) (GetVersion S x)" by blast
    with inv obtain v where "(v, support S v nas) \<in> set vc1" "sv_eq S v (GetVersion S y)" using sub by (fastforce simp: tallied_def)
    with step [of v] y(2) show ?thesis by (intro bexI [of _ "(v, support S v (nas @ [na]))"]) (auto simp: sv_eq_def dest: lt_trans)
  next
    case False
    then have x: "x = na" using that by (auto simp: sv_eq_def lt_asym)
    have none: "support S (GetVersion S na) nas = 0"
      using False upper by (auto simp: support_def x sv_eq_def filter_empty_conv)
    have "\<not> list_ex (\<lambda>(v, _). sv_string S v = naVersion na) vc"
    proof
      assume "list_ex (\<lambda>(v, _). sv_string S v = naVersion na) vc"
      then obtain y where "y \<in> set nas" "sv_string S (GetVersion S y) = naVersion na" using inv by (fastforce simp: list_ex_iff tallied_def)
      with version_text have "GetVersion S y = GetVersion S na" by metis
      with False \<open>y \<in> set nas\<close> show False by (auto simp: x sv_eq_def lt_asym)
    qed
    then have "(GetVersion S na, support S (GetVersion S na) nas) \<in> set vc1" by (simp add: vc1_def none)
    from step [OF this] show ?thesis by (rule bexI [rotated]) (simp add: x sv_eq_def lt_asym)
  qed
  show ?thesis unfolding tallied_def using 1 2 by blast
qed

lemma tally_fold: "sorted_wrt (\<lambda>a b. \<not> sv_lt S (GetVersion S b) (GetVersion S a)) nas \<Longrightarrow> tallied S (fold (count_version S) nas []) nas"
  by (induction nas rule: rev_induct) (auto simp: sorted_wrt_append intro: tally_step, simp add: tallied_def)

lemma version_counts_support: "tallied S (version_counts S nodes) nodes"
proof -
  let ?lt = "\<lambda>a b. sv_lt S (GetVersion S a) (GetVersion S b)"
  have "weak_order ?lt" using version_order unfolding weak_order_def by blast
  then have "tallied S (version_counts S nodes) (sort_by ?lt nodes)"
    unfolding version_counts_def by (intro tally_fold sorted_sort_by)
  moreover have "support S v (sort_by ?lt nodes) = support S v nodes" for v
    unfolding support_def by (metis (lifting) mset_filter mset_sort_by size_mset)
  ultimately show ?thesis by (simp add: tallied_def)
qed

lemma best_fold:
  assumes "fold (\<lambda>(v, k) best. if P k \<and> sv_lt S best v then v else best) vc z = r"
  shows "(r = z \<or> (\<exists>k. (r, k) \<in> set vc \<and> P k)) \<and> (\<forall>(v, k) \<in> set vc. P k \<longrightarrow> \<not> sv_lt S r v) \<and> \<not> sv_lt S r z"
  using assms
proof (induction vc arbitrary: z)
  case (Cons e vc)
  obtain v k where e: "e = (v, k)" by fastforce
  define z' where "z' = (if P k \<and> sv_lt S z v then v else z)"
  have z': "\<not> sv_lt S z' z" "P k \<longrightarrow> \<not> sv_lt S z' v" "z' = z \<or> z' = v \<and> P k" by (auto simp: z'_def lt_asym)
  have "fold (\<lambda>(v, k) best. if P k \<and> sv_lt S best v then v else best) vc z' = r" using Cons.prems by (simp add: e z'_def)
  from Cons.IH [OF this] have IH: "r = z' \<or> (\<exists>k. (r, k) \<in> set vc \<and> P k)" "\<forall>(v, k) \<in> set vc. P k \<longrightarrow> \<not> sv_lt S r v" "\<not> sv_lt S r z'" by auto
  then show ?case using z' lt_trans [OF IH(3)] by (auto simp: e)
qed (simp add: lt_asym)

text \<open>What is written for the version to join is read back.\<close>

lemma min_join_fixed: "sv_parse S (sv_string S (GetMinJoinVersion S n)) = Some (GetMinJoinVersion S n)"
proof -
  have read: "sv_parse S (sv_string S (GetVersion S na)) = Some (GetVersion S na)" for na
    using print_parse print_zero by (auto simp: GetVersion_def split: option.splits)
  show ?thesis
  proof (cases "ListActiveValidators n")
    case (Inr nodes)
    have "fold (\<lambda>(v, k) best. if HasSuperMajority (int k) (int (length nodes)) \<and> sv_lt S best v then v else best)
        (sort_by (\<lambda>a b. sv_lt S (fst b) (fst a)) (version_counts S nodes)) (sv_zero S) = GetMinJoinVersion S n" by (simp add: GetMinJoinVersion_def Inr)
    from best_fold [OF this] have "GetMinJoinVersion S n = sv_zero S \<or> (\<exists>k. (GetMinJoinVersion S n, k) \<in> set (version_counts S nodes))" by auto
    with version_counts_support [of nodes] read print_zero show ?thesis by (fastforce simp: tallied_def)
  qed (simp add: GetMinJoinVersion_def print_zero)
qed

end
section \<open>Versions of three numbers\<close>

text \<open>The versions without pre-release and build parts, which are all that the handler accepts.\<close>

definition plain_version_text :: "nat \<times> nat \<times> nat \<Rightarrow> string" where
  "plain_version_text v = (case v of (a, b, c) \<Rightarrow> nat_str a @ ''.'' @ nat_str b @ ''.'' @ nat_str c)"

definition plain_version_parse :: "string \<Rightarrow> (nat \<times> nat \<times> nat) option" where
  "plain_version_parse t =
     (case map parse_uint64 (split_on CHR ''.'' t) of
        [Some a, Some b, Some c] \<Rightarrow> if plain_version_text (a, b, c) = t then Some (a, b, c) else None
      | _ \<Rightarrow> None)"

definition plain_semver :: "(nat \<times> nat \<times> nat) semver_lib" where
  "plain_semver = \<lparr>sv_parse = plain_version_parse, sv_string = plain_version_text,
     sv_lt = (\<lambda>(a, b, c) (a', b', c'). a < a' \<or> a = a' \<and> (b < b' \<or> b = b' \<and> c < c')),
     sv_zero = (0, 0, 0), sv_plain = (\<lambda>_. True)\<rparr>"

lemma plain_version_Some: "plain_version_parse t = Some v \<Longrightarrow> plain_version_text v = t"
  by (auto simp: plain_version_parse_def split: list.splits option.splits if_splits)

lemma plain_zero: "plain_version_parse (plain_version_text (0, 0, 0)) = Some (0, 0, 0)"
proof -
  have t: "plain_version_text (0, 0, 0) = ''0.0.0''" "nat_str 0 = ''0''" by code_simp+
  have "map parse_uint64 (split_on CHR ''.'' ''0.0.0'') = [Some 0, Some 0, Some 0]"
    using parse_uint64_nat_str [of 0] by (simp add: t)
  then show ?thesis by (simp add: plain_version_parse_def t)
qed

interpretation plain_versions: semver_laws plain_semver
proof
  show "weak_order (sv_lt plain_semver)" by (auto simp: weak_order_def plain_semver_def)
  show "sv_parse plain_semver (sv_string plain_semver v) = Some v" if "sv_parse plain_semver t = Some v" for t v
    using that plain_version_Some [of t v] by (simp add: plain_semver_def)
  show "sv_parse plain_semver (sv_string plain_semver (sv_zero plain_semver)) = Some (sv_zero plain_semver)"
    using plain_zero by (simp add: plain_semver_def)
  show "sv_string plain_semver v \<noteq> []" for v by (simp add: plain_semver_def plain_version_text_def split: prod.splits)
qed

section \<open>Properties\<close>

text \<open>C20. The version a node must have to join is the greatest one that two thirds of the active validators have or
  exceed: the zero version or the version of an active validator with such support, and no version of an active validator
  with such support is greater.\<close>

theorem min_join_version_best:
  assumes "semver_laws S" and "ListActiveValidators n = Inr nodes" and "length nodes < 2 ^ 61"
  shows "(GetMinJoinVersion S n = sv_zero S
      \<or> (\<exists>na \<in> set nodes. GetVersion S na = GetMinJoinVersion S n \<and> 2 * length nodes \<le> 3 * support S (GetMinJoinVersion S n) nodes))
    \<and> (\<forall>na \<in> set nodes. 2 * length nodes \<le> 3 * support S (GetVersion S na) nodes \<longrightarrow> \<not> sv_lt S (GetMinJoinVersion S n) (GetVersion S na))"
proof -
  let ?P = "\<lambda>k. HasSuperMajority (int k) (int (length nodes))"
  have P: "?P k \<longleftrightarrow> 0 < k \<and> k \<le> length nodes \<and> 2 * length nodes \<le> 3 * k" for k
    using assms(3) super_majority_iff [of "int (length nodes)" "int k"] by auto
  have tal: "tallied S (version_counts S nodes) nodes" by (rule semver_laws.version_counts_support [OF assms(1)])
  have "fold (\<lambda>(v, k) best. if ?P k \<and> sv_lt S best v then v else best)
      (sort_by (\<lambda>a b. sv_lt S (fst b) (fst a)) (version_counts S nodes)) (sv_zero S) = GetMinJoinVersion S n"
    by (simp add: GetMinJoinVersion_def assms(2))
  from semver_laws.best_fold [OF assms(1) this]
  have best: "GetMinJoinVersion S n = sv_zero S \<or> (\<exists>k. (GetMinJoinVersion S n, k) \<in> set (version_counts S nodes) \<and> ?P k)"
    "\<And>v k. (v, k) \<in> set (version_counts S nodes) \<Longrightarrow> ?P k \<Longrightarrow> \<not> sv_lt S (GetMinJoinVersion S n) v" by auto
  have 1: "\<exists>na \<in> set nodes. GetVersion S na = GetMinJoinVersion S n \<and> 2 * length nodes \<le> 3 * support S (GetMinJoinVersion S n) nodes"
    if "(GetMinJoinVersion S n, k) \<in> set (version_counts S nodes)" "?P k" for k
    using that tal P [of k] by (fastforce simp: tallied_def)
  have 2: "\<not> sv_lt S (GetMinJoinVersion S n) (GetVersion S na)" if na: "na \<in> set nodes" "2 * length nodes \<le> 3 * support S (GetVersion S na) nodes" for na
  proof -
    from tal na(1) obtain v where v: "(v, support S v nodes) \<in> set (version_counts S nodes)" "sv_eq S v (GetVersion S na)"
      by (fastforce simp: tallied_def)
    have "support S v nodes = support S (GetVersion S na) nodes"
      unfolding support_def using v(2) semver_laws.lt_trans [OF assms(1)] by (metis sv_eq_def)
    moreover have "0 < length nodes" using na(1) by (cases nodes) auto
    ultimately have "?P (support S v nodes)" using na(2) support_le [of S v nodes] by (auto simp: P intro: gr0I)
    with best(2) [OF v(1)] v(2) semver_laws.lt_trans [OF assms(1)] show ?thesis by (meson sv_eq_def)
  qed
  show ?thesis using best(1) 1 2 by blast
qed

text \<open>After an active validator sets its version, the recorded version to join is the computed one.\<close>

theorem min_join_last_tracks:
  assumes "semver_laws S" and "SetMinJoinLast S c n sl = Inr sl'"
  shows "\<exists>v h. GetMinJoinLast S n sl' = Inr (v, h) \<and> sv_eq S v (GetMinJoinVersion S n)"
proof -
  have refl: "sv_eq S v v" for v using semver_laws.lt_asym(2) [OF assms(1)] by (simp add: sv_eq_def)
  from assms(2) obtain v h where r: "GetMinJoinLast S n sl = Inr (v, h)"
    and sl': "sl' = (if \<not> sv_eq S (GetMinJoinVersion S n) v \<or> h \<le> 0
      then Some (Stored \<lparr>mjLastChangedHeight = BlockHeight c, mjVersion = sv_string S (GetMinJoinVersion S n)\<rparr>) else sl)"
    by (auto simp: SetMinJoinLast_def Let_def res_simps)
  show ?thesis
  proof (cases "\<not> sv_eq S (GetMinJoinVersion S n) v \<or> h \<le> 0")
    case True
    then have "GetMinJoinLast S n sl' = Inr (GetMinJoinVersion S n, if sv_eq S (GetMinJoinVersion S n) (sv_zero S) \<or> BlockHeight c \<le> 0 then 0 else BlockHeight c)"
      using semver_laws.min_join_fixed [OF assms(1)] semver_laws.print_ne [OF assms(1)]
      by (simp add: sl' GetMinJoinLast_def getMinJoinLast_def Let_def res_simps)
    with refl show ?thesis by blast
  next
    case False
    with r sl' show ?thesis by (auto simp: sv_eq_def)
  qed
qed

text \<open>A version message never lowers the version of its signer, and leaves the other accounts alone.\<close>

theorem version_never_lowered:
  assumes "semver_laws S" and "nodes_ok n" and "GetNodeAccount c n a = Inr na"
    and "Version_handle S c n sl m = Inr (n', sl')"
  shows "\<exists>na'. GetNodeAccount c n' a = Inr na' \<and> \<not> sv_lt S (GetVersion S na') (GetVersion S na)"
proof -
  from assms(4) obtain na0 v na1 where na0: "GetNodeAccount c n (svSigner m) = Inr na0" and v: "sv_parse S (svVersion m) = Some v"
    and na1: "na1 = (if sv_lt S (GetVersion S na0) v then na0\<lparr>naVersion := sv_string S v\<rparr> else na0)" and n': "n' = SetNodeAccount c n na1"
    by (auto simp: Version_handle_def Let_def res_simps split: if_splits sum.splits option.splits)
  have up: "\<not> sv_lt S (GetVersion S na1) (GetVersion S na0)"
    using semver_laws.lt_asym [OF assms(1)] semver_laws.print_parse [OF assms(1) v] by (auto simp: na1 GetVersion_def)
  have addr: "NodeAddress na1 = NodeAddress na0" by (simp add: na1)
  show ?thesis
  proof (cases "kv_key a = kv_key (NodeAddress na1) \<and> \<not> NodeAccount_IsEmpty na1")
    case True
    then have same: "kv_key a = kv_key (svSigner m)" using GetNodeAccount_current(2) [OF assms(2) na0] addr by simp
    have "\<not> NodeAccount_IsEmpty na0" using True by (auto simp: na1 NodeAccount_IsEmpty_def split: if_splits)
    then have st: "map_of (msNodes n) (kv_key a) = Some (Stored na0)"
      using na0 unfolding same GetNodeAccount_def kv_get_def
      by (cases "map_of (msNodes n) (kv_key (svSigner m))")
        (auto simp: NodeAccount_IsEmpty_def NewNodeAccount_def UpdateStatus_def split: slot.splits)
    then have "na = na0" using assms(3) by (simp add: GetNodeAccount_def kv_get_def)
    with True up show ?thesis by (auto simp: n' GetNodeAccount_def kv_get_def SetNodeAccount_nodes GetVersion_def split: if_splits)
  next
    case False
    then have "GetNodeAccount c n' a = Inr na" using assms(3) by (auto simp: n' GetNodeAccount_def SetNodeAccount_nodes kv_get_def)
    then show ?thesis using semver_laws.lt_asym(2) [OF assms(1)] by blast
  qed
qed

section \<open>Witnesses\<close>

definition versioned :: "acc \<Rightarrow> string \<Rightarrow> string \<times> node_account slot" where
  "versioned a v = (a, Stored ((mimir_node a)\<lparr>naVersion := v\<rparr>))"

definition three_versions :: mimir_state where
  "three_versions = (mimir_demo demo_mimir_keeper)\<lparr>msNodes := [versioned ''A'' ''3.1.0'', versioned ''B'' ''3.2.0'', versioned ''C'' ''3.1.0'']\<rparr>"

lemma version_reads:
  "plain_version_parse ''3.1.0'' = Some (3, 1, 0)" "plain_version_parse ''3.2.0'' = Some (3, 2, 0)"
proof -
  have t: "plain_version_text (3, 1, 0) = ''3.1.0''" "plain_version_text (3, 2, 0) = ''3.2.0''"
    "nat_str 0 = ''0''" "nat_str 1 = ''1''" "nat_str 2 = ''2''" "nat_str 3 = ''3''" by code_simp+
  have "map parse_uint64 (split_on CHR ''.'' ''3.1.0'') = [Some 3, Some 1, Some 0]"
    "map parse_uint64 (split_on CHR ''.'' ''3.2.0'') = [Some 3, Some 2, Some 0]"
    using parse_uint64_nat_str [of 0] parse_uint64_nat_str [of 1] parse_uint64_nat_str [of 2] parse_uint64_nat_str [of 3] by (simp_all add: t del: One_nat_def)
  then show "plain_version_parse ''3.1.0'' = Some (3, 1, 0)" "plain_version_parse ''3.2.0'' = Some (3, 2, 0)"
    by (simp_all add: plain_version_parse_def t del: One_nat_def)
qed

lemma plain_order:
  "sv_lt plain_semver (a, b, c) (a', b', c') \<longleftrightarrow> a < a' \<or> a = a' \<and> (b < b' \<or> b = b' \<and> c < c')" "sv_zero plain_semver = (0, 0, 0)"
  by (simp_all add: plain_semver_def)

theorem min_join_version_best_witness: "GetMinJoinVersion plain_semver three_versions = (3, 1, 0)"
proof -
  let ?nodes = "map (\<lambda>(a, v). (mimir_node a)\<lparr>naVersion := v\<rparr>) [(''A'', ''3.1.0''), (''B'', ''3.2.0''), (''C'', ''3.1.0'')]"
  have list: "ListActiveValidators three_versions = Inr ?nodes"
    by (simp add: ListActiveValidators_def ListValidatorsByStatus_def three_versions_def versioned_def mimir_demo_def mimir_node_def NewNodeAccount_def UpdateStatus_def)
  have vs: "map (GetVersion plain_semver) ?nodes = [(3, 1, 0), (3, 2, 0), (3, 1, 0)]"
    by (simp add: GetVersion_def plain_semver_def version_reads)
  have "(GetMinJoinVersion plain_semver three_versions = sv_zero plain_semver
      \<or> (\<exists>na \<in> set ?nodes. GetVersion plain_semver na = GetMinJoinVersion plain_semver three_versions
          \<and> 2 * length ?nodes \<le> 3 * support plain_semver (GetMinJoinVersion plain_semver three_versions) ?nodes))
    \<and> (\<forall>na \<in> set ?nodes. 2 * length ?nodes \<le> 3 * support plain_semver (GetVersion plain_semver na) ?nodes
        \<longrightarrow> \<not> sv_lt plain_semver (GetMinJoinVersion plain_semver three_versions) (GetVersion plain_semver na))"
    by (rule min_join_version_best [OF plain_versions.semver_laws_axioms list]) simp
  moreover obtain a b c where "GetMinJoinVersion plain_semver three_versions = (a, b, c)" by (metis prod_cases3)
  ultimately show ?thesis using vs by (auto simp: support_def plain_order split: if_splits)
qed

end
