(* ===== verification/Node_Admin.thy ===== *)
theory Node_Admin
  imports Node_Versions Inbound
begin

text \<open>
  The administration of nodes: votes to ban a node (\<^verbatim>\<open>src/x/switchly/handler_ban.go\<close>, \<^verbatim>\<open>keeper/v1/keeper_ban.go\<close>,
  \<^verbatim>\<open>types/msg_ban.go\<close>), the keys of a node (\<^verbatim>\<open>handler_set_node_keys.go\<close>, \<^verbatim>\<open>types/msg_set_node_keys.go\<close>), its IP address
  (\<^verbatim>\<open>handler_ip_address.go\<close>, \<^verbatim>\<open>types/msg_ip_address.go\<close>), its maintenance flag (\<^verbatim>\<open>handler_maint.go\<close>), the pause of all chains
  (\<^verbatim>\<open>handler_node_pause_chain.go\<close>, \<^verbatim>\<open>types/msg_node_pause_chain.go\<close>) and the removal of accounts with a low bond
  (\<^verbatim>\<open>keeper/v1/keeper_node_account.go\<close>).

  The decoding of a consensus key is the argument \<open>cons_addr\<close>, as in the slasher.
\<close>

section \<open>State\<close>

record 'b admin_state =
  adBond :: "'b bond_state"
  adBans :: "ban_voter kv"
  adPauses :: "int kv"

abbreviation adNode :: "'b admin_state \<Rightarrow> mimir_state" where
  "adNode s \<equiv> bsNode (adBond s)"

definition put_node_account :: "ctx \<Rightarrow> 'b admin_state \<Rightarrow> node_account \<Rightarrow> 'b admin_state" where
  "put_node_account c s na = s\<lparr>adBond := put_nodes (adBond s) (SetNodeAccount c (adNode s) na)\<rparr>"

section \<open>Bans\<close>

record msg_ban =
  mnNodeAddress :: acc
  mnSigner :: acc

definition MsgBan_ValidateBasic :: "msg_ban \<Rightarrow> unit res" where
  "MsgBan_ValidateBasic m = guard_err (mnSigner m = [] \<or> mnNodeAddress m = []) ''invalid address''"

definition SetBanVoter :: "'b admin_state \<Rightarrow> ban_voter \<Rightarrow> 'b admin_state" where
  "SetBanVoter s v = s\<lparr>adBans := kv_set (adBans s) (kv_key (banNodeAddress v)) v\<rparr>"

definition GetBanVoter :: "'b admin_state \<Rightarrow> acc \<Rightarrow> ban_voter res" where
  "GetBanVoter s a = kv_get (adBans s) (kv_key a) (NewBanVoter a)"

definition Ban_validate :: "ctx \<Rightarrow> 'b admin_state \<Rightarrow> msg_ban \<Rightarrow> unit res" where
  "Ban_validate c s m =
     (if \<not> cVersion3 c then Inl (Err ''bad version'')
      else res_bind (MsgBan_ValidateBasic m) (\<lambda>_.
        guard_err (\<not> isSignedByActiveNodeAccounts c (adNode s) [mnSigner m]) ''not authorized''))"

text \<open>The node is marked, and part of its bond goes to the reserve.\<close>

definition enforce_ban :: "'b bank_lib \<Rightarrow> ctx \<Rightarrow> 'b admin_state \<Rightarrow> node_account \<Rightarrow> 'b admin_state res" where
  "enforce_ban B c s na =
     (let na1 = na\<lparr>ForcedToLeave := True, LeaveScore := 1\<rparr>;
          slash = GetConfigInt64 c (bsKeeper (adBond s)) ''BondSlashBan''
      in if slash > 0
         then let amt = (if uint64_of slash > naBond na1 then naBond na1 else uint64_of slash) in
           res_map (\<lambda>b. put_node_account c (s\<lparr>adBond := (adBond s)\<lparr>bsBank := b\<rparr>\<rparr>) (na1\<lparr>naBond := SafeSub (naBond na1) amt\<rparr>))
             (SendFromModuleToModule B (bsBank (adBond s)) BondName ReserveName (NewCoin SwitchNative amt))
         else Inr (put_node_account c s na1))"

definition Ban_handle :: "key_lib \<Rightarrow> 'b bank_lib \<Rightarrow> ctx \<Rightarrow> 'b admin_state \<Rightarrow> msg_ban \<Rightarrow> 'b admin_state res" where
  "Ban_handle K B c s m =
     (if \<not> cVersion3 c then Inl (Err ''bad version'')
      else res_bind (GetNodeAccount c (adNode s) (mnNodeAddress m)) (\<lambda>toBan.
        res_bind (NodeAccount_Valid toBan) (\<lambda>_.
        if ForcedToLeave toBan then Inr s
        else if naStatus toBan \<noteq> NodeStatus_Active \<and> naStatus toBan \<noteq> NodeStatus_Standby
          then Inl (Err ''cannot ban a node account that is not currently active or standby'')
        else res_bind (GetNodeAccount c (adNode s) (mnSigner m)) (\<lambda>banner.
          res_bind (NodeAccount_Valid banner) (\<lambda>_.
          res_bind (ListActiveValidators (adNode s)) (\<lambda>active.
          res_bind (GetBanVoter s (mnNodeAddress m)) (\<lambda>v0.
            let v = BanVoter_Sign K v0 (mnSigner m); s1 = SetBanVoter s v in
            if \<not> BanVoter_HasConsensus K v active then Inr s1
            else if banBlockHeight v > 0 then Inr s1
            else enforce_ban B c (SetBanVoter s1 (v\<lparr>banBlockHeight := BlockHeight c\<rparr>)) toBan)))))))"

section \<open>Keys of a node\<close>

record msg_set_node_keys =
  skPubKeySetSet :: pubkey_set
  skValidatorConsPubKey :: string
  skSigner :: acc

definition MsgSetNodeKeys_ValidateBasic :: "(string \<Rightarrow> string option) \<Rightarrow> msg_set_node_keys \<Rightarrow> unit res" where
  "MsgSetNodeKeys_ValidateBasic cons_addr m =
     (if skSigner m = [] then Inl (Err ''invalid address'')
      else if cons_addr (skValidatorConsPubKey m) = None then Inl (Err ''unknown request'')
      else guard_err (PubKeySet_IsEmpty (skPubKeySetSet m)) ''node pub keys cannot be empty'')"

fun keys_unused :: "string \<Rightarrow> pubkey_set \<Rightarrow> (string \<times> node_account slot) list \<Rightarrow> unit res" where
  "keys_unused cpk pks [] = Inr ()"
| "keys_unused cpk pks ((k, Corrupt) # q) = Inl (Err ''Unmarshal: node account'')"
| "keys_unused cpk pks ((k, Stored na) # q) =
     (if equal_fold [] cpk then Inl (Err ''Validator Consensus Key cannot be empty'')
      else if ValidatorConsPubKey na = cpk then Inl (Err ''already exist'')
      else if PubKeySet_IsEmpty pks then Inl (Err ''PubKeySet cannot be empty'')
      else if PubKeySet_Contains (naPubKeySet na) (Secp256k1 pks) then Inl (Err ''already exist'')
      else if PubKeySet_Contains (naPubKeySet na) (Ed25519 pks) then Inl (Err ''already exist'')
      else keys_unused cpk pks q)"

definition EnsureNodeKeysUnique :: "mimir_state \<Rightarrow> string \<Rightarrow> pubkey_set \<Rightarrow> unit res" where
  "EnsureNodeKeysUnique n cpk pks = keys_unused cpk pks (msNodes n)"

definition validateNodeKeysAuth :: "ctx \<Rightarrow> mimir_state \<Rightarrow> acc \<Rightarrow> unit res" where
  "validateNodeKeysAuth c n signer =
     (case GetNodeAccount c n signer of
        Inl _ \<Rightarrow> Inl (Err ''fail to get node account'')
      | Inr na \<Rightarrow>
          if NodeAccount_IsEmpty na then Inl (Err ''unauthorized account'')
          else if naStatus na = NodeStatus_Active then Inl (Err ''node is active, so it can't update itself'')
          else if naStatus na = NodeStatus_Disabled then Inl (Err ''node is disabled, so it can't update itself'')
          else guard_err (\<not> PubKeySet_IsEmpty (naPubKeySet na)) ''node already has pubkey set assigned'')"

definition SetNodeKeys_validate ::
  "(string \<Rightarrow> string option) \<Rightarrow> key_lib \<Rightarrow> ctx \<Rightarrow> mimir_state \<Rightarrow> msg_set_node_keys \<Rightarrow> unit res" where
  "SetNodeKeys_validate cons_addr K c n m =
     (if \<not> cVersion3 c then Inl (Err ''invalid version'')
      else res_bind (MsgSetNodeKeys_ValidateBasic cons_addr m) (\<lambda>_.
        res_bind (validateNodeKeysAuth c n (skSigner m)) (\<lambda>_.
        res_bind (EnsureNodeKeysUnique n (skValidatorConsPubKey m) (skPubKeySetSet m)) (\<lambda>_.
        case pubkey_acc K (Secp256k1 (skPubKeySetSet m)) of
          None \<Rightarrow> Inl (Err ''fail to get address'')
        | Some a \<Rightarrow> guard_err (skSigner m \<noteq> a) ''node address must match secp256k1 pubkey''))))"

definition SetNodeKeys_handle :: "ctx \<Rightarrow> mimir_state \<Rightarrow> msg_set_node_keys \<Rightarrow> mimir_state res" where
  "SetNodeKeys_handle c n m =
     (if \<not> cVersion3 c then Inl (Err ''bad version'')
      else case GetNodeAccount c n (skSigner m) of
        Inl _ \<Rightarrow> Inl (Err ''not authorized'')
      | Inr na \<Rightarrow> Inr (SetNodeAccount c n ((UpdateStatus na NodeStatus_Standby (BlockHeight c))
            \<lparr>naPubKeySet := skPubKeySetSet m, ValidatorConsPubKey := skValidatorConsPubKey m\<rparr>)))"

section \<open>IP addresses\<close>

text \<open>\<open>net.ParseIP\<close>: four decimal fields of at most 255 without leading zeros, or up to eight groups of
  at most four hexadecimal digits, where \<open>::\<close> stands for at least one group and the last two may be such four fields.\<close>

definition ipv4_field :: "string \<Rightarrow> bool" where
  "ipv4_field f \<longleftrightarrow> f \<noteq> [] \<and> (length f > 1 \<longrightarrow> hd f \<noteq> CHR ''0'') \<and> length f \<le> 3
     \<and> (case digits_val 0 f of None \<Rightarrow> False | Some n \<Rightarrow> n \<le> 255)"

definition parse_ipv4 :: "string \<Rightarrow> bool" where
  "parse_ipv4 s \<longleftrightarrow> (let fs = split_on CHR ''.'' s in length fs = 4 \<and> list_all ipv4_field fs)"

definition hex_char :: "char \<Rightarrow> bool" where
  "hex_char c \<longleftrightarrow> char_in c 48 57 \<or> char_in c 65 70 \<or> char_in c 97 102"

text \<open>The loop over the groups: \<open>i\<close> bytes are filled, \<open>e\<close> tells whether \<open>::\<close> was seen.\<close>

function parse_ipv6_groups :: "nat \<Rightarrow> bool \<Rightarrow> string \<Rightarrow> bool" where
  "parse_ipv6_groups i e s =
     (if i \<ge> 16 then s = [] \<and> i = 16 \<and> \<not> e
      else let g = takeWhile hex_char s; rest = dropWhile hex_char s in
        if g = [] \<or> length g > 4 then False
        else case rest of
          [] \<Rightarrow> (if i + 2 < 16 then e else \<not> e)
        | c # cs \<Rightarrow>
            if c = CHR ''.'' then
              (if \<not> e \<and> i \<noteq> 12 \<or> i + 4 > 16 then False else parse_ipv4 s \<and> (if i + 4 < 16 then e else \<not> e))
            else if c \<noteq> CHR '':'' \<or> cs = [] then False
            else if hd cs = CHR '':'' then
              (if e then False else if tl cs = [] then i + 2 < 16 else parse_ipv6_groups (i + 2) True (tl cs))
            else parse_ipv6_groups (i + 2) e cs)"
  by pat_completeness auto
termination
  by (relation "measure (\<lambda>(i, e, s). 16 - i)") auto

definition parse_ipv6 :: "string \<Rightarrow> bool" where
  "parse_ipv6 s \<longleftrightarrow> CHR ''%'' \<notin> set s
     \<and> (if take 2 s = ''::'' then drop 2 s = [] \<or> parse_ipv6_groups 0 True (drop 2 s) else parse_ipv6_groups 0 False s)"

definition ParseIP :: "string \<Rightarrow> bool" where
  "ParseIP s = (case find (\<lambda>c. c = CHR ''.'' \<or> c = CHR '':'' \<or> c = CHR ''%'') s of
     Some c \<Rightarrow> if c = CHR ''.'' then parse_ipv4 s else if c = CHR '':'' then parse_ipv6 s else False
   | None \<Rightarrow> False)"

record msg_set_ip =
  ipIPAddress :: string
  ipSigner :: acc

definition MsgSetIPAddress_ValidateBasic :: "msg_set_ip \<Rightarrow> unit res" where
  "MsgSetIPAddress_ValidateBasic m =
     (if ipSigner m = [] then Inl (Err ''invalid address'') else guard_err (\<not> ParseIP (ipIPAddress m)) ''invalid IP address'')"

definition validateIPAddressAuth :: "ctx \<Rightarrow> mimir_state \<Rightarrow> acc \<Rightarrow> unit res" where
  "validateIPAddressAuth c n signer =
     (case GetNodeAccount c n signer of
        Inl _ \<Rightarrow> Inl (Err ''not authorized'')
      | Inr na \<Rightarrow>
          if NodeAccount_IsEmpty na then Inl (Err ''not authorized'')
          else guard_err (naType na \<noteq> NodeType_TypeValidator) ''not authorized'')"

definition IPAddress_validate :: "ctx \<Rightarrow> mimir_state \<Rightarrow> msg_set_ip \<Rightarrow> unit res" where
  "IPAddress_validate c n m =
     (if \<not> cVersion3 c then Inl (Err ''bad version'')
      else res_bind (MsgSetIPAddress_ValidateBasic m) (\<lambda>_. validateIPAddressAuth c n (ipSigner m)))"

definition IPAddress_handle :: "ctx \<Rightarrow> mimir_state \<Rightarrow> msg_set_ip \<Rightarrow> mimir_state res" where
  "IPAddress_handle c n m =
     (if \<not> cVersion3 c then Inl (Err ''bad version'')
      else case GetNodeAccount c n (ipSigner m) of
        Inl _ \<Rightarrow> Inl (Err ''unable to find account'')
      | Inr na \<Rightarrow> Inr (SetNodeAccount c n (na\<lparr>IPAddress := ipIPAddress m\<rparr>)))"

section \<open>Maintenance\<close>

definition validateMaintAuth :: "key_lib \<Rightarrow> ctx \<Rightarrow> mimir_state \<Rightarrow> acc \<Rightarrow> acc \<Rightarrow> unit res" where
  "validateMaintAuth K c n a signer =
     (case GetNodeAccount c n a of
        Inl _ \<Rightarrow> Inl (Err ''not authorized'')
      | Inr na \<Rightarrow>
          if NodeAccount_IsEmpty na then Inl (Err ''not authorized'')
          else case acc_from_bech32 K (naBondAddress na) of
            None \<Rightarrow> Inl (Err ''fail to parse bond address'')
          | Some bondAddr \<Rightarrow> guard_err (bondAddr \<noteq> signer) ''not authorized'')"

definition Maint_validate :: "key_lib \<Rightarrow> ctx \<Rightarrow> mimir_state \<Rightarrow> acc \<Rightarrow> acc \<Rightarrow> unit res" where
  "Maint_validate K c n node signer =
     res_bind (MsgMaint_ValidateBasic node signer) (\<lambda>_. validateMaintAuth K c n node signer)"

definition Maint_handle :: "ctx \<Rightarrow> mimir_state \<Rightarrow> acc \<Rightarrow> mimir_state res" where
  "Maint_handle c n node =
     (case GetNodeAccount c n node of
        Inl _ \<Rightarrow> Inl (Err ''unable to find account'')
      | Inr na \<Rightarrow> Inr (SetNodeAccount c n (na\<lparr>Maintenance := \<not> Maintenance na\<rparr>)))"

section \<open>Pausing all chains\<close>

record msg_node_pause =
  npValue :: int
  npSigner :: acc

definition GetNodePauseChain :: "'b admin_state \<Rightarrow> acc \<Rightarrow> int" where
  "GetNodePauseChain s a = kv_get_or (adPauses s) (kv_key a) (- 1)"

definition SetNodePauseChain :: "ctx \<Rightarrow> 'b admin_state \<Rightarrow> acc \<Rightarrow> 'b admin_state" where
  "SetNodePauseChain c s a = s\<lparr>adPauses := kv_set (adPauses s) (kv_key a) (BlockHeight c)\<rparr>"

definition NodePauseChain_validate :: "ctx \<Rightarrow> 'b admin_state \<Rightarrow> msg_node_pause \<Rightarrow> unit res" where
  "NodePauseChain_validate c s m =
     (if \<not> cVersion3 c then Inl (Err ''bad version'')
      else if npSigner m = [] then Inl (Err ''invalid address'')
      else guard_err (\<not> isSignedByActiveNodeAccounts c (adNode s) [npSigner m]) ''not authorized'')"

definition last_churn :: "vault list \<Rightarrow> int" where
  "last_churn vs = fold (\<lambda>v l. if vtStatusSince v > l then vtStatusSince v else l) vs (- 1)"

definition pause_blocks :: "ctx \<Rightarrow> kstore \<Rightarrow> int" where
  "pause_blocks c k = (case GetMimir k ''NodePauseChainBlocks'' of
     Inl _ \<Rightarrow> GetInt64Value (cBuild c) ''NodePauseChainBlocks''
   | Inr v \<Rightarrow> if v < 0 then GetInt64Value (cBuild c) ''NodePauseChainBlocks'' else v)"

text \<open>The new height of the pause, and whether the node has used its choice.\<close>

definition pause_choice :: "ctx \<Rightarrow> int \<Rightarrow> int \<Rightarrow> int \<Rightarrow> int \<times> bool" where
  "pause_choice c blocks pauseHeight v =
     (if v > 0 then (if pauseHeight > BlockHeight c then (i64 (pauseHeight + blocks), True) else (i64 (BlockHeight c + blocks), True))
      else if v < 0 \<and> pauseHeight > BlockHeight c then (i64 (pauseHeight - blocks), True)
      else (pauseHeight, False))"

definition NodePauseChain_handle :: "key_lib \<Rightarrow> ctx \<Rightarrow> 'b admin_state \<Rightarrow> msg_node_pause \<Rightarrow> 'b admin_state res" where
  "NodePauseChain_handle K c s m =
     (if \<not> cVersion3 c then Inl (Err ''bad version'')
      else res_bind (GetAsgardVaultsByStatus K c (bsVault (adBond s)) VaultStatus_ActiveVault) (\<lambda>active.
        if GetNodePauseChain s (npSigner m) > last_churn active
          then Inl (Err ''node has already chosen pause/resume since the last churn'')
        else res_bind (GetMimir (bsKeeper (adBond s)) ''NodePauseChainGlobal'') (\<lambda>pauseHeight.
          let k = bsKeeper (adBond s); (h, used) = pause_choice c (pause_blocks c k) pauseHeight (npValue m);
              s1 = (if used then SetNodePauseChain c s (npSigner m) else s)
          in Inr (s1\<lparr>adBond := put_keeper (adBond s1) (SetMimir k ''NodePauseChainGlobal'' h)\<rparr>))))"

section \<open>Accounts with a low bond\<close>

text \<open>An error ends the removal but keeps what was done before: the results pair the state with the outcome. A failed transfer is only logged.\<close>

fun pay_providers :: "'b bank_lib \<Rightarrow> bond_provider list \<Rightarrow> 'b \<Rightarrow> uint \<Rightarrow> 'b \<times> uint res" where
  "pay_providers B [] b sent = (b, Inr sent)"
| "pay_providers B (p # ps) b sent =
     (if bpBond p = 0 \<or> BondAddress p = [] then pay_providers B ps b sent
      else case SendFromModuleToAccount B b BondName (BondAddress p) (NewCoin SwitchNative (bpBond p)) of
        Inl (Panic e) \<Rightarrow> (b, Inl (Panic e))
      | Inl (Err _) \<Rightarrow> pay_providers B ps b sent
      | Inr b' \<Rightarrow> (case uint_add sent (bpBond p) of Inl e \<Rightarrow> (b', Inl e) | Inr t \<Rightarrow> pay_providers B ps b' t))"

definition return_bond :: "dec_lib \<Rightarrow> key_lib \<Rightarrow> 'b bank_lib \<Rightarrow> 'b bond_state \<Rightarrow> node_account \<Rightarrow> 'b bond_state \<times> unit res" where
  "return_bond D K B s na =
     (case GetBondProviders s (NodeAddress na) of
        Inl e \<Rightarrow> (s, Inl e)
      | Inr bps \<Rightarrow>
          (case acc_from_bech32 K (naBondAddress na) of
             None \<Rightarrow> (s, Inl (Err ''fail to parse bond address''))
           | Some to' \<Rightarrow>
               if Providers bps = [] then
                 (case SendFromModuleToAccount B (bsBank s) BondName to' (NewCoin SwitchNative (naBond na)) of
                    Inl (Panic e) \<Rightarrow> (s, Inl (Panic e)) | Inl (Err _) \<Rightarrow> (s, Inr ()) | Inr b \<Rightarrow> (s\<lparr>bsBank := b\<rparr>, Inr ()))
               else case BondProviders_Adjust D bps (naBond na) of
                 Inl e \<Rightarrow> (s, Inl e)
               | Inr bps1 \<Rightarrow>
                   (case pay_providers B (Providers bps1) (bsBank s) 0 of
                      (b, Inl e) \<Rightarrow> (s\<lparr>bsBank := b\<rparr>, Inl e)
                    | (b, Inr sent) \<Rightarrow>
                        if sent > naBond na then (s\<lparr>bsBank := b\<rparr>, Inl (Err ''total bond returned greater than node bond''))
                        else (s\<lparr>bsBank := b, bsProviders := kv_del (bsProviders s) (kv_key (NodeAddress na))\<rparr>, Inr ()))))"

definition low_bond :: "node_account \<Rightarrow> bool" where
  "low_bond na \<longleftrightarrow> naStatus na \<noteq> NodeStatus_Active \<and> naType na = NodeType_TypeValidator \<and> naBond na \<le> One"

fun low_bond_loop ::
  "dec_lib \<Rightarrow> key_lib \<Rightarrow> 'b bank_lib \<Rightarrow> (string \<times> node_account slot) list \<Rightarrow> 'b bond_state \<Rightarrow> 'b bond_state \<times> string list res" where
  "low_bond_loop D K B [] s = (s, Inr [])"
| "low_bond_loop D K B ((k, Corrupt) # q) s = (s, Inl (Err ''Unmarshal: node account''))"
| "low_bond_loop D K B ((k, Stored na) # q) s =
     (if \<not> low_bond na then low_bond_loop D K B q s
      else case (if naBond na = 0 then (s, Inr ()) else return_bond D K B s na) of
        (s1, Inl e) \<Rightarrow> (s1, Inl e)
      | (s1, Inr _) \<Rightarrow> let (s2, r) = low_bond_loop D K B q s1 in (s2, res_map (\<lambda>ks. k # ks) r))"

definition RemoveLowBondValidatorAccounts :: "dec_lib \<Rightarrow> key_lib \<Rightarrow> 'b bank_lib \<Rightarrow> 'b bond_state \<Rightarrow> 'b bond_state \<times> unit res" where
  "RemoveLowBondValidatorAccounts D K B s =
     (case low_bond_loop D K B (msNodes (bsNode s)) s of
        (s1, Inl e) \<Rightarrow> (s1, Inl e)
      | (s1, Inr ks) \<Rightarrow> (put_nodes s1 ((bsNode s1)\<lparr>msNodes := filter (\<lambda>(k, _). k \<notin> set ks) (msNodes (bsNode s1))\<rparr>), Inr ()))"

declare parse_ipv6_groups.simps [simp del]

section \<open>Votes for a ban\<close>

text \<open>
  Runs in which ban messages are validated and handled, and anything else that does not touch the voters of bans happens in
  between. \<open>H\<close> collects the signers and nodes of the messages.
\<close>

inductive ban_run :: "key_lib \<Rightarrow> 'b bank_lib \<Rightarrow> (acc \<times> acc) set \<Rightarrow> 'b admin_state \<Rightarrow> bool"
  for K :: key_lib and B :: "'b bank_lib" where
  start: "adBans s = Map.empty \<Longrightarrow> ban_run K B {} s"
| vote: "ban_run K B H s \<Longrightarrow> acc_ok (mnSigner m) \<Longrightarrow> Ban_validate c s m = Inr () \<Longrightarrow> Ban_handle K B c s m = Inr s'
    \<Longrightarrow> ban_run K B (insert (mnSigner m, mnNodeAddress m) H) s'"
| other: "ban_run K B H s \<Longrightarrow> adBans s' = adBans s \<Longrightarrow> ban_run K B H s'"

text \<open>The signers of messages about the node that is stored under a key.\<close>

definition ban_signers :: "(acc \<times> acc) set \<Rightarrow> string \<Rightarrow> acc set" where
  "ban_signers H k = {a. \<exists>t. (a, t) \<in> H \<and> kv_key t = k}"

definition bans_ok :: "key_lib \<Rightarrow> (acc \<times> acc) set \<Rightarrow> 'b admin_state \<Rightarrow> bool" where
  "bans_ok K H s \<longleftrightarrow> (\<forall>k v. adBans s k = Some (Stored v) \<longrightarrow> k = kv_key (banNodeAddress v)
     \<and> distinct (parse_accs K (banSigners v)) \<and> set (parse_accs K (banSigners v)) \<subseteq> ban_signers H k)"

lemma ban_frames [simp]:
  "adBond (SetBanVoter s v) = adBond s" "adBans (put_node_account c s na) = adBans s"
  by (simp_all add: SetBanVoter_def put_node_account_def)

lemma Sign_fields [simp]: "banNodeAddress (BanVoter_Sign K v a) = banNodeAddress v" "banBlockHeight (BanVoter_Sign K v a) = banBlockHeight v"
  by (simp_all add: BanVoter_Sign_def)

lemma ban_cases:
  assumes "Ban_handle K B c s m = Inr s'"
  obtains (none) "s' = s"
  | (counted) v0 where "GetBanVoter s (mnNodeAddress m) = Inr v0" "s' = SetBanVoter s (BanVoter_Sign K v0 (mnSigner m))"
  | (banned) v0 toBan active where "GetBanVoter s (mnNodeAddress m) = Inr v0" "GetNodeAccount c (adNode s) (mnNodeAddress m) = Inr toBan"
      "ListActiveValidators (adNode s) = Inr active" "BanVoter_HasConsensus K (BanVoter_Sign K v0 (mnSigner m)) active"
      "NodeAccount_Valid toBan = Inr ()" "\<not> ForcedToLeave toBan" "banBlockHeight v0 \<le> 0"
      "enforce_ban B c (SetBanVoter (SetBanVoter s (BanVoter_Sign K v0 (mnSigner m)))
         ((BanVoter_Sign K v0 (mnSigner m))\<lparr>banBlockHeight := BlockHeight c\<rparr>)) toBan = Inr s'"
proof -
  from assms obtain toBan where t: "GetNodeAccount c (adNode s) (mnNodeAddress m) = Inr toBan" "NodeAccount_Valid toBan = Inr ()"
    by (auto simp: Ban_handle_def res_bind_Inr split: if_splits)
  show ?thesis
  proof (cases "ForcedToLeave toBan")
    case True
    with assms t none show ?thesis by (simp add: Ban_handle_def res_bind_simps split: if_splits)
  next
    case False
    with assms t obtain active v0 where v: "ListActiveValidators (adNode s) = Inr active" "GetBanVoter s (mnNodeAddress m) = Inr v0"
      and r: "(let v = BanVoter_Sign K v0 (mnSigner m); s1 = SetBanVoter s v in
            if \<not> BanVoter_HasConsensus K v active then Inr s1
            else if banBlockHeight v > 0 then Inr s1
            else enforce_ban B c (SetBanVoter s1 (v\<lparr>banBlockHeight := BlockHeight c\<rparr>)) toBan) = Inr s'"
      by (auto simp: Ban_handle_def res_bind_Inr res_bind_simps split: if_splits)
    show ?thesis
    proof (cases "BanVoter_HasConsensus K (BanVoter_Sign K v0 (mnSigner m)) active \<and> \<not> banBlockHeight v0 > 0")
      case True
      with r have "enforce_ban B c (SetBanVoter (SetBanVoter s (BanVoter_Sign K v0 (mnSigner m)))
         ((BanVoter_Sign K v0 (mnSigner m))\<lparr>banBlockHeight := BlockHeight c\<rparr>)) toBan = Inr s'" by (simp add: Let_def)
      with banned [OF v(2) t(1) v(1)] True t(2) False show ?thesis by simp
    next
      case False
      with r have "s' = SetBanVoter s (BanVoter_Sign K v0 (mnSigner m))" by (auto simp: Let_def split: if_splits)
      with counted [OF v(2)] show ?thesis .
    qed
  qed
qed

lemma enforce_ban_bans: "enforce_ban B c s na = Inr s' \<Longrightarrow> adBans s' = adBans s"
  by (auto simp: enforce_ban_def Let_def res_simps split: if_splits)

lemma ban_voter_kept:
  assumes keys: "keys_ok K" and a: "acc_ok a" and v: "distinct (parse_accs K (banSigners v))" "set (parse_accs K (banSigners v)) \<subseteq> A"
  shows "distinct (parse_accs K (banSigners (BanVoter_Sign K v a)))" "set (parse_accs K (banSigners (BanVoter_Sign K v a))) \<subseteq> insert a A"
proof -
  have "parse_accs K (banSigners (BanVoter_Sign K v a)) = parse_accs K (banSigners v) \<or> parse_accs K (banSigners (BanVoter_Sign K v a)) = parse_accs K (banSigners v) @ [a] \<and> a \<notin> set (parse_accs K (banSigners v))"
    using keys a by (auto simp: BanVoter_Sign_def has_signed_def list_ex_iff parse_accs_def keys_ok_def List.map_filter_def)
  with v show "distinct (parse_accs K (banSigners (BanVoter_Sign K v a)))" "set (parse_accs K (banSigners (BanVoter_Sign K v a))) \<subseteq> insert a A" by auto
qed

lemma read_ban_voter:
  assumes "bans_ok K H s" and "GetBanVoter s a = Inr v"
  shows "kv_key (banNodeAddress v) = kv_key a" "distinct (parse_accs K (banSigners v))" "set (parse_accs K (banSigners v)) \<subseteq> ban_signers H (kv_key a)"
proof -
  have "v = NewBanVoter a \<or> adBans s (kv_key a) = Some (Stored v)"
    using assms(2) by (auto simp: GetBanVoter_def kv_get_def split: option.splits slot.splits)
  then show "kv_key (banNodeAddress v) = kv_key a" "distinct (parse_accs K (banSigners v))" "set (parse_accs K (banSigners v)) \<subseteq> ban_signers H (kv_key a)"
    using assms(1) by (auto simp: bans_ok_def NewBanVoter_def parse_accs_def List.map_filter_simps)
qed

lemma bans_ok_put:
  assumes ok: "bans_ok K H s" and keys: "keys_ok K" and a: "acc_ok (mnSigner m)" and v: "GetBanVoter s (mnNodeAddress m) = Inr v0"
    and put: "adBans s' = kv_set bans (kv_key (mnNodeAddress m)) v" and v': "banNodeAddress v = banNodeAddress v0" "banSigners v = banSigners (BanVoter_Sign K v0 (mnSigner m))"
    and rest: "\<And>k. k \<noteq> kv_key (mnNodeAddress m) \<Longrightarrow> bans k = adBans s k"
  shows "bans_ok K (insert (mnSigner m, mnNodeAddress m) H) s'"
proof -
  note r = read_ban_voter [OF ok v]
  note s = ban_voter_kept [OF keys a r(2) r(3)]
  have "insert (mnSigner m) (ban_signers H (kv_key (mnNodeAddress m))) \<subseteq> ban_signers (insert (mnSigner m, mnNodeAddress m) H) (kv_key (mnNodeAddress m))"
    "ban_signers H k \<subseteq> ban_signers (insert (mnSigner m, mnNodeAddress m) H) k" for k by (auto simp: ban_signers_def)
  with ok s r(1) v' rest show ?thesis unfolding bans_ok_def put kv_set_def by (simp split: if_splits) blast
qed

lemma ban_run_ok:
  assumes "keys_ok K" and "ban_run K B H s"
  shows "bans_ok K H s"
  using assms(2)
proof induction
  case (vote H s m c s')
  show ?case using vote.hyps(4)
  proof (cases rule: ban_cases)
    case none
    with vote.IH show ?thesis by (auto simp: bans_ok_def ban_signers_def; blast)
  next
    case (counted v0)
    have "kv_key (banNodeAddress v0) = kv_key (mnNodeAddress m)" by (rule read_ban_voter(1) [OF vote.IH counted(1)])
    then show ?thesis using counted by (intro bans_ok_put [OF vote.IH assms(1) vote.hyps(2) counted(1)]) (auto simp: SetBanVoter_def)
  next
    case (banned v0 toBan active)
    have "kv_key (banNodeAddress v0) = kv_key (mnNodeAddress m)" by (rule read_ban_voter(1) [OF vote.IH banned(1)])
    then show ?thesis
      by (intro bans_ok_put [OF vote.IH assms(1) vote.hyps(2) banned(1), where v = "(BanVoter_Sign K v0 (mnSigner m))\<lparr>banBlockHeight := BlockHeight c\<rparr>"])
        (auto simp: enforce_ban_bans [OF banned(8)] SetBanVoter_def kv_set_def)
  qed
qed (auto simp: bans_ok_def)

lemma consensus_signers:
  assumes "BanVoter_HasConsensus K v active" and "length active < 2 ^ 61"
    and "distinct (parse_accs K (banSigners v))" and "set (parse_accs K (banSigners v)) \<subseteq> A"
  shows "2 * length active \<le> 3 * card (active_of active A)"
proof -
  have "count_votes K active (banSigners v) = int (card (set (filter (IsNodeKeys active) (parse_accs K (banSigners v)))))"
    using assms(3) by (simp add: count_votes_def distinct_card del: set_filter)
  also have "\<dots> \<le> int (card (active_of active A))"
  proof -
    have "finite (active_of active A)" using active_nodes_bound [of active] by (auto simp: active_of_def intro: finite_subset)
    then show ?thesis using assms(4) by (simp, intro card_mono) (auto simp: active_of_def)
  qed
  finally show ?thesis using assms(1,2) super_majority_iff [of "int (length active)"] by (auto simp: BanVoter_HasConsensus_def)
qed

lemma enforce_ban_settles:
  assumes laws: "bank_laws B" and ok: "nodes_ok (adNode s)" and na: "GetNodeAccount c (adNode s) a = Inr na" "NodeAccount_Valid na = Inr ()"
    and run: "enforce_ban B c s na = Inr s'"
  shows "settles B (adBond s) 0 (adBond s')"
proof -
  define slash where "slash = GetConfigInt64 c (bsKeeper (adBond s)) ''BondSlashBan''"
  define amt where "amt = (if slash > 0 then (if uint64_of slash > naBond na then naBond na else uint64_of slash) else 0)"
  define na1 where "na1 = na\<lparr>ForcedToLeave := True, LeaveScore := 1, naBond := naBond na - amt\<rparr>"
  have cur: "current (adNode s) na" by (rule GetNodeAccount_current [OF ok na(1)])
  have ne: "\<not> NodeAccount_IsEmpty na1" using na(2) by (auto simp: NodeAccount_Valid_def NodeAccount_IsEmpty_def na1_def split: if_splits)
  have le: "amt \<le> naBond na" by (simp add: amt_def)
  have bond: "bonded (SetNodeAccount c (adNode s) na1) + amt = bonded (adNode s)"
    using bonded_set [OF cur, of na1 c] ne le by (simp add: na1_def)
  obtain b where s': "adBond s' = put_nodes ((adBond s)\<lparr>bsBank := b\<rparr>) (SetNodeAccount c (adNode s) na1)"
    and b: "b = bsBank (adBond s) \<and> amt = 0 \<or> SendFromModuleToModule B (bsBank (adBond s)) BondName ReserveName (NewCoin SwitchNative amt) = Inr b"
  proof (cases "slash > 0")
    case True
    then obtain b where "SendFromModuleToModule B (bsBank (adBond s)) BondName ReserveName (NewCoin SwitchNative amt) = Inr b"
      and "s' = put_node_account c (s\<lparr>adBond := (adBond s)\<lparr>bsBank := b\<rparr>\<rparr>) na1"
      using run by (auto simp: enforce_ban_def Let_def res_simps slash_def [symmetric] amt_def na1_def SafeSub_def cong: if_cong)
    then show ?thesis by (intro that [of b]) (auto simp: put_node_account_def)
  next
    case False
    then show ?thesis using run
      by (intro that [of "bsBank (adBond s)"]) (auto simp: enforce_ban_def Let_def slash_def [symmetric] amt_def na1_def put_node_account_def)
  qed
  have "module_funds B (adBond s) \<le> module_funds B (adBond s') + amt"
    using b bank_laws.balance_of_sender(2) [OF laws] by (auto simp: s' module_funds_def transfer_defs NewCoin_def)
  then show ?thesis using bond ok by (auto simp: settles_def s' nodes_ok_set intro!: exI [of _ amt])
qed

section \<open>Properties\<close>

text \<open>C16. A ban changes a node account only when messages about this node were signed by two thirds of the active
  validators, counting each once, and the bond module still holds all bonds afterwards.\<close>

theorem ban_needs_two_thirds:
  assumes "keys_ok K" and "bank_laws B" and "ban_run K B H s" and "acc_ok (mnSigner m)"
    and "Ban_validate c s m = Inr ()" and "Ban_handle K B c s m = Inr s'" and "adBond s' \<noteq> adBond s"
    and "backed B (adBond s)" and "ListActiveValidators (adNode s) = Inr active" and "length active < 2 ^ 61"
  shows "2 * length active \<le> 3 * card (active_of active (ban_signers (insert (mnSigner m, mnNodeAddress m) H) (kv_key (mnNodeAddress m))))
    \<and> backed B (adBond s')"
  using assms(6)
proof (cases rule: ban_cases)
  case (banned v0 toBan act)
  have ok: "bans_ok K H s" by (rule ban_run_ok [OF assms(1,3)])
  note r = read_ban_voter [OF ok banned(1)]
  note v = ban_voter_kept [OF assms(1,4) r(2,3)]
  have "insert (mnSigner m) (ban_signers H (kv_key (mnNodeAddress m))) \<subseteq> ban_signers (insert (mnSigner m, mnNodeAddress m) H) (kv_key (mnNodeAddress m))"
    by (auto simp: ban_signers_def)
  with v(2) have sub: "set (parse_accs K (banSigners (BanVoter_Sign K v0 (mnSigner m)))) \<subseteq> ban_signers (insert (mnSigner m, mnNodeAddress m) H) (kv_key (mnNodeAddress m))" by blast
  have nodes: "nodes_ok (adNode s)" using assms(8) by (simp add: backed_def)
  have "settles B (adBond s) 0 (adBond s')" using enforce_ban_settles [OF assms(2) _ _ banned(5,8)] nodes banned(2) by simp
  then show ?thesis using consensus_signers [OF banned(4) _ v(1) sub] banned(3) assms(8-10) by (auto intro: settles_backed)
qed (use assms(7) in simp_all)


section \<open>A ban\<close>

definition ban_start :: "plain_bank admin_state" where
  "ban_start = \<lparr>adBond = \<lparr>bsVault = \<lparr>vsNode = \<lparr>msKeeper = empty_kstore\<lparr>kMimirs := [''BONDSLASHBAN'' \<mapsto> Stored 2]\<rparr>, msVotes = Map.empty,
       msNodes = [(''A'', Stored (mimir_node ''A'')), (''N'', Stored ((node_with ''n'' 3)\<lparr>naStatus := NodeStatus_Standby\<rparr>))], msSlashPoints = Map.empty\<rparr>,
       vsVaults = [], vsAsgard = Map.empty, vsTxOuts = Map.empty\<rparr>,
     bsProviders = Map.empty, bsJails = Map.empty, bsBank = bank_of 0 103 0\<rparr>, adBans = Map.empty, adPauses = Map.empty\<rparr>"

definition demo_ban :: msg_ban where
  "demo_ban = \<lparr>mnNodeAddress = ''n'', mnSigner = ''A''\<rparr>"

definition banned_node :: node_account where
  "banned_node = (node_with ''n'' 3)\<lparr>naStatus := NodeStatus_Standby\<rparr>"

definition ban_vote :: ban_voter where
  "ban_vote = \<lparr>banNodeAddress = ''n'', banBlockHeight = 0, banSigners = [''A'']\<rparr>"

lemma ban_reads:
  "GetNodeAccount mimir_ctx (adNode ban_start) ''n'' = Inr banned_node" "GetNodeAccount mimir_ctx (adNode ban_start) ''A'' = Inr (mimir_node ''A'')"
  "ListActiveValidators (adNode ban_start) = Inr [mimir_node ''A'']" "NodeAccount_Valid banned_node = Inr ()" "NodeAccount_Valid (mimir_node ''A'') = Inr ()"
  "\<not> ForcedToLeave banned_node" "naStatus banned_node = NodeStatus_Standby" "naBond banned_node = 3"
  "GetConfigInt64 mimir_ctx (bsKeeper (adBond ban_start)) ''BondSlashBan'' = 2" "NodeAddress banned_node = ''n''" "cVersion3 mimir_ctx"
proof -
  have keys: "kv_key ''n'' = ''N''" "kv_key ''A'' = ''A''" "kv_key ''BondSlashBan'' = ''BONDSLASHBAN''" "\<not> Address_IsEmpty ''A''" "\<not> Address_IsEmpty ''switch1op''" by code_simp+
  note d = ban_start_def banned_node_def GetNodeAccount_def kv_get_def keys node_with_def mimir_node_def NewNodeAccount_def UpdateStatus_def
    ListActiveValidators_def ListValidatorsByStatus_def NodeAccount_Valid_def GetConfigInt64_def GetMimir_def mimir_ctx_def
  show "GetNodeAccount mimir_ctx (adNode ban_start) ''n'' = Inr banned_node" "GetNodeAccount mimir_ctx (adNode ban_start) ''A'' = Inr (mimir_node ''A'')"
    "ListActiveValidators (adNode ban_start) = Inr [mimir_node ''A'']" "NodeAccount_Valid banned_node = Inr ()" "NodeAccount_Valid (mimir_node ''A'') = Inr ()"
    "\<not> ForcedToLeave banned_node" "naStatus banned_node = NodeStatus_Standby" "naBond banned_node = 3"
    "GetConfigInt64 mimir_ctx (bsKeeper (adBond ban_start)) ''BondSlashBan'' = 2" "NodeAddress banned_node = ''n''" "cVersion3 mimir_ctx"
    by (simp_all add: d)
qed

lemma ban_votes:
  "BanVoter_Sign plain_keys (NewBanVoter ''n'') ''A'' = ban_vote" "BanVoter_Sign plain_keys (ban_vote\<lparr>banBlockHeight := h\<rparr>) ''A'' = ban_vote\<lparr>banBlockHeight := h\<rparr>"
  "BanVoter_HasConsensus plain_keys (ban_vote\<lparr>banBlockHeight := h\<rparr>) [mimir_node ''A'']" "BanVoter_HasConsensus plain_keys ban_vote [mimir_node ''A'']"
proof -
  have p: "parse_accs plain_keys [''A''] = [''A'']" "parse_accs plain_keys [] = []" "IsNodeKeys [mimir_node ''A''] ''A''" "HasSuperMajority 1 1" "acc_string plain_keys ''A'' = ''A''" by code_simp+
  note d = BanVoter_Sign_def NewBanVoter_def ban_vote_def has_signed_def BanVoter_HasConsensus_def count_votes_def p
  show "BanVoter_Sign plain_keys (NewBanVoter ''n'') ''A'' = ban_vote" "BanVoter_Sign plain_keys (ban_vote\<lparr>banBlockHeight := h\<rparr>) ''A'' = ban_vote\<lparr>banBlockHeight := h\<rparr>"
    "BanVoter_HasConsensus plain_keys (ban_vote\<lparr>banBlockHeight := h\<rparr>) [mimir_node ''A'']" "BanVoter_HasConsensus plain_keys ban_vote [mimir_node ''A'']"
    by (simp_all add: d)
qed

lemma ban_runs:
  "\<exists>s'. Ban_handle plain_keys plain_bank mimir_ctx ban_start demo_ban = Inr s' \<and> adBond s' \<noteq> adBond ban_start
     \<and> adBans s' = [''N'' \<mapsto> Stored (ban_vote\<lparr>banBlockHeight := 10\<rparr>)]"
proof -
  have key: "kv_key ''n'' = ''N''" by code_simp
  have amt: "uint64_of 2 = 2" by (simp add: uint64_of_def)
  have name: "BondName = ''bond''" "ReserveName = ''reserve''" by (simp_all add: BondName_def ReserveName_def)
  have h: "BlockHeight mimir_ctx = 10" by (simp add: mimir_ctx_def)
  obtain b where b: "SendFromModuleToModule plain_bank (bsBank (adBond ban_start)) BondName ReserveName (NewCoin SwitchNative 2) = Inr b"
    by (simp add: SendFromModuleToModule_def plain_bank_def ban_start_def bank_of_def name Let_def)
  let ?v = "SetBanVoter (SetBanVoter ban_start ban_vote) (ban_vote\<lparr>banBlockHeight := 10\<rparr>)"
  let ?s = "put_node_account mimir_ctx (?v\<lparr>adBond := (adBond ban_start)\<lparr>bsBank := b\<rparr>\<rparr>)
    (banned_node\<lparr>ForcedToLeave := True, LeaveScore := 1, naBond := 1\<rparr>)"
  have "GetBanVoter ban_start ''n'' = Inr (NewBanVoter ''n'')" by (simp add: GetBanVoter_def kv_get_def ban_start_def)
  then have "Ban_handle plain_keys plain_bank mimir_ctx ban_start demo_ban = enforce_ban plain_bank mimir_ctx ?v banned_node"
    by (simp add: Ban_handle_def demo_ban_def ban_reads ban_votes Let_def h) (simp add: ban_vote_def)
  also have "\<dots> = Inr ?s" using b by (simp add: enforce_ban_def ban_reads amt Let_def)
  finally have run: "Ban_handle plain_keys plain_bank mimir_ctx ban_start demo_ban = Inr ?s" .
  have "map_of (msNodes (adNode ?s)) ''N'' \<noteq> map_of (msNodes (adNode ban_start)) ''N''"
    using ban_reads(6,7,10) by (simp add: put_node_account_def SetNodeAccount_nodes key NodeAccount_IsEmpty_def ban_start_def banned_node_def node_with_def NewNodeAccount_def UpdateStatus_def)
  then have "adBond ?s \<noteq> adBond ban_start" by metis
  moreover have "adBans ?s = [''N'' \<mapsto> Stored (ban_vote\<lparr>banBlockHeight := 10\<rparr>)]"
    by (simp add: SetBanVoter_def kv_set_def ban_vote_def key ban_start_def)
  ultimately show ?thesis using run by blast
qed

theorem ban_needs_two_thirds_witness:
  "\<exists>s'. Ban_handle plain_keys plain_bank mimir_ctx ban_start demo_ban = Inr s' \<and> backed plain_bank (adBond s')
     \<and> 2 * 1 \<le> 3 * card (active_of [mimir_node ''A''] (ban_signers {(''A'', ''n'')} (kv_key ''n'')))"
proof -
  obtain s' where s': "Ban_handle plain_keys plain_bank mimir_ctx ban_start demo_ban = Inr s'" "adBond s' \<noteq> adBond ban_start" using ban_runs by blast
  have keys: "kv_key ''n'' = ''N''" "kv_key ''A'' = ''A''" by code_simp+
  have "ban_run plain_keys plain_bank {} ban_start" by (rule ban_run.start) (simp add: ban_start_def)
  moreover have "Ban_validate mimir_ctx ban_start demo_ban = Inr ()"
    using ban_reads(2) by (simp add: Ban_validate_def MsgBan_ValidateBasic_def demo_ban_def isSignedByActiveNodeAccounts_def signedByActiveNodeAccount_def
        ban_reads(11) guard_err_def) (simp add: mimir_node_def NewNodeAccount_def UpdateStatus_def NodeAccount_IsEmpty_def)
  moreover have "backed plain_bank (adBond ban_start)"
    by (simp add: backed_def module_funds_def transfer_defs plain_bank_def ban_start_def bank_of_def BondName_def nodes_ok_def bonded_def kv_total_def
        keys node_with_def mimir_node_def NewNodeAccount_def UpdateStatus_def NodeAccount_IsEmpty_def)
  ultimately show ?thesis
    using ban_needs_two_thirds [of plain_keys plain_bank "{}" ban_start demo_ban mimir_ctx s' "[mimir_node ''A'']"] s' ban_reads(3)
      plain_keys_ok plain_bank.bank_laws_axioms by (simp add: demo_ban_def acc_ok_def)
qed


section \<open>The removal of low bonds\<close>

definition low_slot :: "node_account slot \<Rightarrow> bool" where
  "low_slot sl = (case sl of Stored na \<Rightarrow> low_bond na | Corrupt \<Rightarrow> False)"

definition bonds_in :: "(string \<times> node_account slot) list \<Rightarrow> nat" where
  "bonds_in q = (\<Sum>(k, sl) \<leftarrow> q. slot_val naBond (Some sl))"

lemma bonds_in_simps [simp]: "bonds_in [] = 0" "bonds_in ((k, sl) # q) = slot_val naBond (Some sl) + bonds_in q"
  by (simp_all add: bonds_in_def)

lemma bonded_list: "distinct (map fst q) \<Longrightarrow> kv_total naBond (map_of q) = bonds_in q"
proof (induction q)
  case (Cons e q)
  obtain k sl where e: "e = (k, sl)" by fastforce
  have new: "k \<notin> dom (map_of q)" using Cons.prems by (simp add: e dom_map_of_conv_image_fst)
  have "kv_total naBond (map_of (e # q)) = slot_val naBond (Some sl) + (\<Sum>j \<in> dom (map_of q). slot_val naBond (((map_of q)(k \<mapsto> sl)) j))"
    using new by (simp add: e kv_total_def finite_dom_map_of)
  also have "(\<Sum>j \<in> dom (map_of q). slot_val naBond (((map_of q)(k \<mapsto> sl)) j)) = kv_total naBond (map_of q)"
    unfolding kv_total_def using new by (intro sum.cong) auto
  finally show ?case using Cons by (simp add: e)
qed (simp add: kv_total_def)

lemma bonds_in_split: "bonds_in q = bonds_in (filter P q) + bonds_in (filter (\<lambda>e. \<not> P e) q)"
  by (induction q) (auto split: prod.splits)

lemma pay_providers_spends:
  assumes "bank_laws B" and "pay_providers B ps b sent = (b', Inr t)"
  shows "GetSWITCHBalanceOfModule B b BondName + sent \<le> GetSWITCHBalanceOfModule B b' BondName + t"
  using assms(2)
proof (induction ps arbitrary: b sent)
  case (Cons p ps)
  show ?case
  proof (cases "bpBond p = 0 \<or> BondAddress p = []")
    case True
    with Cons show ?thesis by simp
  next
    case False
    show ?thesis
    proof (cases "SendFromModuleToAccount B b BondName (BondAddress p) (NewCoin SwitchNative (bpBond p))")
      case (Inl e)
      with Cons False show ?thesis by (cases e) auto
    next
      case (Inr b1)
      with Cons.prems False obtain t1 where t1: "uint_add sent (bpBond p) = Inr t1" "pay_providers B ps b1 t1 = (b', Inr t)"
        by (auto split: sum.splits)
      have "GetSWITCHBalanceOfModule B b1 BondName + t1 \<le> GetSWITCHBalanceOfModule B b' BondName + t"
        by (rule Cons.IH [OF t1(2)])
      moreover have "GetSWITCHBalanceOfModule B b BondName \<le> GetSWITCHBalanceOfModule B b1 BondName + bpBond p"
        using bank_laws.balance_of_sender(2) [OF assms(1)] Inr by (simp add: transfer_defs NewCoin_def)
      ultimately show ?thesis using t1(1) by (simp add: uint_add_Inr)
    qed
  qed
qed simp

lemma return_bond_spends:
  assumes laws: "bank_laws B" and run: "return_bond D K B s na = (s', Inr ())"
  shows "bsVault s' = bsVault s \<and> module_funds B s \<le> module_funds B s' + naBond na"
proof -
  from run obtain bps to' where bps: "GetBondProviders s (NodeAddress na) = Inr bps" "acc_from_bech32 K (naBondAddress na) = Some to'"
    by (auto simp: return_bond_def split: sum.splits option.splits)
  show ?thesis
  proof (cases "Providers bps = []")
    case True
    show ?thesis
    proof (cases "SendFromModuleToAccount B (bsBank s) BondName to' (NewCoin SwitchNative (naBond na))")
      case (Inl e)
      with run bps True show ?thesis by (cases e) (auto simp: return_bond_def)
    next
      case (Inr b)
      with run bps True have "s' = s\<lparr>bsBank := b\<rparr>" by (simp add: return_bond_def)
      with module_pays [OF laws Inr, of s] show ?thesis by simp
    qed
  next
    case False
    with run bps obtain bps1 where a: "BondProviders_Adjust D bps (naBond na) = Inr bps1"
      by (auto simp: return_bond_def split: sum.splits)
    obtain b r where pp: "pay_providers B (Providers bps1) (bsBank s) 0 = (b, r)" by fastforce
    with run bps False a obtain sent where r: "r = Inr sent" by (cases r) (auto simp: return_bond_def)
    with run bps False a pp have p: "pay_providers B (Providers bps1) (bsBank s) 0 = (b, Inr sent)" "sent \<le> naBond na"
      and s': "s' = s\<lparr>bsBank := b, bsProviders := kv_del (bsProviders s) (kv_key (NodeAddress na))\<rparr>"
      by (auto simp: return_bond_def not_less split: if_splits)
    with pay_providers_spends [OF laws p(1)] show ?thesis by (simp add: module_funds_def)
  qed
qed

lemma low_bond_loop_spends:
  assumes laws: "bank_laws B" and run: "low_bond_loop D K B q s = (s', Inr ks)"
  shows "ks = map fst (filter (\<lambda>(k, sl). low_slot sl) q) \<and> bsVault s' = bsVault s
    \<and> module_funds B s \<le> module_funds B s' + bonds_in (filter (\<lambda>(k, sl). low_slot sl) q)"
  using run
proof (induction q arbitrary: s ks)
  case (Cons e q)
  obtain k sl where e: "e = (k, sl)" by fastforce
  with Cons.prems obtain na where sl: "sl = Stored na" by (cases sl) auto
  show ?case
  proof (cases "low_bond na")
    case False
    with Cons e sl show ?thesis by (simp add: low_slot_def)
  next
    case True
    obtain s1 r where s1: "(if naBond na = 0 then (s, Inr ()) else return_bond D K B s na) = (s1, r)" by fastforce
    with Cons.prems e sl True obtain ks1 where r: "r = Inr ()" and rest: "low_bond_loop D K B q s1 = (s', Inr ks1)" "ks = k # ks1"
      by (cases r) (auto simp: res_simps split: prod.splits)
    have "bsVault s1 = bsVault s \<and> module_funds B s \<le> module_funds B s1 + naBond na"
    proof (cases "naBond na = 0")
      case False
      with s1 r return_bond_spends [OF laws, of D K s na s1] show ?thesis by simp
    qed (use s1 in auto)
    with Cons.IH [OF rest(1)] rest(2) True show ?thesis by (simp add: e sl low_slot_def)
  qed
qed simp

text \<open>C9. The removal deletes exactly the accounts of validators that are not active and have a bond of at most one SWITCH, and
  the bond module still holds the bonds of the others.\<close>

theorem low_bond_removed:
  assumes "bank_laws B" and "backed B s" and "distinct (map fst (msNodes (bsNode s)))"
    and "RemoveLowBondValidatorAccounts D K B s = (s', Inr ())"
  shows "backed B s' \<and> (\<forall>k na. map_of (msNodes (bsNode s')) k = Some (Stored na)
     \<longleftrightarrow> map_of (msNodes (bsNode s)) k = Some (Stored na) \<and> \<not> low_bond na)"
proof -
  let ?q = "msNodes (bsNode s)"
  let ?low = "\<lambda>(k :: string, sl). low_slot sl"
  from assms(4) obtain s1 ks where run: "low_bond_loop D K B ?q s = (s1, Inr ks)"
    and s': "s' = put_nodes s1 ((bsNode s1)\<lparr>msNodes := filter (\<lambda>(k, _). k \<notin> set ks) (msNodes (bsNode s1))\<rparr>)"
    by (auto simp: RemoveLowBondValidatorAccounts_def split: prod.splits sum.splits)
  note sp = low_bond_loop_spends [OF assms(1) run]
  have mem: "k \<in> set ks \<longleftrightarrow> low_slot sl" if "(k, sl) \<in> set ?q" for k sl
    using that assms(3) sp eq_key_imp_eq_value [OF assms(3)] by (auto simp: image_iff)
  have nodes: "msNodes (bsNode s') = filter (\<lambda>e. \<not> ?low e) ?q"
  proof -
    have "bsNode s1 = bsNode s" using sp by simp
    then show ?thesis using mem by (auto simp: s' intro!: filter_cong)
  qed
  have dist: "distinct (map fst (msNodes (bsNode s')))" using assms(3) by (simp add: nodes distinct_map_filter)
  have look: "map_of (msNodes (bsNode s')) k = Some sl \<longleftrightarrow> map_of ?q k = Some sl \<and> \<not> low_slot sl" for k sl
    using dist assms(3) by (auto simp: nodes map_of_eq_Some_iff)
  have "bonded (bsNode s) = bonds_in (filter ?low ?q) + bonded (bsNode s')"
    using bonds_in_split [of ?q ?low] bonded_list [OF assms(3)] bonded_list [OF dist] by (simp add: bonded_def nodes)
  moreover have "module_funds B s' = module_funds B s1" by (simp add: s')
  ultimately have "bonded (bsNode s') \<le> module_funds B s'" using sp assms(2) by (simp add: backed_def)
  moreover have "nodes_ok (bsNode s')" using assms(2) look unfolding backed_def nodes_ok_def by blast
  ultimately show ?thesis using look by (simp add: backed_def low_slot_def)
qed

definition low_start :: "nat \<Rightarrow> plain_bank \<Rightarrow> plain_bank bond_state" where
  "low_start n b = \<lparr>bsVault = \<lparr>vsNode = \<lparr>msKeeper = empty_kstore, msVotes = Map.empty,
       msNodes = [(''N'', Stored ((node_with ''n'' n)\<lparr>naStatus := NodeStatus_Standby\<rparr>))], msSlashPoints = Map.empty\<rparr>,
       vsVaults = [], vsAsgard = Map.empty, vsTxOuts = Map.empty\<rparr>,
     bsProviders = [''N'' \<mapsto> Stored demo_providers], bsJails = Map.empty, bsBank = b\<rparr>"

definition spread :: "nat \<Rightarrow> nat \<Rightarrow> plain_bank" where
  "spread x y = ((\<lambda>a d. if d = Asset_Native SwitchNative then if a = ''module/bond'' then x
      else if a = ''a'' \<or> a = ''b'' \<or> a = ''c'' then y else 0 else 0), \<lambda>_. 0)"

lemma spread_pays:
  assumes "36 \<le> x"
  shows "pay_providers plain_bank [\<lparr>BondAddress = ''n'', bpBond = 0\<rparr>, \<lparr>BondAddress = ''a'', bpBond = 12\<rparr>,
      \<lparr>BondAddress = ''b'', bpBond = 12\<rparr>, \<lparr>BondAddress = ''c'', bpBond = 12\<rparr>] (spread x y) 0 = (spread (x - 36) (y + 12), Inr 36)"
  using assms by (auto simp: SendFromModuleToAccount_def plain_bank_def spread_def BondName_def NewCoin_def bank_put_def uint_eval Let_def fun_eq_iff)

lemma low_attempt:
  assumes "36 \<le> x"
  shows "RemoveLowBondValidatorAccounts legacy_dec plain_keys plain_bank (low_start 35 (spread x y))
    = (low_start 35 (spread (x - 36) (y + 12)), Inl (Err ''total bond returned greater than node bond''))"
proof -
  let ?na = "(node_with ''n'' 35)\<lparr>naStatus := NodeStatus_Standby\<rparr>" and ?s = "low_start 35 (spread x y)"
  have key: "kv_key ''n'' = ''N''" by code_simp
  have na: "NodeAddress ?na = ''n''" "naBond ?na = 35" "naBondAddress ?na = ''switch1op''" "low_bond ?na"
    by (simp_all add: node_with_def NewNodeAccount_def UpdateStatus_def low_bond_def One_def)
  have "return_bond legacy_dec plain_keys plain_bank ?s ?na = (low_start 35 (spread (x - 36) (y + 12)), Inl (Err ''total bond returned greater than node bond''))"
    using spread_pays [OF assms, of y] demo_adjust na
    by (simp add: return_bond_def GetBondProviders_def kv_get_def key low_start_def plain_keys_def) (simp add: demo_providers_def)
  then show ?thesis using na by (simp add: RemoveLowBondValidatorAccounts_def low_start_def)
qed


text \<open>The same account with no providers is paid and removed.\<close>

theorem low_bond_removed_witness:
  "\<exists>s'. RemoveLowBondValidatorAccounts legacy_dec plain_keys plain_bank ((low_start 35 (spread 40 0))\<lparr>bsProviders := Map.empty\<rparr>) = (s', Inr ())
     \<and> backed plain_bank s' \<and> map_of (msNodes (bsNode s')) ''N'' = None"
proof -
  let ?s = "(low_start 35 (spread 40 0))\<lparr>bsProviders := Map.empty\<rparr>" and ?na = "(node_with ''n'' 35)\<lparr>naStatus := NodeStatus_Standby\<rparr>"
  have key: "kv_key ''n'' = ''N''" by code_simp
  have na: "NodeAddress ?na = ''n''" "naBond ?na = 35" "naBondAddress ?na = ''switch1op''" "low_bond ?na"
    by (simp_all add: node_with_def NewNodeAccount_def UpdateStatus_def low_bond_def One_def)
  obtain b where b: "SendFromModuleToAccount plain_bank (spread 40 0) BondName ''switch1op'' (NewCoin SwitchNative 35) = Inr b"
    by (simp add: SendFromModuleToAccount_def plain_bank_def spread_def BondName_def NewCoin_def Let_def)
  have "return_bond legacy_dec plain_keys plain_bank ?s ?na = (?s\<lparr>bsBank := b\<rparr>, Inr ())"
    using b na by (simp add: return_bond_def GetBondProviders_def kv_get_def low_start_def plain_keys_def NewBondProviders_def)
  then obtain s' where run: "RemoveLowBondValidatorAccounts legacy_dec plain_keys plain_bank ?s = (s', Inr ())" and none: "msNodes (bsNode s') = []"
    using na by (simp add: RemoveLowBondValidatorAccounts_def low_start_def)
  have "backed plain_bank ?s"
    by (simp add: backed_def bonded_def kv_total_def nodes_ok_def low_start_def node_with_def NewNodeAccount_def UpdateStatus_def NodeAccount_IsEmpty_def key
        module_funds_def transfer_defs plain_bank_def spread_def BondName_def)
  with low_bond_removed [OF plain_bank.bank_laws_axioms _ _ run] none run show ?thesis by (auto simp: low_start_def)
qed

section \<open>Keys and pauses\<close>

text \<open>No key belongs to two nodes; nodes that have not set their keys have none.\<close>

definition keys_apart :: "node_account \<Rightarrow> node_account \<Rightarrow> bool" where
  "keys_apart x y \<longleftrightarrow> (ValidatorConsPubKey x = ValidatorConsPubKey y \<longrightarrow> ValidatorConsPubKey x = [])
     \<and> (\<forall>pk. PubKeySet_Contains (naPubKeySet x) pk \<longrightarrow> PubKeySet_Contains (naPubKeySet y) pk \<longrightarrow> pk = [])"

definition node_keys_unique :: "mimir_state \<Rightarrow> bool" where
  "node_keys_unique n \<longleftrightarrow> (\<forall>k x k' y. map_of (msNodes n) k = Some (Stored x) \<longrightarrow> map_of (msNodes n) k' = Some (Stored y) \<longrightarrow> k \<noteq> k' \<longrightarrow> keys_apart x y)"

lemma keys_unused_node:
  assumes "keys_unused cpk pks q = Inr ()" and "(k, Stored na) \<in> set q"
  shows "ValidatorConsPubKey na \<noteq> cpk \<and> \<not> PubKeySet_Contains (naPubKeySet na) (Secp256k1 pks) \<and> \<not> PubKeySet_Contains (naPubKeySet na) (Ed25519 pks)"
  using assms by (induction cpk pks q rule: keys_unused.induct) (auto split: if_splits)

text \<open>A validated message that sets the keys of a node keeps every key with at most one node.\<close>

theorem node_keys_stay_unique:
  assumes "node_keys_unique n" and "SetNodeKeys_validate cons_addr K c n m = Inr ()" and "SetNodeKeys_handle c n m = Inr n'"
  shows "node_keys_unique n'"
proof -
  have unused: "keys_unused (skValidatorConsPubKey m) (skPubKeySetSet m) (msNodes n) = Inr ()"
    using assms(2) by (auto simp: SetNodeKeys_validate_def res_bind_Inr EnsureNodeKeysUnique_def split: if_splits)
  from assms(3) obtain na where na: "GetNodeAccount c n (skSigner m) = Inr na"
    and n': "n' = SetNodeAccount c n ((UpdateStatus na NodeStatus_Standby (BlockHeight c))
      \<lparr>naPubKeySet := skPubKeySetSet m, ValidatorConsPubKey := skValidatorConsPubKey m\<rparr>)"
    by (auto simp: SetNodeKeys_handle_def split: if_splits sum.splits)
  have other: "keys_apart x y \<and> keys_apart y x"
    if "map_of (msNodes n) k = Some (Stored x)" "naPubKeySet y = skPubKeySetSet m" "ValidatorConsPubKey y = skValidatorConsPubKey m" for k x y
    using keys_unused_node [OF unused map_of_SomeD [OF that(1)]] that(2,3) by (auto simp: PubKeySet_Contains_def keys_apart_def)
  define na1 where "na1 = (UpdateStatus na NodeStatus_Standby (BlockHeight c))\<lparr>naPubKeySet := skPubKeySetSet m, ValidatorConsPubKey := skValidatorConsPubKey m\<rparr>"
  define new where "new = (if naStatus na1 = NodeStatus_Active \<and> ActiveBlockHeight na1 = 0 then na1\<lparr>ActiveBlockHeight := BlockHeight c\<rparr> else na1)"
  have new: "naPubKeySet new = skPubKeySetSet m" "ValidatorConsPubKey new = skValidatorConsPubKey m" by (simp_all add: new_def na1_def)
  have look: "map_of (msNodes n') = (map_of (msNodes n))(kv_key (NodeAddress na1) \<mapsto> Stored new) \<or> map_of (msNodes n') = map_of (msNodes n)"
    unfolding n' na1_def [symmetric] SetNodeAccount_nodes new_def by simp
  have old: "node_keys_unique n'" if "map_of (msNodes n') = map_of (msNodes n)" using that assms(1) by (simp add: node_keys_unique_def)
  have "node_keys_unique n'" if upd: "map_of (msNodes n') = (map_of (msNodes n))(kv_key (NodeAddress na1) \<mapsto> Stored new)"
    using assms(1) other [OF _ new] unfolding node_keys_unique_def upd by (simp split: if_splits)
  with old look show ?thesis by blast
qed

text \<open>A node that used its pause after the last churn cannot pause or resume again before the next one.\<close>

theorem pause_once_per_churn:
  assumes "NodePauseChain_handle K c s m = Inr s'" and "npValue m > 0"
    and "GetAsgardVaultsByStatus K c' (bsVault (adBond t)) VaultStatus_ActiveVault = Inr vs" and "last_churn vs < BlockHeight c"
    and "adPauses t = adPauses s'" and "npSigner m' = npSigner m"
  shows "\<exists>e. NodePauseChain_handle K c' t m' = Inl e"
proof -
  have "adPauses s' = kv_set (adPauses s) (kv_key (npSigner m)) (BlockHeight c)"
    using assms(1,2) by (auto simp: NodePauseChain_handle_def res_bind_Inr pause_choice_def SetNodePauseChain_def Let_def split: if_splits)
  then have "GetNodePauseChain t (npSigner m') = BlockHeight c" using assms(5,6) by (simp add: GetNodePauseChain_def kv_get_or_def kv_get_def kv_set_def)
  with assms(3,4) show ?thesis by (simp add: NodePauseChain_handle_def res_bind_simps)
qed

end
