(* ===== verification/Spec2Isabelle.thy ===== *)
theory Spec2Isabelle
  imports Swapper Vote_Records Vaults Trade_Accounts Liquidity_Claims Pool_Units Swap_Queue Secured_Assets
    Bonding Outbounds Inbound Upgrades Slashing Node_Admin
begin

text \<open>
  \<^bold>\<open>switchlynode: a verification library\<close>

  The program is the node of a cross-chain liquidity network. Validators observe transactions on external
  chains and vote on them; once enough of them agree, a state machine (\<^verbatim>\<open>src/x/switchly\<close>) swaps, adds
  and withdraws liquidity, keeps trade accounts and secured assets, and schedules outbound transactions
  from vaults that the validators sign together. \<^verbatim>\<open>src/common\<close> has the vocabulary (assets, coins,
  addresses, transactions) and the rounding arithmetic, \<^verbatim>\<open>src/constants\<close> the network constants, and
  \<^verbatim>\<open>src/bifrost\<close> the processes that talk to the external chains.

  \<^bold>\<open>How the model is written.\<close> A Go function is a definition of the same name (methods carry their type
  where names clash: \<open>Coins_Add\<close>, \<open>Trade_Deposit\<close>). A function that can fail returns \<open>res\<close>: \<open>Inl (Err m)\<close>
  is a returned error, \<open>Inl (Panic m)\<close> a run time panic. \<open>cosmos.Uint\<close> is \<open>nat\<close> with the panics of the SDK
  at 256 bits written out (\<open>uint_add\<close>, \<open>uint_mul\<close>, ...); \<open>int64\<close> is \<open>int\<close> with \<open>i64\<close> where it may wrap, or
  \<open>64 word\<close> for counters and indices; strings are \<open>string\<close>. The store of a component is a record of maps
  from keys to slots (\<open>kv\<close>), where a slot may hold bytes that do not decode (\<open>Corrupt\<close>). Loops are folds or
  structural recursions, so every operation is total. Logging, events and telemetry do not change state
  and are left out.

  \<^bold>\<open>Code that is not in the repository\<close> is a parameter with named laws. \<open>dec_lib\<close> is the decimal type of
  the SDK with \<open>dec_laws\<close> (rounding to nearest at 18 digits, range of 315 bits), interpreted on the
  implementation of the SDK as \<open>legacy\<close>. \<open>addr_lib\<close> holds the decoders of the external chains, \<open>key_lib\<close>
  bech32 text of keys and accounts, \<open>memo_lib\<close> these with the reader of unsigned integers of the SDK,
  \<open>inbound_env\<close> also the mapping of foreign bech32 addresses, the token lists and the order of the pool
  iterator, \<open>bank_lib\<close> with \<open>bank_laws\<close> the bank module; versions (\<open>semver\<close>, \<open>semver_lib\<close>), the upgrade module of the
  SDK (\<open>accepts\<close>) and consensus keys (\<open>cons_addr\<close>) are arguments of the operations that use them. The
  iteration order of a Go map is the argument \<open>it\<close>, of which only \<open>map_iteration\<close> is assumed. The record \<open>ctx\<close>
  has the height, the build's constants and network, and what other modules answer (supplies, module
  addresses); \<open>swap_env\<close> what the end of a block takes from the swapper, the memo parser and the table of
  aggregators.

  \<^bold>\<open>Theories\<close>, in order of dependency:
  \<^item> Prelude: results, checked arithmetic, 64 bit wrap-around, integer roots, stable sorting, text; the
    collections \<open>res_simps\<close> and \<open>uint_simps\<close>.
  \<^item> Shares, Numerics, Decimal_Text: \<^verbatim>\<open>common/type_convert.go\<close>, \<^verbatim>\<open>math.go\<close>, \<^verbatim>\<open>cosmos/cosmos.go\<close>,
    \<^verbatim>\<open>significant_figures.go\<close>, and decimal text of the standard library. Shares are within one unit of the
    exact proportion up to 10^17 and never above the allocation; every quotient in range below 10^58.
  \<^item> Assets, Coins, Addresses: \<^verbatim>\<open>common/chain.go\<close>, \<^verbatim>\<open>asset.go\<close>, \<^verbatim>\<open>coin.go\<close>, \<^verbatim>\<open>gas.go\<close>, \<^verbatim>\<open>tx.go\<close>,
    \<^verbatim>\<open>address.go\<close>. Printed assets parse back, adding and subtracting coins is a round trip.
  \<^item> Pools, Swapper: \<^verbatim>\<open>types/type_pool.go\<close>, the formulas of \<^verbatim>\<open>swap_current.go\<close>. A swap never lowers the
    product of the depths; no panic below 2^85.
  \<^item> Nodes, TxOut, Voters, Vote_Records, Vaults: \<^verbatim>\<open>types/type_node_account.go\<close>, \<^verbatim>\<open>type_tx_out.go\<close>,
    \<^verbatim>\<open>type_observed_tx.go\<close>, the other voters and \<^verbatim>\<open>type_vault.go\<close>. Consensus needs two thirds of the
    nodes and two thirds give it; no vote counts twice, in every reachable voter.
  \<^item> Stores: the key-value store of \<^verbatim>\<open>keeper/v1\<close>. The locales \<open>record_store\<close> and \<open>erasable_store\<close> are the
    contract of a store of records with their own keys (what a read returns after a write, sums over all
    records); they are interpreted for liquidity providers and for trade accounts.
  \<^item> Share_Ledger: the abstract machine of a pot whose holders own shares; the locale \<open>share_ledger\<close> says
    that an implementation refines it and proves solvency once, for \<open>trade_pot\<close> and \<open>secured_pot\<close>.
  \<^item> Trade_Accounts: \<^verbatim>\<open>manager_trade_account_current.go\<close> with its records, store and deposit handler.
  \<^item> Constants, Keeper: \<^verbatim>\<open>constants/constants_v1.go\<close>; mimir values, configuration, halts, ragnarok heights,
    pools, network fees and liquidity providers in the store (\<^verbatim>\<open>keeper/v1/keeper_*.go\<close>).
  \<^item> Gas: \<^verbatim>\<open>manager_gas_current.go\<close>, limits, rates and the fee multiplier.
  \<^item> Liquidity, Liquidity_Claims, Pool_Units: \<^verbatim>\<open>handler_add_liquidity.go\<close> and \<^verbatim>\<open>withdraw.go\<close>. In every
    reachable store the claims of the providers add up to what their pools record; a withdrawal is paid
    by its pool; units are fair up to amounts of 10^24.
  \<^item> Streaming_Swaps, Swap_Queue: \<^verbatim>\<open>types/type_streaming_swap.go\<close>, \<^verbatim>\<open>msg_swap.go\<close>, the part of
    \<^verbatim>\<open>handler_swap.go\<close> that splits a swap, \<^verbatim>\<open>manager_swap_queue.go\<close> and \<^verbatim>\<open>manager_swap_queue_current.go\<close>.
    A stream accounts for its whole deposit whatever its sub-swaps do; the order of the queue.
  \<^item> Mimirs: \<^verbatim>\<open>types/type_mimir.go\<close>, \<^verbatim>\<open>handler_mimir.go\<close> and the stores they use. Economic values change
    by two thirds only and do not depend on map iteration; operational values do depend on it.
  \<^item> Bank, Secured_Assets: the transfers of \<^verbatim>\<open>keeper/v1/keeper.go\<close> over the bank module, with the locale
    \<open>bank_laws\<close>; \<^verbatim>\<open>manager_secured_asset_current.go\<close> and its handlers.
  \<^item> Anchors: \<^verbatim>\<open>keeper/v1/keeper_anchors.go\<close> and the fees of \<^verbatim>\<open>keeper.go\<close> that are priced in dollars.
  \<^item> Vault_Store: \<^verbatim>\<open>keeper/v1/keeper_vault.go\<close>, \<^verbatim>\<open>keeper_txout.go\<close> and the rotation of vaults of
    \<^verbatim>\<open>manager_network_current.go\<close>. The index of vaults is sound in every reachable store; after a rotation no
    two active vaults share a member; funds are never deleted.
  \<^item> Bonding: \<^verbatim>\<open>handler_bond.go\<close>, \<^verbatim>\<open>handler_unbond.go\<close>, \<^verbatim>\<open>handler_leave.go\<close> with bond providers, slash points and
    jail. The bond module always holds the bonds of all nodes; the fee of a mimir vote breaks this.
  \<^item> Memo_Types, Outbounds: \<^verbatim>\<open>memo/memo.go\<close>; of \<^verbatim>\<open>manager_txout_current.go\<close> the choice of vaults, the clout
    of swappers and the height of an outbound. No vault is overcommitted and no outbound comes too early.
  \<^item> Switch_Names: \<^verbatim>\<open>types/type_switchlyname.go\<close>, \<^verbatim>\<open>keeper/v1/keeper_switchlyname.go\<close>,
    \<^verbatim>\<open>handler_manage_thorname.go\<close>. Only its owner changes a name that has not expired.
  \<^item> Big_Float, Memos: decimal floats of the standard library cut to integers; the parser of \<^verbatim>\<open>memo/\<close>, every memo
    and its text. The memos of the network parse back; memos of long hashes do not.
  \<^item> Inbound: \<^verbatim>\<open>handler.go\<close> from an observed transaction to a validated message, and the messages of
    \<^verbatim>\<open>types/msg_*.go\<close>. The deepest pool is matched; withdrawals without a withdrawal asset are refused off
    Ethereum.
  \<^item> Upgrades: \<^verbatim>\<open>keeper/v1/keeper_upgrade.go\<close> and \<^verbatim>\<open>handler_upgrade.go\<close>. A plan needs two thirds of the active
    validators, in every reachable state.
  \<^item> Slashing: \<^verbatim>\<open>manager_slasher_current.go\<close>. A slash moves exactly what the bonds lose; the locale \<open>paying_bank\<close>
    extends \<open>bank_laws\<close> with a bank whose modules can pay.
  \<^item> Node_Versions: \<^verbatim>\<open>handler_version.go\<close>, \<^verbatim>\<open>keeper/v1/keeper_version.go\<close> and the version to join, with the locale
    \<open>semver_laws\<close> for the versions. The version to join is the greatest one with two thirds behind it.
  \<^item> Node_Admin: \<^verbatim>\<open>handler_ban.go\<close>, \<^verbatim>\<open>handler_set_node_keys.go\<close>, \<^verbatim>\<open>handler_ip_address.go\<close>, \<^verbatim>\<open>handler_maint.go\<close>,
    \<^verbatim>\<open>handler_node_pause_chain.go\<close> and the removal of low bonds. A ban needs two thirds and works once per address; the
    removal of low bonds keeps the rest backed when it succeeds, and pays again and again when it fails.

  \<^bold>\<open>Bounds.\<close> Hypotheses such as 10^24, 10^58, 2^61 or 2^85 are where a 256 bit product, a 315 bit decimal or
  a 64 bit count would otherwise fail; supplies on chain stay below 2^64.

  \<^bold>\<open>Not modelled, and why.\<close> The fees of outbounds, churn and block rewards (the network and validator managers) and
  the reaction to outbounds that were not signed work over iterators of every store at once; the stores they change are
  modelled, these passes over them are not. The advanced swap queue is disabled by default.
  Generated protobuf code, queries, events and command line tools only read or transport the state.
  Bifrost is network I/O with external daemons and third-party cryptography.
\<close>

end
